(* ===== verification/Prelude.thy ===== *)
theory Prelude
  imports Main "HOL-Library.AList" "HOL-Library.Sublist" "HOL-Library.Multiset"
begin

text \<open>
  Shared vocabulary of the development: how Go values are written in HOL, the
  fragments of Go's standard library the sources call, and the lemma collections
  the component theories share.

  \<^item> A Go \<open>string\<close> or \<open>[]byte\<close> is a \<open>string\<close> (a list of 8-bit characters), as in Go:
    length and indexing count bytes.
  \<^item> A Go \<open>error\<close> result is a sum: \<open>Inl e\<close> for a non-nil error, \<open>Inr v\<close> for the values.
  \<^item> A Go \<open>map\<close> is an association list with distinct keys (\<open>gomap_ok\<close>); reading is
    \<open>map_of\<close>, writing \<open>AList.update\<close>, deleting \<open>AList.delete\<close>, \<open>len\<close> is \<open>length\<close>.
    Go iterates a map in an unspecified order that may change from one loop to the
    next, so a loop over a map takes the sequence of visited entries as an argument
    \<open>it\<close>, with \<open>mset it = mset m\<close> as the only fact known about it.
  \<^item> Times and durations are \<open>int\<close> nanoseconds, as in \<open>time.Duration\<close>.
  \<^item> White space and letter case follow the ASCII fragment of Go's \<open>strings\<close> package.
\<close>

named_theorems go_string_simps \<open>evaluation of the modelled fragment of package strings\<close>
named_theorems gomap_simps \<open>reading a Go map after a write\<close>

type_synonym ('k, 'v) gomap = "('k \<times> 'v) list"

definition gomap_ok :: "('k, 'v) gomap \<Rightarrow> bool" where
  "gomap_ok m \<longleftrightarrow> distinct (map fst m)"

subsection \<open>Results\<close>

definition is_ok :: "'e + 'a \<Rightarrow> bool" where
  "is_ok r = (case r of Inl _ \<Rightarrow> False | Inr _ \<Rightarrow> True)"

lemma is_ok_simps [simp]: "is_ok (Inr v)" "\<not> is_ok (Inl e)"
  by (simp_all add: is_ok_def)

lemma is_ok_iff: "is_ok r \<longleftrightarrow> (\<exists>v. r = Inr v)"
  by (cases r) simp_all

subsection \<open>Package strings\<close>

definition HasPrefix :: "string \<Rightarrow> string \<Rightarrow> bool" where
  "HasPrefix s p \<longleftrightarrow> take (length p) s = p"

definition HasSuffix :: "string \<Rightarrow> string \<Rightarrow> bool" where
  "HasSuffix s p \<longleftrightarrow> length p \<le> length s \<and> drop (length s - length p) s = p"

definition TrimPrefix :: "string \<Rightarrow> string \<Rightarrow> string" where
  "TrimPrefix s p = (if HasPrefix s p then drop (length p) s else s)"

definition TrimSuffix :: "string \<Rightarrow> string \<Rightarrow> string" where
  "TrimSuffix s p = (if HasSuffix s p then take (length s - length p) s else s)"

definition is_space :: "char \<Rightarrow> bool" where
  "is_space c \<longleftrightarrow> c \<in> {CHR '' '', CHR 0x09, CHR 0x0A, CHR 0x0B, CHR 0x0C, CHR 0x0D}"

definition TrimSpace :: "string \<Rightarrow> string" where
  "TrimSpace s = rev (dropWhile is_space (rev (dropWhile is_space s)))"

definition lower_char :: "char \<Rightarrow> char" where
  "lower_char c = (let n = of_char c :: nat in if 65 \<le> n \<and> n \<le> 90 then char_of (n + 32) else c)"

definition upper_char :: "char \<Rightarrow> char" where
  "upper_char c = (let n = of_char c :: nat in if 97 \<le> n \<and> n \<le> 122 then char_of (n - 32) else c)"

definition ToLower :: "string \<Rightarrow> string" where
  "ToLower s = map lower_char s"

definition ToUpper :: "string \<Rightarrow> string" where
  "ToUpper s = map upper_char s"

text \<open>\<open>strings.Cut\<close> at a one-byte separator: the parts around its first occurrence.\<close>

definition CutByte :: "string \<Rightarrow> char \<Rightarrow> (string \<times> string) option" where
  "CutByte s c = (if c \<in> set s
     then Some (takeWhile (\<lambda>x. x \<noteq> c) s, tl (dropWhile (\<lambda>x. x \<noteq> c) s))
     else None)"

text \<open>\<open>strings.Split\<close> at a one-byte separator: always at least one piece.\<close>

fun SplitByte :: "string \<Rightarrow> char \<Rightarrow> string list" where
  "SplitByte [] c = [[]]"
| "SplitByte (x # xs) c =
     (if x = c then [] # SplitByte xs c
      else (case SplitByte xs c of [] \<Rightarrow> [[x]] | p # ps \<Rightarrow> (x # p) # ps))"

fun JoinStr :: "string list \<Rightarrow> string \<Rightarrow> string" where
  "JoinStr [] sep = []"
| "JoinStr [x] sep = x"
| "JoinStr (x # y # ys) sep = x @ sep @ JoinStr (y # ys) sep"

text \<open>\<open>strings.FieldsFunc\<close>: the maximal runs of bytes that are no separator.\<close>

function FieldsFunc :: "(char \<Rightarrow> bool) \<Rightarrow> string \<Rightarrow> string list" where
  "FieldsFunc f s =
     (let s' = dropWhile f s in
      if s' = [] then []
      else takeWhile (\<lambda>c. \<not> f c) s' # FieldsFunc f (dropWhile (\<lambda>c. \<not> f c) s'))"
  by pat_completeness auto
termination
proof (relation "measure (\<lambda>(f, s). length s)", goal_cases)
  case (2 f s s')
  then obtain c cs where c: "dropWhile f s = c # cs" by (cases "dropWhile f s") auto
  then have "\<not> f c" by (metis dropWhile_eq_Cons_conv)
  then have "length (dropWhile (\<lambda>c. \<not> f c) s') < length s'"
    using 2 c by (simp add: le_imp_less_Suc length_dropWhile_le)
  also have "\<dots> \<le> length s" using 2 by (simp add: length_dropWhile_le)
  finally show ?case by simp
qed simp

declare FieldsFunc.simps [simp del]

definition Fields :: "string \<Rightarrow> string list" where
  "Fields s = FieldsFunc is_space s"

text \<open>
  \<open>strings.ReplaceAll\<close> for a non-empty \<open>old\<close>: the non-overlapping occurrences from
  the left. (The sources never call it with an empty \<open>old\<close>.)
\<close>

function ReplaceAll :: "string \<Rightarrow> string \<Rightarrow> string \<Rightarrow> string" where
  "ReplaceAll s old new =
     (if s = [] \<or> old = [] then s
      else if HasPrefix s old then new @ ReplaceAll (drop (length old) s) old new
      else hd s # ReplaceAll (tl s) old new)"
  by pat_completeness auto
termination
  by (relation "measure (\<lambda>(s, old, new). length s)") auto

declare ReplaceAll.simps [simp del]

text \<open>Decimal digits of a natural number, as \<open>strconv\<close> and \<open>fmt\<close> print them.\<close>

definition digit_char :: "nat \<Rightarrow> char" where
  "digit_char d = char_of (48 + d)"

fun nat_str :: "nat \<Rightarrow> string" where
  "nat_str n = (if n < 10 then [digit_char n] else nat_str (n div 10) @ [digit_char (n mod 10)])"

declare nat_str.simps [simp del]

definition int_str :: "int \<Rightarrow> string" where
  "int_str i = (if i < 0 then CHR ''-'' # nat_str (nat (- i)) else nat_str (nat i))"

subsection \<open>Facts about strings\<close>

lemma HasPrefix_iff: "HasPrefix s p \<longleftrightarrow> (\<exists>r. s = p @ r)"
  unfolding HasPrefix_def
  by (metis append_eq_conv_conj append_take_drop_id)

lemma HasPrefix_prefix: "HasPrefix s p \<longleftrightarrow> prefix p s"
  by (auto simp: HasPrefix_iff prefix_def)

lemma HasPrefix_append [simp]: "HasPrefix (p @ r) p"
  by (simp add: HasPrefix_iff)

lemma HasPrefix_Nil [simp]: "HasPrefix s []"
  by (simp add: HasPrefix_def)

lemma HasPrefix_refl [simp]: "HasPrefix s s"
  by (simp add: HasPrefix_def)

lemma HasSuffix_iff: "HasSuffix s p \<longleftrightarrow> (\<exists>r. s = r @ p)"
proof
  assume "HasSuffix s p"
  then show "\<exists>r. s = r @ p"
    unfolding HasSuffix_def by (metis append_take_drop_id)
qed (auto simp: HasSuffix_def)

lemma TrimPrefix_append [simp]: "TrimPrefix (p @ r) p = r"
  by (simp add: TrimPrefix_def)

lemma SplitByte_not_Nil [simp]: "SplitByte s c \<noteq> []"
  by (cases s) (auto split: list.splits)

lemma JoinStr_SplitByte: "JoinStr (SplitByte s c) [c] = s"
proof (induction s)
  case Nil
  then show ?case by simp
next
  case (Cons x xs)
  obtain p ps where ps: "SplitByte xs c = p # ps"
    by (cases "SplitByte xs c") auto
  then show ?case using Cons by (cases ps) auto
qed

lemma SplitByte_no_sep: "c \<notin> set s \<Longrightarrow> SplitByte s c = [s]"
  by (induction s) auto

lemma SplitByte_append_sep:
  "c \<notin> set s \<Longrightarrow> SplitByte (s @ c # r) c = s # SplitByte r c"
  by (induction s) auto

lemma SplitByte_pieces: "p \<in> set (SplitByte s c) \<Longrightarrow> c \<notin> set p"
proof (induction s arbitrary: p)
  case Nil
  then show ?case by simp
next
  case (Cons x xs)
  obtain q qs where "SplitByte xs c = q # qs" by (cases "SplitByte xs c") auto
  with Cons show ?case by (auto split: if_splits)
qed

lemma FieldsFunc_nonempty: "w \<in> set (FieldsFunc f s) \<Longrightarrow> w \<noteq> [] \<and> (\<forall>c\<in>set w. \<not> f c)"
proof (induction f s rule: FieldsFunc.induct)
  case (1 f s)
  define s' where "s' = dropWhile f s"
  show ?case
  proof (cases "s' = []")
    case True
    with 1 show ?thesis by (simp add: s'_def FieldsFunc.simps [of f s])
  next
    case False
    then obtain c cs where c: "s' = c # cs" and nf: "\<not> f c"
      by (metis s'_def dropWhile_eq_Cons_conv neq_Nil_conv)
    from 1(2) False have "w = takeWhile (\<lambda>c. \<not> f c) s' \<or>
        w \<in> set (FieldsFunc f (dropWhile (\<lambda>c. \<not> f c) s'))"
      by (simp add: s'_def FieldsFunc.simps [of f s] Let_def split: if_splits)
    then show ?thesis
    proof
      assume "w = takeWhile (\<lambda>c. \<not> f c) s'"
      then show ?thesis using c nf set_takeWhileD by fastforce
    next
      assume "w \<in> set (FieldsFunc f (dropWhile (\<lambda>c. \<not> f c) s'))"
      then show ?thesis using 1(1) False s'_def by blast
    qed
  qed
qed

lemma of_lower_char:
  "of_char (lower_char c) = (let n = of_char c :: nat in if 65 \<le> n \<and> n \<le> 90 then n + 32 else n)"
  by (simp add: lower_char_def Let_def of_char_of)

lemma lower_char_idem [simp]: "lower_char (lower_char c) = lower_char c"
  by (simp add: lower_char_def Let_def of_char_of)

lemma ToLower_idem [simp]: "ToLower (ToLower s) = ToLower s"
  by (simp add: ToLower_def)

lemma ToLower_Nil [simp]: "ToLower [] = []"
  by (simp add: ToLower_def)

subsection \<open>Facts about Go maps\<close>

lemma gomap_ok_Nil [simp]: "gomap_ok []"
  by (simp add: gomap_ok_def)

lemma gomap_ok_update [simp]: "gomap_ok m \<Longrightarrow> gomap_ok (AList.update k v m)"
  by (simp add: gomap_ok_def distinct_update)

lemma gomap_ok_delete [simp]: "gomap_ok m \<Longrightarrow> gomap_ok (AList.delete k m)"
  by (simp add: gomap_ok_def distinct_delete)

lemma gomap_ok_filter [simp]: "gomap_ok m \<Longrightarrow> gomap_ok (filter P m)"
  by (simp add: gomap_ok_def distinct_map_filter)

lemma gomap_get_set [gomap_simps]:
  "map_of (AList.update k v m) k' = (if k' = k then Some v else map_of m k')"
  by (simp add: update_conv)

lemma gomap_get_del [gomap_simps]:
  "map_of (AList.delete k m) k' = (if k' = k then None else map_of m k')"
  by (simp add: delete_conv)

lemma gomap_get_filter:
  assumes "gomap_ok m"
  shows "map_of (filter (\<lambda>(k, v). P k v) m) k =
    (case map_of m k of None \<Rightarrow> None | Some v \<Rightarrow> if P k v then Some v else None)"
  using assms unfolding gomap_ok_def
proof (induction m)
  case Nil
  then show ?case by simp
next
  case (Cons a m)
  obtain k1 v1 where a: "a = (k1, v1)" by (cases a)
  show ?case
  proof (cases "k1 = k")
    case True
    with Cons.prems a have "map_of m k = None" by (auto simp: map_of_eq_None_iff)
    then have "map_of (filter (\<lambda>(k, v). P k v) m) k = None"
      using Cons a by simp
    then show ?thesis using a True by simp
  next
    case False
    then show ?thesis using Cons a by simp
  qed
qed

lemma length_update_present:
  "k \<in> fst ` set m \<Longrightarrow> length (AList.update k v m) = length m"
  by (induction m) auto

lemma length_update_absent:
  "k \<notin> fst ` set m \<Longrightarrow> length (AList.update k v m) = Suc (length m)"
  by (induction m) auto

lemma length_delete_le: "length (AList.delete k m) \<le> length m"
  by (simp add: AList.delete_eq)

lemma length_delete_present:
  assumes "gomap_ok m" and "k \<in> fst ` set m"
  shows "Suc (length (AList.delete k m)) = length m"
  using assms unfolding gomap_ok_def
proof (induction m)
  case Nil
  then show ?case by simp
next
  case (Cons a m)
  obtain k1 v1 where a: "a = (k1, v1)" by (cases a)
  show ?case
  proof (cases "k1 = k")
    case True
    with Cons.prems a have "k \<notin> fst ` set m" by simp
    then have "AList.delete k m = m" by (simp add: AList.delete_eq filter_id_conv) force
    then show ?thesis using a True by (simp add: AList.delete_eq)
  next
    case False
    then show ?thesis using Cons a by (auto simp: AList.delete_eq)
  qed
qed

text \<open>Any visiting order of a map reads like the map.\<close>

lemma map_of_any_order:
  assumes "gomap_ok m" and "mset it = mset m"
  shows "map_of it = map_of m" and "gomap_ok it"
proof -
  have "set it = set m" using assms(2) by (metis set_mset_mset)
  moreover have "mset (map fst it) = mset (map fst m)" using assms(2) by (simp add: mset_map)
  ultimately show "gomap_ok it" using assms(1) unfolding gomap_ok_def
    by (metis mset_eq_imp_distinct_iff)
  then show "map_of it = map_of m" using assms(1) \<open>set it = set m\<close>
    unfolding gomap_ok_def by (simp add: map_of_inject_set)
qed

text \<open>
  An iteration order for Go maps: a function that lists the entries of a map in some
  order. Nothing else is known about it, and every loop may use another one.
\<close>

definition map_order :: "(('k, 'v) gomap \<Rightarrow> ('k \<times> 'v) list) \<Rightarrow> bool" where
  "map_order ord \<longleftrightarrow> (\<forall>m. mset (ord m) = mset m)"

lemma map_order_set: "map_order ord \<Longrightarrow> set (ord m) = set m"
  unfolding map_order_def by (metis set_mset_mset)

lemma map_order_lookup: "map_order ord \<Longrightarrow> gomap_ok m \<Longrightarrow> map_of (ord m) = map_of m"
  unfolding map_order_def by (metis map_of_any_order(1))

lemma map_order_ok: "map_order ord \<Longrightarrow> gomap_ok m \<Longrightarrow> gomap_ok (ord m)"
  unfolding map_order_def by (metis map_of_any_order(2))

lemma map_order_id [simp]: "map_order (\<lambda>m. m)" and map_order_rev [simp]: "map_order rev"
  by (simp_all add: map_order_def)

subsection \<open>Signed 64-bit arithmetic\<close>

text \<open>Go's \<open>int64\<close> wraps around; \<open>int64 x\<close> is the value of the low 64 bits of \<open>x\<close>.\<close>

definition int64 :: "int \<Rightarrow> int" where
  "int64 x = (x + 2 ^ 63) mod 2 ^ 64 - 2 ^ 63"

lemma int64_id: "- (2 ^ 63) \<le> x \<Longrightarrow> x < 2 ^ 63 \<Longrightarrow> int64 x = x"
  by (simp add: int64_def)

lemma int64_range: "- (2 ^ 63) \<le> int64 x \<and> int64 x < 2 ^ 63"
  using pos_mod_bound [of "2 ^ 64" "x + 2 ^ 63"] pos_mod_sign [of "2 ^ 64" "x + 2 ^ 63"]
  by (auto simp: int64_def)

end
