(* ===== verification/Errs.thy ===== *)
theory Errs
  imports Prelude
begin

text \<open>
  Package \<open>pkg/errs\<close>: business error codes, the \<open>Error\<close> type with its cause chain,
  and the two tables that translate a code for the HTTP and the gRPC transport.

  Go compares errors by interface equality, which for the pointer types used here is
  pointer identity. Every error value therefore carries the address it was allocated
  at; the package-level sentinels are allocated once, at addresses 1, 2, \<open>...\<close>.
  \<open>ErrPtr\<close> is \<open>*errs.Error\<close>, \<open>ErrString\<close> is what \<open>errors.New\<close> returns, and
  \<open>FmtWrap\<close> is what \<open>fmt.Errorf\<close> returns for a format with \<open>%w\<close> verbs (the list
  holds the wrapped operands in order).
\<close>

named_theorems code_defs \<open>the numeric values of the error codes\<close>
named_theorems sentinel_defs \<open>the package-level error values\<close>

datatype goerror =
    ErrPtr (eaddr: nat) (Code: int) (Message: string) (cause: "goerror option")
  | ErrString nat string
  | FmtWrap nat string "goerror list"

subsection \<open>Codes\<close>

definition CodeOK :: int where [code_defs]: "CodeOK = 0"
definition CodeExit :: int where [code_defs]: "CodeExit = 1000"
definition CodeInvalid :: int where [code_defs]: "CodeInvalid = 1001"
definition CodeExists :: int where [code_defs]: "CodeExists = 1002"
definition CodeUnavailable :: int where [code_defs]: "CodeUnavailable = 1003"
definition CodeIncompatible :: int where [code_defs]: "CodeIncompatible = 1004"
definition CodeInternal :: int where [code_defs]: "CodeInternal = 1005"
definition CodeTooLarge :: int where [code_defs]: "CodeTooLarge = 1006"
definition CodeUnsupportedFormat :: int where [code_defs]: "CodeUnsupportedFormat = 1007"
definition CodeMalformed :: int where [code_defs]: "CodeMalformed = 1008"
definition CodeMissingField :: int where [code_defs]: "CodeMissingField = 1009"
definition CodeOutOfRange :: int where [code_defs]: "CodeOutOfRange = 1010"
definition CodeConflict :: int where [code_defs]: "CodeConflict = 1011"
definition CodeUnprocessable :: int where [code_defs]: "CodeUnprocessable = 1012"
definition CodeNotImplemented :: int where [code_defs]: "CodeNotImplemented = 1013"
definition CodeTimeout :: int where [code_defs]: "CodeTimeout = 2001"
definition CodeExpired :: int where [code_defs]: "CodeExpired = 2002"
definition CodeCanceled :: int where [code_defs]: "CodeCanceled = 2003"
definition CodeDeadlineExceeded :: int where [code_defs]: "CodeDeadlineExceeded = 2004"
definition CodeRateLimited :: int where [code_defs]: "CodeRateLimited = 3001"
definition CodeQuotaExceeded :: int where [code_defs]: "CodeQuotaExceeded = 3002"
definition CodeUnauthorized :: int where [code_defs]: "CodeUnauthorized = 4001"
definition CodeTokenExpired :: int where [code_defs]: "CodeTokenExpired = 4002"
definition CodePermissionDenied :: int where [code_defs]: "CodePermissionDenied = 4003"
definition CodeNotFound :: int where [code_defs]: "CodeNotFound = 4004"
definition CodeAccessDenied :: int where [code_defs]: "CodeAccessDenied = 4005"
definition CodeTokenInvalid :: int where [code_defs]: "CodeTokenInvalid = 4006"
definition CodePreconditionFailed :: int where [code_defs]: "CodePreconditionFailed = 4007"
definition CodeTooManyAttempts :: int where [code_defs]: "CodeTooManyAttempts = 4010"
definition CodeNetworkUnreachable :: int where [code_defs]: "CodeNetworkUnreachable = 5001"
definition CodeConnectionRefused :: int where [code_defs]: "CodeConnectionRefused = 5002"
definition CodeDatabaseError :: int where [code_defs]: "CodeDatabaseError = 6001"
definition CodeUniqueViolation :: int where [code_defs]: "CodeUniqueViolation = 6002"
definition CodeDeadlock :: int where [code_defs]: "CodeDeadlock = 6003"
definition CodeCacheError :: int where [code_defs]: "CodeCacheError = 6004"
definition CodeUpstreamError :: int where [code_defs]: "CodeUpstreamError = 8001"

subsection \<open>Constructors and accessors\<close>

fun Error :: "goerror \<Rightarrow> string" where
  "Error (ErrPtr a c m ca) = ''code: '' @ int_str c @ '', message: '' @ m"
| "Error (ErrString a m) = m"
| "Error (FmtWrap a m es) = m"

fun Unwrap :: "goerror \<Rightarrow> goerror list" where
  "Unwrap (ErrPtr a c m ca) = (case ca of None \<Rightarrow> [] | Some e \<Rightarrow> [e])"
| "Unwrap (ErrString a m) = []"
| "Unwrap (FmtWrap a m es) = es"

definition Wrap :: "nat \<Rightarrow> int \<Rightarrow> goerror \<Rightarrow> goerror" where
  "Wrap a code err = ErrPtr a code (Error err) (Some err)"

definition New :: "nat \<Rightarrow> int \<Rightarrow> string \<Rightarrow> goerror" where
  "New a code message = ErrPtr a code message None"

text \<open>\<open>Newf\<close> formats its message; \<open>sprintf\<close> is \<open>fmt.Sprintf\<close>.\<close>

definition Newf :: "(string \<Rightarrow> 'a list \<Rightarrow> string) \<Rightarrow> nat \<Rightarrow> int \<Rightarrow> string \<Rightarrow> 'a list \<Rightarrow> goerror" where
  "Newf sprintf a code message args = ErrPtr a code (sprintf message args) None"

definition ErrExit :: goerror where [sentinel_defs]: "ErrExit = New 1 CodeExit ''normal exit''"
definition ErrInvalid :: goerror where [sentinel_defs]: "ErrInvalid = New 2 CodeInvalid ''invalid payload''"
definition ErrExists :: goerror where [sentinel_defs]: "ErrExists = New 3 CodeExists ''already exists''"
definition ErrUnavailable :: goerror where [sentinel_defs]: "ErrUnavailable = New 4 CodeUnavailable ''service unavailable''"
definition ErrIncompatible :: goerror where [sentinel_defs]: "ErrIncompatible = New 5 CodeIncompatible ''type incompatible''"
definition ErrTooLarge :: goerror where [sentinel_defs]: "ErrTooLarge = New 6 CodeTooLarge ''payload too large''"
definition ErrUnsupportedFormat :: goerror where [sentinel_defs]: "ErrUnsupportedFormat = New 7 CodeUnsupportedFormat ''unsupported format''"
definition ErrMalformed :: goerror where [sentinel_defs]: "ErrMalformed = New 8 CodeMalformed ''malformed payload''"
definition ErrMissingField :: goerror where [sentinel_defs]: "ErrMissingField = New 9 CodeMissingField ''required field missing''"
definition ErrOutOfRange :: goerror where [sentinel_defs]: "ErrOutOfRange = New 10 CodeOutOfRange ''value out of range''"
definition ErrConflict :: goerror where [sentinel_defs]: "ErrConflict = New 11 CodeConflict ''resource conflict''"
definition ErrUnprocessable :: goerror where [sentinel_defs]: "ErrUnprocessable = New 12 CodeUnprocessable ''semantically unprocessable''"
definition ErrNotImplemented :: goerror where [sentinel_defs]: "ErrNotImplemented = New 13 CodeNotImplemented ''not implemented''"
definition ErrTimeout :: goerror where [sentinel_defs]: "ErrTimeout = New 14 CodeTimeout ''timeout''"
definition ErrExpired :: goerror where [sentinel_defs]: "ErrExpired = New 15 CodeExpired ''expired''"
definition ErrCanceled :: goerror where [sentinel_defs]: "ErrCanceled = New 16 CodeCanceled ''canceled''"
definition ErrDeadlineExceeded :: goerror where [sentinel_defs]: "ErrDeadlineExceeded = New 17 CodeDeadlineExceeded ''deadline exceeded''"
definition ErrRateLimited :: goerror where [sentinel_defs]: "ErrRateLimited = New 18 CodeRateLimited ''rate limited''"
definition ErrQuotaExceeded :: goerror where [sentinel_defs]: "ErrQuotaExceeded = New 19 CodeQuotaExceeded ''quota exceeded''"
definition ErrNotFound :: goerror where [sentinel_defs]: "ErrNotFound = New 20 CodeNotFound ''not found''"
definition ErrAccessDenied :: goerror where [sentinel_defs]: "ErrAccessDenied = New 21 CodeAccessDenied ''access denied''"
definition ErrPermissionDenied :: goerror where [sentinel_defs]: "ErrPermissionDenied = New 22 CodePermissionDenied ''permission denied''"
definition ErrTokenExpired :: goerror where [sentinel_defs]: "ErrTokenExpired = New 23 CodeTokenExpired ''token expired''"
definition ErrUnauthorized :: goerror where [sentinel_defs]: "ErrUnauthorized = New 24 CodeUnauthorized ''unauthorized''"
definition ErrTokenInvalid :: goerror where [sentinel_defs]: "ErrTokenInvalid = New 25 CodeTokenInvalid ''token invalid''"
definition ErrPreconditionFailed :: goerror where [sentinel_defs]: "ErrPreconditionFailed = New 26 CodePreconditionFailed ''precondition failed''"
definition ErrTooManyAttempts :: goerror where [sentinel_defs]: "ErrTooManyAttempts = New 27 CodeTooManyAttempts ''too many attempts''"
definition ErrNetworkUnreachable :: goerror where [sentinel_defs]: "ErrNetworkUnreachable = New 28 CodeNetworkUnreachable ''network unreachable''"
definition ErrConnectionRefused :: goerror where [sentinel_defs]: "ErrConnectionRefused = New 29 CodeConnectionRefused ''connection refused''"
definition ErrDatabaseError :: goerror where [sentinel_defs]: "ErrDatabaseError = New 30 CodeDatabaseError ''database error''"
definition ErrUniqueViolation :: goerror where [sentinel_defs]: "ErrUniqueViolation = New 31 CodeUniqueViolation ''unique key violation''"
definition ErrDeadlock :: goerror where [sentinel_defs]: "ErrDeadlock = New 32 CodeDeadlock ''deadlock''"
definition ErrCacheError :: goerror where [sentinel_defs]: "ErrCacheError = New 33 CodeCacheError ''cache error''"
definition ErrUpstreamError :: goerror where [sentinel_defs]: "ErrUpstreamError = New 34 CodeUpstreamError ''upstream error''"

subsection \<open>Searching the cause chain\<close>

text \<open>
  \<open>errors.Is\<close> and \<open>errors.As\<close> walk the tree of wrapped errors in pre-order. The types
  involved define no \<open>Is\<close> or \<open>As\<close> method of their own.
\<close>

fun Is :: "goerror \<Rightarrow> goerror \<Rightarrow> bool" where
  "Is (ErrPtr a c m ca) target =
     (ErrPtr a c m ca = target \<or> (case ca of None \<Rightarrow> False | Some e \<Rightarrow> Is e target))"
| "Is (ErrString a m) target = (ErrString a m = target)"
| "Is (FmtWrap a m es) target = (FmtWrap a m es = target \<or> (\<exists>e\<in>set es. Is e target))"

fun AsError :: "goerror \<Rightarrow> goerror option"
  and AsError_list :: "goerror list \<Rightarrow> goerror option" where
  "AsError (ErrPtr a c m ca) = Some (ErrPtr a c m ca)"
| "AsError (ErrString a m) = None"
| "AsError (FmtWrap a m es) = AsError_list es"
| "AsError_list [] = None"
| "AsError_list (e # es) = (case AsError e of Some x \<Rightarrow> Some x | None \<Rightarrow> AsError_list es)"

definition IsCode :: "goerror \<Rightarrow> int \<Rightarrow> bool" where
  "IsCode err code = (case AsError err of Some ae \<Rightarrow> Code ae = code | None \<Rightarrow> False)"

subsection \<open>Transport status tables\<close>

definition HTTPStatus :: "int \<Rightarrow> int" where
  "HTTPStatus c =
     (if c = CodeNotFound then 404
      else if c \<in> set [CodePermissionDenied, CodeAccessDenied] then 403
      else if c \<in> set [CodeTokenExpired, CodeUnauthorized, CodeTokenInvalid] then 401
      else if c \<in> set [CodeInvalid, CodeMalformed, CodeMissingField, CodeOutOfRange] then 400
      else if c = CodeTooLarge then 413
      else if c = CodeUnsupportedFormat then 415
      else if c \<in> set [CodeExists, CodeConflict, CodeUniqueViolation] then 409
      else if c = CodeUnprocessable then 422
      else if c = CodePreconditionFailed then 412
      else if c \<in> set [CodeRateLimited, CodeQuotaExceeded, CodeTooManyAttempts] then 429
      else if c \<in> set [CodeTimeout, CodeDeadlineExceeded] then 504
      else if c = CodeCanceled then 499
      else if c \<in> set [CodeUnavailable, CodeDatabaseError, CodeCacheError, CodeDeadlock, CodeUpstreamError] then 503
      else if c = CodeNotImplemented then 501
      else 500)"

definition grpcCanceled :: int where [code_defs]: "grpcCanceled = 1"
definition grpcUnknown :: int where [code_defs]: "grpcUnknown = 2"
definition grpcInvalidArgument :: int where [code_defs]: "grpcInvalidArgument = 3"
definition grpcDeadlineExceeded :: int where [code_defs]: "grpcDeadlineExceeded = 4"
definition grpcNotFound :: int where [code_defs]: "grpcNotFound = 5"
definition grpcAlreadyExists :: int where [code_defs]: "grpcAlreadyExists = 6"
definition grpcPermissionDenied :: int where [code_defs]: "grpcPermissionDenied = 7"
definition grpcResourceExhausted :: int where [code_defs]: "grpcResourceExhausted = 8"
definition grpcFailedPrecondition :: int where [code_defs]: "grpcFailedPrecondition = 9"
definition grpcAborted :: int where [code_defs]: "grpcAborted = 10"
definition grpcUnimplemented :: int where [code_defs]: "grpcUnimplemented = 12"
definition grpcInternal :: int where [code_defs]: "grpcInternal = 13"
definition grpcUnavailable :: int where [code_defs]: "grpcUnavailable = 14"
definition grpcUnauthenticated :: int where [code_defs]: "grpcUnauthenticated = 16"

definition GRPCStatus :: "int \<Rightarrow> int" where
  "GRPCStatus c =
     (if c = CodeNotFound then grpcNotFound
      else if c \<in> set [CodeExists, CodeUniqueViolation] then grpcAlreadyExists
      else if c \<in> set [CodePermissionDenied, CodeAccessDenied] then grpcPermissionDenied
      else if c \<in> set [CodeInvalid, CodeMalformed, CodeMissingField, CodeOutOfRange, CodeTooLarge, CodeUnsupportedFormat, CodeUnprocessable] then grpcInvalidArgument
      else if c \<in> set [CodeConflict, CodeDeadlock] then grpcAborted
      else if c = CodePreconditionFailed then grpcFailedPrecondition
      else if c \<in> set [CodeRateLimited, CodeQuotaExceeded, CodeTooManyAttempts] then grpcResourceExhausted
      else if c \<in> set [CodeTimeout, CodeDeadlineExceeded] then grpcDeadlineExceeded
      else if c = CodeCanceled then grpcCanceled
      else if c \<in> set [CodeUnavailable, CodeDatabaseError, CodeCacheError, CodeUpstreamError] then grpcUnavailable
      else if c = CodeNotImplemented then grpcUnimplemented
      else if c \<in> set [CodeTokenExpired, CodeUnauthorized, CodeTokenInvalid] then grpcUnauthenticated
      else if c = CodeInternal then grpcInternal
      else grpcUnknown)"

subsection \<open>Facts\<close>

lemma Is_refl [simp]: "Is e e"
  by (cases e) auto

lemma Is_Unwrap: "e' \<in> set (Unwrap e) \<Longrightarrow> Is e' t \<Longrightarrow> Is e t"
  by (cases e) (auto split: option.splits)

text \<open>A \<open>New\<close> value wraps nothing: it matches itself only.\<close>

lemma Is_New [simp]: "Is (New a c m) t \<longleftrightarrow> New a c m = t"
  by (simp add: New_def)

lemma Is_Wrap: "Is (Wrap a c e) t \<longleftrightarrow> Wrap a c e = t \<or> Is e t"
  by (simp add: Wrap_def)

lemma AsError_Wrap [simp]: "AsError (Wrap a c e) = Some (Wrap a c e)"
  by (simp add: Wrap_def)

lemma Code_constructors [simp]:
  "Code (New a c m) = c" "Code (Wrap a c e) = c" "Code (Newf f a c m xs) = c"
  by (simp_all add: New_def Wrap_def Newf_def)

lemma IsCode_constructors [simp]:
  "IsCode (New a c m) c' \<longleftrightarrow> c = c'"
  "IsCode (Wrap a c e) c' \<longleftrightarrow> c = c'"
  "IsCode (Newf f a c m xs) c' \<longleftrightarrow> c = c'"
  by (simp_all add: IsCode_def New_def Wrap_def Newf_def)

text \<open>
  The pointers a chain may reach: an error allocated at a fresh address cannot be a
  target that existed before.
\<close>

fun addr :: "goerror \<Rightarrow> nat" where
  "addr (ErrPtr a c m ca) = a"
| "addr (ErrString a m) = a"
| "addr (FmtWrap a m es) = a"

lemma Is_Wrap_fresh: "a \<noteq> addr t \<Longrightarrow> Is (Wrap a c e) t \<longleftrightarrow> Is e t"
  by (auto simp: Is_Wrap Wrap_def)

lemma addr_New [simp]: "addr (New a c m) = a"
  by (simp add: New_def)

section \<open>Properties\<close>

text \<open>
  The HTTP and the gRPC status of an error code agree on every class of failure a
  client tells apart (authentication, permission, absence, precondition, exhaustion,
  deadline, cancellation, missing implementation), for every code, known or not; no code
  maps to a success status.
\<close>

theorem status_tables_agree:
  "(HTTPStatus c = 401 \<longleftrightarrow> GRPCStatus c = grpcUnauthenticated) \<and>
   (HTTPStatus c = 403 \<longleftrightarrow> GRPCStatus c = grpcPermissionDenied) \<and>
   (HTTPStatus c = 404 \<longleftrightarrow> GRPCStatus c = grpcNotFound) \<and>
   (HTTPStatus c = 412 \<longleftrightarrow> GRPCStatus c = grpcFailedPrecondition) \<and>
   (HTTPStatus c = 429 \<longleftrightarrow> GRPCStatus c = grpcResourceExhausted) \<and>
   (HTTPStatus c = 504 \<longleftrightarrow> GRPCStatus c = grpcDeadlineExceeded) \<and>
   (HTTPStatus c = 499 \<longleftrightarrow> GRPCStatus c = grpcCanceled) \<and>
   (HTTPStatus c = 501 \<longleftrightarrow> GRPCStatus c = grpcUnimplemented) \<and>
   400 \<le> HTTPStatus c \<and> GRPCStatus c \<noteq> 0"
  by (simp add: HTTPStatus_def GRPCStatus_def code_defs)

text \<open>
  Wrapping an error under a code keeps its identity: \<open>errors.Is\<close> finds through any
  number of wrappers exactly the targets it found before (targets other than the new
  wrappers), while \<open>IsCode\<close> sees the outermost code.
\<close>

theorem wrap_keeps_identity:
  assumes "\<forall>(a, c)\<in>set ws. a \<noteq> addr t"
  shows "(Is (foldr (\<lambda>(a, c) e. Wrap a c e) ws e) t \<longleftrightarrow> Is e t) \<and>
    IsCode (Wrap a c (foldr (\<lambda>(a, c) e. Wrap a c e) ws e)) c' = (c = c')"
proof -
  have "Is (foldr (\<lambda>(a, c) e. Wrap a c e) ws e) t \<longleftrightarrow> Is e t"
    using assms by (induction ws) (auto simp: Is_Wrap_fresh)
  then show ?thesis by simp
qed

theorem wrap_keeps_identity_witness:
  "Is (Wrap 901 CodeInternal (Wrap 900 CodeNotFound ErrTimeout)) ErrTimeout \<and>
   IsCode (Wrap 902 CodeInvalid (Wrap 901 CodeInternal (Wrap 900 CodeNotFound ErrTimeout))) CodeInvalid"
  using wrap_keeps_identity [of "[(901, CodeInternal), (900, CodeNotFound)]" ErrTimeout ErrTimeout 902 CodeInvalid CodeInvalid]
  by (simp add: ErrTimeout_def)

end
