(* ===== verification/Metadata.thy ===== *)
theory Metadata
  imports Prelude
begin

text \<open>
  Package \<open>metadata\<close>: request headers carried by a context.

  A \<open>*Metadata\<close> is a pointer, and \<open>Set\<close>, \<open>Delete\<close> and the tee registrations mutate
  the pointed-to value in place, also when the caller drops the returned context
  (\<open>publishRetryAfter\<close> of \<open>middleware/auth\<close> relies on it). The model therefore has an
  explicit store: a heap of \<open>Metadata\<close> values, a pointer being an index into it, and a
  context holds the pointer stored under \<open>metadataKey\<close>, if any.

  A tee writer is modelled by the sequence of \<open>Set\<close> calls it has received; a tee
  reader by its \<open>Get\<close> function.
\<close>

record Metadata =
  teeReader :: "(string \<Rightarrow> string) option"
  teeWriter :: "(string \<times> string) list option"
  variables :: "(string, string) gomap"

type_synonym md_heap = "Metadata list"

record ctx =
  metadataKey :: "nat option"

definition RequestID :: string where "RequestID = ''X-AEUS-Request-ID''"
definition RequestPath :: string where "RequestPath = ''X-AEUS-Request-Path''"
definition RequestRoute :: string where "RequestRoute = ''X-AEUS-Request-Route''"
definition RequestMethod :: string where "RequestMethod = ''X-AEUS-Request-Method''"
definition RequestProtocol :: string where "RequestProtocol = ''X-AEUS-Request-Protocol''"
definition RequestClientIP :: string where "RequestClientIP = ''X-AEUS-Request-Client-IP''"

lemmas request_keys = RequestID_def RequestPath_def RequestRoute_def RequestMethod_def
  RequestProtocol_def RequestClientIP_def

subsection \<open>Methods of *Metadata\<close>

definition md_New :: Metadata where
  "md_New = \<lparr>teeReader = None, teeWriter = None, variables = []\<rparr>"

definition canonicalMetadataKey :: "string \<Rightarrow> string" where
  "canonicalMetadataKey key = ToLower key"

definition set_TeeReader :: "(string \<Rightarrow> string) \<Rightarrow> Metadata \<Rightarrow> Metadata" where
  "set_TeeReader r m = m\<lparr>teeReader := Some r\<rparr>"

definition set_TeeWriter :: "(string \<times> string) list \<Rightarrow> Metadata \<Rightarrow> Metadata" where
  "set_TeeWriter w m = m\<lparr>teeWriter := Some w\<rparr>"

definition tee_write :: "string \<Rightarrow> string \<Rightarrow> Metadata \<Rightarrow> Metadata" where
  "tee_write key val m =
     (case teeWriter m of None \<Rightarrow> m | Some w \<Rightarrow> m\<lparr>teeWriter := Some (w @ [(key, val)])\<rparr>)"

definition md_Get :: "Metadata \<Rightarrow> string \<Rightarrow> string \<times> bool" where
  "md_Get m key0 =
     (let key = canonicalMetadataKey key0 in
      case map_of (variables m) key of
        Some val \<Rightarrow> (val, True)
      | None \<Rightarrow> (case teeReader m of
          None \<Rightarrow> ('''', False)
        | Some r \<Rightarrow> (let val = r key in (val, val \<noteq> ''''))))"

definition md_Has :: "Metadata \<Rightarrow> string \<Rightarrow> bool" where
  "md_Has m key = snd (md_Get m key)"

definition md_Set :: "string \<Rightarrow> string \<Rightarrow> Metadata \<Rightarrow> Metadata" where
  "md_Set key0 val m =
     (let key = canonicalMetadataKey key0;
          m' = m\<lparr>variables := AList.update key val (variables m)\<rparr>
      in tee_write key val m')"

definition md_Delete :: "string \<Rightarrow> Metadata \<Rightarrow> Metadata" where
  "md_Delete key0 m =
     (let key = canonicalMetadataKey key0;
          m' = m\<lparr>variables := AList.delete key (variables m)\<rparr>
      in tee_write key '''' m')"

text \<open>The keys a full run of the iterator yields, for a visiting order \<open>it\<close>.\<close>

definition md_Keys :: "(string \<times> string) list \<Rightarrow> string list" where
  "md_Keys it = map fst it"

subsection \<open>Functions on contexts\<close>

text \<open>
  \<open>FromContext\<close> returns the stored pointer, or a pointer to a new value that no
  context refers to.
\<close>

definition FromContext :: "md_heap \<Rightarrow> 'a ctx_scheme \<Rightarrow> md_heap \<times> nat" where
  "FromContext h c =
     (case metadataKey c of Some p \<Rightarrow> (h, p) | None \<Rightarrow> (h @ [md_New], length h))"

definition NewContext :: "'a ctx_scheme \<Rightarrow> nat \<Rightarrow> 'a ctx_scheme" where
  "NewContext c p = c\<lparr>metadataKey := Some p\<rparr>"

definition ctx_Set :: "md_heap \<Rightarrow> 'a ctx_scheme \<Rightarrow> string \<Rightarrow> string \<Rightarrow> md_heap \<times> 'a ctx_scheme" where
  "ctx_Set h c k0 v =
     (let (h1, p) = FromContext h c;
          k = canonicalMetadataKey k0;
          h2 = (if v = '''' then h1[p := md_Delete k (h1 ! p)] else h1[p := md_Set k v (h1 ! p)])
      in (h2, c\<lparr>metadataKey := Some p\<rparr>))"

definition ctx_Delete :: "md_heap \<Rightarrow> 'a ctx_scheme \<Rightarrow> string \<Rightarrow> md_heap \<times> 'a ctx_scheme" where
  "ctx_Delete h c k = ctx_Set h c k ''''"

definition ctx_Get :: "md_heap \<Rightarrow> 'a ctx_scheme \<Rightarrow> string \<Rightarrow> string \<times> bool" where
  "ctx_Get h c key0 =
     (let (h1, p) = FromContext h c; key = canonicalMetadataKey key0 in md_Get (h1 ! p) key)"

text \<open>
  The loop of \<open>MergeContext\<close> over the patch: an empty value deletes, a present key is
  kept unless \<open>overwrite\<close> is set.
\<close>

fun merge_loop :: "bool \<Rightarrow> (string \<times> string) list \<Rightarrow> (string, string) gomap \<Rightarrow> (string, string) gomap" where
  "merge_loop overwrite [] m = m"
| "merge_loop overwrite ((k, v) # it) m =
     merge_loop overwrite it
       (if v = '''' then AList.delete k m
        else if map_of m k \<noteq> None \<and> \<not> overwrite then m
        else AList.update k v m)"

text \<open>
  \<open>itc\<close> and \<open>itp\<close> are the orders in which \<open>maps.Copy\<close> and the loop visit the two maps.
  A nil patch has no entries to visit (\<open>itp = []\<close>).
\<close>

definition MergeContext ::
  "md_heap \<Rightarrow> 'a ctx_scheme \<Rightarrow> (string \<times> string) list \<Rightarrow> (string \<times> string) list \<Rightarrow> bool
     \<Rightarrow> md_heap \<times> 'a ctx_scheme" where
  "MergeContext h c itc itp overwrite =
     (let copied = foldl (\<lambda>m (k, v). AList.update k v m) [] itc;
          cmd = md_New\<lparr>variables := merge_loop overwrite itp copied\<rparr>;
          (h1, _) = FromContext h c
      in (h1 @ [cmd], c\<lparr>metadataKey := Some (length h1)\<rparr>))"

subsection \<open>Invariant: keys are canonical and distinct\<close>

definition md_ok :: "Metadata \<Rightarrow> bool" where
  "md_ok m \<longleftrightarrow> gomap_ok (variables m) \<and> (\<forall>k\<in>fst ` set (variables m). ToLower k = k)"

definition heap_ok :: "md_heap \<Rightarrow> bool" where
  "heap_ok h \<longleftrightarrow> (\<forall>m\<in>set h. md_ok m)"

definition ctx_ok :: "md_heap \<Rightarrow> 'a ctx_scheme \<Rightarrow> bool" where
  "ctx_ok h c \<longleftrightarrow> (case metadataKey c of None \<Rightarrow> True | Some p \<Rightarrow> p < length h)"

lemma variables_tee_write [simp]: "variables (tee_write k v m) = variables m"
  by (simp add: tee_write_def split: option.splits)

lemma teeReader_tee_write [simp]: "teeReader (tee_write k v m) = teeReader m"
  by (simp add: tee_write_def split: option.splits)

lemma md_ok_New [simp]: "md_ok md_New"
  by (simp add: md_ok_def md_New_def)

lemma md_ok_Set [simp]: "md_ok m \<Longrightarrow> md_ok (md_Set k v m)"
  by (auto simp: md_ok_def md_Set_def Let_def canonicalMetadataKey_def dom_update)

lemma md_ok_Delete [simp]: "md_ok m \<Longrightarrow> md_ok (md_Delete k m)"
  by (auto simp: md_ok_def md_Delete_def Let_def AList.delete_eq)

lemma md_Get_Set:
  "md_Get (md_Set k v m) k' =
     (if ToLower k' = ToLower k then (v, True) else md_Get m k')"
  by (simp add: md_Get_def md_Set_def Let_def canonicalMetadataKey_def gomap_simps
      split: option.splits)

lemma md_Get_Delete:
  "md_Get (md_Delete k m) k' =
     (if ToLower k' = ToLower k
      then (case teeReader m of None \<Rightarrow> ('''', False)
            | Some r \<Rightarrow> (r (ToLower k), r (ToLower k) \<noteq> ''''))
      else md_Get m k')"
  by (simp add: md_Get_def md_Delete_def Let_def canonicalMetadataKey_def gomap_simps
      split: option.splits)

lemma md_Get_lower [simp]: "md_Get m (ToLower k) = md_Get m k"
  by (simp add: md_Get_def canonicalMetadataKey_def)

lemma md_Set_lower [simp]: "md_Set (ToLower k) v m = md_Set k v m"
  by (simp add: md_Set_def canonicalMetadataKey_def)

lemma md_Delete_lower [simp]: "md_Delete (ToLower k) m = md_Delete k m"
  by (simp add: md_Delete_def canonicalMetadataKey_def)

subsection \<open>Contexts\<close>

lemma ctx_Get_stored: "metadataKey c = Some p \<Longrightarrow> ctx_Get h c k = md_Get (h ! p) k"
  by (simp add: ctx_Get_def FromContext_def canonicalMetadataKey_def)

lemma ctx_Get_none: "metadataKey c = None \<Longrightarrow> ctx_Get h c k = ('''', False)"
  by (simp add: ctx_Get_def FromContext_def md_Get_def md_New_def)

lemma ctx_Set_stored:
  "metadataKey c = Some p \<Longrightarrow>
   ctx_Set h c k v = (h[p := if v = '''' then md_Delete k (h ! p) else md_Set k v (h ! p)], c)"
  by (simp add: ctx_Set_def FromContext_def canonicalMetadataKey_def)

lemma heap_ok_update: "heap_ok h \<Longrightarrow> md_ok m \<Longrightarrow> heap_ok (h[p := m])"
  using set_update_subset_insert [of h p m] by (auto simp: heap_ok_def)

lemma heap_ok_snoc [simp]: "heap_ok (h @ [m]) \<longleftrightarrow> heap_ok h \<and> md_ok m"
  by (auto simp: heap_ok_def)

lemma heap_ok_nth: "heap_ok h \<Longrightarrow> p < length h \<Longrightarrow> md_ok (h ! p)"
  by (simp add: heap_ok_def)

lemma ctx_Set_ok:
  assumes "heap_ok h" and "ctx_ok h c" and "ctx_Set h c k v = (h', c')"
  shows "heap_ok h' \<and> ctx_ok h' c'"
proof (cases "metadataKey c")
  case None
  with assms show ?thesis
    by (auto simp: ctx_Set_def FromContext_def ctx_ok_def Let_def intro!: heap_ok_update)
next
  case (Some p)
  then have "p < length h" using assms(2) by (simp add: ctx_ok_def)
  with Some assms show ?thesis
    by (auto simp: ctx_Set_stored ctx_ok_def intro!: heap_ok_update md_ok_Delete md_ok_Set heap_ok_nth)
qed

subsection \<open>Merging\<close>

lemma merge_loop_notin:
  "k \<notin> fst ` set it \<Longrightarrow> map_of (merge_loop ov it m) k = map_of m k"
  by (induction it arbitrary: m) (auto simp: gomap_simps)

lemma merge_loop_lookup:
  assumes "gomap_ok it"
  shows "map_of (merge_loop ov it m) k =
    (case map_of it k of None \<Rightarrow> map_of m k
     | Some v \<Rightarrow> if v = '''' then None
                else if map_of m k \<noteq> None \<and> \<not> ov then map_of m k else Some v)"
  using assms
proof (induction it arbitrary: m)
  case Nil
  then show ?case by simp
next
  case (Cons a it)
  obtain k1 v1 where a: "a = (k1, v1)" by (cases a)
  from Cons.prems a have ok: "gomap_ok it" and "k1 \<notin> fst ` set it"
    by (simp_all add: gomap_ok_def)
  show ?case
  proof (cases "k1 = k")
    case True
    then have "k \<notin> fst ` set it" using \<open>k1 \<notin> fst ` set it\<close> by simp
    then show ?thesis using a True by (simp add: merge_loop_notin gomap_simps)
  next
    case False
    then show ?thesis using a ok by (simp add: Cons.IH gomap_simps split: option.splits)
  qed
qed

lemma copy_lookup:
  "map_of (foldl (\<lambda>m (k, v). AList.update k v m) m0 it) k =
     (case map_of (rev it) k of None \<Rightarrow> map_of m0 k | Some v \<Rightarrow> Some v)"
  by (induction it arbitrary: m0) (auto simp: gomap_simps map_add_def split: option.splits)

section \<open>Properties\<close>

lemma ctx_Get_fresh: "metadataKey c = None \<Longrightarrow> ctx_Get h c k = md_Get md_New k"
  by (simp add: ctx_Get_none md_Get_def md_New_def)

text \<open>
  Setting and deleting request metadata through a context. After \<open>Set\<close> with a
  non-empty value every spelling of the key (in upper or lower case) reads the value and
  every other key reads what it read before, whether or not the context carried
  metadata; the keys stay canonical and distinct.
\<close>

theorem metadata_set_get:
  assumes "heap_ok h" and "ctx_ok h c" and "v \<noteq> ''''" and "ctx_Set h c k v = (h', c')"
  shows "ctx_Get h' c' k' = (if ToLower k' = ToLower k then (v, True) else ctx_Get h c k') \<and>
    heap_ok h' \<and> ctx_ok h' c'"
proof (cases "metadataKey c")
  case None
  then have "h' = h @ [md_Set k v md_New]" "metadataKey c' = Some (length h)"
    using assms(3,4) by (auto simp: ctx_Set_def FromContext_def canonicalMetadataKey_def Let_def list_update_append)
  then show ?thesis using ctx_Set_ok [OF assms(1,2,4)] None
    by (simp add: ctx_Get_stored ctx_Get_fresh md_Get_Set)
next
  case (Some p)
  then have "p < length h" using assms(2) by (simp add: ctx_ok_def)
  moreover have "h' = h[p := md_Set k v (h ! p)]" "c' = c"
    using assms(3,4) ctx_Set_stored [OF Some, of h k v] by auto
  ultimately show ?thesis using ctx_Set_ok [OF assms(1,2,4)] Some
    by (simp add: ctx_Get_stored md_Get_Set)
qed

theorem metadata_set_get_witness:
  "ctx_Get (fst (ctx_Set [] \<lparr>metadataKey = None\<rparr> ''Retry-After'' ''5'')) \<lparr>metadataKey = Some 0\<rparr> ''retry-after''
     = (''5'', True)"
proof -
  have e: "ctx_Set [] \<lparr>metadataKey = None\<rparr> ''Retry-After'' ''5'' =
      (fst (ctx_Set [] \<lparr>metadataKey = None\<rparr> ''Retry-After'' ''5''), \<lparr>metadataKey = Some 0\<rparr>)"
    by (simp add: ctx_Set_def FromContext_def Let_def)
  have "ToLower ''retry-after'' = ToLower ''Retry-After''" by code_simp
  then show ?thesis using metadata_set_get [OF _ _ _ e, of "''retry-after''"]
    by (simp add: heap_ok_def ctx_ok_def)
qed

lemma copied_lookup:
  assumes "gomap_ok m" and "mset it = mset m"
  shows "map_of (foldl (\<lambda>m (k, v). AList.update k v m) [] it) = map_of m"
proof
  fix k
  have "mset (rev it) = mset m" using assms(2) by simp
  then show "map_of (foldl (\<lambda>m (k, v). AList.update k v m) [] it) k = map_of m k"
    using map_of_any_order(1) [OF assms(1), of "rev it"] by (simp add: copy_lookup split: option.splits)
qed

text \<open>
  \<open>MergeContext\<close> builds the merged metadata in a new object. Whatever the orders in
  which the two maps are visited, an empty patch value deletes the key, a present key is
  kept unless \<open>overwrite\<close> is set, any other patch entry is taken over, and no metadata
  object that existed before is changed.
\<close>

theorem merge_context_correct:
  assumes "metadataKey c = Some p" and "p < length h" and "gomap_ok (variables (h ! p))"
    and "mset itc = mset (variables (h ! p))" and "gomap_ok patch" and "mset itp = mset patch"
    and "MergeContext h c itc itp overwrite = (h', c')"
  shows "metadataKey c' = Some (length h) \<and> take (length h) h' = h \<and>
    map_of (variables (h' ! length h)) k =
      (case map_of patch k of
         None \<Rightarrow> map_of (variables (h ! p)) k
       | Some v \<Rightarrow> if v = '''' then None
                  else if map_of (variables (h ! p)) k \<noteq> None \<and> \<not> overwrite
                       then map_of (variables (h ! p)) k
                  else Some v)"
proof -
  let ?m = "foldl (\<lambda>m (k, v). AList.update k v m) [] itc"
  have h': "h' = h @ [md_New\<lparr>variables := merge_loop overwrite itp ?m\<rparr>]" "metadataKey c' = Some (length h)"
    using assms(1,7) by (auto simp: MergeContext_def FromContext_def Let_def)
  have "gomap_ok itp" "map_of itp = map_of patch"
    using map_of_any_order [OF assms(5,6)] by simp_all
  then show ?thesis using h' copied_lookup [OF assms(3,4)]
    by (simp add: merge_loop_lookup split: option.splits)
qed

theorem merge_context_correct_witness:
  "let h = [\<lparr>teeReader = None, teeWriter = None, variables = [(''a'', ''1''), (''b'', ''2'')]\<rparr>];
       h' = fst (MergeContext h \<lparr>metadataKey = Some 0\<rparr> [(''b'', ''2''), (''a'', ''1'')] [(''b'', ''''), (''a'', ''9'')] False)
   in map_of (variables (h' ! 1)) ''b'' = None \<and> take 1 h' = h"
proof -
  let ?h = "[\<lparr>teeReader = None, teeWriter = None, variables = [(''a'', ''1''), (''b'', ''2'')]\<rparr>]"
  let ?r = "MergeContext ?h \<lparr>metadataKey = Some 0\<rparr> [(''b'', ''2''), (''a'', ''1'')] [(''b'', ''''), (''a'', ''9'')] False"
  show ?thesis
    using merge_context_correct [of "\<lparr>metadataKey = Some 0\<rparr>" 0 ?h "[(''b'', ''2''), (''a'', ''1'')]"
        "[(''a'', ''9''), (''b'', '''')]" "[(''b'', ''''), (''a'', ''9'')]" False "fst ?r" "snd ?r" "''b''"]
    by (simp add: gomap_ok_def)
qed

end
