(* ===== verification/Middleware.thy ===== *)
theory Middleware
  imports Errs Metadata
begin

text \<open>
  Package \<open>middleware\<close>: handlers, the chaining of middlewares, the request-metrics
  middleware and the abort wrapper.

  A Go handler may change shared state (the metadata of its context, stores, metrics),
  so a handler is a state transformer that also returns the error (\<open>None\<close> for nil).
  The state holds at least the heap of metadata values.
\<close>

record env =
  heap :: md_heap

type_synonym ('s, 'c) Handler = "'c \<Rightarrow> 's \<Rightarrow> goerror option \<times> 's"
type_synonym ('s, 'c) Middleware = "('s, 'c) Handler \<Rightarrow> ('s, 'c) Handler"

subsection \<open>Chain\<close>

text \<open>
  The loop of \<open>Chain\<close> counts \<open>i\<close> down from the last middleware; \<open>chain_loop ms i next\<close>
  is the state of the loop with the indices below \<open>i\<close> left.
\<close>

fun chain_loop :: "('s, 'c) Middleware list \<Rightarrow> nat \<Rightarrow> ('s, 'c) Handler \<Rightarrow> ('s, 'c) Handler" where
  "chain_loop m 0 nxt = nxt"
| "chain_loop m (Suc i) nxt = chain_loop m i ((m ! i) nxt)"

definition Chain :: "('s, 'c) Middleware list \<Rightarrow> ('s, 'c) Middleware" where
  "Chain m nxt = chain_loop m (length m) nxt"

lemma chain_loop_foldr: "i \<le> length m \<Longrightarrow> chain_loop m i nxt = foldr (\<lambda>f n. f n) (take i m) nxt"
proof (induction i arbitrary: nxt)
  case 0
  then show ?case by simp
next
  case (Suc i)
  then have "take (Suc i) m = take i m @ [m ! i]" by (simp add: take_Suc_conv_app_nth)
  with Suc show ?case by simp
qed

lemma Chain_foldr: "Chain m nxt = foldr (\<lambda>f n. f n) m nxt"
  by (simp add: Chain_def chain_loop_foldr)

lemma Chain_Nil [simp]: "Chain [] nxt = nxt"
  by (simp add: Chain_def)

lemma Chain_Cons [simp]: "Chain (f # fs) nxt = f (Chain fs nxt)"
  by (simp add: Chain_foldr)

lemma Chain_append: "Chain (fs @ gs) nxt = Chain fs (Chain gs nxt)"
  by (simp add: Chain_foldr)

subsection \<open>RequestMetrics\<close>

text \<open>
  The recorder and the clock are interfaces of the framework; a recorder is given by
  the effect of its two methods on the state.
\<close>

record 's MetricsRecorder =
  RecordRequestDuration :: "string \<Rightarrow> string \<Rightarrow> string \<Rightarrow> int \<Rightarrow> 's \<Rightarrow> 's"
  RecordRequestTotal :: "string \<Rightarrow> string \<Rightarrow> string \<Rightarrow> 's \<Rightarrow> 's"

definition status_of :: "goerror option \<Rightarrow> string" where
  "status_of err = (case err of None \<Rightarrow> ''success'' | Some _ \<Rightarrow> ''error'')"

definition RequestMetrics ::
  "('z env_scheme \<Rightarrow> int) \<Rightarrow> 'z env_scheme MetricsRecorder option
     \<Rightarrow> ('z env_scheme, 'a ctx_scheme) Middleware" where
  "RequestMetrics now recorder nxt c s =
     (case recorder of
        None \<Rightarrow> nxt c s
      | Some r \<Rightarrow>
          (let start = now s;
               (h, p) = FromContext (heap s) c;
               protocol = fst (md_Get (h ! p) RequestProtocol);
               path = fst (md_Get (h ! p) RequestPath);
               (err, s1) = nxt c s;
               status = status_of err;
               s2 = RecordRequestDuration r protocol path status (now s1 - start) s1;
               s3 = RecordRequestTotal r protocol path status s2
           in (err, s3)))"

subsection \<open>Abort\<close>

definition ErrAbort :: goerror where
  "ErrAbort = ErrString 100 ''middleware abort''"

definition Abort :: "nat \<Rightarrow> goerror \<Rightarrow> goerror" where
  "Abort a err = FmtWrap a (Error ErrAbort @ '': '' @ Error err) [ErrAbort, err]"

definition IsAbort :: "goerror \<Rightarrow> bool" where
  "IsAbort err = Is err ErrAbort"

lemma IsAbort_Abort: "IsAbort (Abort a err)"
  by (simp add: IsAbort_def Abort_def)

lemma Is_Abort: "t \<noteq> ErrAbort \<Longrightarrow> addr t \<noteq> a \<Longrightarrow> Is (Abort a err) t \<longleftrightarrow> Is err t"
  by (auto simp: Abort_def ErrAbort_def)

section \<open>Properties\<close>

text \<open>
  \<open>Chain\<close> composes its middlewares in order, the first outermost: the countdown loop
  equals the right fold of the list, and chains compose.
\<close>

theorem chain_order:
  "Chain ms nxt = foldr (\<lambda>f n. f n) ms nxt \<and> Chain (ms @ ns) nxt = Chain ms (Chain ns nxt)"
  by (simp add: Chain_foldr)

end
