(* ===== verification/JWT.thy ===== *)
theory JWT
  imports Middleware
begin

text \<open>
  \<open>middleware/auth/jwt.go\<close> and \<open>admin/auth/claims.go\<close>: the path allowlist and the JWT
  middleware.

  The package \<open>golang-jwt/jwt\<close> is not part of the repository. What the middleware calls
  of it is a parameter, the record \<open>jwt_lib\<close>: the two parsing functions (for a fixed key
  function) and the sentinel errors they are compared with. A parse returns either a
  token, or an error with possibly a token beside it; the library never returns
  neither, which is what the type \<open>parse_result\<close> says.
\<close>

subsection \<open>Claims\<close>

record RegisteredClaims =
  ID :: string
  ExpiresAt :: "int option"
  IssuedAt :: "int option"
  NotBefore :: "int option"

record Claims =
  Registered :: RegisteredClaims
  UID :: string
  Role :: string
  TenantID :: string
  TokenType :: string

text \<open>
  A value of the interface \<open>jwt.Claims\<close>: a \<open>*auth.Claims\<close> (possibly a nil pointer), a
  \<open>jwt.MapClaims\<close>, or a type the repository does not know. Of a map value only the
  strings are ever read.
\<close>

datatype any_value = StrVal string | OtherVal

datatype jclaims =
    StructClaims "Claims option"
  | MapClaims "(string, any_value) gomap"
  | OtherClaims

record actx = ctx +
  authKey :: "jclaims option"

definition auth_NewContext :: "'a actx_scheme \<Rightarrow> jclaims \<Rightarrow> 'a actx_scheme" where
  "auth_NewContext c info = c\<lparr>authKey := Some info\<rparr>"

definition auth_FromContext :: "'a actx_scheme \<Rightarrow> jclaims option" where
  "auth_FromContext c = authKey c"

definition ClaimsFromContext :: "'a actx_scheme \<Rightarrow> Claims option" where
  "ClaimsFromContext c =
     (case auth_FromContext c of Some (StructClaims (Some cl)) \<Rightarrow> Some cl | _ \<Rightarrow> None)"

definition TenantIDFromContext :: "'a actx_scheme \<Rightarrow> string" where
  "TenantIDFromContext c = (case ClaimsFromContext c of Some cl \<Rightarrow> TenantID cl | None \<Rightarrow> '''')"

subsection \<open>The path allowlist\<close>

fun isAllowed :: "string \<Rightarrow> string list \<Rightarrow> bool" where
  "isAllowed uripath [] = False"
| "isAllowed uripath (pattern # allows) =
     (let n = length pattern in
      if pattern = uripath then True
      else if pattern = ''*'' then True
      else if n > 1 \<and> pattern ! (n - 1) = CHR ''*'' then
        (let prefix = take (n - 1) pattern in
         if \<not> HasPrefix uripath prefix then isAllowed uripath allows
         else if prefix ! (length prefix - 1) = CHR ''/'' then True
         else if length uripath > length prefix \<and> uripath ! length prefix = CHR ''/'' then True
         else isAllowed uripath allows)
      else isAllowed uripath allows)"

subsection \<open>The middleware\<close>

record Token =
  Valid :: bool
  tClaims :: jclaims

type_synonym parse_result = "(goerror \<times> Token option) + Token"

record jwt_lib =
  ParseWithClaims :: "string \<Rightarrow> parse_result"
  Parse :: "string \<Rightarrow> parse_result"
  ErrTokenMalformed :: goerror
  ErrTokenUnverifiable :: goerror
  ErrTokenNotValidYet :: goerror
  ErrTokenExpired_jwt :: goerror

text \<open>
  The options of the middleware. \<open>claims\<close> is \<open>None\<close> when no claims type was
  configured; otherwise it says whether a pointer to that type implements \<open>jwt.Claims\<close>.
\<close>

record ('s, 'c) jwt_options =
  allows :: "string list"
  claims :: "bool option"
  validate :: "('c \<Rightarrow> string \<Rightarrow> 's \<Rightarrow> goerror option \<times> 's) option"
  permissionChecker :: "('c \<Rightarrow> jclaims \<Rightarrow> 's \<Rightarrow> goerror option \<times> 's) option"

fun WithAllow :: "string list \<Rightarrow> ('s, 'c) jwt_options \<Rightarrow> ('s, 'c) jwt_options" where
  "WithAllow [] o1 = o1"
| "WithAllow (s # paths) o1 =
     (let s' = TrimSpace s in
      if length s' = 0 then WithAllow paths o1
      else WithAllow paths (o1\<lparr>allows := allows o1 @ [s']\<rparr>))"

definition WithPermissionChecker ::
  "('c \<Rightarrow> jclaims \<Rightarrow> 's \<Rightarrow> goerror option \<times> 's) \<Rightarrow> ('s, 'c) jwt_options \<Rightarrow> ('s, 'c) jwt_options" where
  "WithPermissionChecker fn o1 = o1\<lparr>permissionChecker := Some fn\<rparr>"

definition WithValidate ::
  "('c \<Rightarrow> string \<Rightarrow> 's \<Rightarrow> goerror option \<times> 's) \<Rightarrow> ('s, 'c) jwt_options \<Rightarrow> ('s, 'c) jwt_options" where
  "WithValidate fn o1 = o1\<lparr>validate := Some fn\<rparr>"

definition WithClaims :: "bool \<Rightarrow> ('s, 'c) jwt_options \<Rightarrow> ('s, 'c) jwt_options" where
  "WithClaims implements o1 = o1\<lparr>claims := Some implements\<rparr>"

definition bearerWord :: string where "bearerWord = ''Bearer''"
definition authorizationKey :: string where "authorizationKey = ''Authorization''"

text \<open>The two parse attempts: \<open>jwt.Parse\<close> runs when the first attempt left \<open>ti\<close> nil.\<close>

definition parse_token :: "jwt_lib \<Rightarrow> ('s, 'c) jwt_options \<Rightarrow> string \<Rightarrow> parse_result" where
  "parse_token lib opts token =
     (if claims opts = Some True then
        (case ParseWithClaims lib token of
           Inl (e, None) \<Rightarrow> Parse lib token
         | r \<Rightarrow> r)
      else Parse lib token)"

definition map_parse_error :: "jwt_lib \<Rightarrow> goerror \<Rightarrow> goerror" where
  "map_parse_error lib err =
     (if Is err (ErrTokenMalformed lib) \<or> Is err (ErrTokenUnverifiable lib) then ErrAccessDenied
      else if Is err (ErrTokenNotValidYet lib) \<or> Is err (ErrTokenExpired_jwt lib) then ErrTokenExpired
      else ErrPermissionDenied)"

definition JWT ::
  "jwt_lib \<Rightarrow> ('z env_scheme, 'a actx_scheme) jwt_options
     \<Rightarrow> ('z env_scheme, 'a actx_scheme) Middleware" where
  "JWT lib opts nxt c s =
     (let (h, p) = FromContext (heap s) c;
          md = h ! p;
          (requestPath, ok) = md_Get md RequestPath
      in
      if allows opts \<noteq> [] \<and> ok \<and> isAllowed requestPath (allows opts) then nxt c s
      else
      (let (token0, present) = md_Get md authorizationKey in
       if \<not> present then (Some ErrAccessDenied, s)
       else
       (let token = TrimSpace (TrimPrefix token0 bearerWord);
            (verr, s1) = (case validate opts of None \<Rightarrow> (None, s) | Some v \<Rightarrow> v c token s)
        in
        case verr of Some e \<Rightarrow> (Some e, s1)
        | None \<Rightarrow>
          (case parse_token lib opts token of
             Inl (err, _) \<Rightarrow> (Some (map_parse_error lib err), s1)
           | Inr ti \<Rightarrow>
              if \<not> Valid ti then (Some ErrPermissionDenied, s1)
              else
              (let (perr, s2) = (case permissionChecker opts of
                     None \<Rightarrow> (None, s1) | Some pc \<Rightarrow> pc c (tClaims ti) s1)
               in
               case perr of Some e \<Rightarrow> (Some e, s2)
               | None \<Rightarrow> nxt (auth_NewContext c (tClaims ti)) s2)))))"

subsection \<open>Facts about the allowlist\<close>

text \<open>When one pattern admits a path, written as a specification.\<close>

definition pattern_admits :: "string \<Rightarrow> string \<Rightarrow> bool" where
  "pattern_admits pattern path \<longleftrightarrow>
     pattern = path \<or> pattern = ''*'' \<or>
     (\<exists>prefix. pattern = prefix @ ''*'' \<and> prefix \<noteq> [] \<and>
        (\<exists>rest. path = prefix @ rest \<and>
           (last prefix = CHR ''/'' \<or> (\<exists>r. rest = CHR ''/'' # r))))"

lemma star_pattern_iff:
  "(length pattern > 1 \<and> pattern ! (length pattern - 1) = CHR ''*'') \<longleftrightarrow>
   (\<exists>prefix. pattern = prefix @ ''*'' \<and> prefix \<noteq> [])"
proof
  assume a: "length pattern > 1 \<and> pattern ! (length pattern - 1) = CHR ''*''"
  then have "pattern \<noteq> []" by auto
  with a have "pattern = butlast pattern @ ''*''"
    by (metis append_butlast_last_id last_conv_nth)
  moreover have "butlast pattern \<noteq> []" using a by (cases pattern) auto
  ultimately show "\<exists>prefix. pattern = prefix @ ''*'' \<and> prefix \<noteq> []" by blast
qed (auto simp: nth_append)

lemma pattern_admits_star:
  assumes "pre \<noteq> []"
  shows "pattern_admits (pre @ ''*'') path \<longleftrightarrow>
    pre @ ''*'' = path \<or>
    (HasPrefix path pre \<and> (last pre = CHR ''/'' \<or>
       (length path > length pre \<and> path ! length pre = CHR ''/'')))"
proof -
  have "(\<exists>rest. path = pre @ rest \<and> (last pre = CHR ''/'' \<or> (\<exists>r. rest = CHR ''/'' # r))) \<longleftrightarrow>
    (HasPrefix path pre \<and> (last pre = CHR ''/'' \<or>
       (length path > length pre \<and> path ! length pre = CHR ''/'')))"
    unfolding HasPrefix_iff
    by (auto simp: nth_append) (metis list.exhaust length_greater_0_conv nth_Cons_0)
  then show ?thesis using assms by (auto simp: pattern_admits_def)
qed

lemma isAllowed_Cons:
  "isAllowed path (pattern # pats) \<longleftrightarrow> pattern_admits pattern path \<or> isAllowed path pats"
proof (cases "\<exists>pre. pattern = pre @ ''*'' \<and> pre \<noteq> []")
  case True
  then obtain pre where p: "pattern = pre @ ''*''" "pre \<noteq> []" by blast
  then show ?thesis
    by (auto simp: pattern_admits_star Let_def last_conv_nth)
next
  case False
  then have nb: "\<not> (length pattern > 1 \<and> pattern ! (length pattern - 1) = CHR ''*'')"
    using star_pattern_iff by blast
  have "isAllowed path (pattern # pats) \<longleftrightarrow>
      pattern = path \<or> pattern = ''*'' \<or> isAllowed path pats"
    unfolding isAllowed.simps Let_def if_not_P [OF nb] by simp
  moreover have "pattern_admits pattern path \<longleftrightarrow> pattern = path \<or> pattern = ''*''"
    using False by (auto simp: pattern_admits_def)
  ultimately show ?thesis by blast
qed

lemma isAllowed_iff: "isAllowed path pats \<longleftrightarrow> (\<exists>pattern\<in>set pats. pattern_admits pattern path)"
proof (induction pats)
  case Nil
  then show ?case by simp
next
  case (Cons a pats)
  then show ?case by (simp only: isAllowed_Cons) auto
qed

subsection \<open>Facts about the middleware\<close>

definition bearer_token :: "Metadata \<Rightarrow> string" where
  "bearer_token md = TrimSpace (TrimPrefix (fst (md_Get md authorizationKey)) bearerWord)"

definition request_md :: "'z env_scheme \<Rightarrow> 'a ctx_scheme \<Rightarrow> Metadata" where
  "request_md s c = (case FromContext (heap s) c of (h, p) \<Rightarrow> h ! p)"

definition on_allowlist :: "('s, 'c) jwt_options \<Rightarrow> Metadata \<Rightarrow> bool" where
  "on_allowlist opts md \<longleftrightarrow> snd (md_Get md RequestPath) \<and>
     isAllowed (fst (md_Get md RequestPath)) (allows opts)"

lemma JWT_allowlisted:
  "on_allowlist opts (request_md s c) \<Longrightarrow> JWT lib opts nxt c s = nxt c s"
  by (cases "allows opts")
    (auto simp: JWT_def on_allowlist_def request_md_def Let_def split: prod.splits)

lemma JWT_protected:
  assumes "\<not> on_allowlist opts (request_md s c)"
  shows "JWT lib opts nxt c s =
    (if \<not> md_Has (request_md s c) authorizationKey then (Some ErrAccessDenied, s)
     else
     (let token = bearer_token (request_md s c);
          (verr, s1) = (case validate opts of None \<Rightarrow> (None, s) | Some v \<Rightarrow> v c token s)
      in
      case verr of Some e \<Rightarrow> (Some e, s1)
      | None \<Rightarrow>
        (case parse_token lib opts token of
           Inl (err, _) \<Rightarrow> (Some (map_parse_error lib err), s1)
         | Inr ti \<Rightarrow>
            if \<not> Valid ti then (Some ErrPermissionDenied, s1)
            else
            (let (perr, s2) = (case permissionChecker opts of
                   None \<Rightarrow> (None, s1) | Some pc \<Rightarrow> pc c (tClaims ti) s1)
             in
             case perr of Some e \<Rightarrow> (Some e, s2)
             | None \<Rightarrow> nxt (auth_NewContext c (tClaims ti)) s2))))"
proof -
  obtain h p where fc: "FromContext (heap s) c = (h, p)" by (cases "FromContext (heap s) c")
  obtain rp ok where rp: "md_Get (h ! p) RequestPath = (rp, ok)" by (cases "md_Get (h ! p) RequestPath")
  obtain tk pr where tk: "md_Get (h ! p) authorizationKey = (tk, pr)"
    by (cases "md_Get (h ! p) authorizationKey")
  have na: "\<not> (allows opts \<noteq> [] \<and> ok \<and> isAllowed rp (allows opts))"
    using assms by (simp add: on_allowlist_def request_md_def fc rp)
  have hp: "md_Has (request_md s c) authorizationKey = pr"
    and bt: "bearer_token (request_md s c) = TrimSpace (TrimPrefix tk bearerWord)"
    by (simp_all add: request_md_def fc md_Has_def bearer_token_def tk)
  show ?thesis
    unfolding JWT_def fc Let_def prod.case rp tk if_not_P [OF na] hp bt by (rule refl)
qed

section \<open>Properties\<close>

text \<open>
  C5: The allowlist matches whole path segments. A path is allowed exactly when some
  entry equals it, is the single star, or is a non-empty prefix and a star where the path
  continues the prefix at a segment boundary (the prefix ends in a slash or the next
  character is one). In particular, against the comment in the code (\<open>jwt.go\<close>, line 114),
  a path that equals the prefix of a pattern is matched only when the prefix is empty or
  ends in a slash: \<open>/foo*\<close> does not admit \<open>/foo\<close>.
\<close>

theorem allowlist_matches_segments:
  "(isAllowed path pats \<longleftrightarrow>
     (\<exists>pattern\<in>set pats. pattern = path \<or> pattern = ''*'' \<or>
        (\<exists>pre rest. pattern = pre @ ''*'' \<and> pre \<noteq> [] \<and> path = pre @ rest \<and>
           (last pre = CHR ''/'' \<or> (\<exists>r. rest = CHR ''/'' # r))))) \<and>
   (isAllowed path [path @ ''*''] \<longleftrightarrow> path = [] \<or> last path = CHR ''/'')"
  unfolding isAllowed_iff pattern_admits_def by auto

end
