(* ===== verification/TokenStore.thy ===== *)
theory TokenStore
  imports Errs
begin

text \<open>
  \<open>admin/service/memory_token_store.go\<close>: the in-memory denylist of revoked token ids,
  and the contract of the interface \<open>TokenStore\<close> (\<open>admin/service/auth.go\<close>) that the
  authentication service relies on.

  The store's clock is the argument \<open>now\<close>. The two loops over the map take the
  iteration order as an argument (\<open>ords\<close> for the sweep, \<open>orde\<close> for the eviction).
\<close>

record MemoryTokenStore =
  capacity :: nat
  revoked :: "(string, int) gomap"

definition revocationCapacity :: nat where
  "revocationCapacity = 65536"

definition NewMemoryTokenStore :: MemoryTokenStore where
  "NewMemoryTokenStore = \<lparr>capacity = revocationCapacity, revoked = []\<rparr>"

fun sweep_loop :: "int \<Rightarrow> (string \<times> int) list \<Rightarrow> (string, int) gomap \<Rightarrow> (string, int) gomap" where
  "sweep_loop now [] m = m"
| "sweep_loop now ((jti, until) # it) m =
     sweep_loop now it (if \<not> until > now then AList.delete jti m else m)"

definition sweepLocked ::
  "((string, int) gomap \<Rightarrow> (string \<times> int) list) \<Rightarrow> int \<Rightarrow> MemoryTokenStore \<Rightarrow> MemoryTokenStore" where
  "sweepLocked ord now s = s\<lparr>revoked := sweep_loop now (ord (revoked s)) (revoked s)\<rparr>"

text \<open>
  The search for the soonest-expiring entry. The accumulator is \<open>None\<close> while \<open>first\<close> is
  still true.
\<close>

fun victim_loop :: "(string \<times> int) list \<Rightarrow> (string \<times> int) option \<Rightarrow> (string \<times> int) option" where
  "victim_loop [] acc = acc"
| "victim_loop ((jti, until) # it) acc =
     victim_loop it
       (case acc of
          None \<Rightarrow> Some (jti, until)
        | Some (victim, victimTil) \<Rightarrow> if until < victimTil then Some (jti, until) else acc)"

definition evictOneLocked ::
  "((string, int) gomap \<Rightarrow> (string \<times> int) list) \<Rightarrow> MemoryTokenStore \<Rightarrow> MemoryTokenStore" where
  "evictOneLocked ord s =
     (case victim_loop (ord (revoked s)) None of
        None \<Rightarrow> s
      | Some (victim, _) \<Rightarrow> s\<lparr>revoked := AList.delete victim (revoked s)\<rparr>)"

definition Revoke ::
  "((string, int) gomap \<Rightarrow> (string \<times> int) list) \<Rightarrow> ((string, int) gomap \<Rightarrow> (string \<times> int) list)
     \<Rightarrow> int \<Rightarrow> string \<Rightarrow> int \<Rightarrow> MemoryTokenStore \<Rightarrow> MemoryTokenStore" where
  "Revoke ords orde now jti until s =
     (if jti = '''' then s
      else if \<not> until > now then s
      else
        (let s1 = sweepLocked ords now s;
             s2 = (if map_of (revoked s1) jti = None \<and> length (revoked s1) \<ge> capacity s1
                   then evictOneLocked orde s1 else s1)
         in s2\<lparr>revoked := AList.update jti until (revoked s2)\<rparr>))"

definition RevokeIfNotRevoked ::
  "((string, int) gomap \<Rightarrow> (string \<times> int) list) \<Rightarrow> ((string, int) gomap \<Rightarrow> (string \<times> int) list)
     \<Rightarrow> int \<Rightarrow> string \<Rightarrow> int \<Rightarrow> MemoryTokenStore \<Rightarrow> bool \<times> MemoryTokenStore" where
  "RevokeIfNotRevoked ords orde now jti until s =
     (if jti = '''' then (False, s)
      else if \<not> until > now then (False, s)
      else if (case map_of (revoked s) jti of Some existing \<Rightarrow> existing > now | None \<Rightarrow> False)
        then (False, s)
      else
        (let s1 = sweepLocked ords now s;
             s2 = (if map_of (revoked s1) jti = None \<and> length (revoked s1) \<ge> capacity s1
                   then evictOneLocked orde s1 else s1)
         in (True, s2\<lparr>revoked := AList.update jti until (revoked s2)\<rparr>)))"

definition Revoked :: "int \<Rightarrow> string \<Rightarrow> MemoryTokenStore \<Rightarrow> bool \<times> MemoryTokenStore" where
  "Revoked now jti s =
     (if jti = '''' then (False, s)
      else (case map_of (revoked s) jti of
              None \<Rightarrow> (False, s)
            | Some until \<Rightarrow>
                if \<not> until > now then (False, s\<lparr>revoked := AList.delete jti (revoked s)\<rparr>)
                else (True, s)))"

subsection \<open>Specification: the set of denied ids\<close>

text \<open>An id is denied at an instant when its window lies in the future.\<close>

definition denied :: "MemoryTokenStore \<Rightarrow> int \<Rightarrow> string \<Rightarrow> bool" where
  "denied s now jti \<longleftrightarrow> (\<exists>until. map_of (revoked s) jti = Some until \<and> until > now)"

definition store_ok :: "MemoryTokenStore \<Rightarrow> bool" where
  "store_ok s \<longleftrightarrow> gomap_ok (revoked s) \<and> 0 < capacity s \<and> length (revoked s) \<le> capacity s \<and>
     map_of (revoked s) '''' = None"

lemma store_ok_New: "store_ok NewMemoryTokenStore"
  by (simp add: store_ok_def NewMemoryTokenStore_def revocationCapacity_def)

subsection \<open>Sweeping and evicting\<close>

lemma sweep_loop_lookup:
  assumes "gomap_ok it"
  shows "map_of (sweep_loop now it m) k =
    (case map_of it k of Some u \<Rightarrow> if u > now then map_of m k else None | None \<Rightarrow> map_of m k)"
  using assms
proof (induction it arbitrary: m)
  case Nil
  then show ?case by simp
next
  case (Cons a it)
  obtain k1 u1 where a: "a = (k1, u1)" by (cases a)
  with Cons.prems have ok: "gomap_ok it" and n: "map_of it k1 = None"
    by (auto simp: gomap_ok_def map_of_eq_None_iff)
  show ?case using a n by (auto simp: Cons.IH [OF ok] gomap_simps split: option.splits)
qed

lemma sweep_loop_shape:
  "gomap_ok m \<Longrightarrow> gomap_ok (sweep_loop now it m) \<and> length (sweep_loop now it m) \<le> length m"
proof (induction it arbitrary: m)
  case Nil
  then show ?case by simp
next
  case (Cons a it)
  obtain k1 u1 where a: "a = (k1, u1)" by (cases a)
  show ?case
    using Cons.IH [of "AList.delete k1 m"] Cons.IH [of m] Cons.prems length_delete_le [of k1 m]
    by (auto simp: a)
qed

lemma sweepLocked_lookup:
  assumes "map_order ord" and "gomap_ok (revoked s)"
  shows "map_of (revoked (sweepLocked ord now s)) k =
    (case map_of (revoked s) k of Some u \<Rightarrow> if u > now then Some u else None | None \<Rightarrow> None)"
  using map_order_lookup [OF assms] map_order_ok [OF assms]
  by (simp add: sweepLocked_def sweep_loop_lookup split: option.splits)

lemma sweepLocked_shape:
  "gomap_ok (revoked s) \<Longrightarrow> gomap_ok (revoked (sweepLocked ord now s)) \<and>
   length (revoked (sweepLocked ord now s)) \<le> length (revoked s) \<and>
   capacity (sweepLocked ord now s) = capacity s"
  using sweep_loop_shape [of "revoked s"] by (simp add: sweepLocked_def)

text \<open>The victim is an entry with the least window.\<close>

lemma victim_loop_least:
  "victim_loop it acc = Some (v, u) \<Longrightarrow>
   ((v, u) \<in> set it \<or> acc = Some (v, u)) \<and> (\<forall>(j, w)\<in>set it. u \<le> w) \<and>
   (case acc of None \<Rightarrow> True | Some (_, w) \<Rightarrow> u \<le> w)"
proof (induction it arbitrary: acc)
  case Nil
  then show ?case by simp
next
  case (Cons a it)
  obtain j w where a: "a = (j, w)" by (cases a)
  show ?case
  proof (cases acc)
    case None
    with Cons.prems Cons.IH [of "Some (j, w)"] show ?thesis by (auto simp: a)
  next
    case (Some p)
    obtain j' w' where p: "p = (j', w')" by (cases p)
    show ?thesis
      using Cons.prems Cons.IH [of "Some (j, w)"] Cons.IH [of "Some (j', w')"] Some
      by (cases "w < w'") (auto simp: a p)
  qed
qed

lemma victim_loop_Some: "\<exists>v u. victim_loop it (Some p) = Some (v, u)"
proof (induction it arbitrary: p)
  case Nil
  then show ?case by (cases p) simp
next
  case (Cons a it)
  then show ?case by (cases a; cases p) auto
qed

lemma evictOneLocked_effect:
  assumes "map_order ord" and "gomap_ok (revoked s)" and "revoked s \<noteq> []"
  obtains victim where "evictOneLocked ord s = s\<lparr>revoked := AList.delete victim (revoked s)\<rparr>"
    and "\<exists>u. map_of (revoked s) victim = Some u \<and> (\<forall>j w. map_of (revoked s) j = Some w \<longrightarrow> u \<le> w)"
proof -
  have set: "set (ord (revoked s)) = set (revoked s)" using assms(1) by (rule map_order_set)
  then have "ord (revoked s) \<noteq> []" using assms(3) by auto
  then obtain p it where "ord (revoked s) = p # it" by (cases "ord (revoked s)") auto
  then obtain v u where vu: "victim_loop (ord (revoked s)) None = Some (v, u)"
    using victim_loop_Some [of it p] by (cases p) auto
  from victim_loop_least [OF vu] set have mem: "(v, u) \<in> set (revoked s)"
    and least: "\<forall>(j, w)\<in>set (revoked s). u \<le> w" by auto
  have "map_of (revoked s) v = Some u" using mem assms(2) by (simp add: gomap_ok_def)
  moreover have "\<forall>j w. map_of (revoked s) j = Some w \<longrightarrow> u \<le> w"
    using least by (auto dest: map_of_SomeD)
  moreover have "evictOneLocked ord s = s\<lparr>revoked := AList.delete v (revoked s)\<rparr>"
    using vu by (simp add: evictOneLocked_def)
  ultimately show ?thesis using that by blast
qed

subsection \<open>Inserting an id\<close>

text \<open>The common tail of \<open>Revoke\<close> and \<open>RevokeIfNotRevoked\<close>.\<close>

definition denylist_insert ::
  "((string, int) gomap \<Rightarrow> (string \<times> int) list) \<Rightarrow> ((string, int) gomap \<Rightarrow> (string \<times> int) list)
     \<Rightarrow> int \<Rightarrow> string \<Rightarrow> int \<Rightarrow> MemoryTokenStore \<Rightarrow> MemoryTokenStore" where
  "denylist_insert ords orde now jti until s =
     (let s1 = sweepLocked ords now s;
          s2 = (if map_of (revoked s1) jti = None \<and> length (revoked s1) \<ge> capacity s1
                then evictOneLocked orde s1 else s1)
      in s2\<lparr>revoked := AList.update jti until (revoked s2)\<rparr>)"

lemma Revoke_insert:
  "Revoke ords orde now jti until s =
     (if jti \<noteq> '''' \<and> until > now then denylist_insert ords orde now jti until s else s)"
  by (simp add: Revoke_def denylist_insert_def)

lemma RevokeIfNotRevoked_insert:
  "RevokeIfNotRevoked ords orde now jti until s =
     (if jti \<noteq> '''' \<and> until > now \<and> \<not> denied s now jti
      then (True, denylist_insert ords orde now jti until s) else (False, s))"
  by (auto simp: RevokeIfNotRevoked_def denylist_insert_def denied_def Let_def split: option.splits)

text \<open>
  The map after the insertion: the swept map with the new entry, less one entry with
  the least window when the swept map was full.
\<close>

lemma denylist_insert_cases:
  assumes "map_order ords" and "map_order orde" and "store_ok s"
  obtains
    (room) "map_of (revoked (sweepLocked ords now s)) jti \<noteq> None \<or>
        length (revoked (sweepLocked ords now s)) < capacity s"
      and "denylist_insert ords orde now jti until s =
        s\<lparr>revoked := AList.update jti until (revoked (sweepLocked ords now s))\<rparr>"
  | (evict) victim u where "length (revoked (sweepLocked ords now s)) = capacity s"
      and "map_of (revoked (sweepLocked ords now s)) jti = None"
      and "map_of (revoked (sweepLocked ords now s)) victim = Some u"
      and "\<forall>j w. map_of (revoked (sweepLocked ords now s)) j = Some w \<longrightarrow> u \<le> w"
      and "denylist_insert ords orde now jti until s =
        s\<lparr>revoked := AList.update jti until (AList.delete victim (revoked (sweepLocked ords now s)))\<rparr>"
proof -
  define s1 where "s1 = sweepLocked ords now s"
  have s1: "gomap_ok (revoked s1)" "length (revoked s1) \<le> length (revoked s)" "capacity s1 = capacity s"
    using sweepLocked_shape [of s ords now] assms(3) by (simp_all add: s1_def store_ok_def)
  have s1_upd: "s1\<lparr>revoked := x\<rparr> = s\<lparr>revoked := x\<rparr>" for x
    by (simp add: s1_def sweepLocked_def)
  show ?thesis
  proof (cases "map_of (revoked s1) jti = None \<and> length (revoked s1) \<ge> capacity s1")
    case False
    then show ?thesis using room s1(3)
      by (auto simp: denylist_insert_def Let_def s1_def [symmetric] s1_upd)
  next
    case True
    then have len: "length (revoked s1) = capacity s" "revoked s1 \<noteq> []"
      using s1 assms(3) by (auto simp: store_ok_def)
    obtain victim where v: "evictOneLocked orde s1 = s1\<lparr>revoked := AList.delete victim (revoked s1)\<rparr>"
      and "\<exists>u. map_of (revoked s1) victim = Some u \<and> (\<forall>j w. map_of (revoked s1) j = Some w \<longrightarrow> u \<le> w)"
      using evictOneLocked_effect [OF assms(2) s1(1) len(2)] by blast
    then obtain u where u: "map_of (revoked s1) victim = Some u"
      "\<forall>j w. map_of (revoked s1) j = Some w \<longrightarrow> u \<le> w" by blast
    have "denylist_insert ords orde now jti until s =
        s\<lparr>revoked := AList.update jti until (AList.delete victim (revoked s1))\<rparr>"
      using True v by (simp add: denylist_insert_def Let_def s1_def [symmetric] s1_upd)
    then show ?thesis using evict [of victim u] len(1) True u by (simp add: s1_def)
  qed
qed

lemma denylist_insert_lookup:
  assumes "map_order ords" and "map_order orde" and "store_ok s"
  shows "map_of (revoked (denylist_insert ords orde now jti until s)) jti = Some until"
  using assms by (rule denylist_insert_cases [of ords orde s now jti until]) (simp_all add: gomap_simps)

lemma length_update_le: "length (AList.update k v m) \<le> Suc (length m)"
  by (cases "k \<in> fst ` set m") (simp_all add: length_update_present length_update_absent)

lemma length_update_Some: "map_of m k = Some v' \<Longrightarrow> length (AList.update k v m) = length m"
  by (metis domI dom_map_of_conv_image_fst length_update_present)

lemma denylist_insert_ok:
  assumes "map_order ords" and "map_order orde" and "store_ok s" and "jti \<noteq> ''''"
  shows "store_ok (denylist_insert ords orde now jti until s)"
    and "capacity (denylist_insert ords orde now jti until s) = capacity s"
    and "length (revoked (denylist_insert ords orde now jti until s)) \<le> Suc (length (revoked s))"
proof -
  let ?m = "revoked (sweepLocked ords now s)" and ?s' = "denylist_insert ords orde now jti until s"
  have gm: "gomap_ok ?m" and len: "length ?m \<le> length (revoked s)"
    using sweepLocked_shape [of s ords now] assms(3) by (simp_all add: store_ok_def)
  have e: "map_of ?m '''' = None"
    using sweepLocked_lookup [OF assms(1), of s now "''''"] assms(3) by (simp add: store_ok_def)
  have cap: "0 < capacity s" "length (revoked s) \<le> capacity s"
    using assms(3) by (simp_all add: store_ok_def)
  have "gomap_ok (revoked ?s') \<and> capacity ?s' = capacity s \<and> length (revoked ?s') \<le> capacity s \<and>
      map_of (revoked ?s') '''' = None \<and> length (revoked ?s') \<le> Suc (length (revoked s))"
    using assms(1-3)
  proof (cases rule: denylist_insert_cases [of ords orde s now jti until])
    case room
    have "length (AList.update jti until ?m) \<le> capacity s"
      using room(1) cap len length_update_le [of jti until ?m] length_update_Some [of ?m jti _ until]
      by fastforce
    then show ?thesis using room(2) gm e len assms(4) length_update_le [of jti until ?m]
      by (simp add: gomap_simps)
  next
    case (evict victim u)
    have "victim \<in> fst ` set ?m"
      using evict(3) by (metis domI dom_map_of_conv_image_fst)
    then have "Suc (length (AList.delete victim ?m)) = length ?m"
      using gm by (intro length_delete_present)
    then have "length (AList.update jti until (AList.delete victim ?m)) \<le> length ?m"
      using length_update_le [of jti until "AList.delete victim ?m"] by simp
    then show ?thesis using evict(1,5) gm e len assms(4) by (simp add: gomap_simps)
  qed
  then show "store_ok ?s'" "capacity ?s' = capacity s" "length (revoked ?s') \<le> Suc (length (revoked s))"
    using cap by (simp_all add: store_ok_def)
qed

text \<open>With room to spare, an insertion neither drops nor changes a window still open.\<close>

lemma denylist_insert_keeps:
  assumes "map_order ords" and "map_order orde" and "store_ok s"
    and "length (revoked s) < capacity s" and "map_of (revoked s) k = Some u" and "u > now" and "k \<noteq> jti"
  shows "map_of (revoked (denylist_insert ords orde now jti until s)) k = Some u"
proof -
  have sw: "map_of (revoked (sweepLocked ords now s)) k = Some u"
    using sweepLocked_lookup [OF assms(1), of s now k] assms(3,5,6) by (simp add: store_ok_def)
  have "length (revoked (sweepLocked ords now s)) < capacity s"
    using sweepLocked_shape [of s ords now] assms(3,4) by (simp add: store_ok_def)
  with assms(1-3) show ?thesis
    by (cases rule: denylist_insert_cases [of ords orde s now jti until])
      (simp_all add: gomap_simps assms(7) sw)
qed

subsection \<open>Traces of operations\<close>

datatype store_op = OpRevoke string int | OpClaim string int | OpRevoked string

fun exec_op ::
  "((string, int) gomap \<Rightarrow> (string \<times> int) list) \<Rightarrow> ((string, int) gomap \<Rightarrow> (string \<times> int) list)
     \<Rightarrow> int \<Rightarrow> store_op \<Rightarrow> MemoryTokenStore \<Rightarrow> MemoryTokenStore" where
  "exec_op ords orde now (OpRevoke jti until) s = Revoke ords orde now jti until s"
| "exec_op ords orde now (OpClaim jti until) s = snd (RevokeIfNotRevoked ords orde now jti until s)"
| "exec_op ords orde now (OpRevoked jti) s = snd (Revoked now jti s)"

fun exec_ops ::
  "((string, int) gomap \<Rightarrow> (string \<times> int) list) \<Rightarrow> ((string, int) gomap \<Rightarrow> (string \<times> int) list)
     \<Rightarrow> (int \<times> store_op) list \<Rightarrow> MemoryTokenStore \<Rightarrow> MemoryTokenStore" where
  "exec_ops ords orde [] s = s"
| "exec_ops ords orde ((now, op) # ops) s = exec_ops ords orde ops (exec_op ords orde now op s)"

lemma Revoked_ok:
  assumes "store_ok s"
  shows "store_ok (snd (Revoked now jti s))" and "capacity (snd (Revoked now jti s)) = capacity s"
    and "length (revoked (snd (Revoked now jti s))) \<le> length (revoked s)"
  using assms length_delete_le [of jti "revoked s"]
  by (auto simp: Revoked_def store_ok_def gomap_simps split: option.splits)

lemma exec_op_ok:
  assumes "map_order ords" and "map_order orde" and "store_ok s"
  shows "store_ok (exec_op ords orde now op s)" and "capacity (exec_op ords orde now op s) = capacity s"
    and "length (revoked (exec_op ords orde now op s)) \<le> Suc (length (revoked s))"
proof (atomize (full), cases op)
  case (OpRevoke jti until)
  then show "store_ok (exec_op ords orde now op s) \<and> capacity (exec_op ords orde now op s) = capacity s \<and>
      length (revoked (exec_op ords orde now op s)) \<le> Suc (length (revoked s))"
    using assms denylist_insert_ok [OF assms] by (simp add: Revoke_insert)
next
  case (OpClaim jti until)
  then show "store_ok (exec_op ords orde now op s) \<and> capacity (exec_op ords orde now op s) = capacity s \<and>
      length (revoked (exec_op ords orde now op s)) \<le> Suc (length (revoked s))"
    using assms denylist_insert_ok [OF assms] by (simp add: RevokeIfNotRevoked_insert)
next
  case (OpRevoked jti)
  then show "store_ok (exec_op ords orde now op s) \<and> capacity (exec_op ords orde now op s) = capacity s \<and>
      length (revoked (exec_op ords orde now op s)) \<le> Suc (length (revoked s))"
    using Revoked_ok [OF assms(3), of now jti] by simp
qed

lemma exec_ops_ok:
  assumes "map_order ords" and "map_order orde" and "store_ok s"
  shows "store_ok (exec_ops ords orde ops s) \<and> capacity (exec_ops ords orde ops s) = capacity s"
  using assms(3)
proof (induction ops arbitrary: s)
  case Nil
  then show ?case by simp
next
  case (Cons a ops)
  obtain now op where a: "a = (now, op)" by (cases a)
  show ?case using Cons.IH [OF exec_op_ok(1) [OF assms(1,2) Cons.prems]]
      exec_op_ok(2) [OF assms(1,2) Cons.prems] by (simp add: a)
qed

lemma exec_ops_length:
  assumes "map_order ords" and "map_order orde" and "store_ok s"
  shows "length (revoked (exec_ops ords orde ops s)) \<le> length (revoked s) + length ops"
  using assms(3)
proof (induction ops arbitrary: s)
  case Nil
  then show ?case by simp
next
  case (Cons a ops)
  obtain now op where a: "a = (now, op)" by (cases a)
  note ok = exec_op_ok [OF assms(1,2) Cons.prems, of now op]
  show ?case using Cons.IH [OF ok(1)] ok(3) by (simp add: a)
qed

lemma exec_ops_append:
  "exec_ops ords orde (xs @ ys) s = exec_ops ords orde ys (exec_ops ords orde xs s)"
  by (induction xs arbitrary: s) auto

text \<open>An operation that may touch the window
  \<open>u\<close> of \<open>jti\<close> only by setting it to \<open>u\<close> again.\<close>

fun keeps_window :: "string \<Rightarrow> int \<Rightarrow> store_op \<Rightarrow> bool" where
  "keeps_window jti u (OpRevoke j until) = (j = jti \<longrightarrow> until = u)"
| "keeps_window jti u (OpClaim j until) = True"
| "keeps_window jti u (OpRevoked j) = True"

lemma exec_op_window:
  assumes "map_order ords" and "map_order orde" and "store_ok s"
    and "length (revoked s) < capacity s" and "map_of (revoked s) jti = Some u" and "now < u"
    and "keeps_window jti u op"
  shows "map_of (revoked (exec_op ords orde now op s)) jti = Some u"
proof (cases op)
  case (OpRevoke j until)
  then show ?thesis
    using assms denylist_insert_lookup [OF assms(1-3)] denylist_insert_keeps [OF assms(1-6)]
    by (cases "j = jti") (auto simp: Revoke_insert)
next
  case (OpClaim j until)
  show ?thesis
  proof (cases "j = jti")
    case True
    then have "denied s now j" using assms(5,6) by (simp add: denied_def)
    then show ?thesis using OpClaim assms(5) by (simp add: RevokeIfNotRevoked_insert)
  next
    case False
    then show ?thesis using OpClaim assms(5) denylist_insert_keeps [OF assms(1-6)]
      by (simp add: RevokeIfNotRevoked_insert)
  qed
next
  case (OpRevoked j)
  then show ?thesis using assms(5,6) by (auto simp: Revoked_def gomap_simps split: option.splits)
qed

lemma exec_ops_window:
  assumes "map_order ords" and "map_order orde"
  shows "store_ok s \<Longrightarrow> length (revoked s) + length ops \<le> capacity s \<Longrightarrow>
    map_of (revoked s) jti = Some u \<Longrightarrow> \<forall>(t, op)\<in>set ops. t < u \<and> keeps_window jti u op \<Longrightarrow>
    map_of (revoked (exec_ops ords orde ops s)) jti = Some u"
proof (induction ops arbitrary: s)
  case Nil
  then show ?case by simp
next
  case (Cons a ops)
  obtain now op where a: "a = (now, op)" by (cases a)
  note ok = exec_op_ok [OF assms Cons.prems(1), of now op]
  have "map_of (revoked (exec_op ords orde now op s)) jti = Some u"
    using Cons.prems by (intro exec_op_window [OF assms]) (auto simp: a)
  then show ?case using Cons.IH [OF ok(1)] ok(2,3) Cons.prems(2,4) by (simp add: a)
qed

subsection \<open>The contract of the TokenStore interface\<close>

text \<open>
  The interface has three methods, each of which may fail. \<open>now\<close> reads the store's clock
  and \<open>den\<close> is the abstract content: the ids denied at that instant.
\<close>

record 't TokenStore =
  ts_Revoke :: "string \<Rightarrow> int \<Rightarrow> 't \<Rightarrow> goerror option \<times> 't"
  ts_Revoked :: "string \<Rightarrow> 't \<Rightarrow> (goerror + bool) \<times> 't"
  ts_RevokeIfNotRevoked :: "string \<Rightarrow> int \<Rightarrow> 't \<Rightarrow> (goerror + bool) \<times> 't"

locale token_store =
  fixes ops :: "'t TokenStore"
    and now :: "'t \<Rightarrow> int"
    and den :: "'t \<Rightarrow> string \<Rightarrow> bool"
    and inv :: "'t \<Rightarrow> bool"
  assumes revoke_law: "inv t \<Longrightarrow> jti \<noteq> '''' \<Longrightarrow> until > now t \<Longrightarrow>
      ts_Revoke ops jti until t = (None, t') \<Longrightarrow> inv t' \<and> now t' = now t \<and> den t' jti"
    and claim_law: "inv t \<Longrightarrow> jti \<noteq> '''' \<Longrightarrow> until > now t \<Longrightarrow>
      ts_RevokeIfNotRevoked ops jti until t = (Inr won, t') \<Longrightarrow>
      inv t' \<and> now t' = now t \<and> (won \<longleftrightarrow> \<not> den t jti) \<and> den t' jti"
    and revoked_law: "inv t \<Longrightarrow> jti \<noteq> '''' \<Longrightarrow> ts_Revoked ops jti t = (Inr b, t') \<Longrightarrow>
      inv t' \<and> now t' = now t \<and> (b \<longleftrightarrow> den t jti) \<and> den t' = den t"
begin

text \<open>Of two claims of one id in a row, the second never wins.\<close>

lemma second_claim_loses:
  assumes "inv t" and "jti \<noteq> ''''" and "until > now t" and "until' > now t"
    and "ts_RevokeIfNotRevoked ops jti until t = (Inr w, t')"
    and "ts_RevokeIfNotRevoked ops jti until' t' = (Inr w', t'')"
  shows "\<not> w'"
proof -
  from claim_law [OF assms(1-3,5)] have t': "inv t'" "now t' = now t" "den t' jti" by auto
  from claim_law [OF t'(1) assms(2) _ assms(6)] t' assms(4) show ?thesis by auto
qed

lemma revoked_after_revoke:
  assumes "inv t" and "jti \<noteq> ''''" and "until > now t"
    and "ts_Revoke ops jti until t = (None, t')" and "ts_Revoked ops jti t' = (Inr b, t'')"
  shows b
proof -
  from revoke_law [OF assms(1-4)] have t': "inv t'" "den t' jti" by auto
  from revoked_law [OF t'(1) assms(2,5)] t'(2) show ?thesis by auto
qed

lemma revoked_after_claim:
  assumes "inv t" and "jti \<noteq> ''''" and "until > now t"
    and "ts_RevokeIfNotRevoked ops jti until t = (Inr w, t')" and "ts_Revoked ops jti t' = (Inr b, t'')"
  shows b
proof -
  from claim_law [OF assms(1-4)] have t': "inv t'" "den t' jti" by auto
  from revoked_law [OF t'(1) assms(2,5)] t'(2) show ?thesis by auto
qed

end

text \<open>
  The in-memory store as an implementation: its state is the clock and the map. The
  iteration orders range over all orders, as a type.
\<close>

typedef ('k, 'v) go_order = "{ord :: ('k, 'v) gomap \<Rightarrow> ('k \<times> 'v) list. map_order ord}"
  by (rule exI [of _ "\<lambda>m. m"]) simp

lemma map_order_Rep [simp]: "map_order (Rep_go_order ord)"
  using Rep_go_order [of ord] by simp

definition memory_ops ::
  "(string, int) go_order \<Rightarrow> (string, int) go_order \<Rightarrow> (int \<times> MemoryTokenStore) TokenStore" where
  "memory_ops ords orde =
     \<lparr>ts_Revoke = (\<lambda>jti until (n, s). (None, (n, Revoke (Rep_go_order ords) (Rep_go_order orde) n jti until s))),
      ts_Revoked = (\<lambda>jti (n, s). (case Revoked n jti s of (b, s') \<Rightarrow> (Inr b, (n, s')))),
      ts_RevokeIfNotRevoked = (\<lambda>jti until (n, s).
        (case RevokeIfNotRevoked (Rep_go_order ords) (Rep_go_order orde) n jti until s of
           (b, s') \<Rightarrow> (Inr b, (n, s'))))\<rparr>"

lemma Revoked_denied: "jti \<noteq> '''' \<Longrightarrow> fst (Revoked now jti s) \<longleftrightarrow> denied s now jti"
  by (auto simp: Revoked_def denied_def split: option.splits)

lemma denied_Revoked: "gomap_ok (revoked s) \<Longrightarrow> denied (snd (Revoked now jti s)) now j \<longleftrightarrow> denied s now j"
  by (auto simp: Revoked_def denied_def gomap_simps split: option.splits)

lemma denied_insert:
  assumes "map_order ords" and "map_order orde" and "store_ok s" and "until > now"
  shows "denied (denylist_insert ords orde now jti until s) now jti"
  using denylist_insert_lookup [OF assms(1-3)] assms(4) by (simp add: denied_def)

interpretation mem: token_store "memory_ops ords orde" fst
  "\<lambda>(n, s) jti. denied s n jti" "\<lambda>(n, s). store_ok s"
  for ords orde :: "(string, int) go_order"
proof (unfold_locales, goal_cases)
  case (1 t jti until t')
  then show ?case
    by (auto simp: memory_ops_def Revoke_insert denylist_insert_ok denied_insert split: prod.splits)
next
  case (2 t jti until won t')
  then show ?case
    by (auto simp: memory_ops_def RevokeIfNotRevoked_insert denylist_insert_ok denied_insert
        split: prod.splits if_splits)
next
  case (3 t jti b t')
  obtain n s where t: "t = (n, s)" by (cases t)
  then have "b = fst (Revoked n jti s)" "t' = (n, snd (Revoked n jti s))"
    using 3(3) by (auto simp: memory_ops_def split: prod.splits)
  moreover have "store_ok s" "gomap_ok (revoked s)" using 3(1) t by (auto simp: store_ok_def)
  ultimately show ?case using 3(2) t
    by (simp add: Revoked_ok Revoked_denied denied_Revoked fun_eq_iff)
qed

text \<open>A store with room for \<open>k\<close> more ids keeps what it denies.\<close>

locale roomy_store = token_store ops now den inv
  for ops :: "'t TokenStore" and now den inv +
  fixes room :: "nat \<Rightarrow> 't \<Rightarrow> bool"
  assumes keep_law: "inv t \<Longrightarrow> room (Suc k) t \<Longrightarrow> jti \<noteq> '''' \<Longrightarrow> until > now t \<Longrightarrow> den t j \<Longrightarrow>
      ts_Revoke ops jti until t = (None, t') \<Longrightarrow> den t' j"
    and room_law: "inv t \<Longrightarrow> room (Suc k) t \<Longrightarrow> jti \<noteq> '''' \<Longrightarrow> ts_Revoke ops jti until t = (None, t') \<Longrightarrow>
      room k t'"
    and room_mono: "room (Suc k) t \<Longrightarrow> room k t"

interpretation memr: roomy_store "memory_ops ords orde" fst
  "\<lambda>(n, s) jti. denied s n jti" "\<lambda>(n, s). store_ok s"
  "\<lambda>k (n, s). length (revoked s) + k \<le> capacity s"
  for ords orde :: "(string, int) go_order"
proof (unfold_locales, goal_cases)
  case (1 t k jti until j t')
  obtain n s where t: "t = (n, s)" by (cases t)
  then obtain u where u: "map_of (revoked s) j = Some u" "n < u"
    using 1(5) by (auto simp: denied_def split: option.splits)
  have t': "t' = (n, denylist_insert (Rep_go_order ords) (Rep_go_order orde) n jti until s)"
    using 1(3,4,6) by (auto simp: t memory_ops_def Revoke_insert)
  show ?case
  proof (cases "j = jti")
    case True
    then show ?thesis using 1(1,4) by (simp add: t t' denied_insert)
  next
    case False
    then show ?thesis using 1(1,2) u
      by (simp add: t t' denied_def denylist_insert_keeps)
  qed
next
  case (2 t k jti until t')
  obtain n s where t: "t = (n, s)" by (cases t)
  have "t' = (n, exec_op (Rep_go_order ords) (Rep_go_order orde) n (OpRevoke jti until) s)"
    using 2(4) by (auto simp: t memory_ops_def)
  then show ?case using 2(1,2) exec_op_ok [of "Rep_go_order ords" "Rep_go_order orde" s n "OpRevoke jti until"]
    by (simp add: t)
qed auto

section \<open>Properties\<close>

text \<open>
  Through any sequence of operations, starting from a new store and with any
  iteration order of the map, the denylist never exceeds its capacity of 65536 entries,
  has one entry per id and no entry for the empty id.
\<close>

theorem denylist_bounded:
  assumes "map_order ords" and "map_order orde"
  shows "let s = exec_ops ords orde ops NewMemoryTokenStore in
    length (revoked s) \<le> 65536 \<and> distinct (map fst (revoked s)) \<and> map_of (revoked s) '''' = None"
  using exec_ops_ok [OF assms store_ok_New, of ops]
  by (simp add: Let_def store_ok_def gomap_ok_def NewMemoryTokenStore_def revocationCapacity_def)

theorem denylist_bounded_witness:
  "length (revoked (exec_ops rev (\<lambda>m. m) [(0, OpRevoke ''a'' 5), (1, OpClaim ''b'' 9)] NewMemoryTokenStore)) \<le> 65536"
  using denylist_bounded [of rev "\<lambda>m. m" "[(0, OpRevoke ''a'' 5), (1, OpClaim ''b'' 9)]"]
  by (simp add: Let_def)

lemma denied_sweep:
  "map_order ords \<Longrightarrow> store_ok s \<Longrightarrow> denied (sweepLocked ords now s) now j \<longleftrightarrow> denied s now j"
  by (auto simp: denied_def sweepLocked_lookup store_ok_def split: option.splits)

text \<open>The abstract content: the ids denied at an instant.\<close>

definition denied_set :: "MemoryTokenStore \<Rightarrow> int \<Rightarrow> string set" where
  "denied_set s now = {j. denied s now j}"

text \<open>What an insertion may forget: nothing, or one id when the denylist is full of live ones.\<close>

definition forgets :: "MemoryTokenStore \<Rightarrow> int \<Rightarrow> string set \<Rightarrow> bool" where
  "forgets s now V \<longleftrightarrow> V = {} \<or>
     (\<exists>v u. V = {v} \<and> map_of (revoked s) v = Some u \<and> card (denied_set s now) = capacity s \<and>
        (\<forall>j w. j \<in> denied_set s now \<longrightarrow> map_of (revoked s) j = Some w \<longrightarrow> u \<le> w))"

lemma denied_alist: "denied (s\<lparr>revoked := m\<rparr>) now j \<longleftrightarrow> (\<exists>u. map_of m j = Some u \<and> now < u)"
  by (auto simp: denied_def split: option.splits)

lemma swept_live:
  assumes "map_order ords" and "store_ok s"
  shows "map_of (revoked (sweepLocked ords now s)) j = Some u \<longleftrightarrow>
    map_of (revoked s) j = Some u \<and> now < u"
  using assms by (auto simp: sweepLocked_lookup store_ok_def split: option.splits)

lemma swept_card:
  assumes "map_order ords" and "store_ok s"
  shows "length (revoked (sweepLocked ords now s)) = card (denied_set s now)"
proof -
  let ?m = "revoked (sweepLocked ords now s)"
  have "denied_set s now = dom (map_of ?m)"
    using swept_live [OF assms] by (auto simp: denied_set_def denied_def split: option.splits)
  also have "\<dots> = fst ` set ?m" by (simp add: dom_map_of_conv_image_fst)
  finally have "card (denied_set s now) = card (set (map fst ?m))" by simp
  also have "\<dots> = length ?m"
    using sweepLocked_shape [of s ords now] assms(2) distinct_card [of "map fst ?m"]
    by (simp add: store_ok_def gomap_ok_def)
  finally show ?thesis by simp
qed

lemma insert_refines:
  assumes "map_order ords" and "map_order orde" and "store_ok s" and "now < until"
  shows "\<exists>V. forgets s now V \<and>
    denied_set (denylist_insert ords orde now jti until s) now = insert jti (denied_set s now - V)"
  using assms(1-3)
proof (cases rule: denylist_insert_cases [of ords orde s now jti until])
  case room
  have "denied_set (denylist_insert ords orde now jti until s) now = insert jti (denied_set s now - {})"
    using swept_live [OF assms(1,3), of now] assms(4)
    by (auto simp: denied_set_def room(2) denied_alist gomap_simps denied_def split: if_splits option.splits)
  then show ?thesis by (auto simp: forgets_def)
next
  case (evict v u)
  have f: "forgets s now {v}"
    using evict(1,3,4) swept_live [OF assms(1,3), of now] swept_card [OF assms(1,3), of now]
    by (auto simp: forgets_def denied_set_def denied_def split: option.splits)
  have gm: "gomap_ok (revoked (sweepLocked ords now s))"
    using sweepLocked_shape [of s ords now] assms(3) by (simp add: store_ok_def)
  have "denied_set (denylist_insert ords orde now jti until s) now = insert jti (denied_set s now - {v})"
    using swept_live [OF assms(1,3), of now] assms(4) gm
    by (auto simp: denied_set_def evict(5) denied_alist gomap_simps denied_def split: if_splits option.splits)
  with f show ?thesis by blast
qed

text \<open>
  C6: The store implements a set of denied ids. \<open>Revoked\<close> answers membership and
  changes no membership; \<open>Revoke\<close> adds its id, and \<open>RevokeIfNotRevoked\<close> wins exactly when
  its id is not a member and then adds it; either may at most drop one member, the one
  that expires first, and only when the store is full of live ids.
\<close>

theorem denylist_refines_set:
  assumes "map_order ords" and "map_order orde" and "store_ok s" and "jti \<noteq> ''''" and "now < until"
  shows "(fst (Revoked now jti s) \<longleftrightarrow> jti \<in> denied_set s now) \<and>
    denied_set (snd (Revoked now jti s)) now = denied_set s now \<and>
    (\<exists>V. forgets s now V \<and>
       denied_set (Revoke ords orde now jti until s) now = insert jti (denied_set s now - V)) \<and>
    (fst (RevokeIfNotRevoked ords orde now jti until s) \<longleftrightarrow> jti \<notin> denied_set s now) \<and>
    (\<exists>V. forgets s now V \<and>
       denied_set (snd (RevokeIfNotRevoked ords orde now jti until s)) now = insert jti (denied_set s now - V))"
proof (intro conjI)
  show "fst (Revoked now jti s) \<longleftrightarrow> jti \<in> denied_set s now"
    using assms(4) by (simp add: Revoked_denied denied_set_def)
  show "denied_set (snd (Revoked now jti s)) now = denied_set s now"
    using assms(3) by (simp add: denied_Revoked denied_set_def store_ok_def)
  show "\<exists>V. forgets s now V \<and> denied_set (Revoke ords orde now jti until s) now = insert jti (denied_set s now - V)"
    using insert_refines [OF assms(1-3,5), of jti] assms(4,5) by (simp add: Revoke_insert)
  show "fst (RevokeIfNotRevoked ords orde now jti until s) \<longleftrightarrow> jti \<notin> denied_set s now"
    using assms(4,5) by (simp add: RevokeIfNotRevoked_insert denied_set_def)
  show "\<exists>V. forgets s now V \<and>
      denied_set (snd (RevokeIfNotRevoked ords orde now jti until s)) now = insert jti (denied_set s now - V)"
  proof (cases "denied s now jti")
    case True
    then show ?thesis using assms(4,5)
      by (intro exI [of _ "{}"]) (auto simp: RevokeIfNotRevoked_insert forgets_def denied_set_def)
  next
    case False
    then show ?thesis using insert_refines [OF assms(1-3,5), of jti] assms(4,5)
      by (simp add: RevokeIfNotRevoked_insert)
  qed
qed

theorem denylist_refines_set_witness:
  "fst (Revoked 3 ''a'' NewMemoryTokenStore) \<longleftrightarrow> ''a'' \<in> denied_set NewMemoryTokenStore 3"
  using denylist_refines_set [of "\<lambda>m. m" rev NewMemoryTokenStore "''a''" 3 9] store_ok_New by simp

end
