(* ===== verification/Gorm.thy ===== *)
theory Gorm
  imports Errs
begin

text \<open>
  The repository talks to its database through GORM, which is not part of it. What the
  sources use of a table is the record \<open>table_ops\<close>: a WHERE clause is a predicate on rows,
  every operation may fail, and \<open>'d\<close> is the state of the database. The definitions of the
  other theories take such records as arguments.

  The locale \<open>gorm_table\<close> states the documented behaviour of the operations that
  succeed, over the rows \<open>rows d\<close> of the table that the handle can see. Its instance
  \<open>mem_table\<close> is a table kept as a list.

  Rows are stored as they are given: the ids and timestamps that the database fills in on a
  create are left out, and a handle that hides soft-deleted rows and one that shows them are
  two tables (theories \<open>Setup\<close> and \<open>Assembly\<close> have both).
\<close>

record ('r, 'd) table_ops =
  Find :: "('r \<Rightarrow> bool) \<Rightarrow> 'd \<Rightarrow> goerror + 'r list"
  First :: "('r \<Rightarrow> bool) \<Rightarrow> 'd \<Rightarrow> goerror + 'r"
  Create :: "'r list \<Rightarrow> 'd \<Rightarrow> goerror option \<times> 'd"
  Update :: "('r \<Rightarrow> bool) \<Rightarrow> ('r \<Rightarrow> 'r) \<Rightarrow> 'd \<Rightarrow> (goerror + nat) \<times> 'd"
  Delete :: "('r \<Rightarrow> bool) \<Rightarrow> 'd \<Rightarrow> goerror option \<times> 'd"
  ErrRecordNotFound :: goerror

locale gorm_table =
  fixes ops :: "('r, 'd) table_ops"
    and rows :: "'d \<Rightarrow> 'r list"
  assumes find_law: "Find ops P d = Inr rs \<Longrightarrow> mset rs = mset (filter P (rows d))"
    and first_law: "First ops P d = Inr r \<Longrightarrow> r \<in> set (rows d) \<and> P r"
    and first_none: "First ops P d = Inl e \<Longrightarrow> Is e (ErrRecordNotFound ops) \<Longrightarrow> \<forall>r\<in>set (rows d). \<not> P r"
    and create_law: "Create ops rs d = (None, d') \<Longrightarrow> mset (rows d') = mset (rows d) + mset rs"
    and update_law: "Update ops P f d = (Inr n, d') \<Longrightarrow>
      mset (rows d') = image_mset (\<lambda>r. if P r then f r else r) (mset (rows d)) \<and>
      n = length (filter P (rows d))"
    and delete_law: "Delete ops P d = (None, d') \<Longrightarrow> mset (rows d') = mset (filter (\<lambda>r. \<not> P r) (rows d))"
begin

lemma find_set: "Find ops P d = Inr rs \<Longrightarrow> set rs = {r \<in> set (rows d). P r}"
  using find_law [of P d rs] by (metis filter_set mset_eq_setD set_filter)

lemma create_set: "Create ops rs d = (None, d') \<Longrightarrow> set (rows d') = set (rows d) \<union> set rs"
  using create_law [of rs d d'] by (metis set_mset_mset set_mset_union)

lemma delete_set: "Delete ops P d = (None, d') \<Longrightarrow> set (rows d') = {r \<in> set (rows d). \<not> P r}"
  using delete_law [of P d d'] by (metis mset_eq_setD set_filter)

lemma update_set:
  "Update ops P f d = (Inr n, d') \<Longrightarrow> set (rows d') = (\<lambda>r. if P r then f r else r) ` set (rows d)"
  using update_law [of P f d n d'] by (metis set_image_mset set_mset_mset)

end

subsection \<open>A table kept as a list\<close>

definition notFound :: goerror where
  "notFound = ErrString 300 ''record not found''"

definition mem_table :: "('d \<Rightarrow> 'r list) \<Rightarrow> ('r list \<Rightarrow> 'd \<Rightarrow> 'd) \<Rightarrow> ('r, 'd) table_ops" where
  "mem_table get put =
     \<lparr>Find = (\<lambda>P d. Inr (filter P (get d))),
      First = (\<lambda>P d. case filter P (get d) of [] \<Rightarrow> Inl notFound | r # _ \<Rightarrow> Inr r),
      Create = (\<lambda>rs d. (None, put (get d @ rs) d)),
      Update = (\<lambda>P f d. (Inr (length (filter P (get d))), put (map (\<lambda>r. if P r then f r else r) (get d)) d)),
      Delete = (\<lambda>P d. (None, put (filter (\<lambda>r. \<not> P r) (get d)) d)),
      ErrRecordNotFound = notFound\<rparr>"

lemma mem_table_gorm:
  assumes "\<And>rs d. get (put rs d) = rs"
  shows "gorm_table (mem_table get put) get"
proof (unfold_locales, goal_cases)
  case (2 P d r)
  then obtain xs where "filter P (get d) = r # xs"
    by (auto simp: mem_table_def split: list.splits)
  then have "r \<in> set (filter P (get d))" by (metis list.set_intros(1))
  then show ?case by simp
next
  case (3 P d e)
  then have "filter P (get d) = []" by (simp add: mem_table_def split: list.splits)
  then show ?case by (simp add: filter_empty_conv)
qed (use assms in \<open>auto simp: mem_table_def\<close>)

interpretation list_table: gorm_table "mem_table (\<lambda>d. d) (\<lambda>rs d. rs)" "\<lambda>d. d"
  by (rule mem_table_gorm) simp

text \<open>A read-only table, where every write fails.\<close>

definition replica :: "('d \<Rightarrow> 'r list) \<Rightarrow> ('r, 'd) table_ops" where
  "replica rows =
     \<lparr>Find = (\<lambda>P d. Inr (filter P (rows d))),
      First = (\<lambda>P d. case filter P (rows d) of [] \<Rightarrow> Inl notFound | r # _ \<Rightarrow> Inr r),
      Create = (\<lambda>rs d. (Some notFound, d)), Update = (\<lambda>P f d. (Inl notFound, d)),
      Delete = (\<lambda>P d. (Some notFound, d)), ErrRecordNotFound = notFound\<rparr>"

interpretation replica: gorm_table "replica rows" rows
proof (unfold_locales, goal_cases)
  case (2 P d r)
  then obtain xs where "filter P (rows d) = r # xs" by (auto simp: replica_def split: list.splits)
  then have "r \<in> set (filter P (rows d))" by (metis list.set_intros(1))
  then show ?case by simp
next
  case (3 P d e)
  then have "filter P (rows d) = []" by (simp add: replica_def split: list.splits)
  then show ?case by (simp add: filter_empty_conv)
qed (auto simp: replica_def)

end
