(* ===== verification/Models.thy ===== *)
theory Models
  imports Gorm
begin

text \<open>
  Package \<open>admin/models\<close>: the rows of the admin tables, their hooks, the password rules,
  the menu tree and the role grants. Only the columns the Go code itself reads are
  fields of the records; the descriptive columns it merely stores or copies are kept
  where an operation copies them.
\<close>

subsection \<open>Rows\<close>

definition DefaultTenantID :: string where
  "DefaultTenantID = ''00000000-0000-0000-0000-000000000000''"

record User =
  u_ID :: nat
  u_TenantID :: string
  u_UID :: string
  u_Username :: string
  u_RoleKey :: string
  u_Status :: string
  u_DeptID :: int
  u_Password :: string
  u_Email :: string
  u_Avatar :: string
  u_Gender :: string
  u_Description :: string

record Role =
  r_ID :: nat
  r_TenantID :: string
  r_Key :: string
  r_Name :: string
  r_Status :: string
  r_Builtin :: bool
  r_IsSuper :: bool

record RolePermission =
  rp_TenantID :: string
  rp_RoleKey :: string
  rp_Type :: string
  rp_Data :: string

record Permission =
  p_ID :: nat
  p_Type :: string
  p_Data :: string
  p_Description :: string
  p_Group :: string

record Menu =
  m_ID :: nat
  m_Parent :: string
  m_Name :: string
  m_Component :: string
  m_Uri :: string
  m_ViewPath :: string
  m_Icon :: string
  m_Hidden :: bool
  m_Public :: bool
  m_Sort :: int
  m_Description :: string

record Tenant =
  t_ID :: string
  t_Name :: string
  t_Status :: string
  t_CreatedAt :: int

definition RolePermissionTypeMenu :: string where "RolePermissionTypeMenu = ''menu''"
definition RolePermissionTypePermission :: string where "RolePermissionTypePermission = ''permission''"
definition PermissionTypeAPI :: string where "PermissionTypeAPI = ''api''"
definition PermissionTypeButton :: string where "PermissionTypeButton = ''button''"
definition PermissionTypeData :: string where "PermissionTypeData = ''data_scope''"

lemmas type_names = RolePermissionTypeMenu_def RolePermissionTypePermission_def
  PermissionTypeAPI_def PermissionTypeButton_def PermissionTypeData_def

definition ApplyDefaultTenant :: "string \<Rightarrow> string" where
  "ApplyDefaultTenant tid = (if tid = '''' then DefaultTenantID else tid)"

subsection \<open>Passwords\<close>

text \<open>
  The loop of \<open>CheckPasswordPolicy\<close>. A byte outside ASCII is part of a rune that is
  neither letter nor digit, so looking at bytes gives the answer Go's runes give.
\<close>

fun policy_loop :: "string \<Rightarrow> bool \<Rightarrow> bool \<Rightarrow> (bool \<times> bool) option" where
  "policy_loop [] hasLetter hasDigit = Some (hasLetter, hasDigit)"
| "policy_loop (r # rs) hasLetter hasDigit =
     (let n = of_char r :: nat in
      if (97 \<le> n \<and> n \<le> 122) \<or> (65 \<le> n \<and> n \<le> 90) then policy_loop rs True hasDigit
      else if 48 \<le> n \<and> n \<le> 57 then policy_loop rs hasLetter True
      else None)"

definition CheckPasswordPolicy :: "nat \<Rightarrow> string \<Rightarrow> goerror option" where
  "CheckPasswordPolicy a pwd =
     (if length pwd < 8 \<or> length pwd > 32
        then Some (New a CodeInvalid ''password must be 8-32 characters'')
      else (case policy_loop pwd False False of
              None \<Rightarrow> Some (New a CodeInvalid ''password may only contain letters and digits'')
            | Some (hasLetter, hasDigit) \<Rightarrow>
                if \<not> hasLetter \<or> \<not> hasDigit
                then Some (New a CodeInvalid ''password must contain both letters and digits'')
                else None))"

definition checkPlaintextPasswordPolicy :: "nat \<Rightarrow> User \<Rightarrow> goerror option" where
  "checkPlaintextPasswordPolicy a m =
     (if u_Password m = '''' \<or> HasPrefix (u_Password m) ''$2'' then None
      else CheckPasswordPolicy a (u_Password m))"

text \<open>
  Package \<open>bcrypt\<close> is a parameter: \<open>gen\<close> is \<open>GenerateFromPassword\<close> with the default cost
  and \<open>cmp\<close> says whether \<open>CompareHashAndPassword\<close> returns nil; \<open>sha\<close> is the hex digest
  of SHA-256.
\<close>

definition hashPassword :: "(string \<Rightarrow> goerror + string) \<Rightarrow> string \<Rightarrow> goerror + string" where
  "hashPassword gen pwd =
     (if pwd = '''' \<or> HasPrefix pwd ''$2'' then Inr pwd
      else (case gen pwd of Inl e \<Rightarrow> Inl e | Inr h \<Rightarrow> Inr h))"

definition hashToken :: "(string \<Rightarrow> string) \<Rightarrow> string \<Rightarrow> string" where
  "hashToken sha token = (if token = '''' then '''' else sha token)"

definition User_BeforeCreate :: "(string \<Rightarrow> goerror + string) \<Rightarrow> nat \<Rightarrow> User \<Rightarrow> goerror + User" where
  "User_BeforeCreate gen a m =
     (let m1 = m\<lparr>u_TenantID := ApplyDefaultTenant (u_TenantID m)\<rparr> in
      case checkPlaintextPasswordPolicy a m1 of
        Some e \<Rightarrow> Inl e
      | None \<Rightarrow> (case hashPassword gen (u_Password m1) of
                   Inl e \<Rightarrow> Inl e
                 | Inr hashed \<Rightarrow> Inr (m1\<lparr>u_Password := hashed\<rparr>)))"

definition User_BeforeUpdate :: "(string \<Rightarrow> goerror + string) \<Rightarrow> nat \<Rightarrow> User \<Rightarrow> goerror + User" where
  "User_BeforeUpdate gen a m =
     (case checkPlaintextPasswordPolicy a m of
        Some e \<Rightarrow> Inl e
      | None \<Rightarrow> (case hashPassword gen (u_Password m) of
                   Inl e \<Rightarrow> Inl e
                 | Inr hashed \<Rightarrow> Inr (m\<lparr>u_Password := hashed\<rparr>)))"

definition ValidatePassword :: "(string \<Rightarrow> string \<Rightarrow> bool) \<Rightarrow> User \<Rightarrow> string \<Rightarrow> bool" where
  "ValidatePassword cmp m pwd =
     (if u_Password m = '''' \<or> pwd = '''' then False else cmp (u_Password m) pwd)"

subsection \<open>Facts about passwords\<close>

definition is_letter :: "char \<Rightarrow> bool" where
  "is_letter r \<longleftrightarrow> (let n = of_char r :: nat in (97 \<le> n \<and> n \<le> 122) \<or> (65 \<le> n \<and> n \<le> 90))"

definition is_digit :: "char \<Rightarrow> bool" where
  "is_digit r \<longleftrightarrow> (let n = of_char r :: nat in 48 \<le> n \<and> n \<le> 57)"

lemma policy_loop_eq:
  "policy_loop rs l d =
     (if (\<forall>r\<in>set rs. is_letter r \<or> is_digit r)
      then Some (l \<or> (\<exists>r\<in>set rs. is_letter r), d \<or> (\<exists>r\<in>set rs. is_digit r)) else None)"
  by (induction rs l d rule: policy_loop.induct) (auto simp: Let_def is_letter_def is_digit_def)

lemma CheckPasswordPolicy_iff:
  "CheckPasswordPolicy a pwd = None \<longleftrightarrow>
     8 \<le> length pwd \<and> length pwd \<le> 32 \<and> (\<forall>r\<in>set pwd. is_letter r \<or> is_digit r) \<and>
     (\<exists>r\<in>set pwd. is_letter r) \<and> (\<exists>r\<in>set pwd. is_digit r)"
  by (auto simp: CheckPasswordPolicy_def policy_loop_eq)

lemma User_BeforeCreate_Inr:
  "User_BeforeCreate gen a m = Inr m' \<longleftrightarrow>
     checkPlaintextPasswordPolicy a m = None \<and>
     (\<exists>h. hashPassword gen (u_Password m) = Inr h \<and>
       m' = m\<lparr>u_TenantID := ApplyDefaultTenant (u_TenantID m), u_Password := h\<rparr>)"
  by (auto simp: User_BeforeCreate_def checkPlaintextPasswordPolicy_def Let_def split: option.splits sum.splits)

section \<open>Properties\<close>

text \<open>
  What a created user stores. If the create hook accepts a user, then its tenant is
  set, and either the password was empty, or it already looked like a bcrypt hash and is
  stored as it is, or it satisfies the policy (8 to 32 letters and digits, with at least
  one of each) and what is stored is its bcrypt hash; nothing else of the row changes.
\<close>

theorem created_password:
  assumes "User_BeforeCreate gen a m = Inr m'"
  shows "u_TenantID m' \<noteq> '''' \<and> m' = m\<lparr>u_TenantID := u_TenantID m', u_Password := u_Password m'\<rparr> \<and>
    ((u_Password m = '''' \<or> HasPrefix (u_Password m) ''$2'') \<and> u_Password m' = u_Password m \<or>
     8 \<le> length (u_Password m) \<and> length (u_Password m) \<le> 32 \<and>
     (\<forall>r\<in>set (u_Password m). is_letter r \<or> is_digit r) \<and>
     (\<exists>r\<in>set (u_Password m). is_letter r) \<and> (\<exists>r\<in>set (u_Password m). is_digit r) \<and>
     gen (u_Password m) = Inr (u_Password m'))"
  using assms unfolding User_BeforeCreate_Inr checkPlaintextPasswordPolicy_def hashPassword_def
  by (auto simp: CheckPasswordPolicy_iff ApplyDefaultTenant_def DefaultTenantID_def split: if_splits sum.splits)

definition sample_user :: User where
  "sample_user = \<lparr>u_ID = 0, u_TenantID = '''', u_UID = ''u'', u_Username = ''u'', u_RoleKey = ''r'',
     u_Status = ''enabled'', u_DeptID = 0, u_Password = ''passw0rd'', u_Email = '''', u_Avatar = '''',
     u_Gender = '''', u_Description = ''''\<rparr>"

lemma sample_policy: "CheckPasswordPolicy a ''passw0rd'' = None"
  unfolding CheckPasswordPolicy_iff by code_simp

theorem created_password_witness:
  "\<exists>m'. User_BeforeCreate (\<lambda>p. Inr (''$2a'' @ p)) 900 sample_user = Inr m' \<and>
     u_TenantID m' \<noteq> '''' \<and> u_Password m' = ''$2apassw0rd''"
proof -
  obtain m' where m': "User_BeforeCreate (\<lambda>p. Inr (''$2a'' @ p)) 900 sample_user = Inr m'"
    unfolding User_BeforeCreate_Inr checkPlaintextPasswordPolicy_def hashPassword_def
    by (simp add: sample_user_def sample_policy HasPrefix_def)
  from created_password [OF m'] have "u_TenantID m' \<noteq> ''''" "u_Password m' = ''$2apassw0rd''"
    by (auto simp: sample_user_def HasPrefix_def)
  with m' show ?thesis by blast
qed

text \<open>
  Password round trip. With a bcrypt that accepts the hashes it generates, a user
  created with a non-empty plaintext password validates that password (a plaintext that
  does not already look like a bcrypt hash).
\<close>

theorem password_roundtrip:
  assumes "\<forall>p h. gen p = Inr h \<longrightarrow> h \<noteq> '''' \<and> cmp h p"
    and "User_BeforeCreate gen a m = Inr m'"
    and "u_Password m \<noteq> ''''" and "\<not> HasPrefix (u_Password m) ''$2''"
  shows "ValidatePassword cmp m' (u_Password m)"
  using assms unfolding User_BeforeCreate_Inr hashPassword_def
  by (auto simp: ValidatePassword_def split: sum.splits)

theorem password_roundtrip_witness:
  "\<exists>m'. User_BeforeCreate (\<lambda>p. Inr (''$2a'' @ p)) 900 sample_user = Inr m' \<and>
     ValidatePassword (\<lambda>h p. h = ''$2a'' @ p) m' ''passw0rd''"
proof -
  obtain m' where m': "User_BeforeCreate (\<lambda>p. Inr (''$2a'' @ p)) 900 sample_user = Inr m'"
    unfolding User_BeforeCreate_Inr checkPlaintextPasswordPolicy_def hashPassword_def
    by (simp add: sample_user_def sample_policy HasPrefix_def)
  from password_roundtrip [where cmp = "\<lambda>h p. h = ''$2a'' @ p", OF _ m']
  have "ValidatePassword (\<lambda>h p. h = ''$2a'' @ p) m' ''passw0rd''"
    by (simp add: sample_user_def HasPrefix_def)
  with m' show ?thesis by blast
qed

end
