(* ===== verification/Auth.thy ===== *)
theory Auth
  imports JWT TokenStore Models
begin

text \<open>
  \<open>admin/service/auth.go\<close>, \<open>login_log.go\<close> and \<open>revocation_validator.go\<close>: login, token
  refresh, logout, and the validator that makes a logout take effect in the JWT
  middleware.

  Parameters stand for what is outside the repository: the tables (\<open>Gorm\<close>), the
  signing and parsing of tokens, bcrypt, the generated request validators and the hooks
  an application installs. They are the fields of \<open>auth_env\<close>. The state of a call is
  \<open>auth_state\<close>: the clock (each reading of \<open>time.Now()\<close> takes the next instant), the
  supply of fresh uuids, the token store and the calls made to the login recorder and to
  the \<open>AfterLogin\<close> hook.
\<close>

definition ErrInvalidPassword :: goerror where
  "ErrInvalidPassword = New 201 CodeAccessDenied ''invalid username or password''"
definition ErrUserDisabled :: goerror where
  "ErrUserDisabled = New 202 CodePermissionDenied ''user is disabled''"
definition ErrRoleDisabled :: goerror where
  "ErrRoleDisabled = New 203 CodePermissionDenied ''role is disabled''"
definition ErrRoleNotFound :: goerror where
  "ErrRoleNotFound = New 204 CodePermissionDenied ''role not found''"

definition tokenTypeAccess :: string where "tokenTypeAccess = ''access''"
definition tokenTypeRefresh :: string where "tokenTypeRefresh = ''refresh''"

definition defaultTokenExpireSeconds :: int where "defaultTokenExpireSeconds = 2 * 60 * 60"
definition refreshTokenTTL :: int where "refreshTokenTTL = 48 * 60 * 60"

definition second :: int where "second = 1000000000"

subsection \<open>Requests, responses, log entries\<close>

record LoginRequest =
  lr_Username :: string
  lr_Password :: string

record LoginResponse =
  AccessToken :: string
  RefreshToken_res :: string
  Uid :: string
  Username :: string
  Expires :: int
  TenantId :: string
  TenantName :: string

record RefreshTokenResponse =
  rr_AccessToken :: string
  rr_RefreshToken :: string
  rr_Uid :: string
  rr_Expires :: int

record LogoutRequest =
  lo_AccessToken :: string
  lo_RefreshToken :: string

record LoginLogInfo =
  Success :: bool
  li_UID :: string
  li_TenantID :: string
  li_Username :: string
  li_IP :: string
  li_UserAgent :: string
  li_AccessToken :: string

subsection \<open>Environment and state\<close>

record 't auth_state =
  clock :: "nat \<Rightarrow> int"
  reads :: nat
  uuids :: "nat \<Rightarrow> string"
  drawn :: nat
  store :: 't
  login_log :: "LoginLogInfo list"
  after_login :: "(LoginRequest \<times> LoginResponse) list"

text \<open>
  \<open>sign\<close> is \<open>SignedString\<close> of an HS256 token with the service's secret; \<open>parse\<close> is
  \<open>jwt.ParseWithClaims\<close> with the service's key function, \<open>parse_unvalidated\<close> the parser of
  the revocation validator (HS256 only, no claims validation). A parse that succeeds
  yields the claims and the token's \<open>Valid\<close> flag. \<open>numeric_date\<close> is \<open>jwt.NewNumericDate\<close>.
\<close>

record ('d, 't) auth_env =
  users :: "(User, 'd) table_ops"
  roles :: "(Role, 'd) table_ops"
  has_tenants :: "'d \<Rightarrow> bool"
  tenants :: "(Tenant, 'd) table_ops"
  sign :: "Claims \<Rightarrow> goerror + string"
  parse :: "string \<Rightarrow> goerror + Claims \<times> bool"
  parse_unvalidated :: "string \<Rightarrow> goerror + Claims \<times> bool"
  numeric_date :: "int \<Rightarrow> int"
  bcrypt_ok :: "string \<Rightarrow> string \<Rightarrow> bool"
  validate_login :: "LoginRequest \<Rightarrow> goerror option"
  validate_refresh :: "string \<Rightarrow> goerror option"
  validate_logout :: "LogoutRequest \<Rightarrow> goerror option"
  TokenExpireSeconds :: int
  BeforeLogin :: "(LoginRequest \<Rightarrow> goerror option) option"
  has_AfterLogin :: bool
  has_LoginLogFunc :: bool
  token_ops :: "'t TokenStore option"

text \<open>
  The options of the service and its constructor, which panics without a database
  or a secret (an \<open>Inl\<close> with the panic message); \<open>mk\<close> is the in-memory store that
  replaces a missing one.
\<close>

record ('d, 't) AuthServiceOptions =
  ao_DB :: "'d option"
  ao_TokenExpireSeconds :: int
  ao_TokenStore :: "'t TokenStore option"
  ao_AuthSecret :: string
  ao_BeforeLogin :: "(LoginRequest \<Rightarrow> goerror option) option"
  ao_AfterLogin :: bool
  ao_LoginLogFunc :: bool

definition WithAuthServiceDB :: "'d \<Rightarrow> ('d, 't) AuthServiceOptions \<Rightarrow> ('d, 't) AuthServiceOptions" where
  "WithAuthServiceDB db opts = opts\<lparr>ao_DB := Some db\<rparr>"

definition WithAuthSecret :: "string \<Rightarrow> ('d, 't) AuthServiceOptions \<Rightarrow> ('d, 't) AuthServiceOptions" where
  "WithAuthSecret secret opts = opts\<lparr>ao_AuthSecret := secret\<rparr>"

definition WithTokenExpireSeconds ::
  "int \<Rightarrow> ('d, 't) AuthServiceOptions \<Rightarrow> ('d, 't) AuthServiceOptions" where
  "WithTokenExpireSeconds seconds opts = opts\<lparr>ao_TokenExpireSeconds := seconds\<rparr>"

definition WithTokenStore ::
  "'t TokenStore option \<Rightarrow> ('d, 't) AuthServiceOptions \<Rightarrow> ('d, 't) AuthServiceOptions" where
  "WithTokenStore st opts = opts\<lparr>ao_TokenStore := st\<rparr>"

definition WithBeforeLogin ::
  "(LoginRequest \<Rightarrow> goerror option) option \<Rightarrow> ('d, 't) AuthServiceOptions \<Rightarrow> ('d, 't) AuthServiceOptions" where
  "WithBeforeLogin fn opts = opts\<lparr>ao_BeforeLogin := fn\<rparr>"

definition WithAfterLogin :: "bool \<Rightarrow> ('d, 't) AuthServiceOptions \<Rightarrow> ('d, 't) AuthServiceOptions" where
  "WithAfterLogin present opts = opts\<lparr>ao_AfterLogin := present\<rparr>"

definition WithLoginLogger :: "bool \<Rightarrow> ('d, 't) AuthServiceOptions \<Rightarrow> ('d, 't) AuthServiceOptions" where
  "WithLoginLogger present opts = opts\<lparr>ao_LoginLogFunc := present\<rparr>"

definition NewAuthService ::
  "'t TokenStore \<Rightarrow> (('d, 't) AuthServiceOptions \<Rightarrow> ('d, 't) AuthServiceOptions) list
     \<Rightarrow> string + ('d, 't) AuthServiceOptions" where
  "NewAuthService mk opts =
     (let options = fold (\<lambda>o1 st. o1 st) opts
            \<lparr>ao_DB = None, ao_TokenExpireSeconds = 0, ao_TokenStore = None, ao_AuthSecret = '''',
             ao_BeforeLogin = None, ao_AfterLogin = False, ao_LoginLogFunc = False\<rparr>
      in
      if Option.is_none (ao_DB options) then Inl ''admin: NewAuthService requires WithAuthServiceDB''
      else if ao_AuthSecret options = '''' then Inl ''admin: NewAuthService requires a non-empty WithAuthSecret''
      else
        (let options = (if ao_TokenExpireSeconds options \<le> 0
                        then options\<lparr>ao_TokenExpireSeconds := defaultTokenExpireSeconds\<rparr> else options);
             options = (if Option.is_none (ao_TokenStore options)
                        then options\<lparr>ao_TokenStore := Some mk\<rparr> else options)
         in Inr options))"

definition time_Now :: "'t auth_state \<Rightarrow> int \<times> 't auth_state" where
  "time_Now s = (clock s (reads s), s\<lparr>reads := Suc (reads s)\<rparr>)"

definition NewString :: "'t auth_state \<Rightarrow> string \<times> 't auth_state" where
  "NewString s = (uuids s (drawn s), s\<lparr>drawn := Suc (drawn s)\<rparr>)"

subsection \<open>The service\<close>

definition ttl :: "('d, 't) auth_env \<Rightarrow> int" where
  "ttl e = (if TokenExpireSeconds e > 0 then TokenExpireSeconds e else defaultTokenExpireSeconds)"

text \<open>
  \<open>resolveTenant\<close> reads one row; a scan that finds none leaves both columns empty.
\<close>

definition resolveTenant :: "('d, 't) auth_env \<Rightarrow> 'd \<Rightarrow> string \<Rightarrow> string \<times> string" where
  "resolveTenant e d tenantID =
     (if tenantID = '''' then (tenantID, '''')
      else if \<not> has_tenants e d then (tenantID, '''')
      else (case Find (tenants e) (\<lambda>t. t_ID t = tenantID) d of
              Inl _ \<Rightarrow> (tenantID, '''')
            | Inr [] \<Rightarrow> (tenantID, '''')
            | Inr (row # _) \<Rightarrow> if t_Name row = '''' then (tenantID, '''') else (t_Name row, t_Status row)))"

definition createToken ::
  "('d, 't) auth_env \<Rightarrow> string \<Rightarrow> string \<Rightarrow> string \<Rightarrow> string \<Rightarrow> int \<Rightarrow> 't auth_state
     \<Rightarrow> (goerror + string) \<times> 't auth_state" where
  "createToken e userid role tenantID tokenType ttl_s s =
     (let (now, s1) = time_Now s;
          (jti, s2) = NewString s1;
          cl = \<lparr>Registered = \<lparr>ID = jti,
                   ExpiresAt = Some (numeric_date e (now + int64 (ttl_s * second))),
                   IssuedAt = Some (numeric_date e now), NotBefore = Some (numeric_date e now)\<rparr>,
                UID = userid, Role = role, TenantID = tenantID, TokenType = tokenType\<rparr>
      in (sign e cl, s2))"

text \<open>
  \<open>recordLogin\<close> reads the client address and user agent from the request metadata
  (\<open>ip\<close>, \<open>ua\<close>) and hands one entry to the recorder.
\<close>

definition recordLogin ::
  "('d, 't) auth_env \<Rightarrow> string \<Rightarrow> string \<Rightarrow> LoginRequest \<Rightarrow> bool \<Rightarrow> User option \<Rightarrow> string
     \<Rightarrow> 't auth_state \<Rightarrow> 't auth_state" where
  "recordLogin e ip ua req success userModel token s =
     (if \<not> has_LoginLogFunc e then s
      else
        (let (uid, tid) = (case userModel of None \<Rightarrow> ('''', '''') | Some u \<Rightarrow> (u_UID u, u_TenantID u))
         in s\<lparr>login_log := login_log s @
              [\<lparr>Success = success, li_UID = uid, li_TenantID = tid, li_Username = lr_Username req,
                li_IP = ip, li_UserAgent = ua, li_AccessToken = token\<rparr>]\<rparr>))"

definition tenant_disabled :: "nat \<Rightarrow> goerror" where
  "tenant_disabled a = New a CodePermissionDenied ''tenant is disabled''"

text \<open>The part of \<open>Login\<close> after the status gates: mint the pair, log, run the hook.\<close>

definition issue_tokens ::
  "('d, 't) auth_env \<Rightarrow> string \<Rightarrow> string \<Rightarrow> LoginRequest \<Rightarrow> User \<Rightarrow> string \<Rightarrow> 't auth_state
     \<Rightarrow> (goerror + LoginResponse) \<times> 't auth_state" where
  "issue_tokens e ip ua req u tenantName s =
     (let (r1, s1) = createToken e (u_UID u) (u_RoleKey u) (u_TenantID u) tokenTypeAccess (ttl e) s in
      case r1 of Inl er \<Rightarrow> (Inl er, s1)
      | Inr accessToken \<Rightarrow>
        (let (r2, s2) = createToken e (u_UID u) (u_RoleKey u) (u_TenantID u) tokenTypeRefresh
                          refreshTokenTTL s1 in
         case r2 of Inl er \<Rightarrow> (Inl er, s2)
         | Inr refreshToken \<Rightarrow>
           (let res = \<lparr>AccessToken = accessToken, RefreshToken_res = refreshToken, Uid = u_UID u,
                       Username = u_Username u, Expires = ttl e, TenantId = u_TenantID u,
                       TenantName = tenantName\<rparr>;
                s3 = recordLogin e ip ua req True (Some u) (AccessToken res) s2;
                s4 = (if has_AfterLogin e then s3\<lparr>after_login := after_login s3 @ [(req, res)]\<rparr> else s3)
            in (Inr res, s4))))"

text \<open>\<open>Limit(2)\<close> keeps the first two candidates of the query.\<close>

definition Login ::
  "('d, 't) auth_env \<Rightarrow> nat \<Rightarrow> string \<Rightarrow> string \<Rightarrow> 'd \<Rightarrow> LoginRequest \<Rightarrow> 't auth_state
     \<Rightarrow> (goerror + LoginResponse) \<times> 't auth_state" where
  "Login e a ip ua d req s =
     (let reject = (\<lambda>er u. (Inl er, recordLogin e ip ua req False u '''' s)) in
      case validate_login e req of Some er \<Rightarrow> reject er None
      | None \<Rightarrow>
      (case (case BeforeLogin e of None \<Rightarrow> None | Some f \<Rightarrow> f req) of Some er \<Rightarrow> reject er None
       | None \<Rightarrow>
       (case Find (users e) (\<lambda>u. u_UID u = lr_Username req \<or> u_Username u = lr_Username req) d of
          Inl er \<Rightarrow> reject er None
        | Inr found \<Rightarrow>
          (case take 2 found of
             [u] \<Rightarrow>
               if \<not> ValidatePassword (bcrypt_ok e) u (lr_Password req) then reject ErrInvalidPassword (Some u)
               else if u_Status u = ''disabled'' then reject ErrUserDisabled (Some u)
               else
               (case First (roles e) (\<lambda>r. r_Key r = u_RoleKey u \<and> r_TenantID r = u_TenantID u) d of
                  Inl er \<Rightarrow>
                    if Is er (ErrRecordNotFound (roles e)) then reject ErrRoleNotFound (Some u)
                    else (Inl er, s)
                | Inr role \<Rightarrow>
                    if r_Status role = ''disabled'' then reject ErrRoleDisabled (Some u)
                    else
                    (let (tenantName, tenantStatus) = resolveTenant e d (u_TenantID u) in
                     if tenantStatus = ''disabled'' then reject (tenant_disabled a) (Some u)
                     else issue_tokens e ip ua req u tenantName s))
           | _ \<Rightarrow> reject ErrInvalidPassword None))))"

text \<open>
  The rotation fence of \<open>RefreshToken\<close>: \<open>Inr ()\<close> when the old id was claimed (or the
  fence does not apply), an error otherwise.
\<close>

definition claim_old ::
  "('d, 't) auth_env \<Rightarrow> nat \<Rightarrow> Claims \<Rightarrow> 't auth_state \<Rightarrow> (goerror + unit) \<times> 't auth_state" where
  "claim_old e a cl s =
     (case token_ops e of
        None \<Rightarrow> (Inr (), s)
      | Some ops \<Rightarrow>
          if ID (Registered cl) = '''' then (Inr (), s)
          else
            (let (now, s1) = time_Now s;
                 until = (case ExpiresAt (Registered cl) of
                            None \<Rightarrow> now + int64 (refreshTokenTTL * second) | Some t \<Rightarrow> t);
                 (r, t') = ts_RevokeIfNotRevoked ops (ID (Registered cl)) until (store s1);
                 s2 = s1\<lparr>store := t'\<rparr>
             in case r of
                  Inl er \<Rightarrow> (Inl (FmtWrap a (''claim rotated refresh token: '' @ Error er) [er]), s2)
                | Inr won \<Rightarrow> if \<not> won then (Inl ErrAccessDenied, s2) else (Inr (), s2)))"

definition RefreshToken ::
  "('d, 't) auth_env \<Rightarrow> nat \<Rightarrow> 'd \<Rightarrow> string \<Rightarrow> 't auth_state
     \<Rightarrow> (goerror + RefreshTokenResponse) \<times> 't auth_state" where
  "RefreshToken e a d raw s =
     (case validate_refresh e raw of Some er \<Rightarrow> (Inl er, s)
      | None \<Rightarrow>
      (case parse e raw of Inl er \<Rightarrow> (Inl er, s)
       | Inr (cl, _) \<Rightarrow>
         if TokenType cl \<noteq> tokenTypeRefresh then (Inl ErrAccessDenied, s)
         else
         (case First (users e) (\<lambda>u. u_UID u = UID cl \<and> u_TenantID u = TenantID cl) d of
            Inl er \<Rightarrow> (Inl (if Is er (ErrRecordNotFound (users e)) then ErrAccessDenied else er), s)
          | Inr u \<Rightarrow>
            if u_Status u = ''disabled'' then (Inl ErrUserDisabled, s)
            else
            (case First (roles e) (\<lambda>r. r_Key r = u_RoleKey u \<and> r_TenantID r = u_TenantID u) d of
               Inl er \<Rightarrow> (Inl (if Is er (ErrRecordNotFound (roles e)) then ErrAccessDenied else er), s)
             | Inr role \<Rightarrow>
               if r_Status role = ''disabled'' then (Inl ErrRoleDisabled, s)
               else
               (let (r0, s0) = claim_old e a cl s in
                case r0 of Inl er \<Rightarrow> (Inl er, s0)
                | Inr _ \<Rightarrow>
                (let (r1, s1) = createToken e (u_UID u) (u_RoleKey u) (u_TenantID u) tokenTypeRefresh
                                  refreshTokenTTL s0 in
                 case r1 of Inl er \<Rightarrow> (Inl er, s1)
                 | Inr newRefresh \<Rightarrow>
                 (let (r2, s2) = createToken e (u_UID u) (u_RoleKey u) (u_TenantID u) tokenTypeAccess
                                   (ttl e) s1 in
                  case r2 of Inl er \<Rightarrow> (Inl er, s2)
                  | Inr accessToken \<Rightarrow>
                    (Inr \<lparr>rr_AccessToken = accessToken, rr_RefreshToken = newRefresh,
                          rr_Uid = u_UID u, rr_Expires = ttl e\<rparr>, s2))))))))"

definition revokeToken ::
  "('d, 't) auth_env \<Rightarrow> nat \<Rightarrow> string \<Rightarrow> 't auth_state \<Rightarrow> (goerror + string) \<times> 't auth_state" where
  "revokeToken e a raw s =
     (case parse e raw of
        Inl _ \<Rightarrow> (Inr '''', s)
      | Inr (cl, valid) \<Rightarrow>
          if \<not> valid then (Inr '''', s)
          else
          (case token_ops e of
             None \<Rightarrow> (Inr (UID cl), s)
           | Some ops \<Rightarrow>
             if ID (Registered cl) = '''' then (Inr (UID cl), s)
             else
             (let (now1, s1) = time_Now s;
                  (until, s2) =
                    (case ExpiresAt (Registered cl) of
                       None \<Rightarrow> (now1 + int64 (ttl e * second), s1)
                     | Some t \<Rightarrow>
                         (let (now2, s2) = time_Now s1 in
                          (if t > now2 then t else now1 + int64 (ttl e * second), s2)));
                  (r, t') = ts_Revoke ops (ID (Registered cl)) until (store s2);
                  s3 = s2\<lparr>store := t'\<rparr>
              in case r of
                   Some er \<Rightarrow> (Inl (FmtWrap a (''revoke token: '' @ Error er) [er]), s3)
                 | None \<Rightarrow> (Inr (UID cl), s3))))"

definition Logout ::
  "('d, 't) auth_env \<Rightarrow> nat \<Rightarrow> LogoutRequest \<Rightarrow> 't auth_state
     \<Rightarrow> (goerror + string) \<times> 't auth_state" where
  "Logout e a req s =
     (case validate_logout e req of Some er \<Rightarrow> (Inl er, s)
      | None \<Rightarrow>
        if lo_AccessToken req = '''' \<and> lo_RefreshToken req = ''''
          then (Inl (New a CodeInvalid ''access_token or refresh_token required''), s)
        else
        (let (r1, s1) = (if lo_AccessToken req \<noteq> '''' then revokeToken e a (lo_AccessToken req) s
                         else (Inr '''', s)) in
         case r1 of Inl er \<Rightarrow> (Inl er, s1)
         | Inr uid \<Rightarrow>
           if lo_RefreshToken req \<noteq> '''' then
             (let (r2, s2) = revokeToken e a (lo_RefreshToken req) s1 in
              case r2 of Inl er \<Rightarrow> (Inl er, s2) | Inr _ \<Rightarrow> (Inr uid, s2))
           else (Inr uid, s1)))"

text \<open>\<open>RevocationValidator.Validate\<close>; \<open>ops\<close> is \<open>None\<close> for a nil validator or store.\<close>

definition Validate ::
  "('d, 't) auth_env \<Rightarrow> string \<Rightarrow> 't \<Rightarrow> goerror option \<times> 't" where
  "Validate e raw t =
     (case token_ops e of
        None \<Rightarrow> (None, t)
      | Some ops \<Rightarrow>
          if raw = '''' then (None, t)
          else
          (case parse_unvalidated e raw of
             Inl _ \<Rightarrow> (None, t)
           | Inr (cl, valid) \<Rightarrow>
               if \<not> valid then (None, t)
               else if TokenType cl = tokenTypeRefresh then (Some ErrAccessDenied, t)
               else if ID (Registered cl) \<noteq> '''' then
                 (let (r, t') = ts_Revoked ops (ID (Registered cl)) t in
                  case r of
                    Inl _ \<Rightarrow> (Some ErrAccessDenied, t')
                  | Inr rv \<Rightarrow> if rv then (Some ErrAccessDenied, t') else (None, t'))
               else (None, t)))"

subsection \<open>Login\<close>

lemma take2_single: "take 2 xs = [x] \<longleftrightarrow> xs = [x]"
  by (cases xs; cases "tl xs") (auto simp: take_Cons')

lemma recordLogin_cases:
  "login_log (recordLogin e ip ua req ok u tok s) =
     login_log s @ (if has_LoginLogFunc e then
       [\<lparr>Success = ok, li_UID = (case u of None \<Rightarrow> '''' | Some m \<Rightarrow> u_UID m),
         li_TenantID = (case u of None \<Rightarrow> '''' | Some m \<Rightarrow> u_TenantID m),
         li_Username = lr_Username req, li_IP = ip, li_UserAgent = ua, li_AccessToken = tok\<rparr>] else [])"
  "store (recordLogin e ip ua req ok u tok s) = store s"
  by (auto simp: recordLogin_def split: option.splits)

lemma createToken_log [simp]:
  "createToken e uid r t ty n s = (x, s') \<Longrightarrow> login_log s' = login_log s"
  "createToken e uid r t ty n s = (x, s') \<Longrightarrow> store s' = store s"
  by (auto simp: createToken_def time_Now_def NewString_def)

text \<open>What a token minted for a user asserts.\<close>

definition claims_of :: "Claims \<Rightarrow> User \<Rightarrow> string \<Rightarrow> bool" where
  "claims_of cl u ty \<longleftrightarrow> UID cl = u_UID u \<and> Role cl = u_RoleKey u \<and> TenantID cl = u_TenantID u \<and>
     TokenType cl = ty"

lemma createToken_claims:
  assumes "createToken e (u_UID u) (u_RoleKey u) (u_TenantID u) ty n s = (Inr tok, s')"
  shows "\<exists>cl. sign e cl = Inr tok \<and> claims_of cl u ty \<and>
    ID (Registered cl) = uuids s (drawn s) \<and>
    ExpiresAt (Registered cl) = Some (numeric_date e (clock s (reads s) + int64 (n * second)))"
  using assms by (auto simp: createToken_def time_Now_def NewString_def claims_of_def intro!: exI)

lemma issue_tokens_success:
  assumes "issue_tokens e ip ua req u nm s = (Inr res, s')"
  shows "\<exists>ca cr. sign e ca = Inr (AccessToken res) \<and> sign e cr = Inr (RefreshToken_res res) \<and>
    claims_of ca u tokenTypeAccess \<and> claims_of cr u tokenTypeRefresh"
    and "Uid res = u_UID u" "TenantId res = u_TenantID u" "Expires res = ttl e"
proof -
  from assms obtain tok s1 where a:
    "createToken e (u_UID u) (u_RoleKey u) (u_TenantID u) tokenTypeAccess (ttl e) s = (Inr tok, s1)"
    by (auto simp: issue_tokens_def split: prod.splits sum.splits)
  with assms obtain rtok s2 where r:
    "createToken e (u_UID u) (u_RoleKey u) (u_TenantID u) tokenTypeRefresh refreshTokenTTL s1 = (Inr rtok, s2)"
    by (auto simp: issue_tokens_def split: prod.splits sum.splits)
  have res: "AccessToken res = tok" "RefreshToken_res res = rtok" "Uid res = u_UID u"
    "TenantId res = u_TenantID u" "Expires res = ttl e"
    using assms a r by (auto simp: issue_tokens_def Let_def)
  from createToken_claims [OF a] createToken_claims [OF r] res(1,2)
  show "\<exists>ca cr. sign e ca = Inr (AccessToken res) \<and> sign e cr = Inr (RefreshToken_res res) \<and>
    claims_of ca u tokenTypeAccess \<and> claims_of cr u tokenTypeRefresh" by blast
  show "Uid res = u_UID u" "TenantId res = u_TenantID u" "Expires res = ttl e" by (fact res)+
qed

text \<open>The gates of \<open>Login\<close>, as one predicate on the database and the request.\<close>

definition login_gates :: "('d, 't) auth_env \<Rightarrow> 'd \<Rightarrow> LoginRequest \<Rightarrow> User \<Rightarrow> Role \<Rightarrow> bool" where
  "login_gates e d req u role \<longleftrightarrow>
     validate_login e req = None \<and>
     (case BeforeLogin e of None \<Rightarrow> None | Some f \<Rightarrow> f req) = None \<and>
     Find (users e) (\<lambda>v. u_UID v = lr_Username req \<or> u_Username v = lr_Username req) d = Inr [u] \<and>
     ValidatePassword (bcrypt_ok e) u (lr_Password req) \<and>
     u_Status u \<noteq> ''disabled'' \<and>
     First (roles e) (\<lambda>r. r_Key r = u_RoleKey u \<and> r_TenantID r = u_TenantID u) d = Inr role \<and>
     r_Status role \<noteq> ''disabled'' \<and>
     snd (resolveTenant e d (u_TenantID u)) \<noteq> ''disabled''"

lemma Login_pass:
  "login_gates e d req u role \<Longrightarrow>
     Login e a ip ua d req s = issue_tokens e ip ua req u (fst (resolveTenant e d (u_TenantID u))) s"
  unfolding Login_def login_gates_def
  by (cases "resolveTenant e d (u_TenantID u)") (simp add: Let_def)

lemma Login_success_gates:
  assumes "Login e a ip ua d req s = (Inr res, s')"
  shows "\<exists>u role. login_gates e d req u role \<and>
    issue_tokens e ip ua req u (fst (resolveTenant e d (u_TenantID u))) s = (Inr res, s')"
proof -
  from assms have v: "validate_login e req = None"
    and b: "(case BeforeLogin e of None \<Rightarrow> None | Some f \<Rightarrow> f req) = None"
    by (auto simp: Login_def Let_def split: option.splits)
  from assms v b obtain found where
    f: "Find (users e) (\<lambda>v. u_UID v = lr_Username req \<or> u_Username v = lr_Username req) d = Inr found"
    unfolding Login_def Let_def
    by (cases "Find (users e) (\<lambda>v. u_UID v = lr_Username req \<or> u_Username v = lr_Username req) d") auto
  from assms v b f obtain u where u: "take 2 found = [u]"
    unfolding Login_def Let_def by (auto split: list.splits)
  then have fu: "found = [u]" by (simp add: take2_single)
  from assms v b f u have p: "ValidatePassword (bcrypt_ok e) u (lr_Password req)" "u_Status u \<noteq> ''disabled''"
    unfolding Login_def Let_def by (auto split: if_splits)
  from assms v b f u p obtain role where
    r: "First (roles e) (\<lambda>r. r_Key r = u_RoleKey u \<and> r_TenantID r = u_TenantID u) d = Inr role"
    unfolding Login_def Let_def by (auto split: sum.splits if_splits)
  from assms v b f u p r have g: "login_gates e d req u role"
    unfolding Login_def Let_def login_gates_def by (auto simp: fu split: if_splits prod.splits)
  with assms show ?thesis by (auto simp: Login_pass)
qed

text \<open>
  The audit trail: when the role lookup fails only by finding nothing and signing
  works, each attempt leaves exactly one entry, marked with its outcome.
\<close>

lemma issue_tokens_logged:
  assumes "has_LoginLogFunc e" and "\<And>cl. is_ok (sign e cl)"
  shows "\<exists>i. login_log (snd (issue_tokens e ip ua req u nm s)) = login_log s @ [i] \<and> Success i \<and>
    is_ok (fst (issue_tokens e ip ua req u nm s)) \<and> li_Username i = lr_Username req"
proof -
  have sg: "\<exists>t. sign e cl = Inr t" for cl using assms(2) [of cl] by (cases "sign e cl") auto
  obtain r1 s1 where a: "createToken e (u_UID u) (u_RoleKey u) (u_TenantID u) tokenTypeAccess (ttl e) s = (r1, s1)"
    by fastforce
  obtain r2 s2 where b:
    "createToken e (u_UID u) (u_RoleKey u) (u_TenantID u) tokenTypeRefresh refreshTokenTTL s1 = (r2, s2)"
    by fastforce
  obtain t1 t2 where "r1 = Inr t1" "r2 = Inr t2"
    using a b sg by (auto simp: createToken_def time_Now_def NewString_def) metis
  then show ?thesis using assms(1) a b createToken_log(1) [OF a] createToken_log(1) [OF b]
    by (simp add: issue_tokens_def Let_def recordLogin_cases)
qed

lemma reject_logged:
  assumes "has_LoginLogFunc e"
  shows "\<exists>i. login_log (recordLogin e ip ua req False u '''' s) = login_log s @ [i] \<and>
    \<not> Success i \<and> li_AccessToken i = '''' \<and> li_Username i = lr_Username req"
  using assms by (simp add: recordLogin_cases)

text \<open>A rejected attempt: its result and the single entry it leaves.\<close>

definition rejection ::
  "('d, 't) auth_env \<Rightarrow> string \<Rightarrow> string \<Rightarrow> LoginRequest \<Rightarrow> 't auth_state
     \<Rightarrow> (goerror + LoginResponse) \<times> 't auth_state \<Rightarrow> bool" where
  "rejection e ip ua req s out \<longleftrightarrow> (\<exists>er u. out = (Inl er, recordLogin e ip ua req False u '''' s))"

lemma Login_cases:
  assumes "\<And>P er. First (roles e) P d = Inl er \<Longrightarrow> Is er (ErrRecordNotFound (roles e))"
  shows "rejection e ip ua req s (Login e a ip ua d req s) \<or>
    (\<exists>u role. login_gates e d req u role)"
proof (rule disjCI)
  assume n: "\<nexists>u role. login_gates e d req u role"
  let ?P = "\<lambda>v. u_UID v = lr_Username req \<or> u_Username v = lr_Username req"
  show "rejection e ip ua req s (Login e a ip ua d req s)"
  proof (cases "validate_login e req = None \<and> (case BeforeLogin e of None \<Rightarrow> None | Some f \<Rightarrow> f req) = None")
    case False
    then show ?thesis by (auto simp: Login_def Let_def rejection_def split: option.splits)
  next
    case vb: True
    show ?thesis
    proof (cases "\<exists>u. Find (users e) ?P d = Inr [u]")
      case False
      then show ?thesis using vb
        unfolding Login_def Let_def rejection_def
        by (auto simp: take2_single split: sum.splits list.splits)
    next
      case True
      then obtain u where f: "Find (users e) ?P d = Inr [u]" by blast
      let ?R = "First (roles e) (\<lambda>r. r_Key r = u_RoleKey u \<and> r_TenantID r = u_TenantID u) d"
      obtain tn ts where rt: "resolveTenant e d (u_TenantID u) = (tn, ts)" by fastforce
      have "?R = Inr role \<Longrightarrow> \<not> ValidatePassword (bcrypt_ok e) u (lr_Password req) \<or>
          u_Status u = ''disabled'' \<or> r_Status role = ''disabled'' \<or> ts = ''disabled''" for role
        using n vb f rt by (auto simp: login_gates_def)
      then show ?thesis using vb f rt assms
        unfolding Login_def Let_def rejection_def by (auto split: sum.splits)
    qed
  qed
qed

subsection \<open>Refresh\<close>

lemma claim_old_frame:
  "claim_old e a cl s = (r, s') \<Longrightarrow> clock s' = clock s \<and> uuids s' = uuids s \<and> drawn s' = drawn s"
  by (auto simp: claim_old_def time_Now_def Let_def split: option.splits if_splits sum.splits prod.splits)

definition refresh_gates :: "('d, 't) auth_env \<Rightarrow> 'd \<Rightarrow> string \<Rightarrow> Claims \<Rightarrow> User \<Rightarrow> Role \<Rightarrow> bool" where
  "refresh_gates e d raw cl u role \<longleftrightarrow>
     validate_refresh e raw = None \<and> (\<exists>v. parse e raw = Inr (cl, v)) \<and> TokenType cl = tokenTypeRefresh \<and>
     First (users e) (\<lambda>u. u_UID u = UID cl \<and> u_TenantID u = TenantID cl) d = Inr u \<and>
     u_Status u \<noteq> ''disabled'' \<and>
     First (roles e) (\<lambda>r. r_Key r = u_RoleKey u \<and> r_TenantID r = u_TenantID u) d = Inr role \<and>
     r_Status role \<noteq> ''disabled''"

text \<open>The part of \<open>RefreshToken\<close> after its gates.\<close>

definition rotate ::
  "('d, 't) auth_env \<Rightarrow> nat \<Rightarrow> Claims \<Rightarrow> User \<Rightarrow> 't auth_state
     \<Rightarrow> (goerror + RefreshTokenResponse) \<times> 't auth_state" where
  "rotate e a cl u s =
     (let (r0, s0) = claim_old e a cl s in
      case r0 of Inl er \<Rightarrow> (Inl er, s0)
      | Inr _ \<Rightarrow>
      (let (r1, s1) = createToken e (u_UID u) (u_RoleKey u) (u_TenantID u) tokenTypeRefresh refreshTokenTTL s0 in
       case r1 of Inl er \<Rightarrow> (Inl er, s1)
       | Inr newRefresh \<Rightarrow>
       (let (r2, s2) = createToken e (u_UID u) (u_RoleKey u) (u_TenantID u) tokenTypeAccess (ttl e) s1 in
        case r2 of Inl er \<Rightarrow> (Inl er, s2)
        | Inr accessToken \<Rightarrow>
          (Inr \<lparr>rr_AccessToken = accessToken, rr_RefreshToken = newRefresh,
                rr_Uid = u_UID u, rr_Expires = ttl e\<rparr>, s2))))"

lemma RefreshToken_pass:
  "refresh_gates e d raw cl u role \<Longrightarrow> RefreshToken e a d raw s = rotate e a cl u s"
  unfolding refresh_gates_def RefreshToken_def rotate_def by (elim conjE exE) simp

lemma RefreshToken_fail:
  "\<nexists>cl u role. refresh_gates e d raw cl u role \<Longrightarrow> \<exists>er. RefreshToken e a d raw s = (Inl er, s)"
  unfolding refresh_gates_def RefreshToken_def
  by (auto split: option.splits sum.splits prod.splits)

lemma rotate_success:
  assumes "rotate e a cl u s = (Inr res, s')"
  shows "\<exists>s0. claim_old e a cl s = (Inr (), s0) \<and> store s' = store s0"
    and "\<exists>ca cr. sign e ca = Inr (rr_AccessToken res) \<and> sign e cr = Inr (rr_RefreshToken res) \<and>
      claims_of ca u tokenTypeAccess \<and> claims_of cr u tokenTypeRefresh"
    and "rr_Uid res = u_UID u"
proof -
  from assms obtain s0 where c: "claim_old e a cl s = (Inr (), s0)"
    by (auto simp: rotate_def split: prod.splits sum.splits)
  with assms obtain rtok s1 where r:
    "createToken e (u_UID u) (u_RoleKey u) (u_TenantID u) tokenTypeRefresh refreshTokenTTL s0 = (Inr rtok, s1)"
    by (auto simp: rotate_def split: prod.splits sum.splits)
  with assms c obtain tok s2 where t:
    "createToken e (u_UID u) (u_RoleKey u) (u_TenantID u) tokenTypeAccess (ttl e) s1 = (Inr tok, s2)"
    by (auto simp: rotate_def split: prod.splits sum.splits)
  have res: "res = \<lparr>rr_AccessToken = tok, rr_RefreshToken = rtok, rr_Uid = u_UID u, rr_Expires = ttl e\<rparr>"
    "s' = s2" using assms c r t by (auto simp: rotate_def)
  show "\<exists>s0. claim_old e a cl s = (Inr (), s0) \<and> store s' = store s0"
    using c res(2) createToken_log(2) [OF r] createToken_log(2) [OF t] by auto
  show "\<exists>ca cr. sign e ca = Inr (rr_AccessToken res) \<and> sign e cr = Inr (rr_RefreshToken res) \<and>
      claims_of ca u tokenTypeAccess \<and> claims_of cr u tokenTypeRefresh"
    using createToken_claims [OF r] createToken_claims [OF t] res(1) by auto
  show "rr_Uid res = u_UID u" using res(1) by simp
qed

lemma RefreshToken_success:
  assumes "RefreshToken e a d raw s = (Inr res, s')"
  shows "\<exists>cl u role. refresh_gates e d raw cl u role \<and> rotate e a cl u s = (Inr res, s')"
proof (cases "\<exists>cl u role. refresh_gates e d raw cl u role")
  case True
  then show ?thesis using assms RefreshToken_pass by metis
next
  case False
  then show ?thesis using assms RefreshToken_fail [of e d raw a s] by auto
qed

subsection \<open>Sessions over a token store\<close>

text \<open>
  The authentication service as a client of the \<open>TokenStore\<close> contract: a refresh token
  is redeemed once, and a logout is effective at once.
\<close>

locale auth_service = roomy_store ops now den inv room
  for ops :: "'t TokenStore" and now den inv room +
  fixes e :: "('d, 't) auth_env"
  assumes wired: "token_ops e = Some ops"
begin

lemma claim_old_denies:
  assumes "inv (store s)" and "ID (Registered cl) \<noteq> ''''"
    and "ExpiresAt (Registered cl) = Some t" and "t > now (store s)"
    and "claim_old e a cl s = (Inr (), s')"
  shows "inv (store s') \<and> now (store s') = now (store s) \<and> den (store s') (ID (Registered cl)) \<and>
    \<not> den (store s) (ID (Registered cl))"
proof -
  obtain r t' where c: "ts_RevokeIfNotRevoked ops (ID (Registered cl)) t (store s) = (r, t')" by fastforce
  with assms(2,3,5) have "r = Inr True" "store s' = t'"
    by (auto simp: claim_old_def wired time_Now_def Let_def split: sum.splits if_splits)
  with claim_law [OF assms(1,2,4)] c show ?thesis by auto
qed

lemma claim_old_denied:
  assumes "inv (store s)" and "ID (Registered cl) \<noteq> ''''"
    and "ExpiresAt (Registered cl) = Some t" and "t > now (store s)"
    and "den (store s) (ID (Registered cl))"
  shows "\<exists>er s'. claim_old e a cl s = (Inl er, s')"
  using claim_old_denies [OF assms(1-4)] assms(5)
  by (cases "claim_old e a cl s"; cases "fst (claim_old e a cl s)") fastforce+

text \<open>A denied refresh token is refused, whatever the database says by then.\<close>

lemma refresh_denied:
  assumes "inv (store s)" and "parse e raw = Inr (cl, v)" and "ID (Registered cl) \<noteq> ''''"
    and "ExpiresAt (Registered cl) = Some t" and "t > now (store s)"
    and "den (store s) (ID (Registered cl))"
  shows "\<exists>er. fst (RefreshToken e a d raw s) = Inl er"
proof (cases "\<exists>cl' u role. refresh_gates e d raw cl' u role")
  case True
  then obtain cl' u role where g: "refresh_gates e d raw cl' u role" by blast
  then have "cl' = cl" using assms(2) by (auto simp: refresh_gates_def)
  moreover obtain er s' where "claim_old e a cl s = (Inl er, s')"
    using claim_old_denied [OF assms(1,3-6)] by blast
  ultimately show ?thesis using g by (simp add: RefreshToken_pass rotate_def)
next
  case False
  then show ?thesis using RefreshToken_fail [of e d raw a s] by auto
qed

lemma refresh_denies:
  assumes "inv (store s)" and "parse e raw = Inr (cl, v)" and "ID (Registered cl) \<noteq> ''''"
    and "ExpiresAt (Registered cl) = Some t" and "t > now (store s)"
    and "RefreshToken e a d raw s = (Inr res, s')"
  shows "inv (store s') \<and> now (store s') = now (store s) \<and> den (store s') (ID (Registered cl)) \<and>
    \<not> den (store s) (ID (Registered cl))"
proof -
  obtain cl' u role where g: "refresh_gates e d raw cl' u role" and r: "rotate e a cl' u s = (Inr res, s')"
    using RefreshToken_success [OF assms(6)] by blast
  then have "cl' = cl" using assms(2) by (auto simp: refresh_gates_def)
  with rotate_success(1) [OF r] obtain s0 where "claim_old e a cl s = (Inr (), s0)" "store s' = store s0"
    by blast
  with claim_old_denies [OF assms(1,3-5)] show ?thesis by metis
qed

lemma refresh_once:
  assumes "inv (store s)" and "parse e raw = Inr (cl, v)" and "ID (Registered cl) \<noteq> ''''"
    and "ExpiresAt (Registered cl) = Some t" and "t > now (store s)"
    and "RefreshToken e a d raw s = (Inr res, s')" and "store s'' = store s'"
  shows "\<exists>er. fst (RefreshToken e a' d' raw s'') = Inl er"
proof -
  have "inv (store s'')" "now (store s'') = now (store s)" "den (store s'') (ID (Registered cl))"
    using refresh_denies [OF assms(1-6)] assms(7) by auto
  with refresh_denied [OF _ assms(2-4)] assms(5) show ?thesis by auto
qed

text \<open>The validator of the JWT middleware rejects denied ids and every refresh token.\<close>

lemma Validate_denied:
  assumes "inv t" and "raw \<noteq> ''''" and "parse_unvalidated e raw = Inr (cl, True)"
    and "ID (Registered cl) \<noteq> ''''" and "den t (ID (Registered cl))"
  shows "fst (Validate e raw t) = Some ErrAccessDenied"
proof -
  obtain r t' where r: "ts_Revoked ops (ID (Registered cl)) t = (r, t')" by fastforce
  then have "\<And>b. r = Inr b \<Longrightarrow> b" using revoked_law [OF assms(1,4)] assms(5) by auto
  then show ?thesis using assms r by (auto simp: Validate_def wired Let_def split: sum.splits)
qed

lemma revokeToken_denies:
  assumes "inv (store s)" and "room (Suc k) (store s)" and "\<forall>i. now (store s) \<le> clock s i"
    and "0 < int64 (ttl e * second)"
    and "revokeToken e a raw s = (Inr uid, s')"
  shows "inv (store s') \<and> room k (store s') \<and> now (store s') = now (store s) \<and> clock s' = clock s \<and>
    (\<forall>j. den (store s) j \<longrightarrow> den (store s') j) \<and>
    (\<forall>cl. parse e raw = Inr (cl, True) \<and> ID (Registered cl) \<noteq> '''' \<longrightarrow> den (store s') (ID (Registered cl)))"
proof (cases "\<exists>cl. parse e raw = Inr (cl, True) \<and> ID (Registered cl) \<noteq> ''''")
  case False
  then have "s' = s" using assms(5)
    by (auto simp: revokeToken_def wired split: sum.splits prod.splits if_splits)
  then show ?thesis using False assms(1) room_mono [OF assms(2)] by auto
next
  case True
  then obtain cl where cl: "parse e raw = Inr (cl, True)" "ID (Registered cl) \<noteq> ''''" by blast
  obtain until s2 where u: "(case ExpiresAt (Registered cl) of
       None \<Rightarrow> (clock s (reads s) + int64 (ttl e * second), s\<lparr>reads := Suc (reads s)\<rparr>)
     | Some t \<Rightarrow> (if t > clock s (Suc (reads s)) then t else clock s (reads s) + int64 (ttl e * second),
                  s\<lparr>reads := Suc (Suc (reads s))\<rparr>)) = (until, s2)" by fastforce
  have s2: "store s2 = store s" "clock s2 = clock s" using u by (auto split: option.splits)
  have "now (store s) < until"
    using u assms(4) spec [OF assms(3), of "reads s"] spec [OF assms(3), of "Suc (reads s)"]
    by (simp split: option.splits if_splits)
  obtain r t' where r: "ts_Revoke ops (ID (Registered cl)) until (store s) = (r, t')" by fastforce
  have "r = None" "store s' = t'" "clock s' = clock s"
    using assms(5) cl u r s2
    by (auto simp: revokeToken_def wired time_Now_def Let_def split: option.splits if_splits)
  then show ?thesis using revoke_law [OF assms(1) cl(2) \<open>now (store s) < until\<close>]
      keep_law [OF assms(1,2) cl(2) \<open>now (store s) < until\<close>] room_law [OF assms(1,2) cl(2)] r cl(1)
    by auto
qed

text \<open>
  After a logout every presented token that was still valid and carries an id is
  rejected by the validator.
\<close>

lemma logout_effective:
  assumes "inv (store s)" and "room 2 (store s)" and "\<forall>i. now (store s) \<le> clock s i"
    and "0 < int64 (ttl e * second)"
    and "Logout e a req s = (Inr uid, s')"
    and "raw \<in> {lo_AccessToken req, lo_RefreshToken req}" and "raw \<noteq> ''''"
    and "parse e raw = Inr (cl, True)" and "ID (Registered cl) \<noteq> ''''"
    and "parse_unvalidated e raw = Inr (cl, True)"
  shows "fst (Validate e raw (store s')) = Some ErrAccessDenied"
proof -
  let ?A = "lo_AccessToken req" and ?R = "lo_RefreshToken req" and ?j = "ID (Registered cl)"
  obtain u1 s1 where r1: "(if ?A \<noteq> '''' then revokeToken e a ?A s else (Inr '''', s)) = (Inr u1, s1)"
    using assms(5) by (auto simp: Logout_def Let_def split: option.splits if_splits prod.splits sum.splits)
  have s1: "inv (store s1) \<and> room (Suc 0) (store s1) \<and> (\<forall>i. now (store s1) \<le> clock s1 i) \<and>
      (?A = raw \<longrightarrow> den (store s1) ?j)"
  proof (cases "?A = ''''")
    case True
    then show ?thesis using r1 assms(1,3,7) room_mono [of "Suc 0" "store s"] assms(2)
      by (auto simp: numeral_2_eq_2)
  next
    case False
    then show ?thesis
      using revokeToken_denies [OF assms(1) assms(2) [unfolded numeral_2_eq_2] assms(3,4)] r1 assms(3,8,9)
      by auto
  qed
  have "inv (store s') \<and> den (store s') ?j"
  proof (cases "?R = ''''")
    case True
    then have "s' = s1" using assms(5) r1
      by (auto simp: Logout_def Let_def split: option.splits if_splits)
    then show ?thesis using True s1 assms(6,7) by auto
  next
    case False
    then obtain u2 where "revokeToken e a ?R s1 = (Inr u2, s')" using assms(5) r1
      by (auto simp: Logout_def Let_def split: option.splits if_splits prod.splits sum.splits)
    then show ?thesis using revokeToken_denies [of s1 0 a ?R u2 s'] s1 assms(4,6,8,9) by auto
  qed
  then show ?thesis using Validate_denied assms(7,9,10) by blast
qed

end

text \<open>The service as \<open>NewAuthService\<close> builds it by default, over the in-memory store.\<close>

type_synonym mem_store = "int \<times> MemoryTokenStore"

definition mem_env ::
  "(string, int) go_order \<Rightarrow> (string, int) go_order \<Rightarrow> ('d, mem_store) auth_env \<Rightarrow> ('d, mem_store) auth_env" where
  "mem_env ords orde e = e\<lparr>token_ops := Some (memory_ops ords orde)\<rparr>"

interpretation mem_auth: auth_service "memory_ops ords orde" fst
  "\<lambda>(n, s) jti. denied s n jti" "\<lambda>(n, s). store_ok s"
  "\<lambda>k (n, s). length (revoked s) + k \<le> capacity s" "mem_env ords orde e"
  for ords orde :: "(string, int) go_order" and e :: "('d, mem_store) auth_env"
  by unfold_locales (simp add: mem_env_def)

lemma claim_old_window:
  assumes "store_ok st" and "store s = (n, st)" and "ID (Registered cl) \<noteq> ''''"
    and "ExpiresAt (Registered cl) = Some t" and "n < t"
    and "claim_old (mem_env ords orde e) a cl s = (Inr (), s')"
  shows "store s' = (n, denylist_insert (Rep_go_order ords) (Rep_go_order orde) n (ID (Registered cl)) t st)"
  using assms
  by (auto simp: claim_old_def mem_env_def memory_ops_def time_Now_def RevokeIfNotRevoked_insert Let_def
      split: if_splits sum.splits)

lemma mem_env_parse [simp]: "parse (mem_env ords orde e) = parse e"
  "parse_unvalidated (mem_env ords orde e) = parse_unvalidated e"
  "ttl (mem_env ords orde e) = ttl e"
  by (simp_all add: mem_env_def ttl_def)

lemma refresh_window:
  assumes "store_ok st" and "store s = (n, st)" and "parse e raw = Inr (cl, v)"
    and "ID (Registered cl) \<noteq> ''''" and "ExpiresAt (Registered cl) = Some t" and "n < t"
    and "RefreshToken (mem_env ords orde e) a d raw s = (Inr res, s')"
  shows "\<exists>st'. store s' = (n, st') \<and> store_ok st' \<and> map_of (revoked st') (ID (Registered cl)) = Some t"
proof -
  obtain cl' u role where g: "refresh_gates (mem_env ords orde e) d raw cl' u role"
    and r: "rotate (mem_env ords orde e) a cl' u s = (Inr res, s')"
    using RefreshToken_success [OF assms(7)] by blast
  then have "cl' = cl" using assms(3) by (auto simp: refresh_gates_def)
  with rotate_success(1) [OF r] obtain s0 where
    c: "claim_old (mem_env ords orde e) a cl s = (Inr (), s0)" and "store s' = store s0" by blast
  then show ?thesis using claim_old_window [OF assms(1,2,4-6) c] assms(1,4) by (simp add: denylist_insert_ok denylist_insert_lookup)
qed

lemma issue_tokens_store: "store (snd (issue_tokens e ip ua req u nm s)) = store s"
proof -
  obtain r1 s1 where a: "createToken e (u_UID u) (u_RoleKey u) (u_TenantID u) tokenTypeAccess (ttl e) s = (r1, s1)"
    by fastforce
  obtain r2 s2 where b:
    "createToken e (u_UID u) (u_RoleKey u) (u_TenantID u) tokenTypeRefresh refreshTokenTTL s1 = (r2, s2)"
    by fastforce
  show ?thesis using createToken_log(2) [OF a] createToken_log(2) [OF b]
    by (simp add: issue_tokens_def a b Let_def recordLogin_cases split: sum.splits)
qed

subsection \<open>The validator hook of the middleware\<close>

record 't tok_env = env +
  denylist :: 't

text \<open>The \<open>Validate\<close> hook of the middleware, as \<open>NewRevocationValidator\<close> wires it.\<close>

definition revocation_hook ::
  "('d, 't) auth_env \<Rightarrow> 'c \<Rightarrow> string \<Rightarrow> 't tok_env \<Rightarrow> goerror option \<times> 't tok_env" where
  "revocation_hook e c raw s = (case Validate e raw (denylist s) of (er, t') \<Rightarrow> (er, s\<lparr>denylist := t'\<rparr>))"

lemma JWT_validator_rejects:
  assumes "\<not> on_allowlist opts (request_md s c)" and "md_Has (request_md s c) authorizationKey"
    and "validate opts = Some v" and "v c (bearer_token (request_md s c)) s = (Some er, s')"
  shows "JWT lib opts nxt c s = (Some er, s')"
  using assms by (simp add: JWT_protected)

lemma revocation_hook_rejects:
  "fst (Validate e raw (denylist s)) = Some er \<Longrightarrow> \<exists>s'. revocation_hook e c raw s = (Some er, s')"
  by (auto simp: revocation_hook_def split: prod.splits)

subsection \<open>The windows a logout opens\<close>

text \<open>
  What revoking the raw token \<open>raw\<close> may do to the in-memory store at the instant \<open>n\<close>:
  at most one operation, which denies the id of the parsed token, and until \<open>t\<close> when the
  token expires at \<open>t\<close>.
\<close>

definition revokes :: "('d, mem_store) auth_env \<Rightarrow> string \<Rightarrow> int \<Rightarrow> int \<Rightarrow> (int \<times> store_op) list \<Rightarrow> bool" where
  "revokes e raw n t ops \<longleftrightarrow> length ops \<le> 1 \<and>
     (\<forall>(\<tau>, op)\<in>set ops. \<tau> = n \<and> (\<exists>cl until. parse e raw = Inr (cl, True) \<and>
        op = OpRevoke (ID (Registered cl)) until \<and> (ExpiresAt (Registered cl) = Some t \<longrightarrow> until = t))) \<and>
     (\<forall>cl. raw \<noteq> '''' \<longrightarrow> parse e raw = Inr (cl, True) \<longrightarrow> ID (Registered cl) \<noteq> '''' \<longrightarrow>
        (\<exists>until. (n, OpRevoke (ID (Registered cl)) until) \<in> set ops))"

lemma revokes_optional:
  assumes "store s = (n, st)" and "clock s (Suc (reads s)) < t"
    and "(if raw \<noteq> '''' then revokeToken (mem_env ords orde e) a raw s else (Inr '''', s)) = (Inr uid, s')"
  shows "\<exists>ops. revokes e raw n t ops \<and> store s' = (n, exec_ops (Rep_go_order ords) (Rep_go_order orde) ops st) \<and>
    clock s' = clock s \<and> reads s \<le> reads s' \<and> reads s' \<le> reads s + 2"
proof (cases "raw \<noteq> '''' \<and> (\<exists>cl. parse e raw = Inr (cl, True) \<and> ID (Registered cl) \<noteq> '''')")
  case False
  then have "s' = s" using assms(3)
    by (auto simp: revokeToken_def mem_env_def split: sum.splits prod.splits if_splits)
  then show ?thesis using False assms(1) by (intro exI [of _ "[]"]) (auto simp: revokes_def)
next
  case True
  then obtain cl where cl: "raw \<noteq> ''''" "parse e raw = Inr (cl, True)" "ID (Registered cl) \<noteq> ''''" by blast
  define until where "until = (case ExpiresAt (Registered cl) of
       None \<Rightarrow> clock s (reads s) + int64 (ttl e * second)
     | Some t \<Rightarrow> if t > clock s (Suc (reads s)) then t else clock s (reads s) + int64 (ttl e * second))"
  have "store s' = (n, Revoke (Rep_go_order ords) (Rep_go_order orde) n (ID (Registered cl)) until st)"
    and "clock s' = clock s" and "reads s \<le> reads s'" and "reads s' \<le> reads s + 2"
    using assms cl
    by (auto simp: revokeToken_def memory_ops_def time_Now_def Let_def until_def mem_env_def ttl_def
        split: option.splits if_splits)
  then show ?thesis using cl assms(2)
    by (intro exI [of _ "[(n, OpRevoke (ID (Registered cl)) until)]"]) (auto simp: until_def revokes_def)
qed

text \<open>\<open>Logout\<close> on the in-memory store: the operations of the two presented tokens in turn.\<close>

lemma Logout_revokes:
  assumes "store s = (n, st)" and "Logout (mem_env ords orde e) a req s = (Inr uid, s')"
    and "\<forall>i\<in>{reads s..<reads s + 4}. clock s i < t"
  shows "\<exists>o1 o2. revokes e (lo_AccessToken req) n t o1 \<and> revokes e (lo_RefreshToken req) n t o2 \<and>
    store s' = (n, exec_ops (Rep_go_order ords) (Rep_go_order orde) (o1 @ o2) st)"
proof -
  let ?A = "lo_AccessToken req" and ?R = "lo_RefreshToken req" and ?E = "mem_env ords orde e"
  obtain u1 s1 u2 where r1: "(if ?A \<noteq> '''' then revokeToken ?E a ?A s else (Inr '''', s)) = (Inr u1, s1)"
    and r2: "(if ?R \<noteq> '''' then revokeToken ?E a ?R s1 else (Inr '''', s1)) = (Inr u2, s')"
    using assms(2) by (auto simp: Logout_def Let_def split: option.splits if_splits prod.splits sum.splits)
  have c: "clock s (Suc (reads s)) < t" using assms(3) by simp
  obtain o1 where o1: "revokes e ?A n t o1"
      "store s1 = (n, exec_ops (Rep_go_order ords) (Rep_go_order orde) o1 st)"
      "clock s1 = clock s" "reads s \<le> reads s1" "reads s1 \<le> reads s + 2"
    using revokes_optional [OF assms(1) c r1] by blast
  have c1: "clock s1 (Suc (reads s1)) < t" using assms(3) o1(3-5) by simp
  show ?thesis using revokes_optional [OF o1(2) c1 r2] o1(1) by (auto simp: exec_ops_append)
qed

text \<open>
  The window of a presented token after \<open>Logout\<close>: its id is denied until its expiry,
  provided the other presented token does not carry the same id with another expiry.
\<close>

lemma revoked_window:
  assumes "store_ok st" and "length (revoked st) + 2 \<le> capacity st" and "n < t"
    and "revokes e r1 n t o1" and "revokes e r2 n t o2"
    and "raw \<in> {r1, r2}" and "raw \<noteq> ''''" and "parse e raw = Inr (cl, True)" and "ID (Registered cl) \<noteq> ''''"
    and "\<forall>r\<in>{r1, r2}. \<forall>cl'. parse e r = Inr (cl', True) \<longrightarrow>
      ID (Registered cl') = ID (Registered cl) \<longrightarrow> ExpiresAt (Registered cl') = Some t"
  shows "map_of (revoked (exec_ops (Rep_go_order ords) (Rep_go_order orde) (o1 @ o2) st)) (ID (Registered cl)) = Some t"
proof -
  let ?j = "ID (Registered cl)"
  have keep: "\<forall>(\<tau>, op)\<in>set (o1 @ o2). \<tau> < t \<and> keeps_window ?j t op"
    using assms(3-5,10) by (fastforce simp: revokes_def)
  have "\<exists>until. (n, OpRevoke ?j until) \<in> set (o1 @ o2)" using assms(4-9) by (auto simp: revokes_def)
  then obtain until where mem: "(n, OpRevoke ?j until) \<in> set (o1 @ o2)" by blast
  then have u: "until = t" using bspec [OF keep mem] by simp
  obtain xs ys where split: "o1 @ o2 = xs @ (n, OpRevoke ?j t) # ys"
    using split_list [OF mem] u by blast
  have len: "length xs + Suc (length ys) \<le> 2"
    using arg_cong [OF split, of length] assms(4,5) by (simp add: revokes_def)
  let ?ex = "exec_ops (Rep_go_order ords) (Rep_go_order orde)"
  let ?s1 = "exec_op (Rep_go_order ords) (Rep_go_order orde) n (OpRevoke ?j t) (?ex xs st)"
  have s0: "store_ok (?ex xs st)" "capacity (?ex xs st) = capacity st"
    using exec_ops_ok [OF _ _ assms(1)] by simp_all
  have "length (revoked (?ex xs st)) \<le> length (revoked st) + length xs"
    using exec_ops_length [OF _ _ assms(1)] by simp
  moreover note exec_op_ok [OF _ _ s0(1), of "Rep_go_order ords" "Rep_go_order orde" n "OpRevoke ?j t"]
  moreover have "map_of (revoked ?s1) ?j = Some t"
    using denylist_insert_lookup [OF _ _ s0(1)] assms(3,9) by (simp add: Revoke_insert)
  ultimately have "map_of (revoked (?ex ys ?s1)) ?j = Some t"
    using keep split s0(2) len assms(2) by (intro exec_ops_window) auto
  then show ?thesis by (simp add: split exec_ops_append)
qed

end
