(* ===== verification/Demo.thy ===== *)
theory Demo
  imports Auth
begin

text \<open>
  Concrete values on which the properties are evaluated: a database with one tenant, one
  role and one user, a toy token format (the claims written out as a string), and an
  authentication service over the in-memory token store.
\<close>

record demo_db =
  db_users :: "User list"
  db_roles :: "Role list"
  db_tenants :: "Tenant list"

definition demo_user :: User where
  "demo_user = \<lparr>u_ID = 1, u_TenantID = ''t1'', u_UID = ''u1'', u_Username = ''ann'', u_RoleKey = ''admin'',
     u_Status = ''enabled'', u_DeptID = 0, u_Password = ''h'', u_Email = '''', u_Avatar = '''',
     u_Gender = '''', u_Description = ''''\<rparr>"

definition demo_role :: Role where
  "demo_role = \<lparr>r_ID = 1, r_TenantID = ''t1'', r_Key = ''admin'', r_Name = ''Admin'',
     r_Status = ''enabled'', r_Builtin = False, r_IsSuper = False\<rparr>"

definition demo_tenant :: Tenant where
  "demo_tenant = \<lparr>t_ID = ''t1'', t_Name = ''T'', t_Status = ''enabled'', t_CreatedAt = 0\<rparr>"

definition demo_database :: demo_db where
  "demo_database = \<lparr>db_users = [demo_user], db_roles = [demo_role], db_tenants = [demo_tenant]\<rparr>"

text \<open>Two tokens: \<open>''A''\<close> is an access token with id \<open>''a1''\<close>, \<open>''R''\<close> a refresh token with id \<open>''r1''\<close>.\<close>

definition demo_claims :: "string \<Rightarrow> string \<Rightarrow> Claims" where
  "demo_claims jti ty = \<lparr>Registered = \<lparr>ID = jti, ExpiresAt = Some 100, IssuedAt = Some 0, NotBefore = Some 0\<rparr>,
     UID = ''u1'', Role = ''admin'', TenantID = ''t1'', TokenType = ty\<rparr>"

definition demo_parse :: "string \<Rightarrow> goerror + Claims \<times> bool" where
  "demo_parse raw =
     (if raw = ''A'' then Inr (demo_claims ''a1'' ''access'', True)
      else if raw = ''R'' then Inr (demo_claims ''r1'' ''refresh'', True)
      else Inl (ErrString 301 ''token is malformed''))"

definition demo_auth :: "(demo_db, 't) auth_env" where
  "demo_auth =
     \<lparr>users = mem_table db_users (\<lambda>rs d. d\<lparr>db_users := rs\<rparr>),
      roles = mem_table db_roles (\<lambda>rs d. d\<lparr>db_roles := rs\<rparr>),
      has_tenants = (\<lambda>d. True),
      tenants = mem_table db_tenants (\<lambda>rs d. d\<lparr>db_tenants := rs\<rparr>),
      sign = (\<lambda>cl. Inr (TokenType cl @ ID (Registered cl))),
      parse = demo_parse, parse_unvalidated = demo_parse, numeric_date = (\<lambda>t. t),
      bcrypt_ok = (\<lambda>h p. h = ''h'' \<and> p = ''pw''),
      validate_login = (\<lambda>r. None), validate_refresh = (\<lambda>r. None), validate_logout = (\<lambda>r. None),
      TokenExpireSeconds = 0, BeforeLogin = None, has_AfterLogin = True, has_LoginLogFunc = True,
      token_ops = None\<rparr>"

definition list_order :: "(string, int) go_order" where
  "list_order = Abs_go_order (\<lambda>m. m)"

lemma Rep_list_order [simp]: "Rep_go_order list_order = (\<lambda>m. m)"
  by (simp add: list_order_def Abs_go_order_inverse)

definition demo_state :: "mem_store auth_state" where
  "demo_state = \<lparr>clock = (\<lambda>i. 10), reads = 0, uuids = (\<lambda>i. ''id'' @ replicate i (CHR ''x'')), drawn = 0,
     store = (10, NewMemoryTokenStore), login_log = [], after_login = []\<rparr>"

lemmas demo_defs = demo_user_def demo_role_def demo_tenant_def demo_database_def demo_claims_def
  demo_parse_def demo_auth_def demo_state_def mem_table_def mem_env_def memory_ops_def
  NewMemoryTokenStore_def

definition demo_request :: "string \<Rightarrow> string \<Rightarrow> mem_store \<Rightarrow> mem_store tok_env" where
  "demo_request path token t =
     \<lparr>heap = [md_Set RequestPath path (md_Set authorizationKey (''Bearer '' @ token) md_New)], denylist = t\<rparr>"

definition demo_ctx :: actx where
  "demo_ctx = \<lparr>metadataKey = Some 0, authKey = None\<rparr>"

definition demo_jwt ::
  "(string, int) go_order \<Rightarrow> (string, int) go_order \<Rightarrow> (mem_store tok_env, actx) jwt_options" where
  "demo_jwt ords orde = \<lparr>allows = [''/login''], claims = Some True,
     validate = Some (revocation_hook (mem_env ords orde demo_auth)), permissionChecker = None\<rparr>"

definition demo_lib :: jwt_lib where
  "demo_lib = \<lparr>ParseWithClaims = (\<lambda>raw. case demo_parse raw of Inl er \<Rightarrow> Inl (er, None)
       | Inr (cl, v) \<Rightarrow> Inr \<lparr>Valid = v, tClaims = StructClaims (Some cl)\<rparr>),
     Parse = (\<lambda>raw. Inl (ErrString 301 ''token is malformed'', None)),
     ErrTokenMalformed = ErrString 301 ''token is malformed'', ErrTokenUnverifiable = ErrString 302 '''',
     ErrTokenNotValidYet = ErrString 303 '''', ErrTokenExpired_jwt = ErrString 304 ''''\<rparr>"

lemma demo_request_md:
  "request_md (demo_request path token t) demo_ctx =
     md_Set RequestPath path (md_Set authorizationKey (''Bearer '' @ token) md_New)"
  by (simp add: request_md_def demo_request_def demo_ctx_def FromContext_def)

lemma demo_request_facts:
  "md_Has (request_md (demo_request ''/x'' ''A'' t) demo_ctx) authorizationKey"
  "bearer_token (request_md (demo_request ''/x'' ''A'' t) demo_ctx) = ''A''"
  "bearer_token (request_md (demo_request ''/x'' ''R'' t) demo_ctx) = ''R''"
  "md_Has (request_md (demo_request ''/x'' ''R'' t) demo_ctx) authorizationKey"
  "md_Get (request_md (demo_request ''/x'' ''R'' t) demo_ctx) RequestPath = (''/x'', True)"
  "md_Get (request_md (demo_request ''/x'' ''A'' t) demo_ctx) RequestPath = (''/x'', True)"
  unfolding demo_request_md by code_simp+

lemma demo_protected:
  "\<not> on_allowlist (demo_jwt ords orde) (request_md (demo_request ''/x'' ''R'' t) demo_ctx)"
  "\<not> on_allowlist (demo_jwt ords orde) (request_md (demo_request ''/x'' ''A'' t) demo_ctx)"
  by (simp_all add: on_allowlist_def demo_jwt_def demo_request_facts)

lemma demo_tables:
  "gorm_table (users demo_auth) db_users" "gorm_table (roles demo_auth) db_roles"
  by (simp_all add: demo_auth_def mem_table_gorm)

end
