(* ===== verification/RateLimit.thy ===== *)
theory RateLimit
  imports Complex_Main JWT "HOL-Library.Log_Nat"
begin

text \<open>
  \<open>middleware/auth/rate_limit.go\<close> and \<open>rate_limit_memory.go\<close>: the rate-limit middleware
  and its in-memory token-bucket limiter.

  A \<open>float64\<close> is the rational number it denotes. Every float operation of the source is
  the exact operation followed by \<open>rnd\<close>, the rounding of IEEE 754 (infinities and NaN
  are left out: they need refill rates beyond \<open>10^290\<close>). The definitions take \<open>rnd\<close> as
  an argument; \<open>round64\<close> below is round-to-nearest-even to 53 bits, and the laws the
  lemmas need of a rounding are the locales \<open>rounding\<close> and \<open>float_rounding\<close>, which \<open>round64\<close> satisfies. A compiler that fuses a
  product and a sum rounds once where the model rounds twice.

  Instants and durations are nanoseconds. The limiter's clock, injectable in the source,
  is the argument \<open>now\<close>.
\<close>

subsection \<open>Rounding of float64\<close>

definition log2_floor :: "rat \<Rightarrow> int" where
  "log2_floor x =
     (let (p, q) = quotient_of x;
          k = int (floorlog 2 (nat p)) - int (floorlog 2 (nat q))
      in if 2 powi k \<le> x then k else k - 1)"

definition ulp :: "rat \<Rightarrow> rat" where
  "ulp x = 2 powi (max (- 1074) (log2_floor x - 52))"

text \<open>Round to the nearest integer, ties to even.\<close>

definition round_even :: "rat \<Rightarrow> int" where
  "round_even x =
     (let f = \<lfloor>x\<rfloor>; d = x - of_int f in
      if d < 1 / 2 then f else if d > 1 / 2 then f + 1 else if even f then f else f + 1)"

definition round64 :: "rat \<Rightarrow> rat" where
  "round64 x =
     (if x = 0 then 0
      else if x > 0 then of_int (round_even (x / ulp x)) * ulp x
      else - (of_int (round_even (- x / ulp (- x))) * ulp (- x)))"

subsection \<open>The limiter\<close>

record tokenBucket =
  tokens :: rat
  lastRefill :: int

record memoryLimiter =
  ml_capacity :: int
  refill :: rat
  buckets :: "(string, tokenBucket) gomap"

definition NewMemoryLimiter :: "int \<Rightarrow> rat \<Rightarrow> string + memoryLimiter" where
  "NewMemoryLimiter cap rf =
     (if cap \<le> 0 then Inl ''middleware/auth: NewMemoryLimiter requires capacity > 0''
      else if rf \<le> 0 then Inl ''middleware/auth: NewMemoryLimiter requires refill > 0''
      else Inr \<lparr>ml_capacity = cap, refill = rf, buckets = []\<rparr>)"

text \<open>\<open>time.Duration.Seconds\<close>: whole seconds plus the fraction, in floats.\<close>

definition Seconds :: "(rat \<Rightarrow> rat) \<Rightarrow> int \<Rightarrow> rat" where
  "Seconds rnd d =
     (let sec = sgn d * (\<bar>d\<bar> div 1000000000); nsec = sgn d * (\<bar>d\<bar> mod 1000000000)
      in rnd (rnd (of_int sec) + rnd (rnd (of_int nsec) / 1000000000)))"

text \<open>Conversion of a float to an integer type truncates toward zero.\<close>

definition float_to_int :: "rat \<Rightarrow> int" where
  "float_to_int x = (if x < 0 then - \<lfloor>- x\<rfloor> else \<lfloor>x\<rfloor>)"

text \<open>The bucket brought up to date at \<open>now\<close>; a missing bucket starts full.\<close>

definition refreshed :: "(rat \<Rightarrow> rat) \<Rightarrow> memoryLimiter \<Rightarrow> int \<Rightarrow> string \<Rightarrow> tokenBucket" where
  "refreshed rnd l now key =
     (case map_of (buckets l) key of
        None \<Rightarrow> \<lparr>tokens = rnd (of_int (ml_capacity l)), lastRefill = now\<rparr>
      | Some b \<Rightarrow>
          (let elapsed = Seconds rnd (now - lastRefill b) in
           if elapsed > 0
           then b\<lparr>tokens := min (rnd (of_int (ml_capacity l))) (rnd (tokens b + rnd (elapsed * refill l))),
                  lastRefill := now\<rparr>
           else b))"

definition Allow ::
  "(rat \<Rightarrow> rat) \<Rightarrow> int \<Rightarrow> string \<Rightarrow> memoryLimiter \<Rightarrow> (bool \<times> int) \<times> memoryLimiter" where
  "Allow rnd now key l =
     (let b = refreshed rnd l now key in
      if tokens b \<ge> 1
      then ((True, 0),
            l\<lparr>buckets := AList.update key (b\<lparr>tokens := rnd (tokens b - 1)\<rparr>) (buckets l)\<rparr>)
      else (let deficit = rnd (1 - tokens b);
                retryAfter = float_to_int (rnd (rnd (deficit / refill l) * 1000000000))
            in ((False, retryAfter), l\<lparr>buckets := AList.update key b (buckets l)\<rparr>)))"

text \<open>
  One tick of the janitor goroutine, at instant \<open>now\<close>: the loop visits the buckets in
  the order \<open>it\<close>.
\<close>

fun janitor_loop :: "int \<Rightarrow> int \<Rightarrow> (string \<times> tokenBucket) list \<Rightarrow> (string, tokenBucket) gomap
    \<Rightarrow> (string, tokenBucket) gomap" where
  "janitor_loop idle now [] m = m"
| "janitor_loop idle now ((k, b) # it) m =
     janitor_loop idle now it (if now - lastRefill b > idle then AList.delete k m else m)"

definition janitor_tick :: "int \<Rightarrow> int \<Rightarrow> (string \<times> tokenBucket) list \<Rightarrow> memoryLimiter \<Rightarrow> memoryLimiter" where
  "janitor_tick idle now it l = l\<lparr>buckets := janitor_loop idle now it (buckets l)\<rparr>"

definition limiter_size :: "memoryLimiter \<Rightarrow> nat" where
  "limiter_size l = length (buckets l)"

text \<open>The idle window \<open>NewMemoryLimiter\<close> starts the janitor with: five minutes.\<close>

definition idle_window :: int where
  "idle_window = 5 * 60 * 1000000000"

subsection \<open>The middleware\<close>

text \<open>
  \<open>itoa\<close> on an \<open>int64\<close>: negating the least value leaves it unchanged, as two's
  complement negation does. The digits are written from the end of a buffer of 20 bytes.
\<close>

function itoa_loop :: "int \<Rightarrow> string \<Rightarrow> string" where
  "itoa_loop n b =
     (if n > 0 then itoa_loop (n div 10) (char_of (48 + nat (n mod 10)) # b) else b)"
  by pat_completeness auto
termination
  by (relation "measure (\<lambda>(n, b). nat n)") auto

declare itoa_loop.simps [simp del]

definition neg64 :: "int \<Rightarrow> int" where
  "neg64 n = (if n = - (2 ^ 63) then n else - n)"

definition itoa :: "int \<Rightarrow> string" where
  "itoa n =
     (if n = 0 then ''0''
      else (let neg = n < 0; m = (if neg then neg64 n else n); b = itoa_loop m []
            in if neg then CHR ''-'' # b else b))"

text \<open>\<open>Duration.Round(time.Second)\<close>: to the nearest second, halves away from zero.\<close>

definition round_second :: "int \<Rightarrow> int" where
  "round_second d =
     (if d \<ge> 0 then (d + 500000000) div 1000000000 else - ((- d + 500000000) div 1000000000))"

definition publishRetryAfter ::
  "'a ctx_scheme \<Rightarrow> int \<Rightarrow> 'z env_scheme \<Rightarrow> 'z env_scheme" where
  "publishRetryAfter c retryAfter s =
     s\<lparr>heap := fst (ctx_Set (heap s) c ''Retry-After'' (itoa (max (round_second retryAfter) 1)))\<rparr>"

definition claim_str :: "(string, any_value) gomap \<Rightarrow> string \<Rightarrow> string option" where
  "claim_str mc k = (case map_of mc k of Some (StrVal v) \<Rightarrow> Some v | _ \<Rightarrow> None)"

definition key_user :: "jclaims option \<Rightarrow> string" where
  "key_user cl =
     (case cl of Some (MapClaims mc) \<Rightarrow>
        (case claim_str mc ''uid'' of
           Some v \<Rightarrow> if v \<noteq> '''' then v else (case claim_str mc ''sub'' of Some v' \<Rightarrow> v' | None \<Rightarrow> '''')
         | None \<Rightarrow> (case claim_str mc ''sub'' of Some v' \<Rightarrow> v' | None \<Rightarrow> ''''))
      | _ \<Rightarrow> '''')"

definition key_tenant :: "jclaims option \<Rightarrow> string" where
  "key_tenant cl =
     (case cl of Some (MapClaims mc) \<Rightarrow>
        (case claim_str mc ''tid'' of Some v \<Rightarrow> v | None \<Rightarrow> '''') | _ \<Rightarrow> '''')"

definition expandKey :: "'z env_scheme \<Rightarrow> 'a actx_scheme \<Rightarrow> string \<Rightarrow> string" where
  "expandKey s c tmpl =
     (let ip = fst (ctx_Get (heap s) c RequestClientIP);
          path = fst (ctx_Get (heap s) c RequestPath);
          user = key_user (auth_FromContext c);
          tenant = key_tenant (auth_FromContext c);
          out1 = ReplaceAll tmpl ''{ip}'' ip;
          out2 = ReplaceAll out1 ''{user}'' user;
          out3 = ReplaceAll out2 ''{tenant}'' tenant
      in ReplaceAll out3 ''{path}'' path)"

text \<open>
  A \<open>Limiter\<close> is an interface: a call may fail, may change the limiter's state, and
  reports whether the key is admitted and when to retry.
\<close>

type_synonym 's Limiter = "string \<Rightarrow> 's \<Rightarrow> (goerror + bool \<times> int) \<times> 's"

record 's RateLimitOpts =
  rl_Path :: string
  rl_Keys :: "string list"
  rl_Capacity :: int
  rl_Refill :: rat
  rl_Limiter :: "'s Limiter option"

text \<open>
  The loop over the key templates. \<open>a\<close> is the address of the error value a rejection
  allocates and \<open>dur_str\<close> prints a duration (\<open>%s\<close> of a \<open>time.Duration\<close>).
\<close>

fun key_loop ::
  "(int \<Rightarrow> string) \<Rightarrow> nat \<Rightarrow> 'z env_scheme Limiter \<Rightarrow> 'a actx_scheme \<Rightarrow> string list
     \<Rightarrow> 'z env_scheme \<Rightarrow> goerror option \<times> 'z env_scheme" where
  "key_loop dur_str a lmt c [] s = (None, s)"
| "key_loop dur_str a lmt c (tmpl # keys) s =
     (let key = expandKey s c tmpl; (r, s1) = lmt key s in
      case r of
        Inl err \<Rightarrow> (Some (Wrap a CodeInternal err), s1)
      | Inr (allowed, retryAfter) \<Rightarrow>
          if \<not> allowed then
            (let s2 = (if retryAfter > 0 then publishRetryAfter c retryAfter s1 else s1) in
             (Some (Newf (\<lambda>m xs. m @ concat xs) a CodeTooManyAttempts
                      ''too many attempts, retry after '' [dur_str retryAfter]), s2))
          else key_loop dur_str a lmt c keys s1)"

definition rate_limit_handler ::
  "(int \<Rightarrow> string) \<Rightarrow> nat \<Rightarrow> 'z env_scheme RateLimitOpts \<Rightarrow> 'z env_scheme Limiter
     \<Rightarrow> ('z env_scheme, 'a actx_scheme) Middleware" where
  "rate_limit_handler dur_str a opts lmt nxt c s =
     (let path = fst (ctx_Get (heap s) c RequestPath) in
      if \<not> isAllowed path [rl_Path opts] then nxt c s
      else (case key_loop dur_str a lmt c (rl_Keys opts) s of
              (Some e, s1) \<Rightarrow> (Some e, s1)
            | (None, s1) \<Rightarrow> nxt c s1))"

text \<open>
  \<open>RateLimit\<close> panics on a bad configuration. With no limiter configured it builds the
  in-memory one; the closure owns it, so the state it runs on is extended by the
  limiter and the clock it reads. The second component is the limiter to start with.
\<close>

record renv = env +
  limiter :: memoryLimiter
  wall :: int

definition memory_Limiter :: "(rat \<Rightarrow> rat) \<Rightarrow> 'z renv_scheme Limiter" where
  "memory_Limiter rnd key s =
     (let ((allowed, retryAfter), l) = Allow rnd (wall s) key (limiter s)
      in (Inr (allowed, retryAfter), s\<lparr>limiter := l\<rparr>))"

definition RateLimit ::
  "(rat \<Rightarrow> rat) \<Rightarrow> (int \<Rightarrow> string) \<Rightarrow> nat \<Rightarrow> 'z renv_scheme RateLimitOpts
     \<Rightarrow> string + ('z renv_scheme, 'a actx_scheme) Middleware \<times> memoryLimiter option" where
  "RateLimit rnd dur_str a opts =
     (if rl_Capacity opts \<le> 0 then Inl ''middleware/auth: RateLimit requires Capacity > 0''
      else if rl_Refill opts \<le> 0 then Inl ''middleware/auth: RateLimit requires Refill > 0''
      else if rl_Path opts = '''' then Inl ''middleware/auth: RateLimit requires a non-empty Path''
      else if length (rl_Keys opts) = 0
        then Inl ''middleware/auth: RateLimit requires at least one key template''
      else (case rl_Limiter opts of
              Some l \<Rightarrow> Inr (rate_limit_handler dur_str a opts l, None)
            | None \<Rightarrow>
                (case NewMemoryLimiter (rl_Capacity opts) (rl_Refill opts) of
                   Inl msg \<Rightarrow> Inl msg
                 | Inr l \<Rightarrow> Inr (rate_limit_handler dur_str a opts (memory_Limiter rnd), Some l))))"

subsection \<open>Laws of the rounding\<close>


lemma floorlog_rat:
  assumes "n > 0"
  shows "(2::rat) powi (int (floorlog 2 n) - 1) \<le> of_nat n" and "of_nat n < (2::rat) powi int (floorlog 2 n)"
proof -
  define k where "k = floorlog 2 n"
  have b: "2 ^ (k - 1) \<le> n" "n < 2 ^ k"
    using floorlog_bounds [of n 2] assms by (simp_all add: k_def)
  have "k > 0" using assms by (simp add: k_def floorlog_def)
  then have k: "int k - 1 = int (k - 1)" by simp
  have "of_nat (2 ^ (k - 1)) \<le> (of_nat n :: rat)" using b(1) by (simp only: of_nat_le_iff)
  then show "(2::rat) powi (int (floorlog 2 n) - 1) \<le> of_nat n"
    unfolding k_def [symmetric] k by simp
  have "of_nat n < (of_nat (2 ^ k) :: rat)" using b(2) by (simp only: of_nat_less_iff)
  then show "of_nat n < (2::rat) powi int (floorlog 2 n)"
    unfolding k_def [symmetric] by simp
qed

lemma log2_floor_bounds:
  assumes "x > 0"
  shows "2 powi (log2_floor x) \<le> x" and "x < 2 powi (log2_floor x + 1)"
proof -
  obtain p q where pq: "quotient_of x = (p, q)" by (cases "quotient_of x")
  then have q: "q > 0" by (simp add: quotient_of_denom_pos)
  have x: "x = of_int p / of_int q" using pq by (rule quotient_of_div)
  have p: "p > 0" using assms x q by (simp add: zero_less_divide_iff)
  define P Q :: rat where "P = of_nat (nat p)" and "Q = of_nat (nat q)"
  have xPQ: "x = P / Q" using x p q by (simp add: P_def Q_def)
  define a b where "a = int (floorlog 2 (nat p))" and "b = int (floorlog 2 (nat q))"
  have P: "2 powi (a - 1) \<le> P" "P < 2 powi a" and Q: "2 powi (b - 1) \<le> Q" "Q < 2 powi b"
    using floorlog_rat [of "nat p"] floorlog_rat [of "nat q"] p q
    unfolding P_def Q_def a_def b_def by simp_all
  have pos: "0 < P" "0 < Q" using p q by (simp_all add: P_def Q_def)
  have lo: "2 powi (a - b - 1) \<le> x"
  proof -
    have "2 powi (a - b - 1) * 2 powi b = (2::rat) powi (a - 1)"
      by (simp add: power_int_add [symmetric])
    moreover have "2 powi (a - b - 1) * Q \<le> (2::rat) powi (a - b - 1) * 2 powi b"
      using Q(2) by (intro mult_left_mono) simp_all
    ultimately have "2 powi (a - b - 1) * Q \<le> P" using P(1) by simp
    then show ?thesis using pos by (simp add: xPQ pos_le_divide_eq)
  qed
  have hi: "x < 2 powi (a - b + 1)"
  proof -
    have "2 powi (a - b + 1) * 2 powi (b - 1) = (2::rat) powi a"
      by (simp add: power_int_add [symmetric])
    moreover have "(2::rat) powi (a - b + 1) * 2 powi (b - 1) \<le> 2 powi (a - b + 1) * Q"
      using Q(1) by (intro mult_left_mono) simp_all
    ultimately have "P < 2 powi (a - b + 1) * Q" using P(2) by simp
    then show ?thesis using pos by (simp add: xPQ pos_divide_less_eq)
  qed
  have l: "log2_floor x = (if 2 powi (a - b) \<le> x then a - b else a - b - 1)"
    by (simp add: log2_floor_def pq a_def b_def Let_def)
  show "2 powi (log2_floor x) \<le> x" using lo l by auto
  show "x < 2 powi (log2_floor x + 1)" using hi l by auto
qed

lemma ulp_pos [simp]: "0 < ulp x"
  by (simp add: ulp_def)

lemma round_even_mono: "x \<le> y \<Longrightarrow> round_even x \<le> round_even y"
proof -
  assume xy: "x \<le> y"
  then have f: "\<lfloor>x\<rfloor> \<le> \<lfloor>y\<rfloor>" by (rule floor_mono)
  show ?thesis
  proof (cases "\<lfloor>x\<rfloor> = \<lfloor>y\<rfloor>")
    case True
    with xy show ?thesis by (auto simp: round_even_def Let_def)
  next
    case False
    with f show ?thesis by (auto simp: round_even_def Let_def)
  qed
qed

lemma round_even_int [simp]: "round_even (of_int i) = i"
  by (simp add: round_even_def)

lemma round64_pos: "x > 0 \<Longrightarrow> round64 x = of_int (round_even (x / ulp x)) * ulp x"
  by (simp add: round64_def)

lemma round64_neg: "round64 (- x) = - round64 x"
  by (simp add: round64_def)

text \<open>Points of the grid of \<open>x\<close> that bound \<open>x\<close> also bound its rounding.\<close>

lemma round64_le_grid:
  assumes "x > 0" "x \<le> of_int m * ulp x"
  shows "round64 x \<le> of_int m * ulp x"
proof -
  have "x / ulp x \<le> of_int m" using assms by (simp add: pos_divide_le_eq)
  then have "round_even (x / ulp x) \<le> m" using round_even_mono [of "x / ulp x" "of_int m"] by simp
  then show ?thesis using assms(1) by (simp add: round64_pos mult_right_mono less_imp_le)
qed

lemma round64_ge_grid:
  assumes "x > 0" "of_int m * ulp x \<le> x"
  shows "of_int m * ulp x \<le> round64 x"
proof -
  have "of_int m \<le> x / ulp x" using assms by (simp add: pos_le_divide_eq)
  then have "m \<le> round_even (x / ulp x)" using round_even_mono [of "of_int m" "x / ulp x"] by simp
  then show ?thesis using assms(1) by (simp add: round64_pos mult_right_mono less_imp_le)
qed

lemma log2_floor_mono:
  assumes "0 < x" "x \<le> y"
  shows "log2_floor x \<le> log2_floor y"
proof (rule ccontr)
  assume "\<not> log2_floor x \<le> log2_floor y"
  then have "log2_floor y + 1 \<le> log2_floor x" by simp
  then have "2 powi (log2_floor y + 1) \<le> (2::rat) powi (log2_floor x)"
    by (simp add: power_int_increasing)
  also have "\<dots> \<le> x" using assms(1) by (rule log2_floor_bounds)
  also have "\<dots> \<le> y" by fact
  also have "\<dots> < 2 powi (log2_floor y + 1)" using assms by (intro log2_floor_bounds) simp
  finally show False by simp
qed

lemma round64_mono_pos:
  assumes "0 < x" "x \<le> y"
  shows "round64 x \<le> round64 y"
proof (cases "ulp x = ulp y")
  case True
  have "x / ulp x \<le> y / ulp y" using assms True by (simp add: divide_right_mono less_imp_le)
  then have "round_even (x / ulp x) \<le> round_even (y / ulp y)" by (rule round_even_mono)
  then show ?thesis using assms True by (simp add: round64_pos mult_right_mono less_imp_le)
next
  case False
  have y: "0 < y" using assms by simp
  define ex ey where "ex = max (- 1074) (log2_floor x - 52)" and "ey = max (- 1074) (log2_floor y - 52)"
  have "ex \<noteq> ey" using False by (auto simp: ulp_def ex_def ey_def)
  moreover have "ex \<le> ey" using log2_floor_mono [OF assms] by (auto simp: ex_def ey_def)
  ultimately have lt: "ex < ey" by simp
  then have ey: "ey = log2_floor y - 52" by (auto simp: ex_def ey_def)
  have "log2_floor x + 1 \<le> ex + 53" by (auto simp: ex_def)
  then have "2 powi (log2_floor x + 1) \<le> (2::rat) powi (ex + 53)" by (simp add: power_int_increasing)
  then have "x \<le> 2 powi (ex + 53)" using log2_floor_bounds(2) [OF assms(1)] by simp
  then have "x \<le> of_int (2 ^ 53) * ulp x"
    by (simp add: ulp_def ex_def power_int_add)
  then have "round64 x \<le> of_int (2 ^ 53) * ulp x" by (rule round64_le_grid [OF assms(1)])
  also have "\<dots> = 2 powi (ex + 53)" by (simp add: ulp_def ex_def power_int_add)
  also have "\<dots> \<le> 2 powi (ey + 52)" using lt by (simp add: power_int_increasing)
  also have "\<dots> = of_int (2 ^ 52) * ulp y" by (simp add: ulp_def ey_def power_int_add)
  also have "\<dots> \<le> round64 y"
  proof (rule round64_ge_grid [OF y])
    have "of_int (2 ^ 52) * ulp y = 2 powi (ey + 52)" by (simp add: ulp_def ey_def power_int_add)
    also have "\<dots> \<le> y" using log2_floor_bounds(1) [OF y] ey by simp
    finally show "of_int (2 ^ 52) * ulp y \<le> y" .
  qed
  finally show ?thesis .
qed

lemma round64_zero [simp]: "round64 0 = 0"
  by (simp add: round64_def)

lemma round64_nonneg: "0 \<le> x \<Longrightarrow> 0 \<le> round64 x"
  using round64_ge_grid [of x 0] by (cases "x = 0") auto

lemma round64_mono: "x \<le> y \<Longrightarrow> round64 x \<le> round64 y"
proof -
  assume xy: "x \<le> y"
  consider "0 < x" | "y < 0" | "x \<le> 0" "0 \<le> y" by linarith
  then show ?thesis
  proof cases
    case 1
    then show ?thesis using xy by (rule round64_mono_pos)
  next
    case 2
    then have "round64 (- y) \<le> round64 (- x)" using xy by (intro round64_mono_pos) simp_all
    then show ?thesis by (simp add: round64_neg)
  next
    case 3
    have "0 \<le> round64 (- x)" using 3 by (intro round64_nonneg) simp
    then show ?thesis using round64_nonneg [of y] 3 by (simp add: round64_neg)
  qed
qed

lemma round64_grid: "x > 0 \<Longrightarrow> x = of_int m * ulp x \<Longrightarrow> round64 x = x"
  using round64_le_grid [of x m] round64_ge_grid [of x m] by simp

lemma round64_int:
  assumes "0 \<le> i" "i \<le> 2 ^ 53"
  shows "round64 (of_int i) = of_int i"
proof (cases "i = 0")
  case False
  define x :: rat where "x = of_int i"
  define l where "l = log2_floor x"
  have x: "x > 0" "1 \<le> x" using assms False by (simp_all add: x_def)
  note b = log2_floor_bounds [OF x(1), folded l_def]
  have l0: "0 \<le> l"
  proof (rule ccontr)
    assume "\<not> 0 \<le> l"
    then have "2 powi (l + 1) \<le> (2::rat) powi 0" by (intro power_int_increasing) auto
    with b(2) x(2) show False by simp
  qed
  have "x \<le> of_int (2 ^ 53)" unfolding x_def using assms(2) by (simp only: of_int_le_iff)
  then have x53: "x \<le> 2 powi 53" by simp
  have "round64 x = x"
  proof (cases "l \<le> 52")
    case True
    then have u: "ulp (of_int i) = 2 powi (l - 52)" using l0 by (simp add: ulp_def l_def x_def)
    have "2 powi (52 - l) * (2::rat) powi (l - 52) = 1" by (simp add: power_int_add [symmetric])
    moreover have "(2::rat) powi (52 - l) = of_int (2 ^ nat (52 - l))"
      using True by (simp add: power_int_def)
    ultimately have "x = of_int (i * 2 ^ nat (52 - l)) * ulp x"
      by (simp add: u x_def mult.assoc)
    then show ?thesis using x(1) by (rule round64_grid [rotated])
  next
    case False
    then have "53 \<le> l" by simp
    then have "(2::rat) powi 53 \<le> 2 powi l" by (intro power_int_increasing) auto
    with b(1) x53 have eq: "x = 2 powi 53" and "2 powi l = (2::rat) powi 53" by simp_all
    have "l = 53"
    proof (rule ccontr)
      assume "l \<noteq> 53"
      then have "(2::rat) powi 54 \<le> 2 powi l" using \<open>53 \<le> l\<close> by (intro power_int_increasing) auto
      with \<open>2 powi l = (2::rat) powi 53\<close> show False by simp
    qed
    then have "x = of_int (2 ^ 52) * ulp x" using eq by (simp add: ulp_def l_def)
    then show ?thesis using x(1) by (rule round64_grid [rotated])
  qed
  then show ?thesis by (simp add: x_def)
qed simp

locale rounding =
  fixes rnd :: "rat \<Rightarrow> rat"
  assumes rnd_mono: "x \<le> y \<Longrightarrow> rnd x \<le> rnd y"
    and rnd_int: "0 \<le> i \<Longrightarrow> i \<le> 2 ^ 53 \<Longrightarrow> rnd (of_int i) = of_int i"
begin

lemma rnd_0: "rnd 0 = 0"
  using rnd_int [of 0] by simp

lemma rnd_nonneg: "0 \<le> x \<Longrightarrow> 0 \<le> rnd x"
  using rnd_mono [of 0 x] rnd_0 by simp

lemma rnd_le_int: "x \<le> of_int i \<Longrightarrow> 0 \<le> i \<Longrightarrow> i \<le> 2 ^ 53 \<Longrightarrow> rnd x \<le> of_int i"
  using rnd_mono [of x "of_int i"] rnd_int [of i] by simp
end

interpretation f64: rounding round64
  by unfold_locales (simp_all add: round64_mono round64_int)

text \<open>The distance of a number to its rounding: a relative error, and an absolute one below the normal range.\<close>

lemma half_ulp:
  assumes "0 < x"
  shows "ulp x / 2 \<le> x / 2 ^ 53 + 1 / 2 ^ 100"
proof (cases "- 1074 \<le> log2_floor x - 52")
  case True
  have "ulp x = 2 powi (log2_floor x + - 52)" using True by (simp add: ulp_def)
  also have "\<dots> = 2 powi (log2_floor x) * 2 powi (- 52)" by (rule power_int_add) simp
  finally have "ulp x = 2 powi (log2_floor x) * 2 powi (- 52)" .
  moreover have "(2::rat) powi (- 52) = 2 / 2 ^ 53" by (simp add: power_int_def power_divide)
  ultimately have "ulp x / 2 = 2 powi (log2_floor x) / 2 ^ 53" by simp
  also have "\<dots> \<le> x / 2 ^ 53" using log2_floor_bounds(1) [OF assms] by (intro divide_right_mono) simp_all
  finally show ?thesis by (simp add: add_increasing2)
next
  case False
  then have "ulp x = 2 powi (- 1074)" by (simp add: ulp_def)
  moreover have "(2::rat) powi (- 1074) \<le> 2 powi (- 100)" by (rule power_int_increasing) simp_all
  moreover have "(2::rat) powi (- 100) = 1 / 2 ^ 100" by (simp add: power_int_def power_divide)
  moreover have "0 \<le> x / 2 ^ 53" using assms by simp
  moreover have "ulp x / 2 \<le> ulp x" using ulp_pos [of x] by linarith
  ultimately show ?thesis by linarith
qed

lemma round_even_error: "\<bar>of_int (round_even x) - x\<bar> \<le> 1 / 2"
proof -
  have "of_int \<lfloor>x\<rfloor> \<le> x" "x < of_int \<lfloor>x\<rfloor> + 1" by linarith+
  moreover have "round_even x = \<lfloor>x\<rfloor> \<and> x - of_int \<lfloor>x\<rfloor> \<le> 1 / 2 \<or> round_even x = \<lfloor>x\<rfloor> + 1 \<and> 1 / 2 \<le> x - of_int \<lfloor>x\<rfloor>"
    by (auto simp: round_even_def Let_def)
  ultimately show ?thesis by (auto simp: abs_le_iff)
qed

lemma round64_error:
  assumes "0 \<le> x"
  shows "\<bar>round64 x - x\<bar> \<le> x / 2 ^ 53 + 1 / 2 ^ 100"
proof (cases "x = 0")
  case False
  then have x: "0 < x" using assms by simp
  have "\<bar>round64 x - x\<bar> = \<bar>of_int (round_even (x / ulp x)) - x / ulp x\<bar> * ulp x"
  proof -
    have "(of_int (round_even (x / ulp x)) - x / ulp x) * ulp x = round64 x - x"
      using ulp_pos [of x] by (simp add: round64_pos [OF x] left_diff_distrib less_imp_neq [symmetric])
    then show ?thesis using ulp_pos [of x] by (metis abs_mult abs_of_pos)
  qed
  also have "\<dots> \<le> 1 / 2 * ulp x" using round_even_error by (rule mult_right_mono) (simp add: less_imp_le)
  also have "\<dots> = ulp x / 2" by simp
  also have "\<dots> \<le> x / 2 ^ 53 + 1 / 2 ^ 100" by (rule half_ulp [OF x])
  finally show ?thesis .
qed simp

subsection \<open>Facts about the limiter\<close>

definition limiter_ok :: "memoryLimiter \<Rightarrow> bool" where
  "limiter_ok l \<longleftrightarrow> 0 < ml_capacity l \<and> ml_capacity l \<le> 2 ^ 53 \<and> 0 < refill l \<and> gomap_ok (buckets l) \<and>
     (\<forall>b\<in>snd ` set (buckets l). 0 \<le> tokens b \<and> tokens b \<le> of_int (ml_capacity l))"

lemma limiter_ok_bucket:
  "limiter_ok l \<Longrightarrow> map_of (buckets l) k = Some b \<Longrightarrow> 0 \<le> tokens b \<and> tokens b \<le> of_int (ml_capacity l)"
  by (force simp: limiter_ok_def dest: map_of_SomeD)

lemma limiter_ok_update:
  "limiter_ok l \<Longrightarrow> 0 \<le> tokens b \<Longrightarrow> tokens b \<le> of_int (ml_capacity l) \<Longrightarrow>
   limiter_ok (l\<lparr>buckets := AList.update k b (buckets l)\<rparr>)"
  by (auto simp: limiter_ok_def distinct_update gomap_ok_def update_conv ran_distinct [symmetric]
      ran_def split: if_splits)

lemma Allow_capacity [simp]:
  "ml_capacity (snd (Allow rnd now k l)) = ml_capacity l" "refill (snd (Allow rnd now k l)) = refill l"
  by (simp_all add: Allow_def Let_def)

text \<open>A call touches the bucket of its key only.\<close>

lemma Allow_other_key:
  "k' \<noteq> k \<Longrightarrow> map_of (buckets (snd (Allow rnd now k l))) k' = map_of (buckets l) k'"
  by (simp add: Allow_def Let_def gomap_simps)

context rounding
begin

lemma rnd_capacity: "limiter_ok l \<Longrightarrow> rnd (of_int (ml_capacity l)) = of_int (ml_capacity l)"
  by (simp add: limiter_ok_def rnd_int)

lemma refreshed_bounds:
  assumes "limiter_ok l"
  shows "0 \<le> tokens (refreshed rnd l now k) \<and> tokens (refreshed rnd l now k) \<le> of_int (ml_capacity l)"
proof (cases "map_of (buckets l) k")
  case None
  then show ?thesis using assms rnd_capacity [OF assms]
    by (simp add: refreshed_def limiter_ok_def)
next
  case (Some b)
  have b: "0 \<le> tokens b" "tokens b \<le> of_int (ml_capacity l)"
    using limiter_ok_bucket [OF assms Some] by auto
  have "0 \<le> rnd (tokens b + rnd (e * refill l))" if "e > 0" for e
    using that b assms by (intro rnd_nonneg add_nonneg_nonneg) (simp_all add: limiter_ok_def)
  with Some b assms show ?thesis
    using rnd_capacity [OF assms] by (auto simp: refreshed_def Let_def limiter_ok_def)
qed

lemma Allow_invariant:
  assumes "limiter_ok l"
  shows "limiter_ok (snd (Allow rnd now k l))"
proof -
  define b where "b = refreshed rnd l now k"
  have b: "0 \<le> tokens b" "tokens b \<le> of_int (ml_capacity l)"
    using refreshed_bounds [OF assms] by (simp_all add: b_def)
  have "0 \<le> rnd (tokens b - 1)" if "1 \<le> tokens b"
    using that by (intro rnd_nonneg) simp
  moreover have "rnd (tokens b - 1) \<le> of_int (ml_capacity l)"
    using b assms by (intro rnd_le_int) (auto simp: limiter_ok_def)
  ultimately show ?thesis
    using b assms by (auto simp: Allow_def Let_def b_def [symmetric] intro!: limiter_ok_update)
qed

lemma Allow_denied:
  assumes "limiter_ok l" and "fst (Allow rnd now k l) = (False, r)"
  shows "tokens (refreshed rnd l now k) < 1 \<and> 0 \<le> r"
proof -
  define b where "b = refreshed rnd l now k"
  have lt: "tokens b < 1" and r: "r = float_to_int (rnd (rnd (rnd (1 - tokens b) / refill l) * 1000000000))"
    using assms(2) by (auto simp: Allow_def Let_def b_def [symmetric] split: if_splits)
  have "0 \<le> rnd (rnd (rnd (1 - tokens b) / refill l) * 1000000000)"
    using lt assms(1) by (intro rnd_nonneg mult_nonneg_nonneg divide_nonneg_nonneg)
      (simp_all add: limiter_ok_def rnd_nonneg)
  then show ?thesis using lt r by (simp add: float_to_int_def b_def)
qed

lemma Seconds_0: "Seconds rnd 0 = 0"
  by (simp add: Seconds_def rnd_0)

end

subsection \<open>Bursts\<close>

text \<open>The answers to \<open>n\<close> calls for one key at one instant.\<close>

fun burst :: "(rat \<Rightarrow> rat) \<Rightarrow> int \<Rightarrow> string \<Rightarrow> nat \<Rightarrow> memoryLimiter \<Rightarrow> bool list" where
  "burst rnd now k 0 l = []"
| "burst rnd now k (Suc n) l = fst (fst (Allow rnd now k l)) # burst rnd now k n (snd (Allow rnd now k l))"

context rounding
begin

lemma burst_present:
  assumes "limiter_ok l" and "map_of (buckets l) k = Some \<lparr>tokens = of_nat t, lastRefill = now\<rparr>"
    and "t \<le> nat (ml_capacity l)"
  shows "burst rnd now k n l = replicate (min n t) True @ replicate (n - t) False"
  using assms
proof (induction n arbitrary: l t)
  case 0
  then show ?case by simp
next
  case (Suc n)
  have r: "refreshed rnd l now k = \<lparr>tokens = of_nat t, lastRefill = now\<rparr>"
    using Suc.prems(2) by (simp add: refreshed_def Let_def Seconds_0)
  have cap: "0 < ml_capacity l" "ml_capacity l \<le> 2 ^ 53" using Suc.prems(1) by (simp_all add: limiter_ok_def)
  show ?case
  proof (cases t)
    case 0
    have "fst (fst (Allow rnd now k l)) = False"
      and "map_of (buckets (snd (Allow rnd now k l))) k = Some \<lparr>tokens = of_nat 0, lastRefill = now\<rparr>"
      using 0 by (simp_all add: Allow_def r gomap_simps Let_def)
    with Suc.IH [OF Allow_invariant [OF Suc.prems(1)], of now k 0] 0 show ?thesis by simp
  next
    case (Suc u)
    have "rnd (of_nat t - 1) = of_nat u"
      using rnd_int [of "int u"] Suc cap Suc.prems(3) by (simp add: nat_le_iff)
    then have "fst (fst (Allow rnd now k l)) = True"
      and "map_of (buckets (snd (Allow rnd now k l))) k = Some \<lparr>tokens = of_nat u, lastRefill = now\<rparr>"
      using Suc by (simp_all add: Allow_def r gomap_simps Let_def)
    with Suc.IH [OF Allow_invariant [OF Suc.prems(1)], of now k u] Suc Suc.prems(3) show ?thesis
      by simp
  qed
qed

lemma burst_fresh:
  assumes "limiter_ok l" and "map_of (buckets l) k = None"
  shows "burst rnd now k n l =
    replicate (min n (nat (ml_capacity l))) True @ replicate (n - nat (ml_capacity l)) False"
proof (cases n)
  case (Suc m)
  have cap: "0 < ml_capacity l" "ml_capacity l \<le> 2 ^ 53" using assms(1) by (simp_all add: limiter_ok_def)
  obtain u where u: "nat (ml_capacity l) = Suc u" using cap by (cases "nat (ml_capacity l)") auto
  have r: "refreshed rnd l now k = \<lparr>tokens = of_int (ml_capacity l), lastRefill = now\<rparr>"
    using assms by (simp add: refreshed_def rnd_capacity)
  have c: "ml_capacity l = int u + 1" using u cap by simp
  have "rnd (of_int (ml_capacity l) - 1) = of_nat u"
    using rnd_int [of "int u"] cap by (simp add: c)
  then have "fst (fst (Allow rnd now k l)) = True"
    and "map_of (buckets (snd (Allow rnd now k l))) k = Some \<lparr>tokens = of_nat u, lastRefill = now\<rparr>"
    using cap by (simp_all add: Allow_def r gomap_simps Let_def)
  moreover have "limiter_ok (snd (Allow rnd now k l))" using assms(1) by (rule Allow_invariant)
  ultimately show ?thesis using burst_present [where t = u and n = m and now = now] u Suc
    by simp
qed simp

end

subsection \<open>The janitor\<close>

lemma janitor_loop_lookup:
  assumes "gomap_ok it"
  shows "map_of (janitor_loop idle now it m) k =
    (case map_of it k of Some b \<Rightarrow> if now - lastRefill b > idle then None else map_of m k
     | None \<Rightarrow> map_of m k)"
  using assms
proof (induction it arbitrary: m)
  case Nil
  then show ?case by simp
next
  case (Cons a it)
  obtain k1 b1 where a: "a = (k1, b1)" by (cases a)
  with Cons.prems have ok: "gomap_ok it" and n: "map_of it k1 = None"
    by (auto simp: gomap_ok_def map_of_eq_None_iff)
  show ?case using a n by (auto simp: Cons.IH [OF ok] gomap_simps split: option.splits)
qed

lemma janitor_tick_lookup:
  assumes "gomap_ok (buckets l)" and "mset it = mset (buckets l)"
  shows "map_of (buckets (janitor_tick idle now it l)) k =
    (case map_of (buckets l) k of
       Some b \<Rightarrow> if now - lastRefill b > idle then None else Some b | None \<Rightarrow> None)"
  using map_of_any_order [OF assms]
  by (simp add: janitor_tick_def janitor_loop_lookup split: option.splits)

lemma janitor_params [simp]:
  "ml_capacity (janitor_tick idle now it l) = ml_capacity l" "refill (janitor_tick idle now it l) = refill l"
  by (simp_all add: janitor_tick_def)

subsection \<open>The rate bound\<close>

text \<open>
  \<open>rate\<close> is the number of tokens per second that the bound allows: the refill with the error of its rounding, or a full bucket per five
  minutes if that is more. \<open>quota l k t\<close> is what is left for \<open>k\<close> at \<open>t\<close> at this rate.
\<close>

definition rate :: "memoryLimiter \<Rightarrow> rat" where
  "rate l = max (refill l * (1 + 1 / 2 ^ 50)) (of_int (ml_capacity l) / 300)"

definition quota :: "memoryLimiter \<Rightarrow> string \<Rightarrow> int \<Rightarrow> rat" where
  "quota l k t =
     (case map_of (buckets l) k of
        None \<Rightarrow> of_int (ml_capacity l)
      | Some b \<Rightarrow> min (of_int (ml_capacity l)) (tokens b + of_int (max 0 (t - lastRefill b)) / 1000000000 * rate l))"


locale float_rounding = rounding +
  assumes rnd_error: "0 \<le> x \<Longrightarrow> \<bar>rnd x - x\<bar> \<le> x / 2 ^ 53 + 1 / 2 ^ 100"
begin

lemma rnd_up: "0 \<le> x \<Longrightarrow> rnd x \<le> x + x / 2 ^ 53 + 1 / 2 ^ 100"
  using rnd_error [of x] by linarith

lemma rnd_up_le: "0 \<le> x \<Longrightarrow> x \<le> y \<Longrightarrow> rnd x \<le> x + y / 2 ^ 53 + 1 / 2 ^ 100"
proof -
  assume "0 \<le> x" "x \<le> y"
  then have "x / 2 ^ 53 \<le> y / 2 ^ 53" by (intro divide_right_mono) simp_all
  then show ?thesis using rnd_up [OF \<open>0 \<le> x\<close>] by linarith
qed

lemma rnd_rel:
  assumes "x = 0 \<or> 1 / 2 ^ 40 \<le> x"
  shows "rnd x \<le> x * (1 + 1 / 2 ^ 52)"
proof (cases "x = 0")
  case False
  then have x: "1 / 2 ^ 40 \<le> x" using assms by simp
  then have "0 \<le> x" by (rule order_trans [rotated]) simp
  from rnd_up [OF this] x show ?thesis by (simp add: field_simps)
qed (simp add: rnd_0)

lemma rnd_pos: "1 / 2 ^ 40 \<le> x \<Longrightarrow> 0 < rnd x"
proof -
  assume x: "1 / 2 ^ 40 \<le> x"
  then have "0 \<le> x" by (rule order_trans [rotated]) simp
  then have "x - rnd x \<le> x / 2 ^ 53 + 1 / 2 ^ 100" using rnd_error [of x] by linarith
  then show ?thesis using x by (simp add: field_simps)
qed

lemma Seconds_nonpos: "d \<le> 0 \<Longrightarrow> Seconds rnd d \<le> 0"
proof -
  assume d: "d \<le> 0"
  have le: "rnd x \<le> 0" if "x \<le> 0" for x using rnd_mono [OF that] rnd_0 by simp
  have "sgn d * n \<le> 0" if "0 \<le> n" for n using d that by (simp add: mult_nonpos_nonneg sgn_if)
  then have "of_int (sgn d * (\<bar>d\<bar> div 1000000000)) \<le> (0::rat)" "of_int (sgn d * (\<bar>d\<bar> mod 1000000000)) \<le> (0::rat)"
    by (simp_all only: of_int_le_0_iff)
  then show ?thesis unfolding Seconds_def Let_def by (intro le add_nonpos_nonpos divide_nonpos_pos) simp_all
qed

lemma Seconds_up:
  assumes "0 < d"
  shows "0 < Seconds rnd d" and "Seconds rnd d \<le> of_int d / 1000000000 * (1 + 1 / 2 ^ 52) ^ 2"
proof -
  define q m where "q = d div 1000000000" and "m = d mod 1000000000"
  define a b where "a = rnd (of_int q)" and "b = rnd (rnd (of_int m) / 1000000000)"
  have s: "Seconds rnd d = rnd (a + b)" using assms by (simp add: Seconds_def Let_def a_def b_def q_def m_def)
  have q0: "0 \<le> q" and m0: "0 \<le> m" "m < 1000000000" using assms by (simp_all add: q_def m_def)
  have d: "d = q * 1000000000 + m" by (simp add: q_def m_def)
  then have dr: "(of_int d :: rat) / 1000000000 = of_int q + of_int m / 1000000000" by (simp add: field_simps)
  have m: "rnd (of_int m) = of_int m" using m0 by (intro rnd_int) simp_all
  have b_eq: "b = rnd (of_int m / 1000000000)" by (simp add: b_def m)
  have one: "of_int 1 \<le> (of_int i :: rat)" if "0 < i" for i :: int using that by (simp only: of_int_le_iff)
  have "a \<le> of_int q * (1 + 1 / 2 ^ 52)"
    unfolding a_def using one [of q] q0 by (intro rnd_rel) (cases "q = 0"; simp)
  moreover have "b \<le> of_int m / 1000000000 * (1 + 1 / 2 ^ 52)"
    unfolding b_eq using one [of m] m0 by (intro rnd_rel) (cases "m = 0"; simp add: field_simps)
  ultimately have "a + b \<le> of_int d / 1000000000 * (1 + 1 / 2 ^ 52)" unfolding dr distrib_right by linarith
  then have "rnd (a + b) \<le> rnd (of_int d / 1000000000 * (1 + 1 / 2 ^ 52))" by (rule rnd_mono)
  also have "\<dots> \<le> of_int d / 1000000000 * (1 + 1 / 2 ^ 52) * (1 + 1 / 2 ^ 52)"
    using one [OF assms] by (intro rnd_rel) (simp add: field_simps)
  finally show "Seconds rnd d \<le> of_int d / 1000000000 * (1 + 1 / 2 ^ 52) ^ 2" by (simp add: s power2_eq_square mult.assoc)
  have nn: "0 \<le> a" "0 \<le> b" unfolding a_def b_eq using q0 m0 by (intro rnd_nonneg; simp)+
  have "1 / 2 ^ 40 \<le> a + b"
  proof (cases "0 < q")
    case True
    have "rnd (of_int 1) \<le> a" unfolding a_def using one [OF True] by (rule rnd_mono)
    then show ?thesis using nn rnd_int [of 1] by simp
  next
    case False
    then have "0 < m" using q0 d assms by simp
    then have "1 / 1000000000 \<le> (of_int m / 1000000000 :: rat)" using one [of m] by (simp add: divide_right_mono)
    then have "rnd (1 / 1000000000) \<le> b" unfolding b_eq by (rule rnd_mono)
    moreover have "1 / 1000000000 - rnd (1 / 1000000000) \<le> 1 / 1000000000 / 2 ^ 53 + 1 / 2 ^ 100"
      using rnd_error [of "1 / 1000000000"] by linarith
    ultimately show ?thesis using nn by (simp add: field_simps)
  qed
  then show "0 < Seconds rnd d" unfolding s by (rule rnd_pos)
qed

text \<open>The refill of \<open>d\<close> nanoseconds, as the limiter computes it.\<close>

lemma gain_up:
  assumes "0 < d" and "0 < rf"
  shows "rnd (Seconds rnd d * rf) \<le> of_int d / 1000000000 * (rf * (1 + 1 / 2 ^ 50)) + 1 / 2 ^ 100"
proof -
  define w where "w = of_int d / 1000000000 * rf"
  have w: "0 < w" using assms by (simp add: w_def)
  have "Seconds rnd d * rf \<le> of_int d / 1000000000 * (1 + 1 / 2 ^ 52) ^ 2 * rf"
    using Seconds_up(2) [OF assms(1)] assms(2) by (intro mult_right_mono) simp_all
  then have s: "Seconds rnd d * rf \<le> w * (1 + 1 / 2 ^ 52) ^ 2" by (simp add: w_def mult.commute mult.left_commute)
  have "rnd (Seconds rnd d * rf) \<le> rnd (w * (1 + 1 / 2 ^ 52) ^ 2)" using s by (rule rnd_mono)
  also have "\<dots> \<le> w * (1 + 1 / 2 ^ 52) ^ 2 + w * (1 + 1 / 2 ^ 52) ^ 2 / 2 ^ 53 + 1 / 2 ^ 100"
    using w by (intro rnd_up) simp
  also have "w * (1 + 1 / 2 ^ 52) ^ 2 + w * (1 + 1 / 2 ^ 52) ^ 2 / 2 ^ 53 = w * ((1 + 1 / 2 ^ 52) ^ 2 * (1 + 1 / 2 ^ 53))"
    by (simp add: distrib_left)
  also have "w * ((1 + 1 / 2 ^ 52) ^ 2 * (1 + 1 / 2 ^ 53)) \<le> w * (1 + 1 / 2 ^ 50)"
    using w by (intro mult_left_mono) (simp_all add: power2_eq_square)
  finally show ?thesis by (simp add: w_def mult.assoc)
qed

lemma refreshed_quota:
  assumes "limiter_ok l"
  shows "tokens (refreshed rnd l now k) \<le> quota l k now + of_int (ml_capacity l) / 2 ^ 53 + 2 / 2 ^ 100"
    and "now \<le> lastRefill (refreshed rnd l now k)"
proof -
  define C :: rat where "C = of_int (ml_capacity l)"
  have C: "0 < C" "rnd (of_int (ml_capacity l)) = C" using assms rnd_capacity [OF assms] by (simp_all add: C_def limiter_ok_def)
  have "tokens (refreshed rnd l now k) \<le> quota l k now + C / 2 ^ 53 + 2 / 2 ^ 100 \<and> now \<le> lastRefill (refreshed rnd l now k)"
  proof (cases "map_of (buckets l) k")
    case None
    then show ?thesis using C by (simp add: refreshed_def quota_def C_def add_increasing2)
  next
    case (Some b)
    have t: "0 \<le> tokens b" "tokens b \<le> C" using limiter_ok_bucket [OF assms Some] by (simp_all add: C_def)
    have rf: "0 < refill l" using assms by (simp add: limiter_ok_def)
    define d where "d = now - lastRefill b"
    show ?thesis
    proof (cases "0 < d")
      case False
      then have "refreshed rnd l now k = b" using Some Seconds_nonpos [of d] by (simp add: refreshed_def d_def Let_def)
      moreover have "quota l k now = tokens b" using False Some t by (simp add: quota_def d_def C_def)
      ultimately show ?thesis using False C by (simp add: d_def add_increasing2)
    next
      case True
      define g w where "g = rnd (Seconds rnd d * refill l)" and "w = of_int d / 1000000000 * rate l"
      have r: "refreshed rnd l now k = \<lparr>tokens = min C (rnd (tokens b + g)), lastRefill = now\<rparr>"
        using Some Seconds_up(1) [OF True] C by (simp add: refreshed_def d_def Let_def g_def)
      have q: "quota l k now = min C (tokens b + w)" using True Some by (simp add: quota_def d_def C_def w_def)
      have "of_int d / 1000000000 * (refill l * (1 + 1 / 2 ^ 50)) \<le> w"
        unfolding w_def using True by (intro mult_left_mono) (simp_all add: rate_def)
      then have g: "g \<le> w + 1 / 2 ^ 100" using gain_up [OF True rf] by (simp add: g_def)
      have g0: "0 \<le> tokens b + g" unfolding g_def using t Seconds_up(1) [OF True] rf by (intro add_nonneg_nonneg rnd_nonneg) simp_all
      have "rnd (tokens b + g) \<le> tokens b + g + C / 2 ^ 53 + 1 / 2 ^ 100" if "tokens b + g \<le> C"
        using g0 that by (rule rnd_up_le)
      moreover have "0 \<le> C / 2 ^ 53" using C by simp
      ultimately have "min C (rnd (tokens b + g)) \<le> min C (tokens b + w) + C / 2 ^ 53 + 2 / 2 ^ 100"
        using g by (cases "tokens b + g \<le> C") (auto simp: min_def)
      then show ?thesis by (simp add: r q)
    qed
  qed
  then show "tokens (refreshed rnd l now k) \<le> quota l k now + of_int (ml_capacity l) / 2 ^ 53 + 2 / 2 ^ 100"
    and "now \<le> lastRefill (refreshed rnd l now k)" by (simp_all add: C_def)
qed


text \<open>A request takes its token from the quota; the two roundings give away at most \<open>capacity / 2^51\<close> of a token.\<close>

lemma Allow_quota:
  assumes "limiter_ok l"
  shows "(if fst (fst (Allow rnd now k l)) then 1 else 0) + quota (snd (Allow rnd now k l)) k now \<le> quota l k now + of_int (ml_capacity l) / 2 ^ 51"
proof -
  define C :: rat where "C = of_int (ml_capacity l)"
  define b where "b = refreshed rnd l now k"
  have "of_int 1 \<le> (of_int (ml_capacity l) :: rat)" using assms by (simp only: of_int_le_iff) (simp add: limiter_ok_def)
  then have C: "1 \<le> C" by (simp add: C_def)
  have b: "tokens b \<le> quota l k now + C / 2 ^ 53 + 2 / 2 ^ 100" "now \<le> lastRefill b"
    using refreshed_quota [OF assms, of now k] by (simp_all add: b_def C_def)
  have bc: "tokens b \<le> C" using refreshed_bounds [OF assms] by (simp add: b_def C_def)
  have upd: "quota (l\<lparr>buckets := AList.update k b' (buckets l)\<rparr>) k now \<le> tokens b'" if "lastRefill b' = lastRefill b" for b'
    using b(2) that by (simp add: quota_def gomap_simps)
  have small: "C / 2 ^ 53 + C / 2 ^ 53 + 3 / 2 ^ 100 \<le> C / 2 ^ 51" using C by (simp add: field_simps)
  show ?thesis
  proof (cases "1 \<le> tokens b")
    case True
    have "rnd (tokens b - 1) \<le> tokens b - 1 + C / 2 ^ 53 + 1 / 2 ^ 100" using True bc by (intro rnd_up_le) simp_all
    then have "1 + quota (l\<lparr>buckets := AList.update k (b\<lparr>tokens := rnd (tokens b - 1)\<rparr>) (buckets l)\<rparr>) k now \<le> quota l k now + C / 2 ^ 51"
      using upd [of "b\<lparr>tokens := rnd (tokens b - 1)\<rparr>"] b(1) small by simp
    then show ?thesis using True by (simp add: Allow_def Let_def b_def C_def)
  next
    case False
    have "quota (l\<lparr>buckets := AList.update k b (buckets l)\<rparr>) k now \<le> quota l k now + C / 2 ^ 51"
      using upd [of b] b(1) small C by simp
    then show ?thesis using False by (simp add: Allow_def Let_def b_def C_def)
  qed
qed

end

interpretation f64e: float_rounding round64
  by unfold_locales (rule round64_error)


lemma rate_pos: "limiter_ok l \<Longrightarrow> 0 < rate l"
  by (simp add: rate_def limiter_ok_def less_max_iff_disj)

lemma rate_cong: "ml_capacity l' = ml_capacity l \<Longrightarrow> refill l' = refill l \<Longrightarrow> rate l' = rate l"
  by (simp add: rate_def)

lemma quota_cong:
  "ml_capacity l' = ml_capacity l \<Longrightarrow> refill l' = refill l \<Longrightarrow> map_of (buckets l') k = map_of (buckets l) k \<Longrightarrow> quota l' k t = quota l k t"
  by (simp add: quota_def rate_def split: option.splits)

lemma quota_nonneg:
  assumes "limiter_ok l"
  shows "0 \<le> quota l k t"
proof (cases "map_of (buckets l) k")
  case None
  then show ?thesis using assms by (simp add: quota_def limiter_ok_def)
next
  case (Some b)
  then show ?thesis using assms limiter_ok_bucket [OF assms Some] rate_pos [OF assms] by (simp add: quota_def limiter_ok_def)
qed

lemma quota_grows:
  assumes "limiter_ok l" and "t \<le> t'"
  shows "quota l k t' \<le> quota l k t + of_int (t' - t) / 1000000000 * rate l"
proof -
  define w where "w = of_int (t' - t) / 1000000000 * rate l"
  have w: "0 \<le> w" using assms rate_pos [OF assms(1)] by (simp add: w_def)
  have g: "of_int (max 0 (t' - s)) / 1000000000 * rate l \<le> of_int (max 0 (t - s)) / 1000000000 * rate l + w" for s
  proof -
    have "max 0 (t' - s) \<le> max 0 (t - s) + (t' - t)" using assms(2) by simp
    then have "of_int (max 0 (t' - s)) \<le> (of_int (max 0 (t - s) + (t' - t)) :: rat)" by (simp only: of_int_le_iff)
    then have "of_int (max 0 (t' - s)) / 1000000000 * rate l \<le> of_int (max 0 (t - s) + (t' - t)) / 1000000000 * rate l"
      using rate_pos [OF assms(1)] by (intro mult_right_mono divide_right_mono) simp_all
    then show ?thesis unfolding w_def of_int_add add_divide_distrib distrib_right .
  qed
  have "quota l k t' \<le> quota l k t + w"
  proof (cases "map_of (buckets l) k")
    case None
    then show ?thesis using w by (simp add: quota_def)
  next
    case (Some b)
    then show ?thesis using w g [of "lastRefill b"] by (simp add: quota_def min_def)
  qed
  then show ?thesis by (simp add: w_def)
qed

text \<open>A bucket that a sweep drops has a full quota at the rate of the bound, so the sweep cannot be seen.\<close>

lemma quota_idle:
  assumes "limiter_ok l" and "map_of (buckets l) k = Some b" and "idle_window \<le> t - lastRefill b"
  shows "quota l k t = of_int (ml_capacity l)"
proof -
  have "300 * 1000000000 \<le> max 0 (t - lastRefill b)" using assms(3) by (simp add: idle_window_def)
  then have "of_int (300 * 1000000000) \<le> (of_int (max 0 (t - lastRefill b)) :: rat)" by (simp only: of_int_le_iff)
  then have "300 * rate l \<le> of_int (max 0 (t - lastRefill b)) / 1000000000 * rate l"
    using rate_pos [OF assms(1)] by (intro mult_right_mono) simp_all
  moreover have "of_int (ml_capacity l) \<le> 300 * rate l" by (simp add: rate_def max_def)
  moreover have "0 \<le> tokens b" using limiter_ok_bucket [OF assms(1,2)] by simp
  ultimately show ?thesis using assms(2) by (simp add: quota_def)
qed

lemma sweep_quota:
  assumes "limiter_ok l" and "mset it = mset (buckets l)" and "now \<le> t"
  shows "quota (janitor_tick idle_window now it l) k t = quota l k t"
proof -
  have gm: "gomap_ok (buckets l)" using assms(1) by (simp add: limiter_ok_def)
  note lk = janitor_tick_lookup [OF gm assms(2), of idle_window now k]
  show ?thesis
  proof (cases "\<exists>b. map_of (buckets l) k = Some b \<and> idle_window < now - lastRefill b")
    case True
    then obtain b where b: "map_of (buckets l) k = Some b" "idle_window < now - lastRefill b" by blast
    then have "quota l k t = of_int (ml_capacity l)" using quota_idle [OF assms(1) b(1), of t] b(2) assms(3) by linarith
    then show ?thesis using b by (simp add: quota_def [of "janitor_tick _ _ _ _"] lk)
  next
    case False
    then have "map_of (buckets (janitor_tick idle_window now it l)) k = map_of (buckets l) k" unfolding lk by (auto split: option.splits)
    then show ?thesis by (intro quota_cong) simp_all
  qed
qed

lemma janitor_loop_subset: "set (janitor_loop idle now it m) \<subseteq> set m \<and> (gomap_ok m \<longrightarrow> gomap_ok (janitor_loop idle now it m))"
proof (induction it arbitrary: m)
  case (Cons a it)
  obtain k b where a: "a = (k, b)" by (cases a)
  have "set (AList.delete k m) \<subseteq> set m" by (auto simp: AList.delete_eq)
  moreover have "gomap_ok m \<longrightarrow> gomap_ok (AList.delete k m)" by (simp add: gomap_ok_def distinct_delete)
  ultimately show ?case using Cons [of "AList.delete k m"] Cons [of m] unfolding a by auto
qed simp

lemma sweep_invariant: "limiter_ok l \<Longrightarrow> limiter_ok (janitor_tick idle now it l)"
  using janitor_loop_subset [of idle now it "buckets l"] by (simp add: limiter_ok_def janitor_tick_def) blast

subsection \<open>Runs\<close>

text \<open>
  A run of the limiter: requests and sweeps of the janitor. The requests come in the order of time, a request after a sweep reads a clock that is not before
  the tick, and a sweep visits the buckets of that moment, in any order.
\<close>

datatype limiter_event = Request int string | Sweep int "(string \<times> tokenBucket) list"

fun limiter_step :: "(rat \<Rightarrow> rat) \<Rightarrow> limiter_event \<Rightarrow> memoryLimiter \<Rightarrow> memoryLimiter" where
  "limiter_step rnd (Request now key) l = snd (Allow rnd now key l)"
| "limiter_step rnd (Sweep now it) l = janitor_tick idle_window now it l"

fun served :: "(rat \<Rightarrow> rat) \<Rightarrow> string \<Rightarrow> limiter_event list \<Rightarrow> memoryLimiter \<Rightarrow> nat" where
  "served rnd k [] l = 0"
| "served rnd k (ev # evs) l =
     (case ev of Request now key \<Rightarrow> if key = k \<and> fst (fst (Allow rnd now key l)) then 1 else 0 | Sweep _ _ \<Rightarrow> 0)
     + served rnd k evs (limiter_step rnd ev l)"

fun requests_of :: "string \<Rightarrow> limiter_event list \<Rightarrow> nat" where
  "requests_of k [] = 0"
| "requests_of k (Request now key # evs) = (if key = k then 1 else 0) + requests_of k evs"
| "requests_of k (Sweep now it # evs) = requests_of k evs"

fun possible_run :: "(rat \<Rightarrow> rat) \<Rightarrow> int \<Rightarrow> int \<Rightarrow> limiter_event list \<Rightarrow> memoryLimiter \<Rightarrow> bool" where
  "possible_run rnd t t1 [] l \<longleftrightarrow> t \<le> t1"
| "possible_run rnd t t1 (Request now key # evs) l \<longleftrightarrow> t \<le> now \<and> possible_run rnd now t1 evs (limiter_step rnd (Request now key) l)"
| "possible_run rnd t t1 (Sweep now it # evs) l \<longleftrightarrow>
     mset it = mset (buckets l) \<and> possible_run rnd (max t now) t1 evs (limiter_step rnd (Sweep now it) l)"

lemma step_params [simp]: "ml_capacity (limiter_step rnd ev l) = ml_capacity l" "refill (limiter_step rnd ev l) = refill l"
  by (cases ev; simp)+

lemma step_rate [simp]: "rate (limiter_step rnd ev l) = rate l"
  by (rule rate_cong) simp_all

context float_rounding
begin

lemma served_bound:
  assumes "limiter_ok l" and "possible_run rnd t0 t1 evs l"
  shows "of_nat (served rnd k evs l) \<le> quota l k t0 + of_int (t1 - t0) / 1000000000 * rate l + of_nat (requests_of k evs) * (of_int (ml_capacity l) / 2 ^ 51)"
  using assms
proof (induction evs arbitrary: l t0)
  case Nil
  then show ?case using quota_nonneg [OF Nil(1), of k t0] rate_pos [OF Nil(1)] by (simp add: add_nonneg_nonneg)
next
  case (Cons ev evs)
  define C where "C = (of_int (ml_capacity l) / 2 ^ 51 :: rat)"
  have C: "0 \<le> C" using Cons.prems(1) by (simp add: C_def limiter_ok_def)
  have time: "of_int (t1 - t0) / 1000000000 * rate l = of_int (t1 - t) / 1000000000 * rate l + of_int (t - t0) / 1000000000 * rate l" for t
    by (simp add: field_simps)
  show ?case
  proof (cases ev)
    case (Request now key)
    let ?l = "limiter_step rnd ev l"
    have ok: "limiter_ok ?l" using Allow_invariant [OF Cons.prems(1)] by (simp add: Request)
    have run: "t0 \<le> now" "possible_run rnd now t1 evs ?l" using Cons.prems(2) by (simp_all add: Request)
    have IH: "of_nat (served rnd k evs ?l) \<le> quota ?l k now + of_int (t1 - now) / 1000000000 * rate l + of_nat (requests_of k evs) * C"
      using Cons.IH [OF ok run(2)] by (simp add: C_def)
    have step: "of_nat (if key = k \<and> fst (fst (Allow rnd now key l)) then 1 else 0) + quota ?l k now \<le> quota l k now + (if key = k then C else 0)"
    proof (cases "key = k")
      case True
      then show ?thesis using Allow_quota [OF Cons.prems(1), of now k] by (simp add: Request C_def split: if_splits)
    next
      case False
      then have "quota ?l k now = quota l k now" by (intro quota_cong) (simp_all add: Request Allow_other_key)
      then show ?thesis using False by simp
    qed
    have "of_nat (served rnd k (ev # evs) l) = of_nat (if key = k \<and> fst (fst (Allow rnd now key l)) then 1 else 0) + (of_nat (served rnd k evs ?l) :: rat)"
      by (simp add: Request)
    moreover have "of_nat (requests_of k (ev # evs)) * C = (if key = k then C else 0) + of_nat (requests_of k evs) * C"
      by (simp add: Request distrib_right)
    ultimately show ?thesis using IH step quota_grows [OF Cons.prems(1) run(1), of k] time [of now]
      unfolding C_def [symmetric] by linarith
  next
    case (Sweep now it)
    let ?l = "limiter_step rnd ev l" and ?t = "max t0 now"
    have ok: "limiter_ok ?l" using sweep_invariant [OF Cons.prems(1)] by (simp add: Sweep)
    have run: "mset it = mset (buckets l)" "possible_run rnd ?t t1 evs ?l" using Cons.prems(2) by (simp_all add: Sweep)
    have "quota ?l k ?t = quota l k ?t" using sweep_quota [OF Cons.prems(1) run(1)] by (simp add: Sweep)
    moreover have "served rnd k (ev # evs) l = served rnd k evs ?l" "requests_of k (ev # evs) = requests_of k evs" by (simp_all add: Sweep)
    moreover note Cons.IH [OF ok run(2), unfolded step_rate step_params] quota_grows [OF Cons.prems(1) max.cobounded1 [of t0 now], of k] time [of ?t]
    ultimately show ?thesis by (simp only:)
  qed
qed

end

subsection \<open>Facts about the middleware\<close>

lemma itoa_loop_nat_str: "n > 0 \<Longrightarrow> itoa_loop n b = nat_str (nat n) @ b"
proof (induction n b rule: itoa_loop.induct)
  case (1 n b)
  show ?case
  proof (cases "n < 10")
    case True
    then have "n div 10 = 0" using 1(2) by simp
    then show ?thesis using 1(2) True
      by (simp add: itoa_loop.simps [of n b] itoa_loop.simps [of 0] nat_str.simps [of "nat n"]
          digit_char_def nat_mod_distrib)
  next
    case False
    then have "n div 10 > 0" by simp
    from 1(1) [OF 1(2) this] show ?thesis using 1(2) False
      by (simp add: itoa_loop.simps [of n b] nat_str.simps [of "nat n"] digit_char_def
          nat_mod_distrib nat_div_distrib)
  qed
qed

lemma nat_str_0: "nat_str 0 = ''0''"
  by (simp add: nat_str.simps digit_char_def) code_simp

lemma itoa_int_str: "- (2 ^ 63) < n \<Longrightarrow> itoa n = int_str n"
  by (auto simp: itoa_def int_str_def Let_def neg64_def itoa_loop_nat_str nat_str_0)

lemma nat_str_length: "0 < k \<Longrightarrow> n < 10 ^ k \<Longrightarrow> length (nat_str n) \<le> k"
proof (induction k arbitrary: n)
  case 0
  then show ?case by simp
next
  case (Suc k)
  show ?case
  proof (cases "n < 10")
    case True
    then show ?thesis by (simp add: nat_str.simps [of n])
  next
    case False
    then have "n div 10 < 10 ^ k" "0 < k" using Suc.prems
      by (auto simp: less_mult_imp_div_less mult.commute intro: Suc_lessI gr0I)
    then show ?thesis using Suc.IH [of "n div 10"] False by (simp add: nat_str.simps [of n])
  qed
qed

text \<open>If the loop over the keys lets the request pass, the limiter admitted every key in turn.\<close>

fun all_admitted :: "'z env_scheme Limiter \<Rightarrow> 'a actx_scheme \<Rightarrow> string list \<Rightarrow> 'z env_scheme \<Rightarrow> bool" where
  "all_admitted lmt c [] s = True"
| "all_admitted lmt c (tmpl # keys) s =
     (case lmt (expandKey s c tmpl) s of
        (Inr (True, _), s1) \<Rightarrow> all_admitted lmt c keys s1
      | _ \<Rightarrow> False)"

lemma key_loop_pass: "fst (key_loop dur_str a lmt c keys s) = None \<longleftrightarrow> all_admitted lmt c keys s"
proof (induction keys arbitrary: s)
  case Nil
  then show ?case by simp
next
  case (Cons tmpl keys)
  obtain r s1 where r: "lmt (expandKey s c tmpl) s = (r, s1)" by (cases "lmt (expandKey s c tmpl) s")
  show ?case
  proof (cases r)
    case (Inl e)
    then show ?thesis by (simp add: r Let_def)
  next
    case (Inr p)
    obtain allowed ra where "p = (allowed, ra)" by (cases p)
    then show ?thesis using Inr Cons by (cases allowed) (simp_all add: r Let_def)
  qed
qed

lemma key_loop_error_code:
  "fst (key_loop dur_str a lmt c keys s) = Some e \<Longrightarrow>
   Code e = CodeInternal \<or> Code e = CodeTooManyAttempts"
proof (induction keys arbitrary: s)
  case Nil
  then show ?case by simp
next
  case (Cons tmpl keys)
  obtain r s1 where r: "lmt (expandKey s c tmpl) s = (r, s1)" by (cases "lmt (expandKey s c tmpl) s")
  with Cons show ?case by (auto simp: Let_def split: sum.splits prod.splits if_splits)
qed

lemma rate_limit_handler_rejects:
  assumes "isAllowed (fst (ctx_Get (heap s) c RequestPath)) [rl_Path opts]"
    and "\<not> all_admitted lmt c (rl_Keys opts) s"
  shows "\<exists>e s1. (Code e = CodeInternal \<or> Code e = CodeTooManyAttempts) \<and>
           (\<forall>nxt. rate_limit_handler dur_str a opts lmt nxt c s = (Some e, s1))"
proof -
  obtain r s1 where kl: "key_loop dur_str a lmt c (rl_Keys opts) s = (r, s1)"
    by (cases "key_loop dur_str a lmt c (rl_Keys opts) s")
  from assms(2) kl key_loop_pass [of dur_str a lmt c "rl_Keys opts" s] obtain e where "r = Some e"
    by (cases r) auto
  moreover from this kl have "Code e = CodeInternal \<or> Code e = CodeTooManyAttempts"
    using key_loop_error_code [of dur_str a lmt c "rl_Keys opts" s e] by simp
  ultimately show ?thesis using assms(1) kl by (auto simp: rate_limit_handler_def Let_def)
qed

lemma round_second_bounds: "0 \<le> d \<Longrightarrow> round_second d * 1000000000 \<le> d + 500000000"
  by (simp add: round_second_def)

text \<open>The header a rejection publishes, when the context carries metadata.\<close>

lemma publishRetryAfter_header:
  assumes "metadataKey c = Some p" and "p < length (heap s)"
  shows "ctx_Get (heap (publishRetryAfter c d s)) c ''Retry-After'' =
    (itoa (max (round_second d) 1), True)"
proof -
  have "itoa (max (round_second d) 1) \<noteq> ''''"
  proof -
    have "itoa (max (round_second d) 1) = int_str (max (round_second d) 1)"
      by (intro itoa_int_str) simp
    moreover have "nat_str n \<noteq> ''''" for n by (simp add: nat_str.simps [of n])
    ultimately show ?thesis by (simp add: int_str_def)
  qed
  then show ?thesis using assms
    by (simp add: publishRetryAfter_def ctx_Set_stored ctx_Get_stored md_Get_Set)
qed

section \<open>Properties\<close>

lemma NewMemoryLimiter_ok:
  "NewMemoryLimiter cap rf = Inr l \<Longrightarrow> cap \<le> 2 ^ 53 \<Longrightarrow> limiter_ok l"
  by (auto simp: NewMemoryLimiter_def limiter_ok_def gomap_ok_def split: if_splits)

lemma step_limiter_ok: "limiter_ok l \<Longrightarrow> limiter_ok (limiter_step round64 ev l)"
  by (cases ev) (simp_all add: f64.Allow_invariant sweep_invariant)

lemma trace_limiter_ok: "limiter_ok l \<Longrightarrow> limiter_ok (foldl (\<lambda>l ev. limiter_step round64 ev l) l evs)"
  by (induction evs arbitrary: l) (auto simp: step_limiter_ok)

text \<open>
  In float64 arithmetic, from construction on and through any sequence of
  calls and sweeps at any instants (clock jumps included), every bucket of the limiter holds
  between 0 and \<open>capacity\<close> tokens and the map has one bucket per key.
\<close>

theorem limiter_invariant:
  assumes "NewMemoryLimiter cap rf = Inr l" and "cap \<le> 2 ^ 53"
  shows "limiter_ok (foldl (\<lambda>l ev. limiter_step round64 ev l) l evs)"
  using trace_limiter_ok [OF NewMemoryLimiter_ok [OF assms]] by simp

theorem limiter_invariant_witness:
  "limiter_ok (foldl (\<lambda>l ev. limiter_step round64 ev l)
     \<lparr>ml_capacity = 5, refill = 1 / 2, buckets = []\<rparr> [Request 0 ''a'', Request 7 ''b'', Request 3 ''a''])"
  by (rule limiter_invariant [of 5 "1 / 2"]) (simp_all add: NewMemoryLimiter_def)

text \<open>
  Of \<open>n\<close> simultaneous requests for a key the limiter has not seen, exactly the
  first \<open>capacity\<close> are admitted and all later ones are refused, in float64 arithmetic.
\<close>

theorem limiter_burst:
  assumes "limiter_ok l" and "map_of (buckets l) k = None"
  shows "burst round64 now k n l =
    replicate (min n (nat (ml_capacity l))) True @ replicate (n - nat (ml_capacity l)) False"
  using assms by (rule f64.burst_fresh)

theorem limiter_burst_witness:
  "burst round64 9 ''k'' 4 \<lparr>ml_capacity = 3, refill = 1, buckets = []\<rparr> = [True, True, True, False]"
  using limiter_burst [of "\<lparr>ml_capacity = 3, refill = 1, buckets = []\<rparr>" "''k''" 9 4]
  by (simp add: limiter_ok_def gomap_ok_def numeral_eq_Suc)

text \<open>
  C7: The rate bound, in float64 arithmetic and with the janitor running. Over any run from \<open>t0\<close> to \<open>t1\<close> of requests for all keys and sweeps, the limiter admits for one key at most
  its quota at \<open>t0\<close> (a full bucket for a key it does not hold) plus \<open>rate\<close> per second, plus \<open>capacity / 2^51\<close> of a token for
  each request for the key, which is what rounding can give away. The rate is the configured one, up to \<open>2^-50\<close> for the rounding of a refill, when a bucket fills up within the
  five minutes of the janitor; otherwise it is \<open>capacity\<close> per five minutes, since a dropped bucket starts full again. Clocks do not run backwards, and
  \<open>limiter_ok\<close> holds from the construction on.
\<close>

theorem limiter_rate_bound:
  assumes "limiter_ok l" and "possible_run round64 t0 t1 evs l"
  shows "of_nat (served round64 k evs l) \<le>
    quota l k t0 + of_int (t1 - t0) / 1000000000 * rate l + of_nat (requests_of k evs) * (of_int (ml_capacity l) / 2 ^ 51)"
  using assms by (rule f64e.served_bound)

theorem limiter_rate_bound_witness:
  "of_nat (served round64 ''k'' [Request 0 ''k'', Sweep 400000000000 [(''k'', \<lparr>tokens = 2, lastRefill = 0\<rparr>)], Request 400000000000 ''k'']
      \<lparr>ml_capacity = 3, refill = 1, buckets = []\<rparr>) \<le> (3 + 400 * (1 + 1 / 2 ^ 50) + 2 * (3 / 2 ^ 51) :: rat)"
proof -
  let ?l = "\<lparr>ml_capacity = 3, refill = 1, buckets = []\<rparr>" and ?it = "[(''k'', \<lparr>tokens = 2, lastRefill = 0\<rparr>)]"
  have b: "buckets (snd (Allow round64 0 ''k'' ?l)) = ?it" by code_simp
  then have run: "possible_run round64 0 400000000000 [Request 0 ''k'', Sweep 400000000000 ?it, Request 400000000000 ''k''] ?l" by simp
  have "limiter_ok ?l" by (simp add: limiter_ok_def gomap_ok_def)
  from limiter_rate_bound [OF this run, of "''k''"] show ?thesis by (simp add: quota_def rate_def)
qed


text \<open>
  A bucket that does not fill up within five minutes shows the janitor: with capacity 1000 and one token
  per second a bucket emptied just over five minutes ago holds 301 tokens, and 1000 again
  once the janitor has dropped it.
\<close>

theorem janitor_visible:
  "let l = \<lparr>ml_capacity = 1000, refill = 1, buckets = [(''k'', \<lparr>tokens = 0, lastRefill = 0\<rparr>)]\<rparr>;
       t = idle_window + 1000000000
   in tokens (refreshed round64 l t ''k'') = 301 \<and> tokens (refreshed round64 (janitor_tick idle_window t (buckets l) l) t ''k'') = 1000"
  by code_simp

text \<open>
  C8: The rate-limiting middleware fails closed. On a path it guards, unless the
  limiter admitted every key in turn, the answer is an error with code \<open>CodeInternal\<close>
  or \<open>CodeTooManyAttempts\<close> that does not depend on the next handler.
\<close>

theorem rate_limit_fail_closed:
  assumes "isAllowed (fst (ctx_Get (heap s) c RequestPath)) [rl_Path opts]"
    and "\<not> all_admitted lmt c (rl_Keys opts) s"
  shows "\<exists>e s1. (Code e = CodeInternal \<or> Code e = CodeTooManyAttempts) \<and>
           (\<forall>nxt. rate_limit_handler dur_str a opts lmt nxt c s = (Some e, s1))"
  using assms by (rule rate_limit_handler_rejects)

theorem rate_limit_fail_closed_witness:
  "\<exists>e s1. (Code e = CodeInternal \<or> Code e = CodeTooManyAttempts) \<and>
     (\<forall>nxt. rate_limit_handler (\<lambda>d. ''1s'') 900
        \<lparr>rl_Path = ''*'', rl_Keys = [''all''], rl_Capacity = 1, rl_Refill = 1, rl_Limiter = None\<rparr>
        (\<lambda>k s. (Inl (ErrString 901 ''down''), s)) nxt \<lparr>metadataKey = None, authKey = None\<rparr>
        \<lparr>heap = []\<rparr> = (Some e, s1))"
  by (rule rate_limit_fail_closed) simp_all

text \<open>\<open>itoa\<close> prints every \<open>int64\<close> but the least one in decimal, in at most 20 bytes.\<close>

theorem itoa_correct:
  assumes "- (2 ^ 63) < n" and "n < 2 ^ 63"
  shows "itoa n = int_str n \<and> length (itoa n) \<le> 20"
proof -
  have "nat (- n) < 10 ^ 19" "nat n < 10 ^ 19" using assms by (simp_all add: nat_less_iff)
  then have "length (nat_str (nat (- n))) \<le> 19" "length (nat_str (nat n)) \<le> 19"
    by (auto intro: nat_str_length)
  then show ?thesis using itoa_int_str [OF assms(1)] by (auto simp: int_str_def)
qed

theorem itoa_correct_witness: "itoa (- 305) = int_str (- 305) \<and> length (itoa (- 305)) \<le> 20"
  by (rule itoa_correct) simp_all

end
