(* ===== verification/Cache.thy ===== *)
theory Cache
  imports Gorm
begin

text \<open>
  \<open>infra/cache/cache.go\<close>, \<open>infra/cache/memory\<close> and \<open>admin/dbcache\<close>: the cache interface, its
  in-memory implementation and the read-through cache over database queries.

  Cached values are immutable here: the in-memory cache copies what it stores and what it
  loads, so a value of the model stands for the copy. Instants are nanoseconds. Calls run one after
  another; concurrent calls for one key, which the code merges into one load, are not modelled.
\<close>

subsection \<open>The in-memory cache\<close>

definition ErrNotFound_cache :: goerror where
  "ErrNotFound_cache = ErrString 310 ''cache: key not found''"
definition ErrWrongType :: goerror where
  "ErrWrongType = ErrString 311 ''val must be a pointer''"
definition ErrAddressable :: goerror where
  "ErrAddressable = ErrString 312 ''cannot set value: val is not addressable''"

definition DefaultExpiration :: int where "DefaultExpiration = 0"
definition NoExpiration :: int where "NoExpiration = -1"

text \<open>An item's value is an interface: \<open>None\<close> is nil.\<close>

record 'v Item =
  item_Value :: "'v option"
  item_Expiration :: int

definition Expired :: "int \<Rightarrow> 'v Item \<Rightarrow> bool" where
  "Expired now i = (if item_Expiration i = 0 then False else now > item_Expiration i)"

record 'v memCache =
  opts_Expiration :: int
  items :: "(string, 'v Item) gomap"

text \<open>
  The destination of a \<open>Load\<close>: not a pointer, a pointer whose target cannot be set (nil), or a
  pointer to a variable whose type admits the values satisfying a test.
\<close>

datatype 'v dest = NotPointer | NilPointer | Dest "'v \<Rightarrow> bool"

definition mem_Load :: "int \<Rightarrow> nat \<Rightarrow> string \<Rightarrow> 'v dest \<Rightarrow> 'v memCache \<Rightarrow> goerror + 'v" where
  "mem_Load now a key val c =
     (case val of
        NotPointer \<Rightarrow> Inl ErrWrongType
      | NilPointer \<Rightarrow> Inl ErrAddressable
      | Dest ty \<Rightarrow>
          (case map_of (items c) key of
             None \<Rightarrow> Inl ErrNotFound_cache
           | Some item \<Rightarrow>
               if Expired now item then Inl ErrNotFound_cache
               else (case item_Value item of
                       None \<Rightarrow> Inl ErrNotFound_cache
                     | Some v \<Rightarrow> if \<not> ty v then Inl (ErrString a ''type mismatch'') else Inr v)))"

definition mem_Exists :: "int \<Rightarrow> string \<Rightarrow> 'v memCache \<Rightarrow> bool" where
  "mem_Exists now key c =
     (case map_of (items c) key of
        None \<Rightarrow> False
      | Some item \<Rightarrow> if Expired now item then False else True)"

definition mem_Store :: "int \<Rightarrow> string \<Rightarrow> 'v option \<Rightarrow> int \<Rightarrow> 'v memCache \<Rightarrow> 'v memCache" where
  "mem_Store now key val d0 c =
     (let d = (if d0 = DefaultExpiration then opts_Expiration c else d0);
          e = (if d > 0 then now + d else 0)
      in c\<lparr>items := AList.update key \<lparr>item_Value = val, item_Expiration = e\<rparr> (items c)\<rparr>)"

definition mem_Delete :: "string \<Rightarrow> 'v memCache \<Rightarrow> 'v memCache" where
  "mem_Delete key c = c\<lparr>items := AList.delete key (items c)\<rparr>"

text \<open>The options of \<open>NewCache\<close>: an expiration and preconfigured items.\<close>

record 'v cache_options =
  Expiration :: int
  Items :: "(string, 'v Item) gomap"

definition with_Expiration :: "int \<Rightarrow> 'v cache_options \<Rightarrow> 'v cache_options" where
  "with_Expiration d o1 = o1\<lparr>Expiration := d\<rparr>"

definition with_Items :: "(string, 'v Item) gomap \<Rightarrow> 'v cache_options \<Rightarrow> 'v cache_options" where
  "with_Items i o1 = o1\<lparr>Items := i\<rparr>"

definition NewOptions :: "('v cache_options \<Rightarrow> 'v cache_options) list \<Rightarrow> 'v cache_options" where
  "NewOptions opts = fold (\<lambda>o1 st. o1 st) opts \<lparr>Expiration = DefaultExpiration, Items = []\<rparr>"

definition NewCache :: "('v cache_options \<Rightarrow> 'v cache_options) list \<Rightarrow> 'v memCache" where
  "NewCache opts =
     (let options = NewOptions opts;
          its = (if length (Items options) > 0 then Items options else [])
      in \<lparr>opts_Expiration = Expiration options, items = its\<rparr>)"

subsection \<open>The interface\<close>

text \<open>
  What the rest of the code uses of a cache, for values of one type; \<open>'s\<close> is the
  state of the backend and the first argument of each operation is the instant it runs.
\<close>

record ('v, 's) Cache =
  Load :: "int \<Rightarrow> string \<Rightarrow> 's \<Rightarrow> (goerror + 'v) \<times> 's"
  Store :: "int \<Rightarrow> string \<Rightarrow> 'v \<Rightarrow> int \<Rightarrow> 's \<Rightarrow> goerror option \<times> 's"
  cache_Delete :: "int \<Rightarrow> string \<Rightarrow> 's \<Rightarrow> goerror option \<times> 's"

definition memory_cache :: "('v, 'v memCache) Cache" where
  "memory_cache =
     \<lparr>Load = (\<lambda>now key c. (mem_Load now 313 key (Dest (\<lambda>v. True)) c, c)),
      Store = (\<lambda>now key v d c. (None, mem_Store now key (Some v) d c)),
      cache_Delete = (\<lambda>now key c. (None, mem_Delete key c))\<rparr>"

subsection \<open>dbcache: dependencies\<close>

definition ident_start :: "char \<Rightarrow> bool" where
  "ident_start c \<longleftrightarrow> (let n = of_char c :: nat in (97 \<le> n \<and> n \<le> 122) \<or> (65 \<le> n \<and> n \<le> 90) \<or> n = 95)"

definition ident_char :: "char \<Rightarrow> bool" where
  "ident_char c \<longleftrightarrow> ident_start c \<or> (let n = of_char c :: nat in 48 \<le> n \<and> n \<le> 57)"

definition validTableName :: "string \<Rightarrow> bool" where
  "validTableName s = (case s of [] \<Rightarrow> False | c # cs \<Rightarrow> ident_start c \<and> list_all ident_char cs)"

definition validColumnExpr :: "string \<Rightarrow> bool" where
  "validColumnExpr s = (case s of [] \<Rightarrow> False
     | c # cs \<Rightarrow> ident_start c \<and>
         list_all (\<lambda>c. ident_char c \<or> c \<in> set [CHR '' '', CHR 0x09, CHR 0x0A, CHR 0x0C, CHR 0x0D, CHR ''('', CHR '')'', CHR '','']) cs)"

text \<open>A dependency on a table or a model (by name); the marker query is a parameter.\<close>

record SqlDependency =
  table :: string
  column :: string
  model :: "string option"
  condition :: string

definition WithTable :: "string \<Rightarrow> SqlDependency \<Rightarrow> SqlDependency" where
  "WithTable t o1 = o1\<lparr>table := t\<rparr>"
definition WithColumn :: "string \<Rightarrow> SqlDependency \<Rightarrow> SqlDependency" where
  "WithColumn c o1 = o1\<lparr>column := c\<rparr>"
definition WithModel :: "string \<Rightarrow> SqlDependency \<Rightarrow> SqlDependency" where
  "WithModel m o1 = o1\<lparr>model := Some m\<rparr>"
definition WithCondition :: "string \<Rightarrow> SqlDependency \<Rightarrow> SqlDependency" where
  "WithCondition c o1 = o1\<lparr>condition := c\<rparr>"

definition NewSqlDependency :: "(SqlDependency \<Rightarrow> SqlDependency) list \<Rightarrow> SqlDependency" where
  "NewSqlDependency cbs = fold (\<lambda>cb d. cb d) cbs \<lparr>table = '''', column = '''', model = None, condition = ''''\<rparr>"

text \<open>\<open>scan target column condition\<close> runs the query; a NULL result is \<open>None\<close>.\<close>

definition GetValue ::
  "(string \<Rightarrow> string \<Rightarrow> string \<Rightarrow> 'd \<Rightarrow> goerror + string option) \<Rightarrow> nat \<Rightarrow> SqlDependency \<Rightarrow> 'd
     \<Rightarrow> goerror + string" where
  "GetValue scan a dep d =
     (if \<not> validColumnExpr (column dep) then Inl (ErrString a (''invalid column expression: '' @ column dep))
      else
      (let target = (if table dep \<noteq> '''' then
                       (if \<not> validTableName (table dep) then Inl (ErrString a (''invalid table name: '' @ table dep))
                        else Inr (table dep))
                     else (case model dep of
                             Some m \<Rightarrow> Inr m
                           | None \<Rightarrow> Inl (ErrString a ''dbcache: SqlDependency requires WithTable or WithModel'')))
       in case target of
            Inl e \<Rightarrow> Inl e
          | Inr q \<Rightarrow> (case scan q (column dep) (condition dep) d of
                        Inl e \<Rightarrow> Inl e
                      | Inr None \<Rightarrow> Inr ''''
                      | Inr (Some v) \<Rightarrow> Inr v)))"

subsection \<open>dbcache: the read-through cache\<close>

definition maxCacheKeyLen :: nat where "maxCacheKeyLen = 256"
definition defaultCacheDuration :: int where "defaultCacheDuration = 10 * 60 * 1000000000"
definition graceWindow :: int where "graceWindow = 1000000000"

record 'r cacheEntry =
  entry_Value :: 'r
  CompareValue :: string
  CreatedAt :: int

record ('r, 'd, 's) Cacher =
  cache :: "('r cacheEntry, 's) Cache"
  duration :: int
  dependency :: "('d \<Rightarrow> goerror + string) option"

definition WithCache :: "('r cacheEntry, 's) Cache \<Rightarrow> ('r, 'd, 's) Cacher \<Rightarrow> ('r, 'd, 's) Cacher" where
  "WithCache c o1 = o1\<lparr>cache := c\<rparr>"

definition WithCacheDuration :: "int \<Rightarrow> ('r, 'd, 's) Cacher \<Rightarrow> ('r, 'd, 's) Cacher" where
  "WithCacheDuration d o1 = (if d > 0 then o1\<lparr>duration := d\<rparr> else o1)"

definition WithDependency :: "('d \<Rightarrow> goerror + string) \<Rightarrow> ('r, 'd, 's) Cacher \<Rightarrow> ('r, 'd, 's) Cacher" where
  "WithDependency dep o1 = o1\<lparr>dependency := Some dep\<rparr>"

definition dbcache_New ::
  "('r cacheEntry, 's) Cache \<Rightarrow> (('r, 'd, 's) Cacher \<Rightarrow> ('r, 'd, 's) Cacher) list \<Rightarrow> ('r, 'd, 's) Cacher" where
  "dbcache_New mem opts =
     fold (\<lambda>o1 c. o1 c) opts \<lparr>cache = mem, duration = defaultCacheDuration, dependency = None\<rparr>"

text \<open>
  The state of a call: the backend, and the clock, of which every reading takes the
  next instant. A reload runs once per key at a time; calls are sequential here, so the
  deduplication of concurrent reloads is the identity.
\<close>

record 's tstate =
  backend :: 's
  instants :: "nat \<Rightarrow> int"
  ticks :: nat

definition tnow :: "'s tstate \<Rightarrow> int \<times> 's tstate" where
  "tnow s = (instants s (ticks s), s\<lparr>ticks := Suc (ticks s)\<rparr>)"

definition UnixMilli :: "int \<Rightarrow> int" where
  "UnixMilli t = t div 1000000"

definition reload ::
  "('r, 'd, 's) Cacher \<Rightarrow> 'd \<Rightarrow> string \<Rightarrow> ('d \<Rightarrow> goerror + 'r) \<Rightarrow> 's tstate \<Rightarrow> (goerror + 'r) \<times> 's tstate" where
  "reload c d key f s =
     (case (case dependency c of None \<Rightarrow> Inr '''' | Some dep \<Rightarrow> dep d) of
        Inl e \<Rightarrow> (Inl e, s)
      | Inr dependValue \<Rightarrow>
          (case f d of
             Inl e \<Rightarrow> (Inl e, s)
           | Inr result \<Rightarrow>
               (let (now, s1) = tnow s;
                    (t, s2) = tnow s1;
                    (_, b) = Store (cache c) t key
                       \<lparr>entry_Value = result, CompareValue = dependValue, CreatedAt = UnixMilli now\<rparr>
                       (duration c) (backend s2)
                in (Inr result, s2\<lparr>backend := b\<rparr>))))"

definition Try ::
  "('r, 'd, 's) Cacher \<Rightarrow> nat \<Rightarrow> 'd \<Rightarrow> string \<Rightarrow> ('d \<Rightarrow> goerror + 'r) \<Rightarrow> 's tstate
     \<Rightarrow> (goerror + 'r) \<times> 's tstate" where
  "Try c a d key f s =
     (if length key > maxCacheKeyLen then (Inl (New a CodeInvalid ''cache key too long''), s)
      else
      (let (t, s0) = tnow s;
           (r, b1) = Load (cache c) t key (backend s0);
           s1 = s0\<lparr>backend := b1\<rparr>
       in case r of
            Inl _ \<Rightarrow> reload c d key f s1
          | Inr entry \<Rightarrow>
              (let created = CreatedAt entry * 1000000; (now, s2) = tnow s1 in
               if \<not> now < created then
                 if now - created \<le> graceWindow then (Inr (entry_Value entry), s2)
                 else (case dependency c of
                         None \<Rightarrow> (Inr (entry_Value entry), s2)
                       | Some dep \<Rightarrow>
                           (case dep d of
                              Inl _ \<Rightarrow> reload c d key f s2
                            | Inr dependValue \<Rightarrow>
                                if CompareValue entry = dependValue then (Inr (entry_Value entry), s2)
                                else (let (t', s3) = tnow s2;
                                          (_, b2) = cache_Delete (cache c) t' key (backend s3)
                                      in reload c d key f (s3\<lparr>backend := b2\<rparr>))))
               else reload c d key f s2)))"

subsection \<open>Facts about the in-memory cache\<close>

lemma mem_Load_Store:
  "mem_Load now' a key' (Dest ty) (mem_Store now key (Some v) d c) =
     (if key' = key then
        (let e = (if d = DefaultExpiration then opts_Expiration c else d) in
         if e > 0 \<and> now + e \<noteq> 0 \<and> now' > now + e then Inl ErrNotFound_cache
         else if ty v then Inr v else Inl (ErrString a ''type mismatch''))
      else mem_Load now' a key' (Dest ty) c)"
  by (simp add: mem_Load_def mem_Store_def Let_def gomap_simps Expired_def)

lemma mem_Load_Delete:
  "gomap_ok (items c) \<Longrightarrow> mem_Load now a key' (Dest ty) (mem_Delete key c) =
     (if key' = key then Inl ErrNotFound_cache else mem_Load now a key' (Dest ty) c)"
  by (simp add: mem_Load_def mem_Delete_def gomap_simps)

subsection \<open>The contract of a cache backend\<close>

text \<open>
  A backend returns only what was stored under the key and never invents or resurrects a
  value, nor returns one whose lifetime has ended; it may forget, and its operations may
  fail. \<open>stored s k\<close> is what it may return, each value with the end of its lifetime (0 for a
  value that does not expire).
\<close>

locale cache_backend =
  fixes ops :: "('v, 's) Cache"
    and stored :: "'s \<Rightarrow> string \<Rightarrow> ('v \<times> int) set"
  assumes load_law: "Load ops now k s = (Inr v, s') \<Longrightarrow> \<exists>x. (v, x) \<in> stored s k \<and> (x = 0 \<or> now \<le> x)"
    and load_frame: "Load ops now k s = (r, s') \<Longrightarrow> stored s' k' \<subseteq> stored s k'"
    and store_law: "0 < d \<Longrightarrow> Store ops now k v d s = (x, s') \<Longrightarrow>
      stored s' k' \<subseteq> (if k' = k then insert (v, now + d) (stored s k) else stored s k')"
    and delete_law: "cache_Delete ops now k s = (x, s') \<Longrightarrow> stored s' k' \<subseteq> stored s k'"

definition mem_stored :: "'v memCache \<Rightarrow> string \<Rightarrow> ('v \<times> int) set" where
  "mem_stored c k = {(v, x). \<exists>i. (k, i) \<in> set (items c) \<and> item_Value i = Some v \<and> item_Expiration i = x}"

lemma set_update_subset: "set (AList.update k v m) \<subseteq> insert (k, v) (set m)"
  by (induction m) auto

lemma mem_stored_Store:
  "0 < d \<Longrightarrow> mem_stored (mem_Store now k (Some v) d c) k' \<subseteq>
     (if k' = k then insert (v, now + d) (mem_stored c k) else mem_stored c k')"
  using set_update_subset [of k _ "items c"]
  by (fastforce simp: mem_stored_def mem_Store_def Let_def DefaultExpiration_def)

lemma mem_stored_Delete: "mem_stored (mem_Delete k c) k' \<subseteq> mem_stored c k'"
  by (auto simp: mem_stored_def mem_Delete_def AList.delete_eq)

lemma mem_Load_stored:
  "mem_Load now a k val c = Inr v \<Longrightarrow> \<exists>x. (v, x) \<in> mem_stored c k \<and> (x = 0 \<or> now \<le> x)"
  by (fastforce simp: mem_Load_def mem_stored_def Expired_def split: dest.splits option.splits if_splits
      dest: map_of_SomeD)

interpretation mem_backend: cache_backend memory_cache mem_stored
proof (unfold_locales, goal_cases)
  case (3 d now k v s r s' k')
  then show ?case using mem_stored_Store [of d now k v s k'] by (auto simp: memory_cache_def)
next
  case (4 now k s r s' k')
  then show ?case using mem_stored_Delete [of k s k'] by (auto simp: memory_cache_def)
qed (auto simp: memory_cache_def intro: mem_Load_stored)

subsection \<open>Histories\<close>

text \<open>
  A history of a read-through cache: the database changes at will and calls run one after
  another; the list records the contents the database had at each reading of the clock.
  Other activity may advance the clock and drop entries, but adds none to this cache.
\<close>

inductive history ::
  "('r, 'd, 's) Cacher \<Rightarrow> (string \<Rightarrow> 'd \<Rightarrow> goerror + 'r) \<Rightarrow> ('s \<Rightarrow> string \<Rightarrow> ('r cacheEntry \<times> int) set)
     \<Rightarrow> 'd \<Rightarrow> 's tstate \<Rightarrow> (int \<times> 'd) list \<Rightarrow> bool"
  for c :: "('r, 'd, 's) Cacher" and f and st where
  init: "(\<And>k. st (backend s) k = {}) \<Longrightarrow> history c f st d s []"
| db_write: "history c f st d s h \<Longrightarrow> history c f st d' s h"
| call: "history c f st d s h \<Longrightarrow> Try c a d k (f k) s = (r, s') \<Longrightarrow>
    history c f st d s' (h @ map (\<lambda>i. (instants s i, d)) [ticks s ..< ticks s'])"
| other: "history c f st d s h \<Longrightarrow> instants s' = instants s \<Longrightarrow> (\<And>k. st (backend s') k \<subseteq> st (backend s) k) \<Longrightarrow>
    history c f st d s' h"

text \<open>
  An entry, expiring at \<open>x\<close>, that a reload put into the cache when the database was \<open>d0\<close>: it
  was created at the instant \<open>t\<close> and stored at \<open>t'\<close>.
\<close>

definition loaded_at ::
  "('r, 'd, 's) Cacher \<Rightarrow> ('d \<Rightarrow> goerror + 'r) \<Rightarrow> 'r cacheEntry \<times> int \<Rightarrow> int \<Rightarrow> int \<Rightarrow> 'd \<Rightarrow> bool" where
  "loaded_at c f ex t t' d0 \<longleftrightarrow> f d0 = Inr (entry_Value (fst ex)) \<and> CreatedAt (fst ex) = UnixMilli t \<and>
     snd ex = t' + duration c \<and> (\<forall>dep. dependency c = Some dep \<longrightarrow> dep d0 = Inr (CompareValue (fst ex)))"

text \<open>The ways through a call: the key is too long, the entry is served, or a reload runs.\<close>

lemma Try_paths:
  assumes "Try c a d k f s = (r, s')"
  obtains (long) er where "r = Inl er" "s' = s"
  | (hit) e b1 where "Load (cache c) (instants s (ticks s)) k (backend s) = (Inr e, b1)"
      "r = Inr (entry_Value e)" "s' = s\<lparr>backend := b1, ticks := Suc (Suc (ticks s))\<rparr>"
      "instants s (Suc (ticks s)) - CreatedAt e * 1000000 \<le> graceWindow \<or> dependency c = None \<or>
        (\<exists>dep. dependency c = Some dep \<and> dep d = Inr (CompareValue e))"
  | (miss) l b1 x where "Load (cache c) (instants s (ticks s)) k (backend s) = (l, b1)"
      "reload c d k f x = (r, s')" "instants x = instants s" "ticks s \<le> ticks x"
      "backend x = b1 \<or> (\<exists>now y. cache_Delete (cache c) now k b1 = (y, backend x))"
proof (cases "length k > maxCacheKeyLen")
  case True
  then show ?thesis using assms long by (auto simp: Try_def)
next
  case False
  obtain l b1 where l: "Load (cache c) (instants s (ticks s)) k (backend s) = (l, b1)" by (rule prod.exhaust)
  show ?thesis
  proof (cases l)
    case (Inl er)
    then have "reload c d k f (s\<lparr>ticks := Suc (ticks s), backend := b1\<rparr>) = (r, s')" using assms False l
      by (simp add: Try_def tnow_def)
    then show ?thesis using miss [OF l] by simp
  next
    case (Inr e)
    let ?now = "instants s (Suc (ticks s))" and ?created = "CreatedAt e * 1000000"
    let ?s2 = "s\<lparr>backend := b1, ticks := Suc (Suc (ticks s))\<rparr>"
    obtain y b2 where del: "cache_Delete (cache c) (instants s (Suc (Suc (ticks s)))) k b1 = (y, b2)"
      by (rule prod.exhaust)
    let ?s3 = "s\<lparr>ticks := Suc (Suc (Suc (ticks s))), backend := b2\<rparr>"
    have "(r = Inr (entry_Value e) \<and> s' = ?s2 \<and> (?now - ?created \<le> graceWindow \<or>
         dependency c = None \<or> (\<exists>dep. dependency c = Some dep \<and> dep d = Inr (CompareValue e)))) \<or>
      reload c d k f ?s2 = (r, s') \<or> reload c d k f ?s3 = (r, s')"
    proof (cases "dependency c")
      case None
      then show ?thesis using assms False l Inr by (auto simp: Try_def tnow_def Let_def split: if_splits)
    next
      case (Some dep)
      then show ?thesis using assms False l Inr del
        by (cases "dep d") (auto simp: Try_def tnow_def Let_def split: if_splits)
    qed
    then show ?thesis using hit [OF l [unfolded Inr]] miss [OF l, of ?s2] miss [OF l, of ?s3] del by auto
  qed
qed

locale read_through = cache_backend ops stored
  for ops :: "('r cacheEntry, 's) Cache" and stored +
  fixes c :: "('r, 'd, 's) Cacher"
  assumes cache_ops: "cache c = ops" and duration_pos: "0 < duration c"
begin

lemma reload_effect:
  assumes "reload c d k f s = (r, s')"
  shows "instants s' = instants s \<and> ticks s \<le> ticks s' \<and>
    (\<forall>v. r = Inr v \<longrightarrow> f d = Inr v) \<and>
    (\<forall>k' e. e \<in> stored (backend s') k' \<longrightarrow> e \<in> stored (backend s) k' \<or>
       (k' = k \<and> (\<exists>i\<in>{ticks s..<ticks s'}. \<exists>j\<in>{ticks s..<ticks s'}. loaded_at c f e (instants s i) (instants s j) d)))"
proof (cases "\<exists>m v. (case dependency c of None \<Rightarrow> Inr '''' | Some dep \<Rightarrow> dep d) = Inr m \<and> f d = Inr v")
  case False
  then have "s' = s" "\<And>v. r = Inr v \<Longrightarrow> False" using assms
    by (auto simp: reload_def split: sum.splits)
  then show ?thesis by auto
next
  case True
  then obtain m v where mv: "(case dependency c of None \<Rightarrow> Inr '''' | Some dep \<Rightarrow> dep d) = Inr m" "f d = Inr v"
    by blast
  let ?e = "\<lparr>entry_Value = v, CompareValue = m, CreatedAt = UnixMilli (instants s (ticks s))\<rparr>"
  obtain x b where st: "Store ops (instants s (Suc (ticks s))) k ?e (duration c) (backend s) = (x, b)" by fastforce
  then have s': "s' = s\<lparr>ticks := Suc (Suc (ticks s)), backend := b\<rparr>" "r = Inr v"
    using assms mv by (auto simp: reload_def tnow_def cache_ops)
  let ?x = "instants s (Suc (ticks s)) + duration c"
  have e: "loaded_at c f (?e, ?x) (instants s (ticks s)) (instants s (Suc (ticks s))) d"
    using mv by (auto simp: loaded_at_def)
  have "e' \<in> stored (backend s) k' \<or> (k' = k \<and> e' = (?e, ?x))" if "e' \<in> stored b k'" for k' e'
    using store_law [OF duration_pos st, of k'] that by (auto split: if_splits)
  with e s' mv show ?thesis by fastforce
qed

text \<open>The frame of a call: what may be in the cache afterwards.\<close>

definition frame :: "'d \<Rightarrow> string \<Rightarrow> ('d \<Rightarrow> goerror + 'r) \<Rightarrow> 's tstate \<Rightarrow> 's tstate \<Rightarrow> bool" where
  "frame d k f s s' \<longleftrightarrow> instants s' = instants s \<and> ticks s \<le> ticks s' \<and>
    (\<forall>k' e. e \<in> stored (backend s') k' \<longrightarrow> e \<in> stored (backend s) k' \<or>
       (k' = k \<and> (\<exists>i\<in>{ticks s..<ticks s'}. \<exists>j\<in>{ticks s..<ticks s'}. loaded_at c f e (instants s i) (instants s j) d)))"

lemma reload_frame: "reload c d k f s = (r, s') \<Longrightarrow> frame d k f s s'"
  using reload_effect unfolding frame_def by blast

lemma reload_value: "reload c d k f s = (Inr v, s') \<Longrightarrow> f d = Inr v"
  using reload_effect by blast

lemma frame_start:
  assumes "instants s1 = instants s" and "ticks s \<le> ticks s1"
    and "\<And>k'. stored (backend s1) k' \<subseteq> stored (backend s) k'" and "frame d k f s1 s'"
  shows "frame d k f s s'"
  using assms unfolding frame_def by fastforce

lemma Try_effect:
  assumes "Try c a d k f s = (r, s')"
  shows "frame d k f s s' \<and>
    (\<forall>v. r = Inr v \<longrightarrow> f d = Inr v \<or>
       (\<exists>e x. (e, x) \<in> stored (backend s) k \<and> (x = 0 \<or> instants s (ticks s) \<le> x) \<and> entry_Value e = v \<and>
          (instants s (Suc (ticks s)) - CreatedAt e * 1000000 \<le> graceWindow \<or>
           dependency c = None \<or> (\<exists>dep. dependency c = Some dep \<and> dep d = Inr (CompareValue e)))))"
    (is "_ \<and> ?value")
  using assms
proof (cases rule: Try_paths)
  case (long er)
  then show ?thesis by (simp add: frame_def)
next
  case (hit e b1)
  then have "\<And>k'. stored b1 k' \<subseteq> stored (backend s) k'"
    "\<exists>x. (e, x) \<in> stored (backend s) k \<and> (x = 0 \<or> instants s (ticks s) \<le> x)"
    using load_frame load_law unfolding cache_ops by blast+
  then show ?thesis using hit(2-4) by (fastforce simp: frame_def)
next
  case (miss l b1 x)
  then have "\<And>k'. stored b1 k' \<subseteq> stored (backend s) k'" using load_frame unfolding cache_ops by blast
  moreover have "\<And>k'. stored (backend x) k' \<subseteq> stored b1 k'"
    using miss(5) delete_law unfolding cache_ops by blast
  ultimately have "\<And>k'. stored (backend x) k' \<subseteq> stored (backend s) k'" by blast
  from frame_start [OF miss(3,4) this reload_frame [OF miss(2)]] show ?thesis
    using reload_value miss(2) by blast
qed

lemma history_loaded:
  assumes "history c f stored d s h" and "e \<in> stored (backend s) k"
  shows "\<exists>t t' d0. (t, d0) \<in> set h \<and> (t', d0) \<in> set h \<and> loaded_at c (f k) e t t' d0"
  using assms
proof (induction arbitrary: e k rule: history.induct)
  case (init s d)
  then show ?case by simp
next
  case (db_write d s h d')
  then show ?case by blast
next
  case (call d s h a k' r s')
  then have "frame d k' (f k') s s'" using Try_effect by blast
  then consider "e \<in> stored (backend s) k"
    | i j where "k = k'" "i \<in> {ticks s..<ticks s'}" "j \<in> {ticks s..<ticks s'}"
        "loaded_at c (f k') e (instants s i) (instants s j) d"
    using call.prems unfolding frame_def by blast
  then show ?case
  proof cases
    case 1
    then show ?thesis using call.IH by fastforce
  next
    case 2
    then show ?thesis
      by (intro exI [of _ "instants s i"] exI [of _ "instants s j"] exI [of _ d]) auto
  qed
next
  case (other d s h s')
  then show ?case by blast
qed

text \<open>
  What a call returns comes from the database as it is, or from contents it had at most
  the grace window ago, or from contents it had at most the lifetime of an entry ago and
  with the same version marker, if there is a dependency.
\<close>

lemma Try_stale:
  assumes "history c f stored d s h" and "Try c a d k (f k) s = (Inr v, s')" and "\<forall>(t, d0)\<in>set h. 0 \<le> t"
  shows "f k d = Inr v \<or>
    (\<exists>(t, d0)\<in>set h. f k d0 = Inr v \<and>
       (instants s (Suc (ticks s)) - t \<le> graceWindow \<or>
        instants s (ticks s) - t \<le> duration c \<and> (\<forall>dep. dependency c = Some dep \<longrightarrow> dep d0 = dep d)))"
proof (cases "f k d = Inr v")
  case False
  with Try_effect [OF assms(2)] obtain e x where e: "(e, x) \<in> stored (backend s) k"
    "x = 0 \<or> instants s (ticks s) \<le> x" "entry_Value e = v"
    "instants s (Suc (ticks s)) - CreatedAt e * 1000000 \<le> graceWindow \<or>
      dependency c = None \<or> (\<exists>dep. dependency c = Some dep \<and> dep d = Inr (CompareValue e))" by blast
  obtain t t' d0 where t: "(t, d0) \<in> set h" "(t', d0) \<in> set h" "loaded_at c (f k) (e, x) t t' d0"
    using history_loaded [OF assms(1) e(1)] by blast
  have c: "CreatedAt e * 1000000 \<le> t" using t(3) by (simp add: loaded_at_def UnixMilli_def)
  have l: "f k d0 = Inr v" "x = t' + duration c" "\<And>dep. dependency c = Some dep \<Longrightarrow> dep d0 = Inr (CompareValue e)"
    using t(3) e(3) by (auto simp: loaded_at_def)
  have "0 \<le> t'" using assms(3) t(2) by blast
  then have x: "instants s (ticks s) - t' \<le> duration c" using e(2) l(2) duration_pos by auto
  show ?thesis
  proof (cases "instants s (Suc (ticks s)) - CreatedAt e * 1000000 \<le> graceWindow")
    case True
    then have "instants s (Suc (ticks s)) - t \<le> graceWindow" using c by simp
    then show ?thesis using t(1) l(1) by blast
  next
    case False
    then have "\<forall>dep. dependency c = Some dep \<longrightarrow> dep d0 = dep d" using e(4) l(3) by auto
    then show ?thesis using t(2) l(1) x by blast
  qed
qed simp

end

text \<open>The default read-through cache, on the in-memory backend.\<close>

interpretation mem_cacher: read_through memory_cache mem_stored
  "c\<lparr>cache := memory_cache, duration := (if 0 < duration c then duration c else defaultCacheDuration)\<rparr>"
  for c :: "('r, 'd, 'r cacheEntry memCache) Cacher"
  by unfold_locales (simp_all add: defaultCacheDuration_def)

lemma dbcache_New_duration: "set opts \<subseteq> {WithCacheDuration n, WithDependency dep, WithCache b} \<Longrightarrow> 0 < duration (dbcache_New mem opts)"
proof -
  have "0 < duration (fold (\<lambda>o1 c. o1 c) opts c)"
    if "set opts \<subseteq> {WithCacheDuration n, WithDependency dep, WithCache b}" "0 < duration c" for c
    using that
    by (induction opts arbitrary: c) (auto simp: WithCacheDuration_def WithDependency_def WithCache_def)
  then show "set opts \<subseteq> {WithCacheDuration n, WithDependency dep, WithCache b} \<Longrightarrow> 0 < duration (dbcache_New mem opts)"
    by (simp add: dbcache_New_def defaultCacheDuration_def)
qed

section \<open>Properties\<close>

text \<open>
  C11: Bounded staleness of the read-through cache. In every history of calls that run one
  after another, with a database that changes at will between them, a value returned for
  a key is what the loader returns on the database now, or on contents it had at most one
  second ago, or on contents it had at most the lifetime of an entry (\<open>duration\<close>, ten minutes by
  default) ago and whose version marker is the present one, when there is a dependency. The
  marker need not determine the loaded value: changes it does not show last until the
  entry expires. (The lifetime is positive, as the options ensure, and the clock reads
  instants after the epoch.)
\<close>

theorem dbcache_staleness:
  assumes "cache c = memory_cache" and "0 < duration c"
    and "history c f mem_stored d s h" and "Try c a d k (f k) s = (Inr v, s')" and "\<forall>(t, d0)\<in>set h. 0 \<le> t"
  shows "f k d = Inr v \<or>
    (\<exists>(t, d0)\<in>set h. f k d0 = Inr v \<and>
       (instants s (Suc (ticks s)) - t \<le> 1000000000 \<or>
        instants s (ticks s) - t \<le> duration c \<and> (\<forall>dep. dependency c = Some dep \<longrightarrow> dep d0 = dep d)))"
proof -
  have c: "c\<lparr>cache := memory_cache, duration := (if 0 < duration c then duration c else defaultCacheDuration)\<rparr> = c"
    using assms(1,2) by simp
  from mem_cacher.Try_stale [of c f d s h a k v s', unfolded c, OF assms(3,4,5)] show ?thesis
    by (simp add: graceWindow_def)
qed

definition sample_cacher :: "(string, string, string cacheEntry memCache) Cacher" where
  "sample_cacher = \<lparr>cache = memory_cache, duration = defaultCacheDuration, dependency = Some (\<lambda>d. Inr d)\<rparr>"

definition sample_tstate :: "string cacheEntry memCache tstate" where
  "sample_tstate = \<lparr>backend = NewCache [], instants = (\<lambda>i. 1000000 * int i), ticks = 0\<rparr>"

theorem dbcache_staleness_witness:
  "\<exists>s1 s2. Try sample_cacher 900 ''a'' ''k'' (\<lambda>d. Inr d) sample_tstate = (Inr ''a'', s1) \<and>
     Try sample_cacher 900 ''b'' ''k'' (\<lambda>d. Inr d) s1 = (Inr ''a'', s2) \<and>
     (\<exists>(t, d0)\<in>set (map (\<lambda>i. (1000000 * int i, ''a'')) [0..<ticks s1]).
        d0 = ''a'' \<and> instants s1 (Suc (ticks s1)) - t \<le> graceWindow)"
proof -
  let ?e = "\<lparr>entry_Value = ''a'', CompareValue = ''a'', CreatedAt = 1\<rparr>"
  let ?s1 = "\<lparr>backend = mem_Store 2000000 ''k'' (Some ?e) defaultCacheDuration (NewCache []),
      instants = (\<lambda>i. 1000000 * int i), ticks = 3\<rparr>"
  have one: "Try sample_cacher 900 ''a'' ''k'' (\<lambda>d. Inr d) sample_tstate = (Inr ''a'', ?s1)"
    by (simp add: Try_def reload_def tnow_def sample_cacher_def sample_tstate_def memory_cache_def maxCacheKeyLen_def
        mem_Load_def NewCache_def NewOptions_def UnixMilli_def)
  have two: "Try sample_cacher 900 ''b'' ''k'' (\<lambda>d. Inr d) ?s1 = (Inr ''a'', ?s1\<lparr>ticks := 5\<rparr>)"
    by (simp add: Try_def tnow_def sample_cacher_def memory_cache_def maxCacheKeyLen_def mem_Load_Store
        DefaultExpiration_def defaultCacheDuration_def graceWindow_def)
  have "history sample_cacher (\<lambda>k d. Inr d) mem_stored ''a'' sample_tstate []"
    by (rule history.init) (simp add: mem_stored_def sample_tstate_def NewCache_def NewOptions_def)
  from history.db_write [OF history.call [OF this one]]
  have h: "history sample_cacher (\<lambda>k d. Inr d) mem_stored ''b'' ?s1
      (map (\<lambda>i. (1000000 * int i, ''a'')) [0..<3])"
    by (simp add: sample_tstate_def)
  have n: "\<forall>(t, d0)\<in>set (map (\<lambda>i. (1000000 * int i, ''a'')) [0..<3]). 0 \<le> t" by auto
  have c: "cache sample_cacher = memory_cache" "0 < duration sample_cacher"
    by (simp_all add: sample_cacher_def defaultCacheDuration_def)
  from dbcache_staleness [OF c h two n] one two show ?thesis
    by (auto simp: sample_cacher_def graceWindow_def)
qed

text \<open>
  The in-memory cache returns what was stored under a key until its lifetime ends
  and not after; a store or a delete affects no other key, and a deleted key is not found.
\<close>

theorem memory_cache_roundtrip:
  assumes "0 \<le> now" and "gomap_ok (items c)"
  shows "mem_Load now' a k (Dest ty) (mem_Store now key (Some v) d c) =
     (if k = key then
        (let e = (if d = DefaultExpiration then opts_Expiration c else d) in
         if e > 0 \<and> now' > now + e then Inl ErrNotFound_cache
         else if ty v then Inr v else Inl (ErrString a ''type mismatch''))
      else mem_Load now' a k (Dest ty) c) \<and>
    mem_Load now' a k (Dest ty) (mem_Delete key c) =
     (if k = key then Inl ErrNotFound_cache else mem_Load now' a k (Dest ty) c)"
  using assms by (simp add: mem_Load_Store mem_Load_Delete Let_def)

theorem memory_cache_roundtrip_witness:
  "mem_Load 7 900 ''k'' (Dest (\<lambda>v. True)) (mem_Store 5 ''k'' (Some (3::nat)) 10 (NewCache [])) = Inr 3"
  using memory_cache_roundtrip [of 5 "NewCache []" 7 900 "''k''" "\<lambda>v. True" "''k''" "3::nat" 10]
  by (simp add: NewCache_def NewOptions_def gomap_ok_def DefaultExpiration_def)

end
