(* ===== verification/Permission.thy ===== *)
theory Permission
  imports JWT Cache Models
begin

text \<open>
  \<open>admin/permission.go\<close>: the permission checker of the JWT middleware, its allowlist and the
  paths it treats as infrastructure.

  The tables are parameters (\<open>Gorm\<close>), and so are the marker queries of the two cached
  sets. The two read-through caches work on one backend state \<open>'s\<close>: with separate caches
  it is a pair, with a shared cache both use the same operations.
\<close>

definition httpProtocol :: string where "httpProtocol = ''http''"
definition catalogMarker :: string where "catalogMarker = ''MAX(updated_at)''"
definition grantsMarker :: string where "grantsMarker = ''SUM(id)''"

subsection \<open>Allowlist\<close>

record allowEntry =
  entry_method :: string
  pattern :: string

type_synonym pathMatcher = "allowEntry list"

definition matchPattern :: "string \<Rightarrow> string \<Rightarrow> bool" where
  "matchPattern pat path =
     (let n = length pat in
      if pat = path then True
      else if pat = ''*'' then True
      else if n > 1 \<and> pat ! (n - 1) = CHR ''*'' then
        (let pre = take (n - 1) pat in
         if \<not> HasPrefix path pre then False
         else if pre ! (length pre - 1) = CHR ''/'' then True
         else length path > length pre \<and> path ! length pre = CHR ''/'')
      else False)"

text \<open>The loop of \<open>match\<close>; the accumulator is \<open>wildcardHit\<close>.\<close>

fun match_loop :: "pathMatcher \<Rightarrow> string \<Rightarrow> string \<Rightarrow> bool \<Rightarrow> bool" where
  "match_loop [] mth path wildcardHit = wildcardHit"
| "match_loop (e # m) mth path wildcardHit =
     (if entry_method e = '''' then
        match_loop m mth path (if matchPattern (pattern e) path then True else wildcardHit)
      else if entry_method e = mth then
        (if matchPattern (pattern e) path then True else match_loop m mth path wildcardHit)
      else match_loop m mth path wildcardHit)"

definition match :: "pathMatcher \<Rightarrow> string \<Rightarrow> string \<Rightarrow> bool" where
  "match m mth path = match_loop m mth path False"

definition isInfrastructurePath :: "string \<Rightarrow> bool" where
  "isInfrastructurePath path =
     (if path = '''' then True
      else if path \<in> set [''/health'', ''/ready'', ''/metrics'', ''/mcp''] then True
      else if HasPrefix path ''/mcp/'' then True
      else HasSuffix path ''/openapi.json'')"

definition splitAllowEntry :: "string \<Rightarrow> string \<times> string" where
  "splitAllowEntry s0 =
     (let s = TrimSpace s0 in
      if s = '''' then ('''', '''')
      else (case CutByte s (CHR '' '') of
              None \<Rightarrow> ('''', s)
            | Some (before, after) \<Rightarrow>
                (let mth = TrimSpace before;
                     mth' = (if mth = ''*'' then '''' else mth)
                 in (mth', TrimSpace after))))"

subsection \<open>Configuration\<close>

record checkerConfig =
  allowlist :: pathMatcher
  failOpen :: bool

definition defaultCheckerAllowlist :: "string list" where
  "defaultCheckerAllowlist =
     [''GET /user/profile'', ''PATCH /user/profile'', ''POST /user/change-password'',
      ''POST /user/set-avatar'', ''GET /user/menus'', ''GET /user/permissions'',
      ''GET /menu/tree'', ''GET /menu/breadcrumb'', ''GET /dashboard/overview'']"

definition append_entries :: "string list \<Rightarrow> checkerConfig \<Rightarrow> checkerConfig" where
  "append_entries entries c =
     foldl (\<lambda>c e. case splitAllowEntry e of (mth, pat) \<Rightarrow>
       c\<lparr>allowlist := allowlist c @ [\<lparr>entry_method = mth, pattern = pat\<rparr>]\<rparr>) c entries"

definition WithCheckerFailOpen :: "bool \<Rightarrow> checkerConfig \<Rightarrow> checkerConfig" where
  "WithCheckerFailOpen b c = c\<lparr>failOpen := b\<rparr>"

definition WithCheckerAllowlist :: "string list \<Rightarrow> checkerConfig \<Rightarrow> checkerConfig" where
  "WithCheckerAllowlist entries c = append_entries entries c"

definition checker_config :: "(checkerConfig \<Rightarrow> checkerConfig) list \<Rightarrow> checkerConfig" where
  "checker_config opts =
     fold (\<lambda>o1 c. o1 c) opts (append_entries defaultCheckerAllowlist \<lparr>allowlist = [], failOpen = False\<rparr>)"

subsection \<open>The checker\<close>

record 's penv = env +
  tst :: "'s tstate"

record ('d, 's) checker_deps =
  permissions :: "(Permission, 'd) table_ops"
  role_permissions :: "(RolePermission, 'd) table_ops"
  apiCatalog :: "(string list, 'd, 's) Cacher"
  grants :: "(string list, 'd, 's) Cacher"

text \<open>The loaders; the sets are represented by the list of their elements.\<close>

definition load_catalog :: "('d, 's) checker_deps \<Rightarrow> 'd \<Rightarrow> goerror + string list" where
  "load_catalog e d =
     (case Find (permissions e) (\<lambda>p. p_Type p = PermissionTypeAPI) d of
        Inl er \<Rightarrow> Inl er | Inr rows \<Rightarrow> Inr (map p_Data rows))"

definition load_grants :: "('d, 's) checker_deps \<Rightarrow> string \<Rightarrow> string \<Rightarrow> 'd \<Rightarrow> goerror + string list" where
  "load_grants e role tenant d =
     (case Find (role_permissions e) (\<lambda>p. rp_RoleKey p = role \<and> rp_TenantID p = tenant \<and>
              rp_Type p = RolePermissionTypePermission) d of
        Inl er \<Rightarrow> Inl er | Inr rows \<Rightarrow> Inr (map rp_Data rows))"

definition grantKey :: "string \<Rightarrow> string \<Rightarrow> string" where
  "grantKey tenant role = ''perm:grant:'' @ tenant @ '':'' @ role"

definition catalogKey :: string where "catalogKey = ''perm:catalog''"

definition check_catalogued ::
  "checkerConfig \<Rightarrow> ('d, 's) checker_deps \<Rightarrow> nat \<Rightarrow> 'd \<Rightarrow> Claims \<Rightarrow> string \<Rightarrow> 's tstate
     \<Rightarrow> goerror option \<times> 's tstate" where
  "check_catalogued cfg e a d ac code t =
     (let (r1, t1) = Try (apiCatalog e) a d catalogKey (load_catalog e) t in
      case r1 of
        Inl er \<Rightarrow> (Some er, t1)
      | Inr catalogSet \<Rightarrow>
          if code \<notin> set catalogSet then
            (if failOpen cfg then (None, t1) else (Some ErrPermissionDenied, t1))
          else
            (let (r2, t2) = Try (grants e) a d (grantKey (TenantID ac) (Role ac))
                              (load_grants e (Role ac) (TenantID ac)) t1 in
             case r2 of
               Inl er \<Rightarrow> (Some er, t2)
             | Inr grantSet \<Rightarrow>
                 if code \<notin> set grantSet then (Some ErrPermissionDenied, t2) else (None, t2)))"

definition permission_checker ::
  "checkerConfig \<Rightarrow> ('d, 's) checker_deps \<Rightarrow> nat \<Rightarrow> 'd \<Rightarrow> 'a ctx_scheme \<Rightarrow> jclaims \<Rightarrow> 's penv
     \<Rightarrow> goerror option \<times> 's penv" where
  "permission_checker cfg e a d c cl s =
     (if fst (ctx_Get (heap s) c RequestProtocol) \<noteq> httpProtocol then (None, s)
      else (case cl of
        StructClaims (Some ac) \<Rightarrow>
          (let mth = fst (ctx_Get (heap s) c RequestMethod);
               path = fst (ctx_Get (heap s) c RequestPath);
               (route0, routeSet) = ctx_Get (heap s) c RequestRoute;
               route = (if \<not> routeSet then path else route0)
           in
           if isInfrastructurePath route then (None, s)
           else if match (allowlist cfg) mth path then (None, s)
           else (case check_catalogued cfg e a d ac (mth @ '' '' @ route) (tst s) of
                   (r, t) \<Rightarrow> (r, s\<lparr>tst := t\<rparr>)))
      | _ \<Rightarrow> (Some ErrAccessDenied, s)))"

text \<open>The two caches as \<open>NewPermissionChecker\<close> builds them.\<close>

definition buildCacher ::
  "(string list cacheEntry, 's) Cache \<Rightarrow> (string list cacheEntry, 's) Cache option
     \<Rightarrow> ('d \<Rightarrow> goerror + string) \<Rightarrow> int \<Rightarrow> (string list, 'd, 's) Cacher" where
  "buildCacher own shared dep ttl =
     (let opts = [WithDependency dep];
          opts = (if ttl > 0 then opts @ [WithCacheDuration ttl] else opts);
          opts = (case shared of None \<Rightarrow> opts | Some c \<Rightarrow> opts @ [WithCache c])
      in dbcache_New own opts)"

definition checker_deps_of ::
  "(string \<Rightarrow> string \<Rightarrow> string \<Rightarrow> 'd \<Rightarrow> goerror + string option) \<Rightarrow> nat
     \<Rightarrow> (string list cacheEntry, 's) Cache \<Rightarrow> (string list cacheEntry, 's) Cache
     \<Rightarrow> (string list cacheEntry, 's) Cache option
     \<Rightarrow> (Permission, 'd) table_ops \<Rightarrow> (RolePermission, 'd) table_ops \<Rightarrow> ('d, 's) checker_deps" where
  "checker_deps_of scan a own1 own2 shared perms rperms =
     \<lparr>permissions = perms, role_permissions = rperms,
      apiCatalog = buildCacher own1 shared
        (GetValue scan a (NewSqlDependency
           [WithTable ''sys_permissions'', WithColumn catalogMarker, WithCondition ''deleted_at IS NULL''])) 0,
      grants = buildCacher own2 shared
        (GetValue scan a (NewSqlDependency
           [WithTable ''sys_role_permissions'', WithColumn grantsMarker, WithCondition ''deleted_at IS NULL'']))
        (60 * 1000000000)\<rparr>"

subsection \<open>Facts about the allowlist\<close>

lemma matchPattern_isAllowed: "matchPattern pat path \<longleftrightarrow> isAllowed path [pat]"
  by (simp add: matchPattern_def Let_def)

lemma match_loop_iff:
  "match_loop m mth path w \<longleftrightarrow>
     w \<or> (\<exists>e\<in>set m. (entry_method e = '''' \<or> entry_method e = mth) \<and> matchPattern (pattern e) path)"
  by (induction m mth path w rule: match_loop.induct) auto

lemma append_entries_allowlist:
  "allowlist (append_entries es c) = allowlist c @
     map (\<lambda>e. \<lparr>entry_method = fst (splitAllowEntry e), pattern = snd (splitAllowEntry e)\<rparr>) es"
  unfolding append_entries_def by (induction es arbitrary: c) (auto split: prod.splits)

subsection \<open>Facts about the checker\<close>

lemma check_catalogued_allows:
  assumes "check_catalogued cfg e a d ac code t = (None, t')" and "\<not> failOpen cfg"
  shows "\<exists>cat t1 gr. Try (apiCatalog e) a d catalogKey (load_catalog e) t = (Inr cat, t1) \<and> code \<in> set cat \<and>
    Try (grants e) a d (grantKey (TenantID ac) (Role ac)) (load_grants e (Role ac) (TenantID ac)) t1 = (Inr gr, t') \<and>
    code \<in> set gr"
proof -
  obtain r1 t1 where 1: "Try (apiCatalog e) a d catalogKey (load_catalog e) t = (r1, t1)" by fastforce
  obtain r2 t2 where 2: "Try (grants e) a d (grantKey (TenantID ac) (Role ac))
      (load_grants e (Role ac) (TenantID ac)) t1 = (r2, t2)" by fastforce
  show ?thesis using assms 1 2
    by (cases r1; cases r2) (auto simp: check_catalogued_def Let_def split: if_splits)
qed

text \<open>The keys of the grant cache determine tenant and role when the tenant has no colon.\<close>

definition grantKey_tenant :: "string \<Rightarrow> string" where
  "grantKey_tenant k = takeWhile (\<lambda>x. x \<noteq> CHR '':'') (drop 11 k)"

definition grantKey_role :: "string \<Rightarrow> string" where
  "grantKey_role k = tl (dropWhile (\<lambda>x. x \<noteq> CHR '':'') (drop 11 k))"

lemma grantKey_decode:
  assumes "CHR '':'' \<notin> set tenant"
  shows "grantKey_tenant (grantKey tenant role) = tenant" "grantKey_role (grantKey tenant role) = role"
proof -
  have "drop 11 (grantKey tenant role) = tenant @ CHR '':'' # role" by (simp add: grantKey_def)
  moreover have "\<And>x. x \<in> set tenant \<Longrightarrow> x \<noteq> CHR '':''" using assms by auto
  ultimately show "grantKey_tenant (grantKey tenant role) = tenant" "grantKey_role (grantKey tenant role) = role"
    by (simp_all add: grantKey_tenant_def grantKey_role_def takeWhile_append2 dropWhile_append2)
qed

definition grant_loader :: "('d, 's) checker_deps \<Rightarrow> string \<Rightarrow> 'd \<Rightarrow> goerror + string list" where
  "grant_loader e k = load_grants e (grantKey_role k) (grantKey_tenant k)"

subsection \<open>Separate caches\<close>

definition on_fst :: "('v, 's) Cache \<Rightarrow> ('v, 's \<times> 'u) Cache" where
  "on_fst ops =
     \<lparr>Load = (\<lambda>now k (x, y). case Load ops now k x of (r, x') \<Rightarrow> (r, (x', y))),
      Store = (\<lambda>now k v d (x, y). case Store ops now k v d x of (r, x') \<Rightarrow> (r, (x', y))),
      cache_Delete = (\<lambda>now k (x, y). case cache_Delete ops now k x of (r, x') \<Rightarrow> (r, (x', y)))\<rparr>"

definition on_snd :: "('v, 's) Cache \<Rightarrow> ('v, 'u \<times> 's) Cache" where
  "on_snd ops =
     \<lparr>Load = (\<lambda>now k (y, x). case Load ops now k x of (r, x') \<Rightarrow> (r, (y, x'))),
      Store = (\<lambda>now k v d (y, x). case Store ops now k v d x of (r, x') \<Rightarrow> (r, (y, x'))),
      cache_Delete = (\<lambda>now k (y, x). case cache_Delete ops now k x of (r, x') \<Rightarrow> (r, (y, x')))\<rparr>"

interpretation snd_backend: cache_backend "on_snd memory_cache" "\<lambda>p. mem_stored (snd p)"
proof (unfold_locales, goal_cases)
  case (1 now k s v s')
  then show ?case by (cases s) (auto simp: on_snd_def split: prod.splits dest: mem_backend.load_law)
next
  case (2 now k s r s' k')
  obtain y x where s: "s = (y, x)" by (cases s)
  obtain r0 x0 where l: "Load memory_cache now k x = (r0, x0)" by fastforce
  with 2 s show ?case using mem_backend.load_frame [OF l, of k'] by (auto simp: on_snd_def)
next
  case (3 d now k v s r s' k')
  obtain y x where s: "s = (y, x)" by (cases s)
  obtain r0 x0 where l: "Store memory_cache now k v d x = (r0, x0)" by fastforce
  with 3(2) s show ?case using mem_backend.store_law [OF 3(1) l, of k'] by (auto simp: on_snd_def)
next
  case (4 now k s r s' k')
  obtain y x where s: "s = (y, x)" by (cases s)
  obtain r0 x0 where l: "cache_Delete memory_cache now k x = (r0, x0)" by fastforce
  with 4 s show ?case using mem_backend.delete_law [OF l, of k'] by (auto simp: on_snd_def)
qed

text \<open>An operation of the catalog's cache leaves the grants' cache alone.\<close>

lemma on_fst_snd:
  "Load (on_fst ops) now k p = (r, p') \<Longrightarrow> snd p' = snd p"
  "Store (on_fst ops) now k v d p = (x, p') \<Longrightarrow> snd p' = snd p"
  "cache_Delete (on_fst ops) now k p = (x, p') \<Longrightarrow> snd p' = snd p"
  by (cases p; auto simp: on_fst_def split: prod.splits)+

lemma reload_fst:
  assumes "cache c = on_fst ops" and "reload c d k f s = (r, s')"
  shows "instants s' = instants s \<and> ticks s \<le> ticks s' \<and> snd (backend s') = snd (backend s)"
  using assms
  by (auto simp: reload_def tnow_def split: sum.splits option.splits prod.splits dest: on_fst_snd)

lemma Try_fst:
  assumes "cache c = on_fst ops" and "Try c a d k f s = (r, s')"
  shows "instants s' = instants s \<and> ticks s \<le> ticks s' \<and> snd (backend s') = snd (backend s)"
  using assms(2)
proof (cases rule: Try_paths)
  case (hit e b1)
  then show ?thesis using on_fst_snd(1) assms(1) by fastforce
next
  case (miss l b1 x)
  then have "snd b1 = snd (backend s)" using on_fst_snd(1) assms(1) by metis
  moreover have "snd (backend x) = snd b1" using miss(5) on_fst_snd(3) assms(1) by metis
  ultimately show ?thesis using reload_fst [OF assms(1) miss(2)] miss(3,4) by simp
qed simp

text \<open>The cache of the grants as \<open>checker_deps_of\<close> builds it: entries live a minute.\<close>

interpretation grant_cacher: read_through "on_snd memory_cache" "\<lambda>p. mem_stored (snd p)"
  "grants (checker_deps_of scan a (on_fst memory_cache) (on_snd memory_cache) None perms rperms)"
  for scan a perms rperms
  by unfold_locales
    (simp_all add: checker_deps_of_def buildCacher_def dbcache_New_def WithDependency_def WithCacheDuration_def)

lemma Try_ticks: "Try c a d k f s = (Inr v, s') \<Longrightarrow> ticks s + 2 \<le> ticks s'"
  by (erule Try_paths) (auto simp: reload_def tnow_def split: sum.splits option.splits prod.splits)

section \<open>Properties\<close>

text \<open>
  The checker's own path matcher and the JWT middleware's allowlist agree on every
  pattern and path, and the allowlist admits a request exactly when some entry for its
  method, or for any method, matches its path (the order of the entries is irrelevant).
\<close>

theorem matchers_agree:
  "matchPattern pat path = isAllowed path [pat] \<and>
   match m mth path =
     (\<exists>e\<in>set m. (entry_method e = '''' \<or> entry_method e = mth) \<and> isAllowed path [pattern e])"
  unfolding matchPattern_isAllowed [symmetric] by (simp add: match_def match_loop_iff)

text \<open>
  C9: The permission checker fails closed. If it lets an HTTP request pass and is not
  configured to fail open, the claims are of the admin type and the route is
  infrastructure, or the allowlist admits the request, or both the catalog set and the
  grant set of the caller's role in the caller's tenant were obtained and contain the
  code of the request.
\<close>

theorem permission_fail_closed:
  assumes "permission_checker cfg e a d c cl s = (None, s')" and "\<not> failOpen cfg"
    and "fst (ctx_Get (heap s) c RequestProtocol) = httpProtocol"
  shows "\<exists>ac route. cl = StructClaims (Some ac) \<and>
    route = (if snd (ctx_Get (heap s) c RequestRoute) then fst (ctx_Get (heap s) c RequestRoute)
             else fst (ctx_Get (heap s) c RequestPath)) \<and>
    (isInfrastructurePath route \<or>
     match (allowlist cfg) (fst (ctx_Get (heap s) c RequestMethod)) (fst (ctx_Get (heap s) c RequestPath)) \<or>
     (\<exists>cat t1 gr. Try (apiCatalog e) a d catalogKey (load_catalog e) (tst s) = (Inr cat, t1) \<and>
        fst (ctx_Get (heap s) c RequestMethod) @ '' '' @ route \<in> set cat \<and>
        Try (grants e) a d (grantKey (TenantID ac) (Role ac)) (load_grants e (Role ac) (TenantID ac)) t1 =
          (Inr gr, tst s') \<and>
        fst (ctx_Get (heap s) c RequestMethod) @ '' '' @ route \<in> set gr))"
proof -
  obtain ac where ac: "cl = StructClaims (Some ac)"
    using assms(1,3) by (auto simp: permission_checker_def split: jclaims.splits option.splits)
  obtain r0 rs where r0: "ctx_Get (heap s) c RequestRoute = (r0, rs)" by (rule prod.exhaust)
  let ?route = "if rs then r0 else fst (ctx_Get (heap s) c RequestPath)"
  let ?m = "fst (ctx_Get (heap s) c RequestMethod)" and ?p = "fst (ctx_Get (heap s) c RequestPath)"
  obtain r t where ct: "check_catalogued cfg e a d ac (?m @ '' '' @ ?route) (tst s) = (r, t)" by (rule prod.exhaust)
  show ?thesis
  proof (cases "isInfrastructurePath ?route \<or> match (allowlist cfg) ?m ?p")
    case True
    then show ?thesis using ac r0 by auto
  next
    case False
    then have "r = None" "tst s' = t"
      using assms(1,3) ac r0 ct by (auto simp: permission_checker_def Let_def split: if_splits)
    with check_catalogued_allows [OF _ assms(2), of e a d ac "?m @ '' '' @ ?route" "tst s"] ct
    show ?thesis using ac r0 by auto
  qed
qed

definition sample_request :: "string \<Rightarrow> string \<Rightarrow> Metadata" where
  "sample_request mth path = md_Set RequestProtocol ''http''
     (md_Set RequestMethod mth (md_Set RequestPath path md_New))"

lemma sample_request_get:
  "md_Get (sample_request mth path) RequestProtocol = (''http'', True)"
  "md_Get (sample_request mth path) RequestMethod = (mth, True)"
  "md_Get (sample_request mth path) RequestPath = (path, True)"
  "md_Get (sample_request mth path) RequestRoute = ('''', False)"
proof -
  have n: "ToLower RequestProtocol \<noteq> ToLower RequestMethod" "ToLower RequestProtocol \<noteq> ToLower RequestPath"
    "ToLower RequestMethod \<noteq> ToLower RequestPath" "ToLower RequestRoute \<noteq> ToLower RequestProtocol"
    "ToLower RequestRoute \<noteq> ToLower RequestMethod" "ToLower RequestRoute \<noteq> ToLower RequestPath"
    by code_simp+
  show "md_Get (sample_request mth path) RequestProtocol = (''http'', True)"
    "md_Get (sample_request mth path) RequestMethod = (mth, True)"
    "md_Get (sample_request mth path) RequestPath = (path, True)"
    "md_Get (sample_request mth path) RequestRoute = ('''', False)"
    using n by (auto simp: sample_request_def md_Get_Set) (simp add: md_Get_def md_New_def)
qed

type_synonym sample_db = "Permission list \<times> RolePermission list"
type_synonym two_caches = "string list cacheEntry memCache \<times> string list cacheEntry memCache"

definition sample_deps :: "(sample_db, two_caches) checker_deps" where
  "sample_deps =
     \<lparr>permissions = mem_table fst (\<lambda>x d. (x, snd d)), role_permissions = mem_table snd (\<lambda>x d. (fst d, x)),
      apiCatalog = buildCacher (on_fst memory_cache) None (\<lambda>d. Inr ''v'') 0,
      grants = buildCacher (on_snd memory_cache) None
        (\<lambda>d. Inr (concat (map (\<lambda>p. rp_RoleKey p @ rp_TenantID p @ rp_Data p) (snd d)))) (60 * 1000000000)\<rparr>"

definition sample_perm_db :: sample_db where
  "sample_perm_db = ([\<lparr>p_ID = 0, p_Type = ''api'', p_Data = ''GET /x'', p_Description = '''', p_Group = ''''\<rparr>],
     [\<lparr>rp_TenantID = ''t'', rp_RoleKey = ''r'', rp_Type = ''permission'', rp_Data = ''GET /x''\<rparr>])"

definition sample_claims :: Claims where
  "sample_claims = \<lparr>Registered = \<lparr>ID = '''', ExpiresAt = None, IssuedAt = None, NotBefore = None\<rparr>,
     UID = ''u'', Role = ''r'', TenantID = ''t'', TokenType = ''access''\<rparr>"

definition sample_penv :: "two_caches penv" where
  "sample_penv = \<lparr>heap = [sample_request ''GET'' ''/x''],
     tst = \<lparr>backend = (NewCache [], NewCache []), instants = (\<lambda>i. 0), ticks = 0\<rparr>\<rparr>"

lemmas sample_defs = sample_deps_def sample_perm_db_def sample_claims_def buildCacher_def dbcache_New_def
  WithDependency_def WithCacheDuration_def load_catalog_def load_grants_def mem_table_def type_names
  on_fst_def on_snd_def memory_cache_def maxCacheKeyLen_def catalogKey_def grantKey_def

lemma sample_check:
  "\<exists>t'. check_catalogued \<lparr>allowlist = [], failOpen = False\<rparr> sample_deps 900 sample_perm_db sample_claims ''GET /x''
     (tst sample_penv) = (None, t')"
  by (simp add: check_catalogued_def Try_def reload_def tnow_def sample_defs sample_penv_def mem_Load_def
      NewCache_def NewOptions_def Let_def)

theorem permission_fail_closed_witness:
  "\<exists>cat. ''GET /x'' \<in> set cat \<and>
     fst (Try (apiCatalog sample_deps) 900 sample_perm_db catalogKey (load_catalog sample_deps) (tst sample_penv))
       = Inr cat"
proof -
  let ?cfg = "\<lparr>allowlist = [], failOpen = False\<rparr>" and ?c = "\<lparr>metadataKey = Some 0\<rparr>"
  let ?cl = "StructClaims (Some sample_claims)"
  have ctx: "ctx_Get (heap sample_penv) ?c k = md_Get (sample_request ''GET'' ''/x'') k" for k
    by (simp add: sample_penv_def ctx_Get_stored)
  have nf: "\<not> isInfrastructurePath ''/x''" by code_simp
  obtain s' where p: "permission_checker ?cfg sample_deps 900 sample_perm_db ?c ?cl sample_penv = (None, s')"
    using sample_check nf
    by (auto simp: permission_checker_def ctx sample_request_get httpProtocol_def match_def Let_def)
  show ?thesis
    using permission_fail_closed [OF p] nf by (auto simp: ctx sample_request_get httpProtocol_def match_def)
qed

lemma load_grants_rows:
  assumes "gorm_table (role_permissions e) rows" and "load_grants e role tenant d = Inr g" and "code \<in> set g"
  shows "\<exists>row\<in>set (rows d). rp_RoleKey row = role \<and> rp_TenantID row = tenant \<and>
    rp_Type row = RolePermissionTypePermission \<and> rp_Data row = code"
  using assms(2,3) gorm_table.find_set [OF assms(1)]
  by (fastforce simp: load_grants_def split: sum.splits)

text \<open>The marker query of the grants' cache.\<close>

definition grants_version ::
  "(string \<Rightarrow> string \<Rightarrow> string \<Rightarrow> 'd \<Rightarrow> goerror + string option) \<Rightarrow> nat \<Rightarrow> 'd \<Rightarrow> goerror + string" where
  "grants_version scan a = GetValue scan a (NewSqlDependency
     [WithTable ''sys_role_permissions'', WithColumn grantsMarker, WithCondition ''deleted_at IS NULL''])"

lemma checker_deps_of_simps:
  assumes "e = checker_deps_of scan a own1 own2 None perms rperms"
  shows "role_permissions e = rperms" "cache (apiCatalog e) = own1" "duration (grants e) = 60000000000"
    "dependency (grants e) = Some (grants_version scan a)"
  by (simp_all add: assms checker_deps_of_def buildCacher_def dbcache_New_def WithDependency_def WithCacheDuration_def
      grants_version_def)

lemma catalogued_grant:
  assumes e: "e = checker_deps_of scan v (on_fst memory_cache) (on_snd memory_cache) None perms rperms"
    and rows: "gorm_table rperms rows"
    and h: "history (grants e) (grant_loader e) (\<lambda>p. mem_stored (snd p)) d t h" "\<forall>(t0, d0)\<in>set h. 0 \<le> t0"
    and "CHR '':'' \<notin> set (TenantID ac)" and "\<not> failOpen cfg"
    and "check_catalogued cfg e a d ac code t = (None, t')"
  shows "\<exists>d0. (d0 = d \<or> (\<exists>t0. \<exists>i\<in>{ticks t..<ticks t'}. (t0, d0) \<in> set h \<and>
        (instants t i - t0 \<le> 1000000000 \<or>
         instants t i - t0 \<le> 60000000000 \<and> grants_version scan v d0 = grants_version scan v d))) \<and>
    (\<exists>row\<in>set (rows d0). rp_RoleKey row = Role ac \<and> rp_TenantID row = TenantID ac \<and>
       rp_Type row = RolePermissionTypePermission \<and> rp_Data row = code)"
proof -
  let ?f = "load_grants e (Role ac) (TenantID ac)" and ?k = "grantKey (TenantID ac) (Role ac)"
  note es = checker_deps_of_simps [OF e]
  obtain cat t1 gr where 1: "Try (apiCatalog e) a d catalogKey (load_catalog e) t = (Inr cat, t1)"
    and 2: "Try (grants e) a d ?k ?f t1 = (Inr gr, t')" and gr: "code \<in> set gr"
    using check_catalogued_allows [OF assms(7,6)] by blast
  have t1: "instants t1 = instants t" "ticks t \<le> ticks t1" "snd (backend t1) = snd (backend t)"
    using Try_fst [OF es(2) 1] by auto
  have h1: "history (grants e) (grant_loader e) (\<lambda>p. mem_stored (snd p)) d t1 h"
    by (rule history.other [OF h(1)]) (simp_all add: t1)
  have f: "grant_loader e ?k = ?f" by (simp add: grant_loader_def grantKey_decode [OF assms(5)])
  have g: "gorm_table (role_permissions e) rows" using rows es(1) by simp
  have ticks: "ticks t1 \<in> {ticks t..<ticks t'}" "Suc (ticks t1) \<in> {ticks t..<ticks t'}"
    using Try_ticks [OF 2] t1(2) by auto
  note stale = grant_cacher.Try_stale [where f = "grant_loader e" and k = ?k and scan = scan and aa = v and perms = perms
      and rperms = rperms, folded e, unfolded f, OF h1 2 h(2)]
  consider "?f d = Inr gr"
    | t0 d0 where "(t0, d0) \<in> set h" "?f d0 = Inr gr" "instants t (Suc (ticks t1)) - t0 \<le> 1000000000"
    | t0 d0 where "(t0, d0) \<in> set h" "?f d0 = Inr gr" "instants t (ticks t1) - t0 \<le> 60000000000"
        "grants_version scan v d0 = grants_version scan v d"
    using stale by (auto simp: es t1(1) graceWindow_def)
  then show ?thesis
  proof cases
    case 1
    then show ?thesis using load_grants_rows [OF g _ gr] by blast
  next
    case 2
    then show ?thesis using load_grants_rows [OF g 2(2) gr] ticks(2) by blast
  next
    case 3
    then show ?thesis using load_grants_rows [OF g 3(2) gr] ticks(1) by blast
  qed
qed

text \<open>
  C10: How long a revoked grant works. With the caches \<open>NewPermissionChecker\<close> builds (one in
  memory for each, the grants' entries living a minute), not configured to fail open, over
  every history of requests that run one after another and of database changes: when the
  checker lets an HTTP request pass whose route is not infrastructure and that the
  allowlist does not admit, the database has a matching grant row for the caller's role in
  the caller's tenant now, or it had one at most one second ago, or it had one at most a
  minute ago and the marker query returns the same on it as on the database now (the marker
  misses some changes). For tenants without a colon in their id, instants after the epoch.
\<close>

theorem revoked_grant_expires:
  assumes "e = checker_deps_of scan v (on_fst memory_cache) (on_snd memory_cache) None perms rperms"
    and "gorm_table rperms rows"
    and "history (grants e) (grant_loader e) (\<lambda>p. mem_stored (snd p)) d (tst s) h" and "\<forall>(t0, d0)\<in>set h. 0 \<le> t0"
    and "CHR '':'' \<notin> set (TenantID ac)" and "\<not> failOpen cfg"
    and "permission_checker cfg e a d c (StructClaims (Some ac)) s = (None, s')"
    and "fst (ctx_Get (heap s) c RequestProtocol) = httpProtocol"
    and "mth = fst (ctx_Get (heap s) c RequestMethod)" and "path = fst (ctx_Get (heap s) c RequestPath)"
    and "route = (if snd (ctx_Get (heap s) c RequestRoute) then fst (ctx_Get (heap s) c RequestRoute) else path)"
  shows "isInfrastructurePath route \<or> match (allowlist cfg) mth path \<or>
    (\<exists>d0. (d0 = d \<or> (\<exists>t0. \<exists>i\<in>{ticks (tst s)..<ticks (tst s')}. (t0, d0) \<in> set h \<and>
        (instants (tst s) i - t0 \<le> 1000000000 \<or>
         instants (tst s) i - t0 \<le> 60000000000 \<and> grants_version scan v d0 = grants_version scan v d))) \<and>
      (\<exists>row\<in>set (rows d0). rp_RoleKey row = Role ac \<and> rp_TenantID row = TenantID ac \<and>
         rp_Type row = RolePermissionTypePermission \<and> rp_Data row = mth @ '' '' @ route))"
proof (cases "isInfrastructurePath route \<or> match (allowlist cfg) mth path")
  case False
  obtain r t where ct: "check_catalogued cfg e a d ac (mth @ '' '' @ route) (tst s) = (r, t)" by (rule prod.exhaust)
  obtain r0 rs where r0: "ctx_Get (heap s) c RequestRoute = (r0, rs)" by (rule prod.exhaust)
  have "r = None" "tst s' = t"
    using assms(7,8) False ct r0 assms(9-11) by (auto simp: permission_checker_def Let_def split: if_splits)
  then show ?thesis using catalogued_grant [OF assms(1-6)] ct by auto
qed blast

text \<open>A database with one grant that is there or not, and a marker that says which.\<close>

definition toggle_scan :: "string \<Rightarrow> string \<Rightarrow> string \<Rightarrow> bool \<Rightarrow> goerror + string option" where
  "toggle_scan target col cond d = Inr (Some (if d then ''1'' else ''0''))"

definition toggle_deps :: "(bool, two_caches) checker_deps" where
  "toggle_deps = checker_deps_of toggle_scan 900 (on_fst memory_cache) (on_snd memory_cache) None
     (replica (\<lambda>d. fst sample_perm_db)) (replica (\<lambda>d. if d then snd sample_perm_db else []))"

lemma markers_valid: "validColumnExpr catalogMarker" "validColumnExpr grantsMarker"
    "validTableName ''sys_permissions''" "validTableName ''sys_role_permissions''"
  by code_simp+

lemma toggle_check:
  "\<exists>t'. check_catalogued \<lparr>allowlist = [], failOpen = False\<rparr> toggle_deps 900 True sample_claims ''GET /x''
     (tst sample_penv) = (None, t')"
  by (simp add: check_catalogued_def Try_def reload_def tnow_def toggle_deps_def replica_def sample_defs
      sample_penv_def mem_Load_def NewCache_def NewOptions_def Let_def checker_deps_of_def GetValue_def toggle_scan_def
      NewSqlDependency_def WithTable_def WithColumn_def WithCondition_def markers_valid)

theorem revoked_grant_expires_witness:
  "\<exists>d0. \<exists>row\<in>set (if d0 then snd sample_perm_db else []). rp_RoleKey row = ''r'' \<and> rp_Data row = ''GET /x''"
proof -
  let ?cfg = "\<lparr>allowlist = [], failOpen = False\<rparr>" and ?c = "\<lparr>metadataKey = Some 0\<rparr>"
  have ctx: "ctx_Get (heap sample_penv) ?c k = md_Get (sample_request ''GET'' ''/x'') k" for k
    by (simp add: sample_penv_def ctx_Get_stored)
  have nf: "\<not> isInfrastructurePath ''/x''" by code_simp
  obtain s' where p: "permission_checker ?cfg toggle_deps 900 True ?c (StructClaims (Some sample_claims)) sample_penv = (None, s')"
    using toggle_check nf
    by (auto simp: permission_checker_def ctx sample_request_get httpProtocol_def match_def Let_def)
  have h: "history (grants toggle_deps) (grant_loader toggle_deps) (\<lambda>p. mem_stored (snd p)) True (tst sample_penv) []"
    by (rule history.init) (simp add: mem_stored_def sample_penv_def NewCache_def NewOptions_def)
  have n: "CHR '':'' \<notin> set (TenantID sample_claims)" "\<not> failOpen ?cfg" "\<forall>(t0, d0)\<in>set []. 0 \<le> t0"
    by (simp_all add: sample_claims_def)
  have m: "\<not> match (allowlist ?cfg) mth path" for mth path by (simp add: match_def)
  from revoked_grant_expires [OF toggle_deps_def replica.gorm_table_axioms h n(3,1,2) p _ refl refl refl] nf m
  show ?thesis by (auto simp: ctx sample_request_get httpProtocol_def sample_claims_def)
qed

text \<open>
  Without that restriction on tenant ids the grant cache confuses callers: the keys
  of tenant \<open>a:b\<close> with role \<open>c\<close> and of tenant \<open>a\<close> with role \<open>b:c\<close> are equal, and after a
  request of the former the latter is let through although it has no grant at all.
\<close>

theorem grant_key_collision:
  "let row = \<lparr>rp_TenantID = ''a:b'', rp_RoleKey = ''c'', rp_Type = ''permission'', rp_Data = ''GET /x''\<rparr>;
       d = (fst sample_perm_db, [row]);
       cfg = \<lparr>allowlist = [], failOpen = False\<rparr>;
       one = sample_claims\<lparr>TenantID := ''a:b'', Role := ''c''\<rparr>;
       two = sample_claims\<lparr>TenantID := ''a'', Role := ''b:c''\<rparr>
   in load_grants sample_deps (Role two) (TenantID two) d = Inr [] \<and>
      fst (check_catalogued cfg sample_deps 900 d two ''GET /x'' (tst sample_penv)) = Some ErrPermissionDenied \<and>
      (\<exists>t. check_catalogued cfg sample_deps 900 d one ''GET /x'' (tst sample_penv) = (None, t) \<and>
        fst (check_catalogued cfg sample_deps 900 d two ''GET /x'' t) = None)"
  by (simp add: check_catalogued_def Try_def reload_def tnow_def sample_defs sample_penv_def mem_Load_def
      mem_Store_def Expired_def NewCache_def NewOptions_def Let_def DefaultExpiration_def defaultCacheDuration_def
      UnixMilli_def graceWindow_def) force

end
