(* ===== verification/Inject.thy ===== *)
theory Inject
  imports Errs
begin

text \<open>
  Package \<open>aeus\<close>, the part of \<open>app.go\<close> and \<open>options.go\<close> that runs before anything is
  started: the options, \<open>New\<close>, the registry record \<open>build\<close> makes, and the injection
  of dependencies into the servers, the scope and the service loader.

  A value of package reflect is a type with the address it points to; \<open>ZeroValue\<close> is
  \<open>reflect.ValueOf(nil)\<close>, whose \<open>Type\<close> panics. The structs behind the addresses live in a
  heap, so that a component that is injected elsewhere is shared. An address without an
  entry is not a struct, and \<open>NumField\<close> panics on it. Which types implement an interface is a
  parameter, as are the results of \<open>Init\<close>, which may depend on the injected fields.
\<close>

subsection \<open>Reflection\<close>

datatype rkind = PointerKind | InterfaceKind | OtherKind

record rtype =
  rt_Kind :: rkind
  rt_ID :: nat

datatype rval = ZeroValue | RV rtype nat

record rfield =
  f_CanSet :: bool
  f_Type :: rtype
  f_Value :: rval

type_synonym struct_heap = "nat \<rightharpoonup> rfield list"

datatype 'a outcome = Panic | Failed goerror | Done 'a

text \<open>The inner loop of \<open>injectVars\<close>: the index of the first value that fits a field of type \<open>t\<close>.\<close>

fun first_fit :: "(rtype \<Rightarrow> rtype \<Rightarrow> bool) \<Rightarrow> rtype \<Rightarrow> nat \<Rightarrow> rval list \<Rightarrow> (nat \<times> rval) option outcome" where
  "first_fit implements t i [] = Done None"
| "first_fit implements t i (ZeroValue # vs) = Panic"
| "first_fit implements t i (RV u p # vs) =
     (if rt_Kind t = InterfaceKind \<and> implements u t then Done (Some (i, RV u p))
      else if t = u then Done (Some (i, RV u p))
      else first_fit implements t (Suc i) vs)"

fun inject_fields :: "(rtype \<Rightarrow> rtype \<Rightarrow> bool) \<Rightarrow> rval list \<Rightarrow> rfield list \<Rightarrow> bool list \<Rightarrow> (rfield list \<times> bool list) outcome" where
  "inject_fields implements vs [] used = Done ([], used)"
| "inject_fields implements vs (f # fs) used =
     (let rest = (\<lambda>f' used'. case inject_fields implements vs fs used' of Panic \<Rightarrow> Panic | Failed er \<Rightarrow> Failed er
        | Done (fs', u) \<Rightarrow> Done (f' # fs', u)) in
      if \<not> f_CanSet f then rest f used
      else if rt_Kind (f_Type f) \<noteq> PointerKind \<and> rt_Kind (f_Type f) \<noteq> InterfaceKind then rest f used
      else case first_fit implements (f_Type f) 0 vs of Panic \<Rightarrow> Panic | Failed er \<Rightarrow> Failed er
        | Done None \<Rightarrow> rest f used
        | Done (Some (i, v)) \<Rightarrow> if i < length used then rest (f\<lparr>f_Value := v\<rparr>) (used[i := True]) else Panic)"

definition injectVars ::
    "(rtype \<Rightarrow> rtype \<Rightarrow> bool) \<Rightarrow> rval list \<Rightarrow> nat \<Rightarrow> bool list \<Rightarrow> struct_heap \<Rightarrow> (struct_heap \<times> bool list) outcome" where
  "injectVars implements vs ptr used h =
     (case h ptr of None \<Rightarrow> Panic
      | Some fs \<Rightarrow> (case inject_fields implements vs fs used of Panic \<Rightarrow> Panic | Failed er \<Rightarrow> Failed er
         | Done (fs', u) \<Rightarrow> Done (h(ptr \<mapsto> fs'), u)))"

subsection \<open>Options\<close>

record component =
  c_Ptr :: nat
  c_Type :: rtype

definition ValueOf :: "'a component_scheme \<Rightarrow> rval" where
  "ValueOf c = RV (c_Type c) (c_Ptr c)"

text \<open>A server may be an \<open>Endpointer\<close> (with what its \<open>Endpoint\<close> returns) and \<open>Traceable\<close>.\<close>

record server = component +
  sv_Endpoint :: "(goerror + string) option"
  sv_Traceable :: bool

record initable = component +
  c_Init :: "struct_heap \<Rightarrow> goerror option \<times> struct_heap"

record options =
  o_id :: string
  o_name :: string
  o_version :: string
  o_metadata :: "(string, string) gomap option"
  o_logger :: "component option"
  o_servers :: "server list"
  o_endpoints :: "string list"
  o_scope :: "initable option"
  o_debug :: bool
  o_registrarTimeout :: int
  o_registry :: "component option"
  o_serviceLoader :: "initable option"
  o_stopTimeout :: int
  o_injectVars :: "rval list"
  o_tracer :: bool
  o_metrics :: bool

type_synonym Option = "options \<Rightarrow> options"

definition WithName :: "string \<Rightarrow> Option" where "WithName n o' = o'\<lparr>o_name := n\<rparr>"
definition WithVersion :: "string \<Rightarrow> Option" where "WithVersion v o' = o'\<lparr>o_version := v\<rparr>"

text \<open>\<open>maps.Copy\<close> writes the entries of the source in an order of the runtime's choice.\<close>

definition maps_Copy :: "(string, string) gomap \<Rightarrow> (string \<times> string) list \<Rightarrow> (string, string) gomap" where
  "maps_Copy dst src = fold (\<lambda>(k, v) m. AList.update k v m) src dst"

definition WithMetadata :: "(string \<times> string) list \<Rightarrow> Option" where
  "WithMetadata md o' = o'\<lparr>o_metadata := Some (maps_Copy (case o_metadata o' of None \<Rightarrow> [] | Some m \<Rightarrow> m) md)\<rparr>"

definition WithServer :: "server list \<Rightarrow> Option" where "WithServer svs o' = o'\<lparr>o_servers := o_servers o' @ svs\<rparr>"
definition WithEndpoint :: "string list \<Rightarrow> Option" where "WithEndpoint es o' = o'\<lparr>o_endpoints := o_endpoints o' @ es\<rparr>"
definition WithLogger :: "component option \<Rightarrow> Option" where "WithLogger l o' = o'\<lparr>o_logger := l\<rparr>"
definition WithScope :: "initable option \<Rightarrow> Option" where "WithScope sc o' = o'\<lparr>o_scope := sc\<rparr>"
definition WithDebug :: "bool \<Rightarrow> Option" where "WithDebug b o' = o'\<lparr>o_debug := b\<rparr>"
definition WithInjectVars :: "rval list \<Rightarrow> Option" where
  "WithInjectVars vs o' = o'\<lparr>o_injectVars := o_injectVars o' @ vs\<rparr>"
definition WithServiceLoader :: "initable option \<Rightarrow> Option" where "WithServiceLoader l o' = o'\<lparr>o_serviceLoader := l\<rparr>"
definition WithStopTimeout :: "int \<Rightarrow> Option" where "WithStopTimeout t o' = o'\<lparr>o_stopTimeout := t\<rparr>"
definition WithRegistrar :: "component option \<Rightarrow> Option" where "WithRegistrar r o' = o'\<lparr>o_registry := r\<rparr>"
definition WithRegistry :: "component option \<Rightarrow> Option" where "WithRegistry = WithRegistrar"
definition WithRegistrarTimeout :: "int \<Rightarrow> Option" where "WithRegistrarTimeout t o' = o'\<lparr>o_registrarTimeout := t\<rparr>"
definition WithTracer :: "bool \<Rightarrow> Option" where "WithTracer t o' = o'\<lparr>o_tracer := t\<rparr>"
definition WithMetrics :: "bool \<Rightarrow> Option" where "WithMetrics m o' = o'\<lparr>o_metrics := m\<rparr>"

definition second_ns :: int where "second_ns = 1000000000"

text \<open>
  \<open>New\<close>: the generated id, the default logger and the value of \<open>AEUS_DEBUG\<close> are arguments.
\<close>

definition service_New :: "string \<Rightarrow> component \<Rightarrow> bool \<Rightarrow> Option list \<Rightarrow> options" where
  "service_New uuid dflt debug cbs = fold (\<lambda>cb o'. cb o') cbs
     \<lparr>o_id = uuid, o_name = '''', o_version = '''', o_metadata = Some [], o_logger = Some dflt, o_servers = [],
      o_endpoints = [], o_scope = None, o_debug = debug, o_registrarTimeout = 30 * second_ns, o_registry = None,
      o_serviceLoader = None, o_stopTimeout = 10 * second_ns, o_injectVars = [], o_tracer = False, o_metrics = False\<rparr>"

definition Logger :: "component \<Rightarrow> options \<Rightarrow> component" where
  "Logger dflt o' = (case o_logger o' of None \<Rightarrow> dflt | Some l \<Rightarrow> l)"

subsection \<open>The registry record\<close>

record registry_service =
  rs_ID :: string
  rs_Name :: string
  rs_Version :: string
  rs_Metadata :: "(string, string) gomap"
  rs_Endpoints :: "string list"

text \<open>What \<open>build\<close> reads from the runtime and the operating system.\<close>

record host =
  GOOS :: string
  go_Version :: string
  Hostname :: "goerror + string"
  now_DateTime :: string

fun server_endpoints :: "server list \<Rightarrow> string list \<Rightarrow> goerror + string list" where
  "server_endpoints [] es = Inr es"
| "server_endpoints (sv # svs) es =
     (case sv_Endpoint sv of None \<Rightarrow> server_endpoints svs es
      | Some (Inl er) \<Rightarrow> Inl er
      | Some (Inr uri) \<Rightarrow> server_endpoints svs (es @ [uri]))"

definition build :: "host \<Rightarrow> options \<Rightarrow> goerror + registry_service" where
  "build hs o' =
     (let md = (case o_metadata o' of None \<Rightarrow> [] | Some m \<Rightarrow> m);
          md = AList.update ''os'' (GOOS hs) md;
          md = AList.update ''go'' (go_Version hs) md;
          md = (case Hostname hs of Inl _ \<Rightarrow> md | Inr hn \<Rightarrow> AList.update ''hostname'' hn md);
          md = AList.update ''uptime'' (now_DateTime hs) md
      in case server_endpoints (o_servers o') (o_endpoints o') of Inl er \<Rightarrow> Inl er
         | Inr es \<Rightarrow> Inr \<lparr>rs_ID = o_id o', rs_Name = o_name o', rs_Version = o_version o', rs_Metadata = md, rs_Endpoints = es\<rparr>)"

subsection \<open>Before the servers start\<close>

text \<open>
  The first part of \<open>preStart\<close>, up to the point where the goroutines are spawned: the values
  known so far, which of them were used, the structs, and the calls made.
\<close>

datatype event = SetTracer nat | SetMetrics nat | InitScope | InitLoader

record prep =
  pr_refs :: "rval list"
  pr_used :: "bool list"
  pr_heap :: struct_heap
  pr_events :: "event list"

fun out_bind :: "'a outcome \<Rightarrow> ('a \<Rightarrow> 'b outcome) \<Rightarrow> 'b outcome" where
  "out_bind Panic k = Panic"
| "out_bind (Failed er) k = Failed er"
| "out_bind (Done v) k = k v"

definition inject_into :: "(rtype \<Rightarrow> rtype \<Rightarrow> bool) \<Rightarrow> nat \<Rightarrow> prep \<Rightarrow> prep outcome" where
  "inject_into implements ptr p =
     out_bind (injectVars implements (pr_refs p) ptr (pr_used p) (pr_heap p))
       (\<lambda>(h, u). Done (p\<lparr>pr_heap := h, pr_used := u\<rparr>))"

definition add_ref :: "rval \<Rightarrow> prep \<Rightarrow> prep" where
  "add_ref v p = p\<lparr>pr_refs := pr_refs p @ [v], pr_used := pr_used p @ [False]\<rparr>"

definition set_telemetry :: "options \<Rightarrow> server \<Rightarrow> prep \<Rightarrow> prep" where
  "set_telemetry o' sv p =
     (if sv_Traceable sv then
        p\<lparr>pr_events := pr_events p @ (if o_tracer o' then [SetTracer (c_Ptr sv)] else []) @
            (if o_metrics o' then [SetMetrics (c_Ptr sv)] else [])\<rparr>
      else p)"

fun prepare_servers :: "(rtype \<Rightarrow> rtype \<Rightarrow> bool) \<Rightarrow> options \<Rightarrow> server list \<Rightarrow> prep \<Rightarrow> prep outcome" where
  "prepare_servers implements o' [] p = Done p"
| "prepare_servers implements o' (sv # svs) p =
     out_bind (inject_into implements (c_Ptr sv) p)
       (\<lambda>p1. prepare_servers implements o' svs (add_ref (ValueOf sv) (set_telemetry o' sv p1)))"

definition prepare_init :: "(rtype \<Rightarrow> rtype \<Rightarrow> bool) \<Rightarrow> event \<Rightarrow> initable \<Rightarrow> prep \<Rightarrow> prep outcome" where
  "prepare_init implements ev c p =
     out_bind (inject_into implements (c_Ptr c) p)
       (\<lambda>p1. case c_Init c (pr_heap p1) of
          (Some er, h) \<Rightarrow> Failed er
        | (None, h) \<Rightarrow> Done (add_ref (ValueOf c) (p1\<lparr>pr_heap := h, pr_events := pr_events p1 @ [ev]\<rparr>)))"

fun unused_check :: "(rtype \<Rightarrow> goerror) \<Rightarrow> rval list \<Rightarrow> bool list \<Rightarrow> unit outcome" where
  "unused_check unused [] us = Done ()"
| "unused_check unused (v # vs) [] = Panic"
| "unused_check unused (v # vs) (u # us) =
     (if u then unused_check unused vs us
      else case v of ZeroValue \<Rightarrow> Panic | RV t _ \<Rightarrow> Failed (unused t))"

definition unused_error :: "(rtype \<Rightarrow> string) \<Rightarrow> nat \<Rightarrow> rtype \<Rightarrow> goerror" where
  "unused_error type_name a t = ErrString a (''unused inject var of type '' @ type_name t)"

definition prepare ::
    "(rtype \<Rightarrow> rtype \<Rightarrow> bool) \<Rightarrow> (rtype \<Rightarrow> string) \<Rightarrow> nat \<Rightarrow> component \<Rightarrow> options \<Rightarrow> rval list \<Rightarrow> struct_heap \<Rightarrow> prep outcome" where
  "prepare implements type_name a dflt o' refs h =
     (let refs1 = refs @ o_injectVars o' @ [ValueOf (Logger dflt o')];
          p0 = \<lparr>pr_refs = refs1, pr_used = replicate (length refs1) False, pr_heap = h, pr_events = []\<rparr>
      in out_bind (prepare_servers implements o' (o_servers o') p0) (\<lambda>p1.
         let p2 = (case o_registry o' of None \<Rightarrow> p1 | Some r \<Rightarrow> add_ref (ValueOf r) p1) in
         out_bind (case o_scope o' of None \<Rightarrow> Done p2 | Some c \<Rightarrow> prepare_init implements InitScope c p2) (\<lambda>p3.
         out_bind (case o_serviceLoader o' of None \<Rightarrow> Done p3 | Some c \<Rightarrow> prepare_init implements InitLoader c p3) (\<lambda>p4.
         out_bind (unused_check (unused_error type_name a) (o_injectVars o') (pr_used p4)) (\<lambda>_. Done p4)))))"

subsection \<open>What a component takes\<close>

definition injectable :: "rfield \<Rightarrow> bool" where
  "injectable f \<longleftrightarrow> f_CanSet f \<and> (rt_Kind (f_Type f) = PointerKind \<or> rt_Kind (f_Type f) = InterfaceKind)"

definition takes :: "(rtype \<Rightarrow> rtype \<Rightarrow> bool) \<Rightarrow> rval list \<Rightarrow> rfield list \<Rightarrow> nat \<Rightarrow> bool" where
  "takes implements vs fs i \<longleftrightarrow>
     (\<exists>f\<in>set fs. injectable f \<and> (\<exists>v. first_fit implements (f_Type f) 0 vs = Done (Some (i, v))))"

definition field_shape :: "rfield \<Rightarrow> bool \<times> rtype" where
  "field_shape f = (f_CanSet f, f_Type f)"

definition same_shapes :: "struct_heap \<Rightarrow> struct_heap \<Rightarrow> bool" where
  "same_shapes h h' \<longleftrightarrow> (\<forall>p. map_option (map field_shape) (h' p) = map_option (map field_shape) (h p))"

lemma field_shape_value [simp]: "field_shape (f\<lparr>f_Value := v\<rparr>) = field_shape f"
  by (simp add: field_shape_def)

lemma same_shapes_refl [simp]: "same_shapes h h"
  by (simp add: same_shapes_def)

lemma same_shapes_trans: "same_shapes h h' \<Longrightarrow> same_shapes h' h'' \<Longrightarrow> same_shapes h h''"
  by (simp add: same_shapes_def)

lemma takes_shape: "map field_shape fs = map field_shape fs' \<Longrightarrow> takes I vs fs i = takes I vs fs' i"
proof -
  have e: "takes I vs fs i \<longleftrightarrow> (\<exists>(c, t)\<in>set (map field_shape fs). c \<and> (rt_Kind t = PointerKind \<or> rt_Kind t = InterfaceKind) \<and>
      (\<exists>v. first_fit I t 0 vs = Done (Some (i, v))))" for fs
    by (auto simp: takes_def injectable_def field_shape_def)
  assume "map field_shape fs = map field_shape fs'"
  then show ?thesis by (simp only: e)
qed

lemma first_fit_total:
  "ZeroValue \<notin> set vs \<Longrightarrow>
   first_fit I t i vs = Done None \<or> (\<exists>j v. first_fit I t i vs = Done (Some (i + j, v)) \<and> j < length vs \<and> vs ! j = v)"
proof (induction I t i vs rule: first_fit.induct)
  case (3 I t i u p vs)
  show ?case
  proof (cases "rt_Kind t = InterfaceKind \<and> I u t \<or> t = u")
    case True
    then show ?thesis by (intro disjI2 exI [of _ 0]) auto
  next
    case False
    with 3 show ?thesis by (auto intro: exI [of _ "Suc _"])
  qed
qed auto

lemma first_fit_append:
  assumes "ZeroValue \<notin> set vs"
  shows "first_fit I t i (vs @ ws) =
    (case first_fit I t i vs of Done None \<Rightarrow> first_fit I t (i + length vs) ws | r \<Rightarrow> r)"
  using assms by (induction I t i vs rule: first_fit.induct) (auto split: outcome.splits option.splits)

lemma takes_append:
  assumes "ZeroValue \<notin> set vs" and "ZeroValue \<notin> set ws" and "i < length vs"
  shows "takes I (vs @ ws) fs i = takes I vs fs i"
proof -
  have "(first_fit I t 0 (vs @ ws) = Done (Some (i, v))) = (first_fit I t 0 vs = Done (Some (i, v)))" for t v
    using first_fit_total [OF assms(1), of I t 0] first_fit_total [OF assms(2), of I t "length vs"] assms(3)
    by (auto simp: first_fit_append [OF assms(1)])
  then show ?thesis by (simp add: takes_def)
qed

lemma inject_fields_spec:
  assumes "ZeroValue \<notin> set vs" and "length us = length vs"
  shows "\<exists>fs' us'. inject_fields I vs fs us = Done (fs', us') \<and> map field_shape fs' = map field_shape fs \<and>
    length us' = length us \<and> (\<forall>i<length us. us' ! i \<longleftrightarrow> us ! i \<or> takes I vs fs i) \<and>
    list_all2 (\<lambda>f f'. f' = (if injectable f then (case first_fit I (f_Type f) 0 vs of
        Done (Some (_, v)) \<Rightarrow> f\<lparr>f_Value := v\<rparr> | _ \<Rightarrow> f) else f)) fs fs'"
  using assms(2)
proof (induction fs arbitrary: us)
  case Nil
  then show ?case by (simp add: takes_def)
next
  case (Cons f fs)
  have tk: "takes I vs (f # fs) i \<longleftrightarrow> takes I vs fs i \<or>
      injectable f \<and> (\<exists>v. first_fit I (f_Type f) 0 vs = Done (Some (i, v)))" for i
    by (auto simp: takes_def)
  consider (skip) "\<not> injectable f \<or> first_fit I (f_Type f) 0 vs = Done None"
    | (set) j v where "injectable f" "first_fit I (f_Type f) 0 vs = Done (Some (j, v))" "j < length vs"
    using first_fit_total [OF assms(1), of I "f_Type f" 0] by auto
  then show ?case
  proof cases
    case skip
    from Cons.IH [OF Cons.prems] obtain fs' us' where
      "inject_fields I vs fs us = Done (fs', us')" "map field_shape fs' = map field_shape fs" "length us' = length us"
      "\<forall>i<length us. us' ! i \<longleftrightarrow> us ! i \<or> takes I vs fs i"
      "list_all2 (\<lambda>f f'. f' = (if injectable f then (case first_fit I (f_Type f) 0 vs of
        Done (Some (_, v)) \<Rightarrow> f\<lparr>f_Value := v\<rparr> | _ \<Rightarrow> f) else f)) fs fs'" by blast
    with skip show ?thesis by (auto simp: tk Let_def injectable_def)
  next
    case set
    from Cons.IH [of "us[j := True]"] Cons.prems obtain fs' us' where
      "inject_fields I vs fs (us[j := True]) = Done (fs', us')" "map field_shape fs' = map field_shape fs" "length us' = length us"
      "\<forall>i<length us. us' ! i \<longleftrightarrow> us[j := True] ! i \<or> takes I vs fs i"
      "list_all2 (\<lambda>f f'. f' = (if injectable f then (case first_fit I (f_Type f) 0 vs of
        Done (Some (_, v)) \<Rightarrow> f\<lparr>f_Value := v\<rparr> | _ \<Rightarrow> f) else f)) fs fs'" by auto
    with set Cons.prems show ?thesis
      by (auto simp: tk Let_def injectable_def nth_list_update)
  qed
qed

subsection \<open>The startup invariant\<close>

text \<open>
  After the components at the addresses \<open>C\<close> were visited: the values to inject are a prefix
  of the known values, there is one mark per value, and the marks of the values to
  inject are exactly those some visited component takes.
\<close>

definition prep_ok :: "(rtype \<Rightarrow> rtype \<Rightarrow> bool) \<Rightarrow> rval list \<Rightarrow> struct_heap \<Rightarrow> nat set \<Rightarrow> prep \<Rightarrow> bool" where
  "prep_ok I vs h0 C p \<longleftrightarrow>
     (\<exists>ws. pr_refs p = vs @ ws \<and> ZeroValue \<notin> set ws) \<and> length (pr_used p) = length (pr_refs p) \<and>
     same_shapes h0 (pr_heap p) \<and>
     (\<forall>i<length vs. pr_used p ! i \<longleftrightarrow> (\<exists>c\<in>C. takes I vs (the (h0 c)) i))"

lemma prep_ok_set_telemetry [simp]: "prep_ok I vs h0 C (set_telemetry o' sv p) = prep_ok I vs h0 C p"
  by (simp add: prep_ok_def set_telemetry_def)

lemma prep_ok_add_ref: "prep_ok I vs h0 C p \<Longrightarrow> v \<noteq> ZeroValue \<Longrightarrow> prep_ok I vs h0 C (add_ref v p)"
  by (auto simp: prep_ok_def add_ref_def nth_append)

lemma inject_into_ok:
  assumes "prep_ok I vs h0 C p" and "h0 c = Some fs" and "ZeroValue \<notin> set vs"
  shows "\<exists>p'. inject_into I c p = Done p' \<and> prep_ok I vs h0 (insert c C) p'"
proof -
  from assms(1) obtain ws where ws: "pr_refs p = vs @ ws" "ZeroValue \<notin> set ws"
    and len: "length (pr_used p) = length (pr_refs p)" and sh: "same_shapes h0 (pr_heap p)"
    and used: "\<forall>i<length vs. pr_used p ! i \<longleftrightarrow> (\<exists>c\<in>C. takes I vs (the (h0 c)) i)"
    by (auto simp: prep_ok_def)
  from sh assms(2) obtain gs where gs: "pr_heap p c = Some gs" "map field_shape gs = map field_shape fs"
    using map_option_eq_Some unfolding same_shapes_def by (metis option.simps(9))
  from inject_fields_spec [of "pr_refs p" "pr_used p" I gs] ws assms(3) len obtain gs' us' where
    inj: "inject_fields I (pr_refs p) gs (pr_used p) = Done (gs', us')"
    and sh': "map field_shape gs' = map field_shape gs" and len': "length us' = length (pr_used p)"
    and u: "\<forall>i<length (pr_used p). us' ! i \<longleftrightarrow> pr_used p ! i \<or> takes I (pr_refs p) gs i"
    by auto
  have "us' ! i \<longleftrightarrow> pr_used p ! i \<or> takes I vs fs i" if "i < length vs" for i
    using u that len ws takes_append [OF assms(3) ws(2) that, of I gs] takes_shape [OF gs(2)] by auto
  with used have "\<forall>i<length vs. us' ! i \<longleftrightarrow> (\<exists>c'\<in>insert c C. takes I vs (the (h0 c')) i)"
    using assms(2) by auto
  moreover have "same_shapes h0 ((pr_heap p)(c \<mapsto> gs'))"
    using sh gs sh' assms(2) by (simp add: same_shapes_def)
  ultimately show ?thesis
    using inj gs ws len len' by (auto simp: inject_into_def injectVars_def prep_ok_def)
qed

lemma prepare_servers_ok:
  "prep_ok I vs h0 C p \<Longrightarrow> ZeroValue \<notin> set vs \<Longrightarrow> (\<forall>sv\<in>set svs. c_Ptr sv \<in> dom h0) \<Longrightarrow>
   \<exists>p'. prepare_servers I o' svs p = Done p' \<and> prep_ok I vs h0 (c_Ptr ` set svs \<union> C) p'"
proof (induction svs arbitrary: C p)
  case (Cons sv svs)
  then obtain fs where "h0 (c_Ptr sv) = Some fs" by auto
  from inject_into_ok [OF Cons.prems(1) this Cons.prems(2)] obtain p1 where
    p1: "inject_into I (c_Ptr sv) p = Done p1" "prep_ok I vs h0 (insert (c_Ptr sv) C) p1" by blast
  let ?p = "add_ref (ValueOf sv) (set_telemetry o' sv p1)"
  have "prep_ok I vs h0 (insert (c_Ptr sv) C) ?p" using p1(2) by (simp add: prep_ok_add_ref ValueOf_def)
  from Cons.IH [OF this Cons.prems(2)] Cons.prems(3) show ?case by (simp add: p1(1))
qed simp

lemma prepare_init_ok:
  assumes "prep_ok I vs h0 C p" and "c_Ptr c \<in> dom h0" and "ZeroValue \<notin> set vs"
    and "\<forall>h. \<exists>h'. c_Init c h = (None, h') \<and> same_shapes h h'"
  shows "\<exists>p'. prepare_init I ev c p = Done p' \<and> prep_ok I vs h0 (insert (c_Ptr c) C) p'"
proof -
  from assms(2) obtain fs where "h0 (c_Ptr c) = Some fs" by auto
  from inject_into_ok [OF assms(1) this assms(3)] obtain p1 where
    p1: "inject_into I (c_Ptr c) p = Done p1" "prep_ok I vs h0 (insert (c_Ptr c) C) p1" by blast
  from assms(4) obtain h' where h': "c_Init c (pr_heap p1) = (None, h')" "same_shapes (pr_heap p1) h'" by blast
  with p1(2) have "prep_ok I vs h0 (insert (c_Ptr c) C) (p1\<lparr>pr_heap := h', pr_events := pr_events p1 @ [ev]\<rparr>)"
    by (auto simp: prep_ok_def intro: same_shapes_trans)
  then show ?thesis
    using p1 h' by (auto simp: prepare_init_def ValueOf_def intro: prep_ok_add_ref)
qed

lemma unused_check_spec:
  assumes "ZeroValue \<notin> set vs" and "length vs \<le> length us"
  shows "case unused_check unused vs us of Panic \<Rightarrow> False
    | Failed er \<Rightarrow> \<exists>i t q. i < length vs \<and> vs ! i = RV t q \<and> er = unused t \<and> \<not> us ! i \<and> (\<forall>j<i. us ! j)
    | Done _ \<Rightarrow> \<forall>i<length vs. us ! i"
  using assms
proof (induction unused vs us rule: unused_check.induct)
  case (3 unused v vs u us)
  show ?case
  proof (cases u)
    case True
    with 3 have "case unused_check unused vs us of Panic \<Rightarrow> False
      | Failed er \<Rightarrow> \<exists>i t q. i < length vs \<and> vs ! i = RV t q \<and> er = unused t \<and> \<not> us ! i \<and> (\<forall>j<i. us ! j)
      | Done _ \<Rightarrow> \<forall>i<length vs. us ! i" by simp
    with True show ?thesis
    proof (cases "unused_check unused vs us")
      case (Failed er)
      with \<open>case _ of Panic \<Rightarrow> _ | Failed er \<Rightarrow> _ er | Done _ \<Rightarrow> _\<close> obtain i t q where
        "i < length vs" "vs ! i = RV t q" "er = unused t" "\<not> us ! i" "\<forall>j<i. us ! j" by auto
      then have "\<exists>i t q. i < length (v # vs) \<and> (v # vs) ! i = RV t q \<and> er = unused t \<and> \<not> (u # us) ! i \<and>
          (\<forall>j<i. (u # us) ! j)"
        using True by (intro exI [of _ "Suc i"]) (auto simp: less_Suc_eq_0_disj)
      then show ?thesis using Failed True by simp
    qed (auto simp: less_Suc_eq_0_disj)
  next
    case False
    with 3 show ?thesis by (cases v) (auto intro!: exI [of _ 0])
  qed
qed auto

definition components :: "options \<Rightarrow> nat set" where
  "components o' = c_Ptr ` set (o_servers o') \<union> c_Ptr ` set_option (o_scope o') \<union> c_Ptr ` set_option (o_serviceLoader o')"

lemma prepare_runs:
  assumes "ZeroValue \<notin> set (o_injectVars o')" and "components o' \<subseteq> dom h"
    and "\<forall>c\<in>set_option (o_scope o') \<union> set_option (o_serviceLoader o').
      \<forall>h. \<exists>h'. c_Init c h = (None, h') \<and> same_shapes h h'"
  shows "\<exists>p. prep_ok I (o_injectVars o') h (components o') p \<and> prepare I tn a dflt o' [] h =
    out_bind (unused_check (unused_error tn a) (o_injectVars o') (pr_used p)) (\<lambda>_. Done p)"
proof -
  let ?vs = "o_injectVars o'" and ?refs = "o_injectVars o' @ [ValueOf (Logger dflt o')]"
  let ?p0 = "\<lparr>pr_refs = ?refs, pr_used = replicate (length ?refs) False, pr_heap = h, pr_events = []\<rparr>"
  have "prep_ok I ?vs h {} ?p0" by (auto simp: prep_ok_def ValueOf_def simp del: replicate_Suc)
  from prepare_servers_ok [OF this assms(1), of "o_servers o'" o'] assms(2) obtain p1 where
    p1: "prepare_servers I o' (o_servers o') ?p0 = Done p1" "prep_ok I ?vs h (c_Ptr ` set (o_servers o')) p1"
    by (auto simp: components_def)
  define p2 where "p2 = (case o_registry o' of None \<Rightarrow> p1 | Some r \<Rightarrow> add_ref (ValueOf r) p1)"
  have p2: "prep_ok I ?vs h (c_Ptr ` set (o_servers o')) p2"
    using p1(2) by (auto simp: p2_def ValueOf_def intro: prep_ok_add_ref split: option.splits)
  have init: "\<exists>p'. (case oc of None \<Rightarrow> Done p | Some c \<Rightarrow> prepare_init I ev c p) = Done p' \<and>
      prep_ok I ?vs h (C \<union> c_Ptr ` set_option oc) p'"
    if "prep_ok I ?vs h C p" "c_Ptr ` set_option oc \<subseteq> dom h"
      "\<forall>c\<in>set_option oc. \<forall>h. \<exists>h'. c_Init c h = (None, h') \<and> same_shapes h h'" for oc ev p C
    using that prepare_init_ok [OF that(1) _ assms(1)] by (cases oc) auto
  from init [OF p2, of "o_scope o'" InitScope] assms(2,3) obtain p3 where
    p3: "(case o_scope o' of None \<Rightarrow> Done p2 | Some c \<Rightarrow> prepare_init I InitScope c p2) = Done p3"
      "prep_ok I ?vs h (c_Ptr ` set (o_servers o') \<union> c_Ptr ` set_option (o_scope o')) p3"
    by (auto simp: components_def)
  from init [OF p3(2), of "o_serviceLoader o'" InitLoader] assms(2,3) obtain p4 where
    p4: "(case o_serviceLoader o' of None \<Rightarrow> Done p3 | Some c \<Rightarrow> prepare_init I InitLoader c p3) = Done p4"
      "prep_ok I ?vs h (components o') p4"
    by (auto simp: components_def)
  show ?thesis using p1(1) p3(1) [unfolded p2_def] p4 by (intro exI [of _ p4]) (simp add: prepare_def Let_def)
qed

subsection \<open>A nil value to inject\<close>

text \<open>The \<open>i\<close>-th value is nil and has not been taken; nothing ever takes it.\<close>

definition nil_at :: "nat \<Rightarrow> prep \<Rightarrow> bool" where
  "nil_at i p \<longleftrightarrow> i < length (pr_refs p) \<and> pr_refs p ! i = ZeroValue \<and> length (pr_used p) = length (pr_refs p) \<and> \<not> pr_used p ! i"

lemma out_bind_Done: "out_bind x k = Done v \<longleftrightarrow> (\<exists>y. x = Done y \<and> k y = Done v)"
  by (cases x) simp_all

lemma first_fit_value:
  "first_fit I t k vs = Done (Some (i, v)) \<Longrightarrow> k \<le> i \<and> i - k < length vs \<and> vs ! (i - k) = v \<and> v \<noteq> ZeroValue"
proof (induction I t k vs rule: first_fit.induct)
  case (3 I t k u q vs)
  show ?case
  proof (cases "rt_Kind t = InterfaceKind \<and> I u t \<or> t = u")
    case False
    with 3 have "Suc k \<le> i \<and> i - Suc k < length vs \<and> vs ! (i - Suc k) = v \<and> v \<noteq> ZeroValue" by (auto split: if_splits)
    moreover from this have "i - k = Suc (i - Suc k)" by auto
    ultimately show ?thesis by simp
  qed (use 3 in \<open>auto split: if_splits\<close>)
qed auto

lemma inject_fields_nil:
  assumes "i < length vs" and "vs ! i = ZeroValue"
  shows "inject_fields I vs fs used = Done (fs', u) \<Longrightarrow> length u = length used \<and> u ! i = used ! i"
proof (induction fs arbitrary: used fs' u)
  case (Cons f fs)
  have "\<exists>fs1 used1. inject_fields I vs fs used1 = Done (fs1, u) \<and> length used1 = length used \<and> used1 ! i = used ! i"
  proof (cases "injectable f \<and> (\<exists>q. first_fit I (f_Type f) 0 vs = Done (Some q))")
    case False
    then show ?thesis using Cons.prems
      by (intro exI [of _ "tl fs'"] exI [of _ used])
        (auto simp: injectable_def Let_def split: outcome.splits option.splits if_splits)
  next
    case True
    then obtain k v where q: "first_fit I (f_Type f) 0 vs = Done (Some (k, v))" by fastforce
    have "k \<noteq> i" using first_fit_value [OF q] assms(2) by auto
    then show ?thesis using Cons.prems True q
      by (intro exI [of _ "tl fs'"] exI [of _ "used[k := True]"])
        (auto simp: injectable_def Let_def split: outcome.splits if_splits)
  qed
  then show ?case using Cons.IH by metis
qed simp

lemma inject_into_nil: "inject_into I ptr p = Done p' \<Longrightarrow> nil_at i p \<Longrightarrow> nil_at i p'"
  using inject_fields_nil [of i "pr_refs p" I _ "pr_used p"]
  by (auto simp: inject_into_def injectVars_def nil_at_def split: option.splits outcome.splits)

lemma add_ref_nil: "nil_at i p \<Longrightarrow> nil_at i (add_ref v p)"
  by (auto simp: nil_at_def add_ref_def nth_append)

lemma nil_at_other [simp]: "nil_at i (p\<lparr>pr_events := ev\<rparr>) = nil_at i p" "nil_at i (p\<lparr>pr_heap := h\<rparr>) = nil_at i p"
  by (simp_all add: nil_at_def)

lemma set_telemetry_nil [simp]: "nil_at i (set_telemetry o' sv p) = nil_at i p"
  by (simp add: set_telemetry_def)

lemma prepare_servers_nil: "prepare_servers I o' svs p = Done p' \<Longrightarrow> nil_at i p \<Longrightarrow> nil_at i p'"
proof (induction svs arbitrary: p)
  case (Cons sv svs)
  from Cons.prems(1) obtain p1 where "inject_into I (c_Ptr sv) p = Done p1"
    "prepare_servers I o' svs (add_ref (ValueOf sv) (set_telemetry o' sv p1)) = Done p'"
    by (auto simp: out_bind_Done)
  moreover from this(1) have "nil_at i p1" using Cons.prems(2) by (rule inject_into_nil)
  ultimately show ?case using Cons.IH by (simp add: add_ref_nil)
qed simp

lemma prepare_init_nil: "prepare_init I ev c p = Done p' \<Longrightarrow> nil_at i p \<Longrightarrow> nil_at i p'"
  using inject_into_nil [of I "c_Ptr c" p]
  by (cases "inject_into I (c_Ptr c) p") (auto simp: prepare_init_def split: prod.splits option.splits intro!: add_ref_nil)

lemma unused_check_Done: "unused_check unused vs us = Done () \<Longrightarrow> i < length vs \<Longrightarrow> us ! i"
  by (induction unused vs us arbitrary: i rule: unused_check.induct)
    (auto simp: less_Suc_eq_0_disj split: if_splits rval.splits)

lemma prepare_nil:
  assumes "ZeroValue \<in> set (o_injectVars o')"
  shows "prepare I tn a dflt o' [] h \<noteq> Done p"
proof
  assume d: "prepare I tn a dflt o' [] h = Done p"
  let ?refs = "o_injectVars o' @ [ValueOf (Logger dflt o')]"
  let ?p0 = "\<lparr>pr_refs = ?refs, pr_used = replicate (length ?refs) False, pr_heap = h, pr_events = []\<rparr>"
  from assms obtain i where i: "i < length (o_injectVars o')" "o_injectVars o' ! i = ZeroValue"
    by (auto simp: in_set_conv_nth)
  have p0: "nil_at i ?p0" using i by (simp add: nil_at_def nth_append del: replicate_Suc)
  let ?reg = "\<lambda>p1. case o_registry o' of None \<Rightarrow> p1 | Some r \<Rightarrow> add_ref (ValueOf r) p1"
  obtain p1 p3 p4 where p1: "prepare_servers I o' (o_servers o') ?p0 = Done p1"
    and p3: "(case o_scope o' of None \<Rightarrow> Done (?reg p1) | Some c \<Rightarrow> prepare_init I InitScope c (?reg p1)) = Done p3"
    and p4: "(case o_serviceLoader o' of None \<Rightarrow> Done p3 | Some c \<Rightarrow> prepare_init I InitLoader c p3) = Done p4"
    and u: "unused_check (unused_error tn a) (o_injectVars o') (pr_used p4) = Done ()"
    using d unfolding prepare_def Let_def out_bind_Done append_Nil by auto
  have "nil_at i (?reg p1)" using prepare_servers_nil [OF p1 p0] by (simp add: add_ref_nil split: option.splits)
  then have "nil_at i p3" using p3 prepare_init_nil by (auto split: option.splits)
  then have "nil_at i p4" using p4 prepare_init_nil by (auto split: option.splits)
  moreover note u
  ultimately show False using unused_check_Done i(1) by (auto simp: nil_at_def)
qed

section \<open>Properties\<close>

text \<open>
  C15: Injection at startup, for components that are structs and a scope and a loader whose
  \<open>Init\<close> succeeds and keeps the fields' types. If no value to inject is nil the preparation does
  not panic: it succeeds exactly when each value to inject is the first fit of an injectable
  field of some component, and otherwise fails with the type of the first value nobody
  takes. With a nil value to inject the preparation never succeeds (it panics, or fails
  before it gets there).
\<close>

theorem startup_injection:
  assumes "components o' \<subseteq> dom h"
    and "\<forall>c\<in>set_option (o_scope o') \<union> set_option (o_serviceLoader o').
      \<forall>h. \<exists>h'. c_Init c h = (None, h') \<and> same_shapes h h'"
    and "taken = (\<lambda>i. \<exists>c\<in>components o'. takes implements (o_injectVars o') (the (h c)) i)"
  shows "if ZeroValue \<in> set (o_injectVars o') then \<forall>p. prepare implements type_name a dflt o' [] h \<noteq> Done p
    else case prepare implements type_name a dflt o' [] h of Panic \<Rightarrow> False
    | Failed er \<Rightarrow> \<exists>i t q. i < length (o_injectVars o') \<and> o_injectVars o' ! i = RV t q \<and> er = unused_error type_name a t \<and>
        \<not> taken i \<and> (\<forall>j<i. taken j)
    | Done p \<Rightarrow> \<forall>i<length (o_injectVars o'). taken i"
proof (cases "ZeroValue \<in> set (o_injectVars o')")
  case True
  then show ?thesis using prepare_nil by simp
next
  case nz: False
  from prepare_runs [OF nz assms(1,2), of implements type_name a dflt] obtain p where
    p: "prep_ok implements (o_injectVars o') h (components o') p"
    and r: "prepare implements type_name a dflt o' [] h =
      out_bind (unused_check (unused_error type_name a) (o_injectVars o') (pr_used p)) (\<lambda>_. Done p)" by blast
  from p have u: "\<forall>i<length (o_injectVars o'). pr_used p ! i = taken i" "length (o_injectVars o') \<le> length (pr_used p)"
    by (auto simp: prep_ok_def assms(3))
  show ?thesis
    using unused_check_spec [OF nz u(2), of "unused_error type_name a"] u(1) nz
    by (cases "unused_check (unused_error type_name a) (o_injectVars o') (pr_used p)") (force simp: r)+
qed

text \<open>A server with one field for a pointer of type 7 and one value to inject.\<close>

definition sample_rtype :: "nat \<Rightarrow> rtype" where
  "sample_rtype n = \<lparr>rt_Kind = PointerKind, rt_ID = n\<rparr>"

definition sample_options :: "nat \<Rightarrow> options" where
  "sample_options n = service_New ''id'' \<lparr>c_Ptr = 100, c_Type = sample_rtype 50\<rparr> False
     [WithServer [\<lparr>c_Ptr = 1, c_Type = sample_rtype 1, sv_Endpoint = None, sv_Traceable = False\<rparr>],
      WithInjectVars [RV (sample_rtype n) 9]]"

definition sample_structs :: struct_heap where
  "sample_structs = [1 \<mapsto> [\<lparr>f_CanSet = True, f_Type = sample_rtype 7, f_Value = ZeroValue\<rparr>]]"

theorem startup_injection_witness:
  "case prepare (\<lambda>_ _. False) (\<lambda>_. ''t'') 900 \<lparr>c_Ptr = 100, c_Type = sample_rtype 50\<rparr> (sample_options 8) [] sample_structs of
     Failed er \<Rightarrow> er = unused_error (\<lambda>_. ''t'') 900 (sample_rtype 8) | _ \<Rightarrow> False"
proof -
  let ?o = "sample_options 8"
  have o: "o_injectVars ?o = [RV (sample_rtype 8) 9]" "components ?o = {1}" "o_scope ?o = None" "o_serviceLoader ?o = None"
    by (simp_all add: sample_options_def service_New_def WithServer_def WithInjectVars_def components_def)
  have t: "\<not> takes (\<lambda>_ _. False) [RV (sample_rtype 8) 9] (the (sample_structs 1)) 0"
    by (simp add: takes_def sample_structs_def sample_rtype_def)
  show ?thesis
    using startup_injection [of ?o sample_structs _ "\<lambda>_ _. False" "\<lambda>_. ''t''" 900 "\<lparr>c_Ptr = 100, c_Type = sample_rtype 50\<rparr>", OF _ _ refl] t
    by (auto simp: o sample_structs_def split: outcome.splits)
qed

end
