(* ===== verification/Lifecycle.thy ===== *)
theory Lifecycle
  imports Inject
begin

text \<open>
  Package \<open>aeus\<close>, the part of \<open>app.go\<close> that runs concurrently: the goroutines \<open>preStart\<close>
  spawns for the servers, the service loader and the registration, the goroutine of \<open>Run\<close>
  that waits for the end and calls \<open>preStop\<close>, and \<open>Run\<close> itself.

  The goroutines are a step relation on one state. What a call of a server, the loader or
  the registry answers is left open, as is the order in which the goroutines run. The
  named result \<open>err\<close> of \<open>preStart\<close> is part of the state: the registration goroutine captures it and
  assigns to it. Package errgroup is a parameter: a group takes the results of
  its goroutines, is cancelled by the first error and answers it to \<open>Wait\<close>.

  A run is given by the number of servers and by whether there is a loader and a registry.
\<close>

subsection \<open>The group\<close>

record 'g group_ops =
  eg_New :: 'g
  eg_Return :: "goerror option \<Rightarrow> 'g \<Rightarrow> 'g"
  eg_Cancelled :: "'g \<Rightarrow> bool"
  eg_Err :: "'g \<Rightarrow> goerror option"

fun first_error :: "goerror option list \<Rightarrow> goerror option" where
  "first_error [] = None"
| "first_error (r # rs) = (case r of Some er \<Rightarrow> Some er | None \<Rightarrow> first_error rs)"

locale errgroup =
  fixes eg :: "'g group_ops"
  assumes group_err: "eg_Err eg (fold (eg_Return eg) rs (eg_New eg)) = first_error rs"
    and group_cancelled: "eg_Cancelled eg (fold (eg_Return eg) rs (eg_New eg)) \<longleftrightarrow> first_error rs \<noteq> None"

subsection \<open>States\<close>

datatype gstate = Unspawned | Spawned | Active | Returned

text \<open>The goroutine of \<open>Run\<close> that calls \<open>preStop\<close>: the next server to stop and the error so far.\<close>

datatype stopper = SUnspawned | SBlocked | SStop nat "goerror option" | SReturned

datatype main_pc = MServer nat | MLoader | MRegistry | MStarted | MWait | MDone "goerror option"

datatype svc_call = CStart nat | CRun | CRegister | CHeartbeat | CStop nat | CDeregister

record svc_config =
  n_servers :: nat
  has_loader :: bool
  has_registry :: bool

definition config_of :: "options \<Rightarrow> svc_config" where
  "config_of o' = \<lparr>n_servers = length (o_servers o'), has_loader = o_serviceLoader o' \<noteq> None,
     has_registry = o_registry o' \<noteq> None\<rparr>"

record 'g run_state =
  mpc :: main_pc
  err_var :: "goerror option"
  servers :: "gstate list"
  loader :: gstate
  registrar :: gstate
  stopper :: stopper
  exitFlag :: bool
  cancelled :: bool
  group :: 'g
  returns :: "goerror option list"
  svc_calls :: "svc_call list"

text \<open>
  \<open>svc_calls\<close> records the calls in their order, and \<open>returns\<close> what the goroutines of the group returned;
  both are for the specification only. \<open>cancelled\<close> is the context of \<open>signal.NotifyContext\<close>, done
  by a signal, by the parent context or by the deferred cancel of \<open>Run\<close>.
\<close>

definition run_init :: "'g group_ops \<Rightarrow> svc_config \<Rightarrow> 'g run_state" where
  "run_init eg c = \<lparr>mpc = MServer 0, err_var = None, servers = replicate (n_servers c) Unspawned, loader = Unspawned,
     registrar = Unspawned, stopper = SUnspawned, exitFlag = False, cancelled = False, group = eg_New eg,
     returns = [], svc_calls = []\<rparr>"

definition ctx_done :: "'g group_ops \<Rightarrow> 'g run_state \<Rightarrow> bool" where
  "ctx_done eg s \<longleftrightarrow> cancelled s \<or> eg_Cancelled eg (group s)"

definition group_return :: "'g group_ops \<Rightarrow> goerror option \<Rightarrow> 'g run_state \<Rightarrow> 'g run_state" where
  "group_return eg r s = s\<lparr>group := eg_Return eg r (group s), returns := returns s @ [r]\<rparr>"

definition all_returned :: "svc_config \<Rightarrow> 'g run_state \<Rightarrow> bool" where
  "all_returned c s \<longleftrightarrow> (\<forall>g\<in>set (servers s). g = Returned) \<and> (has_loader c \<longrightarrow> loader s = Returned) \<and>
     (has_registry c \<longrightarrow> registrar s = Returned) \<and> stopper s = SReturned"

definition add_call :: "svc_call \<Rightarrow> 'g run_state \<Rightarrow> 'g run_state" where
  "add_call x s = s\<lparr>svc_calls := svc_calls s @ [x]\<rparr>"

subsection \<open>Steps\<close>

text \<open>The main goroutine: \<open>preStart\<close> spawns the goroutines, then \<open>Run\<close> waits.\<close>

inductive main_step :: "'g group_ops \<Rightarrow> svc_config \<Rightarrow> 'g run_state \<Rightarrow> 'g run_state \<Rightarrow> bool" for eg c where
  spawn_server: "mpc s = MServer i \<Longrightarrow> i < n_servers c \<Longrightarrow>
    main_step eg c s (s\<lparr>servers := (servers s)[i := Spawned], mpc := MServer (Suc i)\<rparr>)"
| servers_spawned: "mpc s = MServer i \<Longrightarrow> \<not> i < n_servers c \<Longrightarrow> main_step eg c s (s\<lparr>mpc := MLoader\<rparr>)"
| spawn_loader: "mpc s = MLoader \<Longrightarrow>
    main_step eg c s (s\<lparr>loader := (if has_loader c then Spawned else loader s), mpc := MRegistry\<rparr>)"
| spawn_registrar: "mpc s = MRegistry \<Longrightarrow>
    main_step eg c s (s\<lparr>registrar := (if has_registry c then Spawned else registrar s), mpc := MStarted\<rparr>)"
| prestart_failed: "mpc s = MStarted \<Longrightarrow> err_var s = Some er \<Longrightarrow>
    main_step eg c s (s\<lparr>mpc := MDone (Some er), cancelled := True\<rparr>)"
| prestart_ok: "mpc s = MStarted \<Longrightarrow> err_var s = None \<Longrightarrow> main_step eg c s (s\<lparr>mpc := MWait, stopper := SBlocked\<rparr>)"
| wait_returns: "mpc s = MWait \<Longrightarrow> all_returned c s \<Longrightarrow>
    main_step eg c s (s\<lparr>mpc := MDone (eg_Err eg (group s)), cancelled := True\<rparr>)"

text \<open>The goroutines of the servers and of the loader.\<close>

inductive server_step :: "'g group_ops \<Rightarrow> 'g run_state \<Rightarrow> 'g run_state \<Rightarrow> bool" for eg where
  server_start: "i < length (servers s) \<Longrightarrow> servers s ! i = Spawned \<Longrightarrow>
    server_step eg s (add_call (CStart i) (s\<lparr>servers := (servers s)[i := Active]\<rparr>))"
| server_return: "i < length (servers s) \<Longrightarrow> servers s ! i = Active \<Longrightarrow>
    server_step eg s (group_return eg r (s\<lparr>servers := (servers s)[i := Returned]\<rparr>))"
| loader_start: "loader s = Spawned \<Longrightarrow> server_step eg s (add_call CRun (s\<lparr>loader := Active\<rparr>))"
| loader_return: "loader s = Active \<Longrightarrow> server_step eg s (group_return eg r (s\<lparr>loader := Returned\<rparr>))"

text \<open>The registration goroutine, without the ticks of its heartbeat.\<close>

inductive registrar_step :: "'g group_ops \<Rightarrow> 'g run_state \<Rightarrow> 'g run_state \<Rightarrow> bool" for eg where
  register_ok: "registrar s = Spawned \<Longrightarrow>
    registrar_step eg s (add_call CRegister (s\<lparr>registrar := Active, err_var := None\<rparr>))"
| register_failed: "registrar s = Spawned \<Longrightarrow>
    registrar_step eg s (group_return eg (Some er) (add_call CRegister (s\<lparr>registrar := Returned, err_var := Some er\<rparr>)))"
| register_stopped: "registrar s = Active \<Longrightarrow> ctx_done eg s \<Longrightarrow>
    registrar_step eg s (group_return eg None (s\<lparr>registrar := Returned\<rparr>))"

inductive tick_step :: "'g run_state \<Rightarrow> 'g run_state \<Rightarrow> bool" where
  tick: "registrar s = Active \<Longrightarrow> tick_step s (add_call CHeartbeat (s\<lparr>err_var := r\<rparr>))"

text \<open>The goroutine that waits for the end of the context and runs \<open>preStop\<close>.\<close>

inductive stop_step :: "'g group_ops \<Rightarrow> svc_config \<Rightarrow> 'g run_state \<Rightarrow> 'g run_state \<Rightarrow> bool" for eg c where
  stop_again: "stopper s = SBlocked \<Longrightarrow> ctx_done eg s \<Longrightarrow> exitFlag s \<Longrightarrow>
    stop_step eg c s (group_return eg None (s\<lparr>stopper := SReturned\<rparr>))"
| stop_begin: "stopper s = SBlocked \<Longrightarrow> ctx_done eg s \<Longrightarrow> \<not> exitFlag s \<Longrightarrow>
    stop_step eg c s (s\<lparr>exitFlag := True, stopper := SStop 0 None\<rparr>)"
| stop_server: "stopper s = SStop i er \<Longrightarrow> i < n_servers c \<Longrightarrow>
    stop_step eg c s (add_call (CStop i) (s\<lparr>stopper := SStop (Suc i) r\<rparr>))"
| stop_deregister: "stopper s = SStop i er \<Longrightarrow> \<not> i < n_servers c \<Longrightarrow> has_registry c \<Longrightarrow>
    stop_step eg c s (group_return eg r (add_call CDeregister (s\<lparr>stopper := SReturned\<rparr>)))"
| stop_end: "stopper s = SStop i er \<Longrightarrow> \<not> i < n_servers c \<Longrightarrow> \<not> has_registry c \<Longrightarrow>
    stop_step eg c s (group_return eg er (s\<lparr>stopper := SReturned\<rparr>))"

inductive signal_step :: "'g run_state \<Rightarrow> 'g run_state \<Rightarrow> bool" where
  signal: "\<not> cancelled s \<Longrightarrow> signal_step s (s\<lparr>cancelled := True\<rparr>)"

definition work_step :: "'g group_ops \<Rightarrow> svc_config \<Rightarrow> 'g run_state \<Rightarrow> 'g run_state \<Rightarrow> bool" where
  "work_step eg c s s' \<longleftrightarrow> main_step eg c s s' \<or> server_step eg s s' \<or> registrar_step eg s s' \<or> stop_step eg c s s' \<or>
     signal_step s s'"

definition run_step :: "'g group_ops \<Rightarrow> svc_config \<Rightarrow> 'g run_state \<Rightarrow> 'g run_state \<Rightarrow> bool" where
  "run_step eg c s s' \<longleftrightarrow> work_step eg c s s' \<or> tick_step s s'"

definition run_reachable :: "'g group_ops \<Rightarrow> svc_config \<Rightarrow> 'g run_state \<Rightarrow> bool" where
  "run_reachable eg c = (run_step eg c)\<^sup>*\<^sup>* (run_init eg c)"

lemmas step_defs = work_step_def run_step_def main_step.simps server_step.simps registrar_step.simps
  stop_step.simps signal_step.simps tick_step.simps
lemmas state_defs = group_return_def add_call_def ctx_done_def all_returned_def

subsection \<open>Invariants\<close>

text \<open>How far \<open>preStart\<close> has spawned its goroutines.\<close>

definition spawned :: "svc_config \<Rightarrow> 'g run_state \<Rightarrow> bool" where
  "spawned c s \<longleftrightarrow> length (servers s) = n_servers c \<and> (\<not> has_loader c \<longrightarrow> loader s = Unspawned) \<and>
     (\<not> has_registry c \<longrightarrow> registrar s = Unspawned) \<and>
     (case mpc s of
        MServer i \<Rightarrow> i \<le> n_servers c \<and> (\<forall>j<n_servers c. servers s ! j = Unspawned \<longleftrightarrow> i \<le> j) \<and>
          loader s = Unspawned \<and> registrar s = Unspawned
      | MLoader \<Rightarrow> (\<forall>j<n_servers c. servers s ! j \<noteq> Unspawned) \<and> loader s = Unspawned \<and> registrar s = Unspawned
      | MRegistry \<Rightarrow> (\<forall>j<n_servers c. servers s ! j \<noteq> Unspawned) \<and> (has_loader c \<longrightarrow> loader s \<noteq> Unspawned) \<and> registrar s = Unspawned
      | _ \<Rightarrow> (\<forall>j<n_servers c. servers s ! j \<noteq> Unspawned) \<and> (has_loader c \<longrightarrow> loader s \<noteq> Unspawned) \<and>
          (has_registry c \<longrightarrow> registrar s \<noteq> Unspawned))"

definition is_stop_call :: "svc_call \<Rightarrow> bool" where
  "is_stop_call x \<longleftrightarrow> x = CDeregister \<or> (\<exists>i. x = CStop i)"

definition full_stop :: "svc_config \<Rightarrow> svc_call list" where
  "full_stop c = map CStop [0..<n_servers c] @ (if has_registry c then [CDeregister] else [])"

text \<open>How far \<open>preStop\<close> has stopped the servers.\<close>

definition stopping :: "svc_config \<Rightarrow> 'g run_state \<Rightarrow> bool" where
  "stopping c s \<longleftrightarrow>
     (case stopper s of SUnspawned \<Rightarrow> filter is_stop_call (svc_calls s) = [] \<and> \<not> exitFlag s \<and> mpc s \<noteq> MWait
      | SBlocked \<Rightarrow> filter is_stop_call (svc_calls s) = [] \<and> \<not> exitFlag s \<and> mpc s = MWait
      | SStop i er \<Rightarrow> i \<le> n_servers c \<and> filter is_stop_call (svc_calls s) = map CStop [0..<i] \<and> mpc s = MWait
      | SReturned \<Rightarrow> filter is_stop_call (svc_calls s) = full_stop c \<and>
          (mpc s = MWait \<or> all_returned c s \<and> mpc s = MDone (first_error (returns s))))"

definition grouped :: "'g group_ops \<Rightarrow> 'g run_state \<Rightarrow> bool" where
  "grouped eg s \<longleftrightarrow> group s = fold (eg_Return eg) (returns s) (eg_New eg)"

lemma is_stop_call_simps [simp]:
  "\<not> is_stop_call (CStart i)" "\<not> is_stop_call CRun" "\<not> is_stop_call CRegister" "\<not> is_stop_call CHeartbeat"
  "is_stop_call (CStop i)" "is_stop_call CDeregister"
  by (simp_all add: is_stop_call_def)

lemma group_return_simps [simp]:
  "mpc (group_return eg r s) = mpc s" "err_var (group_return eg r s) = err_var s"
  "servers (group_return eg r s) = servers s" "loader (group_return eg r s) = loader s"
  "registrar (group_return eg r s) = registrar s" "stopper (group_return eg r s) = stopper s"
  "exitFlag (group_return eg r s) = exitFlag s" "cancelled (group_return eg r s) = cancelled s"
  "group (group_return eg r s) = eg_Return eg r (group s)" "returns (group_return eg r s) = returns s @ [r]"
  "svc_calls (group_return eg r s) = svc_calls s"
  by (simp_all add: group_return_def)

lemma add_call_simps [simp]:
  "mpc (add_call x s) = mpc s" "err_var (add_call x s) = err_var s"
  "servers (add_call x s) = servers s" "loader (add_call x s) = loader s"
  "registrar (add_call x s) = registrar s" "stopper (add_call x s) = stopper s"
  "exitFlag (add_call x s) = exitFlag s" "cancelled (add_call x s) = cancelled s"
  "group (add_call x s) = group s" "returns (add_call x s) = returns s"
  "svc_calls (add_call x s) = svc_calls s @ [x]"
  by (simp_all add: add_call_def)

lemma grouped_step: "run_step eg c s s' \<Longrightarrow> grouped eg s \<Longrightarrow> grouped eg s'"
  by (auto simp: step_defs grouped_def)

definition same_spawns :: "'g run_state \<Rightarrow> 'g run_state \<Rightarrow> bool" where
  "same_spawns s s' \<longleftrightarrow> mpc s' = mpc s \<and> length (servers s') = length (servers s) \<and>
     (\<forall>j<length (servers s). servers s' ! j = Unspawned \<longleftrightarrow> servers s ! j = Unspawned) \<and>
     (loader s' = Unspawned \<longleftrightarrow> loader s = Unspawned) \<and> (registrar s' = Unspawned \<longleftrightarrow> registrar s = Unspawned)"

lemma spawned_cong: "same_spawns s s' \<Longrightarrow> spawned c s' = spawned c s"
  by (cases "mpc s") (auto simp: same_spawns_def spawned_def)

lemma same_spawns_step:
  "server_step eg s s' \<or> registrar_step eg s s' \<or> tick_step s s' \<or> stop_step eg c s s' \<or> signal_step s s' \<Longrightarrow>
   same_spawns s s'"
  by (elim disjE server_step.cases registrar_step.cases tick_step.cases stop_step.cases signal_step.cases)
    (simp_all add: same_spawns_def nth_list_update)

lemma spawned_main: "main_step eg c s s' \<Longrightarrow> spawned c s \<Longrightarrow> spawned c s'"
  by (erule main_step.cases) (auto simp: spawned_def nth_list_update)

lemma spawned_step: "run_step eg c s s' \<Longrightarrow> spawned c s \<Longrightarrow> spawned c s'"
  using spawned_main same_spawns_step spawned_cong unfolding run_step_def work_step_def by metis

lemma stopping_main:
  assumes "main_step eg c s s'" and "stopping c s" and "grouped eg s" and "errgroup eg"
  shows "stopping c s'"
  using assms
  by (cases rule: main_step.cases)
    (auto simp: stopping_def all_returned_def grouped_def errgroup.group_err split: stopper.splits)

lemma stopping_goroutines:
  "server_step eg s s' \<or> registrar_step eg s s' \<or> tick_step s s' \<or> signal_step s s' \<Longrightarrow> spawned c s \<Longrightarrow> stopping c s \<Longrightarrow>
   stopping c s'"
  by (elim disjE server_step.cases registrar_step.cases tick_step.cases signal_step.cases)
    (auto simp: stopping_def all_returned_def spawned_def all_set_conv_all_nth split: stopper.splits)

lemma stopping_stop: "stop_step eg c s s' \<Longrightarrow> stopping c s \<Longrightarrow> stopping c s'"
  by (erule stop_step.cases) (auto simp: stopping_def full_stop_def)

lemma stopping_step:
  "run_step eg c s s' \<Longrightarrow> errgroup eg \<Longrightarrow> grouped eg s \<Longrightarrow> spawned c s \<Longrightarrow> stopping c s \<Longrightarrow> stopping c s'"
  using stopping_main stopping_goroutines stopping_stop unfolding run_step_def work_step_def by metis

lemma run_invariant:
  assumes "errgroup eg" and "run_reachable eg c s"
  shows "grouped eg s \<and> spawned c s \<and> stopping c s"
  using assms(2) unfolding run_reachable_def
proof (induction rule: rtranclp_induct)
  case base
  show ?case by (simp add: run_init_def grouped_def spawned_def stopping_def)
next
  case (step s s')
  then show ?case using grouped_step spawned_step stopping_step [OF _ assms(1)] by blast
qed

subsection \<open>Termination\<close>

fun grank :: "gstate \<Rightarrow> nat" where
  "grank Unspawned = 3" | "grank Spawned = 2" | "grank Active = 1" | "grank Returned = 0"

fun srank :: "nat \<Rightarrow> stopper \<Rightarrow> nat" where
  "srank n SUnspawned = n + 3" | "srank n SBlocked = n + 2" | "srank n (SStop i er) = n - i + 1" | "srank n SReturned = 0"

fun mrank :: "nat \<Rightarrow> main_pc \<Rightarrow> nat" where
  "mrank n (MServer i) = n - i + 5" | "mrank n MLoader = 4" | "mrank n MRegistry = 3" | "mrank n MStarted = 2"
| "mrank n MWait = 1" | "mrank n (MDone r) = 0"

definition work_left :: "svc_config \<Rightarrow> 'g run_state \<Rightarrow> nat" where
  "work_left c s = mrank (n_servers c) (mpc s) + sum_list (map grank (servers s)) + grank (loader s) + grank (registrar s) +
     srank (n_servers c) (stopper s) + (if cancelled s then 0 else 1)"

lemma sum_grank_update:
  assumes "i < length gs" and "grank g < grank (gs ! i)"
  shows "sum_list (map grank (gs[i := g])) < sum_list (map grank gs)"
proof -
  have "sum_list (map grank (gs[i := g])) = sum_list (map grank gs) + grank g - grank (gs ! i)"
    using assms(1) by (simp add: map_update sum_list_update)
  moreover have "grank (gs ! i) \<le> sum_list (map grank gs)"
    using assms(1) elem_le_sum_list [of i "map grank gs"] by simp
  ultimately show ?thesis using assms(2) by linarith
qed

lemma work_left_main: "main_step eg c s s' \<Longrightarrow> spawned c s \<Longrightarrow> stopping c s \<Longrightarrow> work_left c s' < work_left c s"
proof (erule main_step.cases, goal_cases)
  case (1 t i)
  then have "sum_list (map grank ((servers s)[i := Spawned])) < sum_list (map grank (servers s))"
    by (intro sum_grank_update) (auto simp: spawned_def)
  with 1 show ?case by (auto simp: work_left_def)
qed (auto simp: work_left_def spawned_def stopping_def split: stopper.splits)

lemma work_left_server: "server_step eg s s' \<Longrightarrow> work_left c s' < work_left c s"
  by (erule server_step.cases) (auto simp: work_left_def intro!: sum_grank_update)

lemma work_left_rest:
  "registrar_step eg s s' \<or> stop_step eg c s s' \<or> signal_step s s' \<Longrightarrow> work_left c s' < work_left c s"
  by (elim disjE registrar_step.cases stop_step.cases signal_step.cases) (auto simp: work_left_def)

lemma work_left_step: "work_step eg c s s' \<Longrightarrow> spawned c s \<Longrightarrow> stopping c s \<Longrightarrow> work_left c s' < work_left c s"
  using work_left_main work_left_server work_left_rest unfolding work_step_def by metis

lemma work_left_tick: "tick_step s s' \<Longrightarrow> work_left c s' = work_left c s"
  by (auto simp: tick_step.simps work_left_def)

subsection \<open>Progress\<close>

text \<open>
  What must happen sooner or later: the steps of the main goroutine, of the registration and of
  \<open>preStop\<close>, the start of a spawned goroutine, and the return of a server once its \<open>Stop\<close> was
  called and of the loader once its context is done.
\<close>

definition due :: "'g group_ops \<Rightarrow> svc_config \<Rightarrow> 'g run_state \<Rightarrow> bool" where
  "due eg c s \<longleftrightarrow> (\<exists>s'. main_step eg c s s') \<or> (\<exists>s'. registrar_step eg s s') \<or> (\<exists>s'. stop_step eg c s s') \<or>
     (\<exists>i<length (servers s). servers s ! i = Spawned \<or> servers s ! i = Active \<and> CStop i \<in> set (svc_calls s)) \<or>
     loader s = Spawned \<or> loader s = Active \<and> ctx_done eg s"

lemma main_step_exists:
  "mpc s \<noteq> MWait \<Longrightarrow> (\<And>r. mpc s \<noteq> MDone r) \<Longrightarrow> \<exists>s'. main_step eg c s s'"
proof (cases "mpc s")
  case (MServer i)
  then show ?thesis by (cases "i < n_servers c") (auto intro: main_step.intros)
qed (cases "err_var s"; auto intro: main_step.intros)+

lemma stop_step_exists: "stopper s = SStop i er \<or> stopper s = SBlocked \<and> ctx_done eg s \<Longrightarrow> \<exists>s'. stop_step eg c s s'"
  by (cases "i < n_servers c"; cases "has_registry c"; cases "exitFlag s") (auto intro: stop_step.intros)

lemma registrar_step_exists: "registrar s = Spawned \<or> registrar s = Active \<and> ctx_done eg s \<Longrightarrow> \<exists>s'. registrar_step eg s s'"
  by (auto intro: registrar_step.intros)

lemma due_when_done:
  assumes "spawned c s" and "stopping c s" and "ctx_done eg s" and "\<And>r. mpc s \<noteq> MDone r"
  shows "due eg c s"
proof (cases "mpc s = MWait")
  case False
  then show ?thesis using main_step_exists [OF False assms(4), of eg c] by (auto simp: due_def)
next
  case w: True
  show ?thesis
  proof (cases "all_returned c s")
    case True
    then show ?thesis using w by (auto simp: due_def intro: main_step.intros)
  next
    case False
    show ?thesis
    proof (cases "stopper s = SReturned")
      case r: True
      then have "filter is_stop_call (svc_calls s) = full_stop c" using assms(2) by (simp add: stopping_def)
      then have calls: "CStop i \<in> set (svc_calls s)" if "i < n_servers c" for i
        using that by (metis UnI1 atLeastLessThan_iff filter_is_subset full_stop_def image_eqI le0 set_append
            set_map set_upt subsetD)
      have "gs = Spawned \<or> gs = Active \<or> gs = Returned" if "gs \<noteq> Unspawned" for gs
        using that by (cases gs) auto
      with assms(1) w have g: "\<forall>i<length (servers s). servers s ! i \<in> {Spawned, Active, Returned}"
        "has_loader c \<longrightarrow> loader s \<in> {Spawned, Active, Returned}"
        "has_registry c \<longrightarrow> registrar s \<in> {Spawned, Active, Returned}"
        by (auto simp: spawned_def)
      from False r consider (srv) i where "i < length (servers s)" "servers s ! i \<noteq> Returned"
        | (ld) "has_loader c" "loader s \<noteq> Returned" | (reg) "has_registry c" "registrar s \<noteq> Returned"
        by (auto simp: all_returned_def all_set_conv_all_nth)
      then show ?thesis
      proof cases
        case srv
        with g(1) calls assms(1) show ?thesis by (auto simp: due_def spawned_def)
      next
        case ld
        with g(2) assms(3) show ?thesis by (auto simp: due_def)
      next
        case reg
        with g(3) assms(3) registrar_step_exists [of s eg] show ?thesis by (auto simp: due_def)
      qed
    next
      case False
      then show ?thesis using w assms(2,3) stop_step_exists [of s _ _ eg c]
        by (auto simp: due_def stopping_def split: stopper.splits)
    qed
  qed
qed

lemma run_reachable_step: "run_reachable eg c s \<Longrightarrow> run_step eg c s s' \<Longrightarrow> run_reachable eg c s'"
  unfolding run_reachable_def by (rule rtranclp.rtrancl_into_rtrancl)

lemma ctx_done_step:
  assumes "errgroup eg" and "grouped eg s" and "run_step eg c s s'" and "ctx_done eg s"
  shows "ctx_done eg s'"
proof -
  have e: "first_error (xs @ [r]) \<noteq> None" if "first_error xs \<noteq> None" for xs r
    using that by (induction xs) (auto split: option.splits)
  have "grouped eg s'" using grouped_step assms(2,3) by blast
  moreover have "cancelled s' = cancelled s \<or> cancelled s'" "returns s' = returns s \<or> (\<exists>r. returns s' = returns s @ [r])"
    using assms(3) by (auto simp: step_defs)
  ultimately show ?thesis
    using assms(2,4) e unfolding ctx_done_def grouped_def by (metis errgroup.group_cancelled [OF assms(1)])
qed

text \<open>
  A run, in which a step may be a pause, and in which whenever something is due some goroutine
  other than the ticking one makes a step sooner or later.
\<close>

definition live_run :: "'g group_ops \<Rightarrow> svc_config \<Rightarrow> (nat \<Rightarrow> 'g run_state) \<Rightarrow> bool" where
  "live_run eg c run \<longleftrightarrow> run 0 = run_init eg c \<and>
     (\<forall>k. run (Suc k) = run k \<or> run_step eg c (run k) (run (Suc k))) \<and>
     (\<forall>k. due eg c (run k) \<longrightarrow> (\<exists>j\<ge>k. work_step eg c (run j) (run (Suc j))))"

lemma live_run_reachable: "live_run eg c run \<Longrightarrow> run_reachable eg c (run k)"
proof (induction k)
  case (Suc k)
  then show ?case using run_reachable_step unfolding live_run_def by metis
qed (simp add: live_run_def run_reachable_def)

lemma live_run_later:
  assumes "errgroup eg" and "live_run eg c run" and "k \<le> j"
  shows "work_left c (run j) \<le> work_left c (run k) \<and> (ctx_done eg (run k) \<longrightarrow> ctx_done eg (run j))"
  using assms(3)
proof (induction j rule: dec_induct)
  case (step j)
  note inv = run_invariant [OF assms(1) live_run_reachable [OF assms(2)], of j]
  have "run (Suc j) = run j \<or> run_step eg c (run j) (run (Suc j))" using assms(2) by (simp add: live_run_def)
  then show ?case
  proof
    assume s: "run_step eg c (run j) (run (Suc j))"
    then have "work_left c (run (Suc j)) \<le> work_left c (run j)"
      using inv work_left_step [of eg c "run j"] work_left_tick [of "run j"] by (auto simp: run_step_def less_imp_le)
    with step.IH ctx_done_step [OF assms(1) _ s] inv show ?thesis by auto
  qed (use step.IH in simp)
qed simp

definition registered_first :: "'g run_state \<Rightarrow> bool" where
  "registered_first s \<longleftrightarrow> (err_var s \<noteq> None \<or> registrar s \<in> {Active, Returned} \<longrightarrow> CRegister \<in> set (svc_calls s)) \<and>
     (\<forall>r. mpc s = MDone r \<and> stopper s = SUnspawned \<longrightarrow> r \<noteq> None \<and> CRegister \<in> set (svc_calls s))"

lemma registered_first_step: "run_step eg c s s' \<Longrightarrow> registered_first s \<Longrightarrow> registered_first s'"
  unfolding run_step_def work_step_def
  by (elim disjE main_step.cases server_step.cases registrar_step.cases tick_step.cases stop_step.cases signal_step.cases)
    (simp_all add: registered_first_def all_returned_def)

lemma preStart_error_source: "run_reachable eg c s \<Longrightarrow> registered_first s"
  unfolding run_reachable_def
proof (induction rule: rtranclp_induct)
  case (step s s')
  then show ?case using registered_first_step by blast
qed (simp add: run_init_def registered_first_def)

lemma done_forever:
  assumes "run_step eg c s s'" and "mpc s = MDone r"
  shows "mpc s' = MDone r \<and> (stopper s = SUnspawned \<longrightarrow> stopper s' = SUnspawned)"
  using assms by (auto simp: step_defs)

subsection \<open>The heartbeat\<close>

text \<open>The period of the heartbeat for a registration timeout, in nanoseconds.\<close>

definition heartbeat_period :: "int \<Rightarrow> int" where
  "heartbeat_period timeout =
     (if timeout > 60 * second_ns then 60 * second_ns
      else if timeout > 10 * second_ns then timeout - 5 * second_ns else timeout)"

lemma heartbeat_period_bounds:
  assumes "0 < timeout"
  shows "0 < heartbeat_period timeout \<and> heartbeat_period timeout \<le> timeout \<and> heartbeat_period timeout \<le> 60 * second_ns"
    and "heartbeat_period timeout < timeout \<longleftrightarrow> 10 * second_ns < timeout"
  using assms by (auto simp: heartbeat_period_def second_ns_def)

subsection \<open>A group that keeps the first error\<close>

definition first_group :: "goerror option group_ops" where
  "first_group = \<lparr>eg_New = None, eg_Return = (\<lambda>r g. case g of None \<Rightarrow> r | Some er \<Rightarrow> Some er),
     eg_Cancelled = (\<lambda>g. g \<noteq> None), eg_Err = (\<lambda>g. g)\<rparr>"

lemma first_group_fold: "fold (eg_Return first_group) rs g = (case g of None \<Rightarrow> first_error rs | Some er \<Rightarrow> Some er)"
  by (induction rs arbitrary: g) (auto simp: first_group_def split: option.splits)

interpretation fg: errgroup first_group
  by unfold_locales (simp_all add: first_group_fold, simp_all add: first_group_def)

section \<open>Properties\<close>

text \<open>
  C12: The service shuts down. In every run that keeps going while something is due, once
  the context is done (by a signal, the parent or the first failing goroutine) \<open>Run\<close> returns,
  however the servers, the loader and the registry answer; a server must only return from
  \<open>Start\<close> after its \<open>Stop\<close>, the loader after the end of its context.
\<close>

theorem shutdown_completes:
  assumes "errgroup eg" and "live_run eg c run" and "ctx_done eg (run k)"
  shows "\<exists>m r. mpc (run m) = MDone r"
  using assms(3)
proof (induction "work_left c (run k)" arbitrary: k rule: less_induct)
  case less
  show ?case
  proof (cases "\<exists>r. mpc (run k) = MDone r")
    case False
    note inv = run_invariant [OF assms(1) live_run_reachable [OF assms(2)]]
    from due_when_done [of c "run k" eg] inv less.prems False have "due eg c (run k)" by blast
    with assms(2) obtain j where j: "k \<le> j" "work_step eg c (run j) (run (Suc j))" by (auto simp: live_run_def)
    have "work_left c (run (Suc j)) < work_left c (run k)"
      using work_left_step [OF j(2)] inv live_run_later [OF assms(1,2) j(1)] by (meson order_less_le_trans)
    moreover have "ctx_done eg (run (Suc j))"
      using live_run_later [OF assms(1,2), of k "Suc j"] less.prems j(1) by auto
    ultimately show ?thesis by (rule less.hyps)
  qed auto
qed

text \<open>
  C13: The shutdown is orderly. When \<open>Run\<close> has returned, either \<open>preStart\<close> returned an error
  that the registration goroutine wrote, before the end was awaited; or every goroutine has
  returned, each server was stopped exactly once, in order and before the
  deregistration, and the result is the first error a goroutine returned.
\<close>

theorem shutdown_orderly:
  assumes "errgroup eg" and "run_reachable eg c s" and "mpc s = MDone r"
  shows "(r \<noteq> None \<and> CRegister \<in> set (svc_calls s) \<and> stopper s = SUnspawned) \<or>
    (all_returned c s \<and> filter is_stop_call (svc_calls s) = full_stop c \<and> r = first_error (returns s))"
  using run_invariant [OF assms(1,2)] preStart_error_source [OF assms(2)] assms(3)
  by (auto simp: stopping_def registered_first_def split: stopper.splits)

lemma all_spawned:
  "i \<le> n_servers c \<Longrightarrow> run_reachable eg c
     ((run_init eg c)\<lparr>servers := replicate i Spawned @ replicate (n_servers c - i) Unspawned, mpc := MServer i\<rparr>)"
proof (induction i)
  case 0
  have "(run_init eg c)\<lparr>servers := replicate (n_servers c) Unspawned, mpc := MServer 0\<rparr> = run_init eg c"
    by (simp add: run_init_def)
  then show ?case by (simp add: run_reachable_def)
next
  case (Suc i)
  let ?s = "(run_init eg c)\<lparr>servers := replicate i Spawned @ replicate (n_servers c - i) Unspawned, mpc := MServer i\<rparr>"
  have "main_step eg c ?s (?s\<lparr>servers := (servers ?s)[i := Spawned], mpc := MServer (Suc i)\<rparr>)"
    by (rule main_step.spawn_server) (use Suc.prems in simp_all)
  moreover have "(replicate i Spawned @ replicate (n_servers c - i) Unspawned)[i := Spawned] =
      replicate (Suc i) Spawned @ replicate (n_servers c - Suc i) Unspawned"
    using Suc.prems by (simp add: list_update_append Suc_diff_Suc [symmetric] replicate_app_Cons_same)
  ultimately have "run_step eg c ?s
      ((run_init eg c)\<lparr>servers := replicate (Suc i) Spawned @ replicate (n_servers c - Suc i) Unspawned, mpc := MServer (Suc i)\<rparr>)"
    by (simp add: run_step_def work_step_def)
  with Suc show ?case by (auto intro: run_reachable_step)
qed

lemma all_launched:
  assumes "0 < n_servers c" and "has_registry c"
  shows "\<exists>s. run_reachable eg c s \<and> mpc s = MStarted \<and> registrar s = Spawned \<and> stopper s = SUnspawned \<and>
    servers s \<noteq> [] \<and> servers s ! 0 = Active"
proof -
  let ?n = "n_servers c"
  define s0 where "s0 = (run_init eg c)\<lparr>servers := replicate ?n Spawned, mpc := MServer ?n\<rparr>"
  define s1 where "s1 = s0\<lparr>mpc := MLoader\<rparr>"
  define s2 where "s2 = add_call (CStart 0) (s1\<lparr>servers := (servers s1)[0 := Active]\<rparr>)"
  define s3 where "s3 = s2\<lparr>loader := (if has_loader c then Spawned else loader s2), mpc := MRegistry\<rparr>"
  define s4 where "s4 = s3\<lparr>registrar := (if has_registry c then Spawned else registrar s3), mpc := MStarted\<rparr>"
  note defs = s0_def s1_def s2_def s3_def s4_def
  have "run_reachable eg c s0" using all_spawned [of ?n c eg] by (simp add: s0_def)
  moreover have "main_step eg c s0 s1" unfolding s1_def by (rule main_step.servers_spawned [of _ ?n]) (simp_all add: s0_def)
  moreover have "server_step eg s1 s2" unfolding s2_def by (rule server_step.server_start) (simp_all add: defs assms)
  moreover have "main_step eg c s2 s3" unfolding s3_def by (rule main_step.spawn_loader) (simp add: defs)
  moreover have "main_step eg c s3 s4" unfolding s4_def by (rule main_step.spawn_registrar) (simp add: s3_def)
  ultimately have "run_reachable eg c s4" by (meson run_reachable_step run_step_def work_step_def)
  moreover have "mpc s4 = MStarted" "registrar s4 = Spawned" "stopper s4 = SUnspawned" "servers s4 \<noteq> []" "servers s4 ! 0 = Active"
    using assms by (simp_all add: defs run_init_def)
  ultimately show ?thesis by blast
qed

lemma never_stopped:
  assumes "errgroup eg" and "run_reachable eg c s" and "mpc s = MDone r" and "stopper s = SUnspawned"
    and "(run_step eg c)\<^sup>*\<^sup>* s s'"
  shows "CStop i \<notin> set (svc_calls s')"
proof -
  have "mpc s' = MDone r \<and> stopper s' = SUnspawned"
    using assms(5,3,4) by (induction rule: rtranclp_induct) (use done_forever in blast)+
  moreover have "run_reachable eg c s'" using assms(2,5) unfolding run_reachable_def by (rule rtranclp_trans)
  ultimately have "filter is_stop_call (svc_calls s') = []"
    using run_invariant [OF assms(1)] by (fastforce simp: stopping_def)
  then show ?thesis by (auto simp: filter_empty_conv)
qed

text \<open>
  C14: A registration that fails early leaks the servers. With a registry and at least one server
  there is a schedule in which a server is running, the registration fails before \<open>preStart\<close>
  returns, and \<open>Run\<close> returns that error although no server was stopped; none is
  ever stopped afterwards.
\<close>

theorem failed_registration_leaks:
  assumes "errgroup eg" and "0 < n_servers c" and "has_registry c"
  shows "\<exists>s. run_reachable eg c s \<and> mpc s = MDone (Some er) \<and> servers s ! 0 = Active \<and>
    (\<forall>s'. (run_step eg c)\<^sup>*\<^sup>* s s' \<longrightarrow> (\<forall>i. CStop i \<notin> set (svc_calls s')))"
proof -
  from all_launched [OF assms(2,3), of eg] obtain s where
    s: "run_reachable eg c s" "mpc s = MStarted" "registrar s = Spawned" "stopper s = SUnspawned" "servers s ! 0 = Active" by blast
  define s1 where "s1 = group_return eg (Some er) (add_call CRegister (s\<lparr>registrar := Returned, err_var := Some er\<rparr>))"
  define s2 where "s2 = s1\<lparr>mpc := MDone (Some er), cancelled := True\<rparr>"
  have "registrar_step eg s s1" unfolding s1_def by (rule registrar_step.register_failed) (rule s(3))
  moreover have "main_step eg c s1 s2" unfolding s2_def by (rule main_step.prestart_failed) (simp_all add: s1_def s)
  ultimately have "run_reachable eg c s2" using s(1) by (meson run_reachable_step run_step_def work_step_def)
  moreover have "mpc s2 = MDone (Some er)" "servers s2 ! 0 = Active" "stopper s2 = SUnspawned"
    using s by (simp_all add: s2_def s1_def)
  ultimately show ?thesis using never_stopped [OF assms(1)] by blast
qed

subsection \<open>A sample run\<close>

text \<open>One server, no loader, no registry: a signal ends the service.\<close>

definition sample_config :: svc_config where
  "sample_config = \<lparr>n_servers = 1, has_loader = False, has_registry = False\<rparr>"

fun sample_run :: "nat \<Rightarrow> goerror option run_state" where
  "sample_run 0 = run_init first_group sample_config"
| "sample_run (Suc k) = (let s = sample_run k in
     if k = 0 then s\<lparr>servers := (servers s)[0 := Spawned], mpc := MServer (Suc 0)\<rparr>
     else if k = 1 then s\<lparr>mpc := MLoader\<rparr>
     else if k = 2 then s\<lparr>loader := (if has_loader sample_config then Spawned else loader s), mpc := MRegistry\<rparr>
     else if k = 3 then s\<lparr>registrar := (if has_registry sample_config then Spawned else registrar s), mpc := MStarted\<rparr>
     else if k = 4 then add_call (CStart 0) (s\<lparr>servers := (servers s)[0 := Active]\<rparr>)
     else if k = 5 then s\<lparr>mpc := MWait, stopper := SBlocked\<rparr>
     else if k = 6 then s\<lparr>cancelled := True\<rparr>
     else if k = 7 then s\<lparr>exitFlag := True, stopper := SStop 0 None\<rparr>
     else if k = 8 then add_call (CStop 0) (s\<lparr>stopper := SStop (Suc 0) None\<rparr>)
     else if k = 9 then group_return first_group None (s\<lparr>stopper := SReturned\<rparr>)
     else if k = 10 then group_return first_group None (s\<lparr>servers := (servers s)[0 := Returned]\<rparr>)
     else if k = 11 then s\<lparr>mpc := MDone (eg_Err first_group (group s)), cancelled := True\<rparr>
     else s)"

lemma sample_run_work: "k < 12 \<Longrightarrow> work_step first_group sample_config (sample_run k) (sample_run (Suc k))"
proof -
  note u = run_init_def sample_config_def first_group_def eval_nat_numeral Let_def state_defs
  assume "k < 12"
  then have "k = 0 \<or> k = 1 \<or> k = 2 \<or> k = 3 \<or> k = 4 \<or> k = 5 \<or> k = 6 \<or> k = 7 \<or> k = 8 \<or> k = 9 \<or> k = 10 \<or> k = 11"
    by presburger
  then consider "k \<in> {0, 1, 2, 3, 5, 11}" | "k \<in> {4, 10}" | "k = 6" | "k \<in> {7, 8, 9}" by blast
  then show ?thesis
  proof cases
    case 1
    then have "main_step first_group sample_config (sample_run k) (sample_run (Suc k))"
      by (elim insertE emptyE; hypsubst; simp only: main_step.simps) (simp_all add: u)
    then show ?thesis by (simp add: work_step_def)
  next
    case 2
    then have "server_step first_group (sample_run k) (sample_run (Suc k))"
      by (elim insertE emptyE; hypsubst; simp only: server_step.simps) (simp_all add: u)
    then show ?thesis by (simp add: work_step_def)
  next
    case 3
    then have "signal_step (sample_run k) (sample_run (Suc k))"
      by (simp only: signal_step.simps) (simp add: u)
    then show ?thesis by (simp add: work_step_def)
  next
    case 4
    then have "stop_step first_group sample_config (sample_run k) (sample_run (Suc k))"
      by (elim insertE emptyE; hypsubst; simp only: stop_step.simps) (simp_all add: u)
    then show ?thesis by (simp add: work_step_def)
  qed
qed

lemma sample_run_end: "12 \<le> k \<Longrightarrow> sample_run k = sample_run 12"
proof (induction k rule: dec_induct)
  case (step k)
  then show ?case by (simp add: Let_def)
qed simp

lemma sample_run_live: "live_run first_group sample_config sample_run"
proof -
  have "\<not> due first_group sample_config (sample_run 12)"
    by (simp add: due_def main_step.simps registrar_step.simps stop_step.simps)
      (simp add: run_init_def sample_config_def first_group_def eval_nat_numeral Let_def state_defs)
  then have "due first_group sample_config (sample_run k) \<Longrightarrow> k < 12" for k
    using sample_run_end [of k] by (metis not_le)
  then have "\<exists>j\<ge>k. work_step first_group sample_config (sample_run j) (sample_run (Suc j))"
    if "due first_group sample_config (sample_run k)" for k
    using that sample_run_work [of k] by blast
  moreover have "sample_run (Suc k) = sample_run k \<or> run_step first_group sample_config (sample_run k) (sample_run (Suc k))" for k
    using sample_run_work [of k] sample_run_end [of k] sample_run_end [of "Suc k"] by (cases "k < 12") (auto simp: run_step_def)
  ultimately show ?thesis by (simp add: live_run_def)
qed

theorem shutdown_completes_witness: "\<exists>m r. mpc (sample_run m) = MDone r"
proof (rule shutdown_completes [OF fg.errgroup_axioms sample_run_live])
  show "ctx_done first_group (sample_run 7)"
    by (simp add: run_init_def sample_config_def first_group_def eval_nat_numeral Let_def state_defs)
qed

theorem shutdown_orderly_witness:
  "mpc (sample_run 12) = MDone None \<and> filter is_stop_call (svc_calls (sample_run 12)) = [CStop 0] \<and>
   all_returned sample_config (sample_run 12)"
proof -
  have e: "mpc (sample_run 12) = MDone None"
    by (simp add: run_init_def sample_config_def first_group_def eval_nat_numeral Let_def state_defs)
  from shutdown_orderly [OF fg.errgroup_axioms live_run_reachable [OF sample_run_live] e] e show ?thesis
    by (simp add: full_stop_def) (simp add: sample_config_def)
qed

theorem failed_registration_leaks_witness:
  "\<exists>s. run_reachable first_group \<lparr>n_servers = 1, has_loader = False, has_registry = True\<rparr> s \<and>
     mpc s = MDone (Some ErrUnavailable) \<and> servers s ! 0 = Active \<and> (\<forall>i. CStop i \<notin> set (svc_calls s))"
  using failed_registration_leaks [OF fg.errgroup_axioms,
      of "\<lparr>n_servers = 1, has_loader = False, has_registry = True\<rparr>" ErrUnavailable] by auto

end
