(* ===== verification/Frame.thy ===== *)
theory Frame
  imports Prelude "HOL-Library.Word"
begin

text \<open>
  \<open>transport/cli/frame.go\<close> and the chunked writer of \<open>transport/cli/context.go\<close>: the wire format
  of the command-line transport.

  A stream is the list of the bytes still to be read; a writer is a function that
  accepts some bytes, may take fewer than offered and may fail. Lengths on the wire are
  16-bit words, so conversions of longer lengths wrap around as they do in the source.
\<close>

type_synonym byte = "8 word"

datatype io_error = EOF | ErrUnexpectedEOF | ErrShortWrite | ErrNoProgress | WriteFailed nat

definition PacketTypeCompleter :: byte where "PacketTypeCompleter = 1"
definition PacketTypeCommand :: byte where "PacketTypeCommand = 2"
definition PacketTypeHandshake :: byte where "PacketTypeHandshake = 3"

definition FlagPortion :: byte where "FlagPortion = 0"
definition FlagComplete :: byte where "FlagComplete = 1"

definition Feature :: "byte list" where "Feature = [67, 76, 73]"

text \<open>\<open>f_Data\<close> is \<open>None\<close> for a nil slice; \<open>f_Error\<close> holds the bytes of the error string.\<close>

record Frame =
  f_Feature :: "byte list"
  f_Type :: byte
  f_Flag :: byte
  f_Seq :: "16 word"
  f_Data :: "byte list option"
  f_Error :: "byte list"
  f_Timeout :: "64 word"
  f_Timestamp :: "64 word"

subsection \<open>Little-endian integers\<close>

definition put_le :: "nat \<Rightarrow> nat \<Rightarrow> byte list" where
  "put_le k n = map (\<lambda>i. of_nat (n div 256 ^ i)) [0..<k]"

definition get_le :: "byte list \<Rightarrow> nat" where
  "get_le bs = foldr (\<lambda>b n. unat b + 256 * n) bs 0"

subsection \<open>Reading\<close>

definition ReadFull :: "nat \<Rightarrow> byte list \<Rightarrow> io_error + byte list \<times> byte list" where
  "ReadFull n r =
     (if n \<le> length r then Inr (take n r, drop n r)
      else if r = [] then Inl EOF else Inl ErrUnexpectedEOF)"

text \<open>\<open>binary.Read\<close> of a fixed-size integer of \<open>k\<close> bytes.\<close>

definition binary_Read :: "nat \<Rightarrow> byte list \<Rightarrow> io_error + nat \<times> byte list" where
  "binary_Read k r = (case ReadFull k r of Inl e \<Rightarrow> Inl e | Inr (bs, r') \<Rightarrow> Inr (get_le bs, r'))"

definition read_optional :: "nat \<Rightarrow> byte list \<Rightarrow> io_error + byte list option \<times> byte list" where
  "read_optional n r =
     (if n > 0 then (case ReadFull n r of Inl e \<Rightarrow> Inl e | Inr (bs, r') \<Rightarrow> Inr (Some bs, r'))
      else Inr (None, r))"

definition readFrame :: "byte list \<Rightarrow> io_error + Frame \<times> byte list" where
  "readFrame r0 =
     (case ReadFull 3 r0 of Inl e \<Rightarrow> Inl e | Inr (feature, r1) \<Rightarrow>
      if feature \<noteq> Feature then Inl ErrUnexpectedEOF else
      (case binary_Read 1 r1 of Inl e \<Rightarrow> Inl e | Inr (typ, r2) \<Rightarrow>
      (case binary_Read 1 r2 of Inl e \<Rightarrow> Inl e | Inr (flag, r3) \<Rightarrow>
      (case binary_Read 2 r3 of Inl e \<Rightarrow> Inl e | Inr (seqn, r4) \<Rightarrow>
      (case binary_Read 8 r4 of Inl e \<Rightarrow> Inl e | Inr (timeout, r5) \<Rightarrow>
      (case binary_Read 8 r5 of Inl e \<Rightarrow> Inl e | Inr (timestamp, r6) \<Rightarrow>
      (case binary_Read 2 r6 of Inl e \<Rightarrow> Inl e | Inr (dataLength, r7) \<Rightarrow>
      (case binary_Read 2 r7 of Inl e \<Rightarrow> Inl e | Inr (errorLength, r8) \<Rightarrow>
      (case read_optional dataLength r8 of Inl e \<Rightarrow> Inl e | Inr (data, r9) \<Rightarrow>
      (case read_optional errorLength r9 of Inl e \<Rightarrow> Inl e | Inr (errBuf, r10) \<Rightarrow>
        Inr (\<lparr>f_Feature = feature, f_Type = of_nat typ, f_Flag = of_nat flag, f_Seq = of_nat seqn,
              f_Data = data, f_Error = (case errBuf of None \<Rightarrow> [] | Some b \<Rightarrow> b),
              f_Timeout = of_nat timeout, f_Timestamp = of_nat timestamp\<rparr>, r10)))))))))))"

subsection \<open>Writing\<close>

type_synonym 's writer = "byte list \<Rightarrow> 's \<Rightarrow> nat \<times> io_error option \<times> 's"

text \<open>The writes whose byte count is ignored, one after another until one fails.\<close>

fun write_fields :: "'s writer \<Rightarrow> byte list list \<Rightarrow> 's \<Rightarrow> io_error option \<times> 's" where
  "write_fields w [] s = (None, s)"
| "write_fields w (b # bs) s =
     (case w b s of (n, Some e, s') \<Rightarrow> (Some e, s') | (n, None, s') \<Rightarrow> write_fields w bs s')"

text \<open>The last two writes: each sets \<open>err\<close>, and the second one runs whatever the first did.\<close>

definition write_body :: "'s writer \<Rightarrow> nat \<Rightarrow> byte list \<Rightarrow> io_error option \<Rightarrow> 's \<Rightarrow> io_error option \<times> 's" where
  "write_body w len buf err s =
     (if len > 0 then
        (case w buf s of
           (n, None, s') \<Rightarrow> (if n < len then Some ErrShortWrite else None, s')
         | (n, Some e, s') \<Rightarrow> (Some e, s'))
      else (err, s))"

definition writeFrame :: "'s writer \<Rightarrow> Frame \<Rightarrow> 's \<Rightarrow> io_error option \<times> 's" where
  "writeFrame w frame s0 =
     (case w Feature s0 of
        (_, Some e, s1) \<Rightarrow> (Some e, s1)
      | (_, None, s1) \<Rightarrow>
        (let dl = (case f_Data frame of None \<Rightarrow> 0 | Some d \<Rightarrow> length d) in
         if dl > 65535 then (Some ErrNoProgress, s1)
         else
         (let dataLength = (of_nat dl :: 16 word);
              errorLength = (if f_Error frame \<noteq> [] then of_nat (length (f_Error frame)) else 0 :: 16 word)
          in
          case write_fields w
            [put_le 1 (unat (f_Type frame)), put_le 1 (unat (f_Flag frame)), put_le 2 (unat (f_Seq frame)),
             put_le 8 (unat (f_Timeout frame)), put_le 8 (unat (f_Timestamp frame)),
             put_le 2 (unat dataLength), put_le 2 (unat errorLength)] s1 of
            (Some e, s2) \<Rightarrow> (Some e, s2)
          | (None, s2) \<Rightarrow>
            (let (err1, s3) = write_body w (unat dataLength) (case f_Data frame of None \<Rightarrow> [] | Some d \<Rightarrow> d) None s2
             in write_body w (unat errorLength) (f_Error frame) err1 s3))))"

definition newFrame :: "byte \<Rightarrow> byte \<Rightarrow> 16 word \<Rightarrow> 64 word \<Rightarrow> byte list option \<Rightarrow> 64 word \<Rightarrow> Frame" where
  "newFrame t f sq timeout data now =
     \<lparr>f_Feature = Feature, f_Type = t, f_Flag = f, f_Seq = sq, f_Data = data, f_Error = [],
      f_Timeout = timeout, f_Timestamp = now\<rparr>"

subsection \<open>Chunked writes\<close>

definition wireChunkSize :: nat where "wireChunkSize = 32766"

text \<open>The loop of \<open>writeChunked\<close>, from position \<open>start\<close>; \<open>clk\<close> gives the time of the \<open>i\<close>-th frame.\<close>

function chunk_loop ::
  "'s writer \<Rightarrow> byte \<Rightarrow> 16 word \<Rightarrow> (nat \<Rightarrow> 64 word) \<Rightarrow> byte list \<Rightarrow> nat \<Rightarrow> 's \<Rightarrow> io_error option \<times> 's" where
  "chunk_loop w t sq clk buf start s =
     (if start < length buf then
        (let end' = min (start + wireChunkSize) (length buf);
             flag = (if end' = length buf then FlagComplete else FlagPortion)
         in case writeFrame w (newFrame t flag sq 0 (Some (take (end' - start) (drop start buf))) (clk start)) s of
              (Some e, s') \<Rightarrow> (Some e, s')
            | (None, s') \<Rightarrow> chunk_loop w t sq clk buf end' s')
      else (None, s))"
  by pat_completeness auto
termination
  by (relation "measure (\<lambda>(w, t, sq, clk, buf, start, s). length buf - start)") (auto simp: wireChunkSize_def)

declare chunk_loop.simps [simp del]

definition writeChunked ::
  "'s writer \<Rightarrow> byte \<Rightarrow> 16 word \<Rightarrow> (nat \<Rightarrow> 64 word) \<Rightarrow> byte list \<Rightarrow> 's \<Rightarrow> io_error option \<times> 's" where
  "writeChunked w t sq clk buf s = chunk_loop w t sq clk buf 0 s"

subsection \<open>Facts about little-endian integers\<close>

lemma length_put_le [simp]: "length (put_le k n) = k"
  by (simp add: put_le_def)

lemma put_le_Suc: "put_le (Suc k) n = of_nat n # put_le k (n div 256)"
  by (simp add: put_le_def upt_conv_Cons map_Suc_upt [symmetric] div_mult2_eq del: upt_Suc)

lemma get_le_Cons [simp]: "get_le (b # bs) = unat b + 256 * get_le bs" "get_le [] = 0"
  by (simp_all add: get_le_def)

lemma unat_byte: "unat (of_nat n :: byte) = n mod 256"
  by (simp add: unat_of_nat)

lemma get_put_le: "get_le (put_le k n) = n mod 256 ^ k"
proof (induction k arbitrary: n)
  case 0
  then show ?case by (simp add: put_le_def)
next
  case (Suc k)
  have "n mod 256 ^ Suc k = n mod 256 + 256 * (n div 256 mod 256 ^ k)"
    by (simp add: mod_mult2_eq)
  then show ?case by (simp add: put_le_Suc Suc unat_byte)
qed

lemma ReadFull_append [simp]: "ReadFull (length bs) (bs @ r) = Inr (bs, r)"
  by (simp add: ReadFull_def)

lemma ReadFull_append': "length bs = n \<Longrightarrow> ReadFull n (bs @ r) = Inr (bs, r)"
  using ReadFull_append by blast

lemma binary_Read_put [simp]: "binary_Read k (put_le k n @ r) = Inr (n mod 256 ^ k, r)"
  by (simp add: binary_Read_def ReadFull_append' get_put_le)

lemma read_optional_append:
  "read_optional n (take n bs @ r) = Inr (if n > 0 then Some (take n bs) else None, r)" if "n \<le> length bs"
  using that by (simp add: read_optional_def ReadFull_append')

subsection \<open>The bytes of a frame\<close>

definition data_bytes :: "Frame \<Rightarrow> byte list" where
  "data_bytes frame = (case f_Data frame of None \<Rightarrow> [] | Some d \<Rightarrow> d)"

definition header_fields :: "Frame \<Rightarrow> byte list list" where
  "header_fields frame =
     [put_le 1 (unat (f_Type frame)), put_le 1 (unat (f_Flag frame)), put_le 2 (unat (f_Seq frame)),
      put_le 8 (unat (f_Timeout frame)), put_le 8 (unat (f_Timestamp frame)),
      put_le 2 (length (data_bytes frame)), put_le 2 (length (f_Error frame))]"

definition frame_bytes :: "Frame \<Rightarrow> byte list" where
  "frame_bytes frame = Feature @ concat (header_fields frame) @ data_bytes frame @ f_Error frame"

text \<open>What the reader makes of a frame: the feature bytes are fixed and empty data is nil.\<close>

definition received :: "Frame \<Rightarrow> Frame" where
  "received frame = frame\<lparr>f_Feature := Feature, f_Data := (if data_bytes frame = [] then None else f_Data frame)\<rparr>"

lemma unat_mod_id: "unat (w :: 'a::len word) mod 2 ^ LENGTH('a) = unat w"
  by (simp add: unsigned_less)

lemma readFrame_bytes:
  assumes "length (data_bytes frame) < 65536" and "length (f_Error frame) < 65536"
  shows "readFrame (frame_bytes frame @ rest) = Inr (received frame, rest)"
proof -
  have m: "unat (f_Type frame) mod 256 = unat (f_Type frame)" "unat (f_Flag frame) mod 256 = unat (f_Flag frame)"
    "unat (f_Seq frame) mod 65536 = unat (f_Seq frame)"
    "unat (f_Timeout frame) mod 18446744073709551616 = unat (f_Timeout frame)"
    "unat (f_Timestamp frame) mod 18446744073709551616 = unat (f_Timestamp frame)"
    using unat_mod_id [of "f_Type frame"] unat_mod_id [of "f_Flag frame"] unat_mod_id [of "f_Seq frame"]
      unat_mod_id [of "f_Timeout frame"] unat_mod_id [of "f_Timestamp frame"] by simp_all
  have d: "read_optional (length (data_bytes frame)) (data_bytes frame @ r) =
      Inr (if data_bytes frame = [] then None else Some (data_bytes frame), r)" for r
    using read_optional_append [of "length (data_bytes frame)" "data_bytes frame" r] by simp
  have e: "read_optional (length (f_Error frame)) (f_Error frame @ r) =
      Inr (if f_Error frame = [] then None else Some (f_Error frame), r)" for r
    using read_optional_append [of "length (f_Error frame)" "f_Error frame" r] by simp
  have f: "ReadFull 3 (Feature @ r) = Inr (Feature, r)" for r
    by (rule ReadFull_append') (simp add: Feature_def)
  have dn: "f_Data frame = Some (data_bytes frame)" if "data_bytes frame \<noteq> []"
    using that by (auto simp: data_bytes_def split: option.splits)
  show ?thesis using assms
    by (simp add: readFrame_def frame_bytes_def header_fields_def f m d e received_def dn)
qed

lemma put_le_2: "put_le 2 n = [of_nat n, of_nat (n div 256)]"
  by (simp add: put_le_def numeral_2_eq_2)

lemma put_le_mod: "put_le 2 (n mod 65536) = put_le 2 n"
proof -
  have q: "n mod 65536 = 256 * (n div 256 mod 256) + n mod 256" using mod_mult2_eq [of n 256 256] by simp
  have "n mod 65536 mod 256 = n mod 256" by (simp add: mod_mod_cancel)
  moreover have "n mod 65536 div 256 mod 256 = n div 256 mod 256" by (simp add: q)
  ultimately show ?thesis by (simp add: put_le_2 word_of_nat_eq_iff take_bit_eq_mod)
qed

subsection \<open>Writers\<close>

text \<open>The contract of \<open>io.Writer\<close>; \<open>out s\<close> is what has been written so far.\<close>

locale io_writer =
  fixes w :: "'s writer" and out :: "'s \<Rightarrow> byte list"
  assumes write_law: "w bs s = (n, e, s') \<Longrightarrow>
    n \<le> length bs \<and> out s' = out s @ take n bs \<and> (n < length bs \<longrightarrow> e \<noteq> None)"
begin

lemma write_ok: "w bs s = (n, None, s') \<Longrightarrow> n = length bs \<and> out s' = out s @ bs"
  using write_law [of bs s n None s'] by fastforce

lemma write_fields_ok: "write_fields w bs s = (None, s') \<Longrightarrow> out s' = out s @ concat bs"
proof (induction bs arbitrary: s)
  case Nil
  then show ?case by simp
next
  case (Cons b bs)
  obtain n e s1 where w: "w b s = (n, e, s1)" by (rule prod_cases3)
  with Cons show ?case using write_ok [of b s n s1] by (cases e) auto
qed

lemma write_body_ok:
  assumes "write_body w len buf err s = (None, s')" and "len = 0 \<longleftrightarrow> buf = []"
  shows "out s' = out s @ buf \<and> (buf = [] \<longrightarrow> err = None)"
proof (cases "len = 0")
  case False
  obtain n e s1 where w: "w buf s = (n, e, s1)" by (rule prod_cases3)
  with assms False show ?thesis using write_ok [of buf s n s1] by (cases e) (auto simp: write_body_def)
qed (use assms in \<open>auto simp: write_body_def\<close>)

text \<open>A connection that has failed fails again on every further write of some bytes.\<close>

definition stays_broken :: bool where
  "stays_broken \<longleftrightarrow> (\<forall>bs s n er s1 bs'. w bs s = (n, Some er, s1) \<longrightarrow> bs' \<noteq> [] \<longrightarrow> (\<exists>m er' s2. w bs' s1 = (m, Some er', s2)))"

lemma write_body_broken:
  assumes "stays_broken" and "write_body w len buf None s = (Some er, s1)" and "length buf = len" and "0 < len'" and "buf' \<noteq> []"
  shows "\<exists>er' s2. write_body w len' buf' err s1 = (Some er', s2)"
proof -
  obtain n e t where w: "w buf s = (n, e, t)" by (rule prod_cases3)
  have "e \<noteq> None"
  proof
    assume "e = None"
    then have "n = length buf" using write_ok w by blast
    then show False using assms(2,3) w \<open>e = None\<close> by (auto simp: write_body_def split: if_splits)
  qed
  then obtain er0 where "w buf s = (n, Some er0, s1)" using assms(2) w by (auto simp: write_body_def split: if_splits)
  then obtain m er' s2 where "w buf' s1 = (m, Some er', s2)" using assms(1,5) unfolding stays_broken_def by blast
  then show ?thesis using assms(4) by (simp add: write_body_def)
qed

lemma writeFrame_out:
  assumes "writeFrame w frame s = (None, s')" and "data_bytes frame = [] \<or> f_Error frame = [] \<or> stays_broken"
  shows "length (data_bytes frame) < 65536 \<and> out s' = out s @ Feature @ concat (header_fields frame) @ data_bytes frame @
    (if length (f_Error frame) mod 65536 = 0 then [] else f_Error frame)"
proof -
  let ?dl = "length (data_bytes frame)" and ?el = "length (f_Error frame) mod 65536"
  obtain n e s1 where f: "w Feature s = (n, e, s1)" by (rule prod_cases3)
  have dl: "(case f_Data frame of None \<Rightarrow> 0 | Some d \<Rightarrow> length d) = ?dl"
    "(case f_Data frame of None \<Rightarrow> [] | Some d \<Rightarrow> d) = data_bytes frame"
    by (simp_all add: data_bytes_def split: option.splits)
  have e: "e = None" using assms(1) f by (cases e) (simp_all add: writeFrame_def)
  have lt: "?dl < 65536"
  proof (rule ccontr)
    assume "\<not> ?dl < 65536"
    then show False using assms(1) f e dl by (simp add: writeFrame_def Let_def)
  qed
  have u: "unat (of_nat ?dl :: 16 word) = ?dl"
    "unat (if f_Error frame \<noteq> [] then of_nat (length (f_Error frame)) else 0 :: 16 word) = ?el"
    using lt by (simp_all add: unat_of_nat)
  obtain x s2 where hf: "write_fields w (header_fields frame) s1 = (x, s2)" by (rule prod.exhaust)
  obtain err1 s3 where b1: "write_body w ?dl (data_bytes frame) None s2 = (err1, s3)" by (rule prod.exhaust)
  have w: "writeFrame w frame s = (case x of Some e \<Rightarrow> (Some e, s2) | None \<Rightarrow> write_body w ?el (f_Error frame) err1 s3)"
  proof -
    have "\<not> 65535 < ?dl" using lt by simp
    note n = if_not_P [OF this]
    show ?thesis
      unfolding writeFrame_def f [unfolded e] prod.case option.case Let_def dl n u put_le_mod
        header_fields_def [symmetric] hf b1 by (cases x) simp_all
  qed
  then have x: "x = None" and b2: "write_body w ?el (f_Error frame) err1 s3 = (None, s')"
    using assms(1) by (auto split: option.splits)
  have err1: "err1 = None"
  proof (rule ccontr)
    assume "err1 \<noteq> None"
    then obtain er where er: "err1 = Some er" by blast
    have "0 < ?el" using b2 er by (cases "0 < ?el") (simp_all add: write_body_def)
    moreover have "data_bytes frame \<noteq> []" using b1 er by (auto simp: write_body_def)
    moreover have "f_Error frame \<noteq> []" using \<open>0 < ?el\<close> by (cases "f_Error frame") simp_all
    ultimately show False using write_body_broken [OF _ b1 [unfolded er] refl, of ?el "f_Error frame" err1] b2 assms(2) by auto
  qed
  have "out s' = out s3 @ (if ?el = 0 then [] else f_Error frame)"
  proof (cases "?el = 0")
    case False
    then have "?el = 0 \<longleftrightarrow> f_Error frame = []" by (cases "f_Error frame") simp_all
    with write_body_ok [OF b2] False show ?thesis by simp
  qed (use b2 in \<open>simp add: write_body_def\<close>)
  then show ?thesis
    using lt write_ok [OF f [unfolded e]] write_fields_ok [OF hf [unfolded x]] write_body_ok [OF b1 [unfolded err1]] by simp
qed

lemma writeFrame_ok:
  assumes "writeFrame w frame s = (None, s')" and "length (f_Error frame) < 65536"
    and "data_bytes frame = [] \<or> f_Error frame = []"
  shows "length (data_bytes frame) < 65536 \<and> out s' = out s @ frame_bytes frame"
  using writeFrame_out [OF assms(1)] assms(2,3) by (auto simp: frame_bytes_def)

text \<open>What the reader finds, in general: the length of the error text is taken modulo 65536.\<close>

lemma readFrame_written:
  assumes "writeFrame w frame s = (None, s')" and "data_bytes frame = [] \<or> f_Error frame = [] \<or> stays_broken"
    and "n = length (f_Error frame) mod 65536"
  shows "readFrame (drop (length (out s)) (out s') @ rest) =
    Inr (received (frame\<lparr>f_Error := take n (f_Error frame)\<rparr>), (if n = 0 then [] else drop n (f_Error frame)) @ rest)"
proof -
  define short where "short = frame\<lparr>f_Error := take n (f_Error frame)\<rparr>"
  have le: "n < 65536" "n \<le> length (f_Error frame)" by (simp_all add: assms(3))
  have m: "put_le 2 (length (f_Error frame)) = put_le 2 n" by (simp add: assms(3) put_le_mod)
  have sh: "data_bytes short = data_bytes frame" "header_fields short = header_fields frame" "f_Error short = take n (f_Error frame)"
    using le m by (simp_all add: short_def data_bytes_def header_fields_def)
  have "length (data_bytes frame) < 65536"
    and "drop (length (out s)) (out s') @ rest = frame_bytes short @ (if n = 0 then [] else drop n (f_Error frame)) @ rest"
    using writeFrame_out [OF assms(1,2)] by (simp_all add: frame_bytes_def sh assms(3) [symmetric])
  then show ?thesis using readFrame_bytes [of short] le sh unfolding short_def [symmetric] by simp
qed

end

subsection \<open>Chunks\<close>

text \<open>The frames a chunked write consists of.\<close>

function chunk_frames :: "byte \<Rightarrow> 16 word \<Rightarrow> (nat \<Rightarrow> 64 word) \<Rightarrow> byte list \<Rightarrow> nat \<Rightarrow> Frame list" where
  "chunk_frames t sq clk buf start =
     (if start < length buf then
        (let end' = min (start + wireChunkSize) (length buf) in
         newFrame t (if end' = length buf then FlagComplete else FlagPortion) sq 0
           (Some (take (end' - start) (drop start buf))) (clk start) # chunk_frames t sq clk buf end')
      else [])"
  by pat_completeness auto
termination
  by (relation "measure (\<lambda>(t, sq, clk, buf, start). length buf - start)") (auto simp: wireChunkSize_def)

declare chunk_frames.simps [simp del]

lemma data_bytes_newFrame [simp]: "data_bytes (newFrame t f sq to (Some d) now) = d"
  by (simp add: data_bytes_def newFrame_def)

lemma newFrame_simps [simp]:
  "f_Error (newFrame t f sq to d now) = []" "f_Flag (newFrame t f sq to d now) = f"
  "f_Seq (newFrame t f sq to d now) = sq" "f_Type (newFrame t f sq to d now) = t"
  "f_Feature (newFrame t f sq to d now) = Feature"
  by (simp_all add: newFrame_def)

context io_writer
begin

lemma chunk_loop_ok:
  "chunk_loop w t sq clk buf start s = (None, s') \<Longrightarrow>
   out s' = out s @ concat (map frame_bytes (chunk_frames t sq clk buf start))"
proof (induction "length buf - start" arbitrary: start s rule: less_induct)
  case less
  show ?case
  proof (cases "start < length buf")
    case False
    then show ?thesis using less.prems by (simp add: chunk_loop.simps [of w] chunk_frames.simps [of t])
  next
    case True
    define en where "en = min (start + wireChunkSize) (length buf)"
    define fr where "fr = newFrame t (if en = length buf then FlagComplete else FlagPortion) sq 0
      (Some (take (en - start) (drop start buf))) (clk start)"
    obtain e s1 where wf: "writeFrame w fr s = (e, s1)" by (rule prod.exhaust)
    have cl: "chunk_loop w t sq clk buf start s =
        (case e of Some x \<Rightarrow> (Some x, s1) | None \<Rightarrow> chunk_loop w t sq clk buf en s1)"
      using True wf unfolding chunk_loop.simps [of w t sq clk buf start] Let_def en_def [symmetric] fr_def [symmetric]
      by (simp split: option.splits)
    then have "e = None" and rest: "chunk_loop w t sq clk buf en s1 = (None, s')"
      using less.prems by (auto split: option.splits)
    have "start < en" using True by (auto simp: en_def wireChunkSize_def)
    then have "out s' = out s1 @ concat (map frame_bytes (chunk_frames t sq clk buf en))"
      using less.hyps [OF _ rest] True by simp
    moreover have "out s1 = out s @ frame_bytes fr"
      using writeFrame_ok [OF wf [unfolded \<open>e = None\<close>]] by (simp add: fr_def)
    moreover have "chunk_frames t sq clk buf start = fr # chunk_frames t sq clk buf en"
      using True unfolding chunk_frames.simps [of t sq clk buf start] by (simp add: Let_def en_def fr_def)
    ultimately show ?thesis by simp
  qed
qed

end

text \<open>The frames carry the buffer, in order; exactly the last one is marked complete.\<close>

definition well_chunked :: "byte \<Rightarrow> 16 word \<Rightarrow> byte list \<Rightarrow> Frame list \<Rightarrow> bool" where
  "well_chunked t sq buf fs \<longleftrightarrow>
     concat (map data_bytes fs) = buf \<and>
     map f_Flag fs = (if fs = [] then [] else replicate (length fs - 1) FlagPortion @ [FlagComplete]) \<and>
     (\<forall>f\<in>set fs. f_Type f = t \<and> f_Seq f = sq \<and> f_Error f = [] \<and> f_Feature f = Feature \<and>
        data_bytes f \<noteq> [] \<and> length (data_bytes f) \<le> wireChunkSize)"

lemma chunk_frames_well: "well_chunked t sq (drop start buf) (chunk_frames t sq clk buf start)"
proof (induction "length buf - start" arbitrary: start rule: less_induct)
  case less
  show ?case
  proof (cases "start < length buf")
    case False
    then show ?thesis by (simp add: chunk_frames.simps [of t] well_chunked_def)
  next
    case True
    define en where "en = min (start + wireChunkSize) (length buf)"
    let ?fr = "newFrame t (if en = length buf then FlagComplete else FlagPortion) sq 0
      (Some (take (en - start) (drop start buf))) (clk start)"
    have en: "start < en" "en \<le> length buf" "en - start \<le> wireChunkSize" "wireChunkSize \<noteq> 0"
      using True by (auto simp: en_def wireChunkSize_def)
    have cf: "chunk_frames t sq clk buf start = ?fr # chunk_frames t sq clk buf en"
      using True unfolding chunk_frames.simps [of t sq clk buf start] by (simp add: Let_def en_def)
    have IH: "well_chunked t sq (drop en buf) (chunk_frames t sq clk buf en)"
      using less.hyps [of en] en True by simp
    have split: "drop start buf = take (en - start) (drop start buf) @ drop en buf"
      using append_take_drop_id [of "en - start" "drop start buf"] en(1) by simp
    have empty: "chunk_frames t sq clk buf en = [] \<longleftrightarrow> en = length buf"
      using en by (subst chunk_frames.simps) (auto simp: Let_def)
    show ?thesis
    proof (cases "en = length buf")
      case True
      then show ?thesis using cf split empty en by (auto simp: well_chunked_def)
    next
      case False
      then obtain g gs where g: "chunk_frames t sq clk buf en = g # gs"
        using empty by (cases "chunk_frames t sq clk buf en") auto
      show ?thesis using IH False en split unfolding cf g well_chunked_def
        by (auto simp: min_def)
    qed
  qed
qed

subsection \<open>Reading a stream of frames\<close>

lemma ReadFull_length: "ReadFull n r = Inr (bs, r') \<Longrightarrow> length bs = n \<and> length r = n + length r'"
  by (auto simp: ReadFull_def split: if_splits)

lemma binary_Read_length: "binary_Read n r = Inr (x, r') \<Longrightarrow> length r = n + length r'"
  by (auto simp: binary_Read_def dest: ReadFull_length split: sum.splits)

lemma readFrame_shrinks: "readFrame r = Inr (f, r') \<Longrightarrow> length r' < length r"
  unfolding readFrame_def
  by (auto simp: read_optional_def dest!: ReadFull_length binary_Read_length split: sum.splits if_splits)

text \<open>Frames are read until reading fails, as the loops of client and server do.\<close>

function read_frames :: "byte list \<Rightarrow> Frame list \<times> io_error" where
  "read_frames r =
     (case readFrame r of
        Inl e \<Rightarrow> ([], e)
      | Inr (f, r') \<Rightarrow> (case read_frames r' of (fs, e) \<Rightarrow> (f # fs, e)))"
  by pat_completeness auto
termination
  by (relation "measure length") (auto simp: readFrame_shrinks)

declare read_frames.simps [simp del]

lemma read_frames_bytes:
  assumes "\<forall>f\<in>set fs. length (data_bytes f) < 65536 \<and> length (f_Error f) < 65536"
  shows "read_frames (concat (map frame_bytes fs) @ rest) =
    (case read_frames rest of (gs, e) \<Rightarrow> (map received fs @ gs, e))"
  using assms
proof (induction fs)
  case Nil
  then show ?case by (simp split: prod.splits)
next
  case (Cons f fs)
  then show ?case
    by (subst read_frames.simps) (simp add: readFrame_bytes split: prod.splits)
qed

lemma read_frames_Nil: "read_frames [] = ([], EOF)"
  by (simp add: read_frames.simps [of "[]"] readFrame_def ReadFull_def)

subsection \<open>Connections\<close>

text \<open>
  A connection that can still take \<open>fst s\<close> bytes and then fails, and a buffer that takes
  everything; the second component is what the peer will read.
\<close>

definition conn_writer :: "(nat \<times> byte list) writer" where
  "conn_writer bs s =
     (let n = min (fst s) (length bs) in
      (n, if n < length bs then Some (WriteFailed (fst s)) else None, (fst s - n, snd s @ take n bs)))"

definition buffer_writer :: "byte list writer" where
  "buffer_writer bs s = (length bs, None, s @ bs)"

interpretation conn: io_writer conn_writer snd
  by unfold_locales (auto simp: conn_writer_def Let_def)

interpretation buffer: io_writer buffer_writer "\<lambda>s. s"
  by unfold_locales (auto simp: buffer_writer_def)

lemma buffer_fields: "write_fields buffer_writer bs s = (None, s @ concat bs)"
  by (induction bs arbitrary: s) (auto simp: buffer_writer_def)

lemma buffer_body:
  "write_body buffer_writer len buf err s =
     (if len > 0 then (if length buf < len then Some ErrShortWrite else None, s @ buf) else (err, s))"
  by (simp add: write_body_def buffer_writer_def)

lemma writeFrame_buffer:
  assumes "length (data_bytes frame) < 65536"
  shows "writeFrame buffer_writer frame s =
    (None, s @ Feature @ concat (header_fields frame) @ data_bytes frame @
       (if length (f_Error frame) mod 65536 = 0 then [] else f_Error frame))"
proof -
  have dl: "(case f_Data frame of None \<Rightarrow> 0 | Some d \<Rightarrow> length d) = length (data_bytes frame)"
    "(case f_Data frame of None \<Rightarrow> [] | Some d \<Rightarrow> d) = data_bytes frame"
    by (simp_all add: data_bytes_def split: option.splits)
  have u: "unat (of_nat (length (data_bytes frame)) :: 16 word) = length (data_bytes frame)"
    "unat (if f_Error frame \<noteq> [] then of_nat (length (f_Error frame)) else 0 :: 16 word) =
      length (f_Error frame) mod 65536"
    using assms by (simp_all add: unat_of_nat)
  have n: "\<not> 65535 < length (data_bytes frame)" using assms by simp
  note p = put_le_mod [of "length (f_Error frame)"]
  show ?thesis
    unfolding writeFrame_def buffer_writer_def [of Feature] prod.case option.case Let_def dl if_not_P [OF n] u
      p buffer_fields buffer_body header_fields_def [symmetric]
    by (simp add: header_fields_def)
qed

lemma chunk_loop_buffer:
  "chunk_loop buffer_writer t sq clk buf start s =
     (None, s @ concat (map frame_bytes (chunk_frames t sq clk buf start)))"
proof (induction "length buf - start" arbitrary: start s rule: less_induct)
  case less
  show ?case
  proof (cases "start < length buf")
    case False
    then show ?thesis by (simp add: chunk_loop.simps [of _ t] chunk_frames.simps [of t])
  next
    case True
    define en where "en = min (start + wireChunkSize) (length buf)"
    define fr where "fr = newFrame t (if en = length buf then FlagComplete else FlagPortion) sq 0
      (Some (take (en - start) (drop start buf))) (clk start)"
    have "length (data_bytes fr) < 65536" by (simp add: fr_def en_def wireChunkSize_def)
    then have wf: "writeFrame buffer_writer fr s = (None, s @ frame_bytes fr)"
      by (simp add: writeFrame_buffer frame_bytes_def fr_def)
    have "start < en" using True by (auto simp: en_def wireChunkSize_def)
    moreover have "chunk_frames t sq clk buf start = fr # chunk_frames t sq clk buf en"
      using True unfolding chunk_frames.simps [of t sq clk buf start] by (simp add: Let_def en_def fr_def)
    moreover have "chunk_loop buffer_writer t sq clk buf start s =
        chunk_loop buffer_writer t sq clk buf en (s @ frame_bytes fr)"
      using True wf unfolding chunk_loop.simps [of buffer_writer t sq clk buf start] Let_def
        en_def [symmetric] fr_def [symmetric] by simp
    ultimately show ?thesis using less.hyps [of en "s @ frame_bytes fr"] True by simp
  qed
qed

section \<open>Properties\<close>

lemma conn_stays_broken: "conn.stays_broken"
  unfolding conn.stays_broken_def by (auto simp: conn_writer_def Let_def min_def split: if_splits)

text \<open>
  C17: Frame round trip, over every writer that keeps the contract of \<open>io.Writer\<close> and, once a
  write has failed, fails again (without the second, a frame with data and an error text may
  lose its data unreported: \<open>data_write_error_lost\<close>). When \<open>writeFrame\<close> reports success, however
  many bytes the connection took before, the bytes it received are read back as the frame
  (with the fixed feature bytes, and nil for empty data), and what follows is left
  untouched, as long as the error text is shorter than 64 KiB. The length of a longer one
  is written modulo 65536: exactly that many bytes of it arrive, and the rest of it is left
  where the next frame should start.
\<close>

theorem frame_roundtrip:
  assumes "io_writer w out" and "io_writer.stays_broken w" and "writeFrame w frame s = (None, s')"
    and "n = length (f_Error frame) mod 65536"
  shows "(length (f_Error frame) < 65536 \<longrightarrow> readFrame (drop (length (out s)) (out s') @ rest) = Inr (received frame, rest)) \<and>
    readFrame (drop (length (out s)) (out s') @ rest) =
      Inr (received (frame\<lparr>f_Error := take n (f_Error frame)\<rparr>), (if n = 0 then [] else drop n (f_Error frame)) @ rest)"
proof -
  note r = io_writer.readFrame_written [OF assms(1,3) _ assms(4), of rest]
  have "frame\<lparr>f_Error := take n (f_Error frame)\<rparr> = frame \<and> (if n = 0 then [] else drop n (f_Error frame)) = []"
    if "length (f_Error frame) < 65536" using that by (simp add: assms(4))
  then show ?thesis using r assms(2) by auto
qed

theorem frame_roundtrip_witness:
  "\<exists>s'. writeFrame conn_writer ((newFrame 2 1 7 0 (Some [104, 105]) 9)\<lparr>f_Error := [33]\<rparr>) (100, [1, 2]) = (None, s') \<and>
     readFrame (drop 2 (snd s') @ [5]) = Inr ((newFrame 2 1 7 0 (Some [104, 105]) 9)\<lparr>f_Error := [33]\<rparr>, [5])"
proof -
  let ?f = "(newFrame 2 1 7 0 (Some [104, 105]) 9)\<lparr>f_Error := [33]\<rparr>"
  obtain s' where w: "writeFrame conn_writer ?f (100, [1, 2]) = (None, s')"
    by (simp add: writeFrame_def newFrame_def conn_writer_def write_body_def Feature_def Let_def)
  have "readFrame (drop (length (snd (100 :: nat, [1, 2 :: byte]))) (snd s') @ [5]) = Inr (received ?f, [5])"
    using frame_roundtrip [OF conn.io_writer_axioms conn_stays_broken w refl, of "[5]"] by simp
  then show ?thesis using w by (simp add: received_def newFrame_def data_bytes_def numeral_2_eq_2)
qed

text \<open>
  Chunked writes. Writing any buffer in chunks succeeds on a writer that takes
  everything; the reader gets frames of the same type and sequence number, each with at
  most 32766 bytes of data, whose data joined in order is the buffer, and exactly the
  last of them is marked complete.
\<close>

theorem chunked_write_reassembles:
  "\<exists>bytes fs. writeChunked buffer_writer t sq clk buf s = (None, s @ bytes) \<and>
     read_frames bytes = (map received fs, EOF) \<and> well_chunked t sq buf fs"
proof (intro exI conjI)
  let ?fs = "chunk_frames t sq clk buf 0"
  have well: "well_chunked t sq buf ?fs" using chunk_frames_well [of t sq 0 buf clk] by simp
  show "writeChunked buffer_writer t sq clk buf s = (None, s @ concat (map frame_bytes ?fs))"
    by (simp add: writeChunked_def chunk_loop_buffer)
  show "well_chunked t sq buf ?fs" by (fact well)
  have "\<forall>f\<in>set ?fs. length (data_bytes f) < 65536 \<and> length (f_Error f) < 65536"
    using well by (auto simp: well_chunked_def wireChunkSize_def)
  from read_frames_bytes [OF this, of "[]"]
  show "read_frames (concat (map frame_bytes ?fs)) = (map received ?fs, EOF)"
    by (simp add: read_frames_Nil)
qed

text \<open>
  An error text of 64 KiB or more corrupts the stream: \<open>writeFrame\<close> reports success,
  but its length field wraps around, so the reader takes only the first
  \<open>n mod 65536\<close> bytes of the text and finds the rest of it where the next frame should be
  (or loses the text when the length is a multiple of 65536).
\<close>

theorem long_error_desynchronises:
  assumes "data_bytes frame = []" and "65536 \<le> length (f_Error frame)"
  shows "\<exists>bytes. writeFrame buffer_writer frame s = (None, s @ bytes) \<and>
    (let n = length (f_Error frame) mod 65536 in
     readFrame bytes = Inr (received (frame\<lparr>f_Error := take n (f_Error frame)\<rparr>),
       if n = 0 then [] else drop n (f_Error frame)))"
proof -
  define n where "n = length (f_Error frame) mod 65536"
  define short where "short = frame\<lparr>f_Error := take n (f_Error frame)\<rparr>"
  define rest where "rest = (if n = 0 then [] else drop n (f_Error frame))"
  let ?bytes = "Feature @ concat (header_fields frame) @ data_bytes frame @ (if n = 0 then [] else f_Error frame)"
  have le: "n < 65536" "n \<le> length (f_Error frame)" by (simp_all add: n_def)
  have m: "put_le 2 (length (f_Error frame)) = put_le 2 n" by (simp add: n_def put_le_mod)
  have "data_bytes short = data_bytes frame" "header_fields short = header_fields frame" "f_Error short = take n (f_Error frame)"
    using le m by (simp_all add: short_def data_bytes_def header_fields_def)
  then have "?bytes = frame_bytes short @ rest" by (simp add: frame_bytes_def rest_def)
  then have "readFrame ?bytes = Inr (received short, rest)"
    using readFrame_bytes [of short rest] le assms(1) \<open>data_bytes short = data_bytes frame\<close>
      \<open>f_Error short = _\<close> by simp
  then show ?thesis using writeFrame_buffer [of frame s] assms(1)
    by (auto simp: n_def [symmetric] short_def rest_def Let_def)
qed

theorem long_error_desynchronises_witness:
  "\<exists>bytes. writeFrame buffer_writer ((newFrame 2 1 7 0 None 9)\<lparr>f_Error := replicate 65537 33\<rparr>) [] = (None, [] @ bytes) \<and>
     (\<exists>f. readFrame bytes = Inr (f, replicate 65536 33) \<and> f_Error f = [33])"
proof -
  let ?f = "(newFrame 2 1 7 0 None 9)\<lparr>f_Error := replicate 65537 33\<rparr>"
  have l: "length (f_Error ?f) = 65537" by simp
  from long_error_desynchronises [of ?f "[]"] show ?thesis
    by (auto simp: l Let_def data_bytes_def newFrame_def received_def)
qed

text \<open>
  A failed data write can go unreported: when a frame carries data and an error
  text, the error of the data write is overwritten by the success of the second write,
  and what was written does not contain the data.
\<close>

theorem data_write_error_lost:
  "let w = (\<lambda>bs s. if bs = [1, 2] then (0, Some (WriteFailed 0), s) else (length bs, None, s @ bs));
       frame = (newFrame 2 1 7 0 (Some [1, 2]) 9)\<lparr>f_Error := [33]\<rparr>;
       (err, out) = writeFrame w frame []
   in err = None \<and> length out + 2 = length (frame_bytes frame)"
proof -
  have l: "put_le k n \<noteq> [1, 2]" if "k \<noteq> 2" for k n
    using that by (metis length_put_le length_Cons list.size(3) numeral_2_eq_2)
  have p: "put_le 2 7 = [7, 0]" "put_le 2 2 = [2, 0]" "put_le 2 (Suc 0) = [1, 0]" by (simp_all add: put_le_2)
  show ?thesis
    by (simp add: Let_def writeFrame_def newFrame_def write_body_def Feature_def frame_bytes_def header_fields_def
        data_bytes_def l p)
qed

end
