(* ===== verification/Router.thy ===== *)
theory Router
  imports Errs
begin

text \<open>
  \<open>transport/cli/router.go\<close>: the tree of commands. A router is a value; registering a command
  returns the changed tree. \<open>'h\<close> is the type of handler functions.
\<close>

record 'h Command =
  c_Path :: string
  c_Handle :: "'h option"
  c_Description :: string

definition no_command :: "'h Command" where
  "no_command = \<lparr>c_Path = '''', c_Handle = None, c_Description = ''''\<rparr>"

datatype 'h Router = Router (r_name: string) (r_path: "string list") (r_children: "'h Router list")
  (r_command: "'h Command") (r_params: "string list")

definition ErrNotFound_cli :: goerror where
  "ErrNotFound_cli = ErrString 320 ''not found''"
definition ErrHandleRegistered :: goerror where
  "ErrHandleRegistered = ErrString 321 ''handle already registered''"

definition newRouter :: "string \<Rightarrow> 'h Router" where
  "newRouter name = Router name [] [] no_command []"

fun getChildren :: "'h Router list \<Rightarrow> string \<Rightarrow> 'h Router option" where
  "getChildren [] name = None"
| "getChildren (child # cs) name = (if r_name child = name then Some child else getChildren cs name)"

text \<open>The child object is shared, so changing it changes the first child of that name.\<close>

fun setChild :: "'h Router list \<Rightarrow> string \<Rightarrow> 'h Router \<Rightarrow> 'h Router list" where
  "setChild [] name r = []"
| "setChild (child # cs) name r = (if r_name child = name then r # cs else child # setChild cs name r)"

subsection \<open>Registration\<close>

text \<open>The path without one trailing and one leading slash, and its first segment.\<close>

definition trim_path :: "string \<Rightarrow> string" where
  "trim_path path = TrimPrefix (TrimSuffix path ''/'') ''/''"

definition first_segment :: "string \<Rightarrow> string \<times> string" where
  "first_segment path =
     (case CutByte path (CHR ''/'') of
        None \<Rightarrow> (path, '''')
      | Some (before, after) \<Rightarrow> (before, CHR ''/'' # after))"

definition segment_name :: "string \<Rightarrow> string" where
  "segment_name name = (if name = ''-'' then ''app'' else name)"

lemma length_TrimSuffix: "length (TrimSuffix s p) \<le> length s"
  and length_TrimPrefix: "length (TrimPrefix s p) \<le> length s"
  by (simp_all add: TrimSuffix_def TrimPrefix_def)

lemma dropWhile_head: "c \<in> set q \<Longrightarrow> c # tl (dropWhile (\<lambda>x. x \<noteq> c) q) = dropWhile (\<lambda>x. x \<noteq> c) q"
  by (induction q) auto

lemma TrimPrefix_slash: "TrimPrefix s ''/'' = s \<or> length (TrimPrefix s ''/'') < length s"
  by (cases s) (simp_all add: TrimPrefix_def)

lemma first_segment_shorter:
  assumes "trim_path path \<noteq> ''''"
  shows "length (snd (first_segment (trim_path path))) < length path"
proof -
  let ?p = "TrimSuffix path ''/''" and ?q = "trim_path path"
  have le: "length ?q \<le> length ?p" "length ?p \<le> length path"
    by (simp_all add: trim_path_def length_TrimPrefix length_TrimSuffix)
  show ?thesis
  proof (cases "hd ?q = CHR ''/''")
    case False
    then have "takeWhile (\<lambda>x. x \<noteq> CHR ''/'') ?q \<noteq> []" using assms by (cases ?q) auto
    then have "length (dropWhile (\<lambda>x. x \<noteq> CHR ''/'') ?q) < length ?q"
      by (cases ?q) (auto simp: le_imp_less_Suc length_dropWhile_le)
    moreover have "snd (first_segment ?q) = (if CHR ''/'' \<in> set ?q then dropWhile (\<lambda>x. x \<noteq> CHR ''/'') ?q else [])"
      using dropWhile_head [of "CHR ''/''" ?q] by (simp add: first_segment_def CutByte_def)
    ultimately show ?thesis using le assms by auto
  next
    case True
    then obtain rest where q: "?q = CHR ''/'' # rest" using assms by (cases ?q) auto
    have "?q \<noteq> ?p"
    proof
      assume "?q = ?p"
      then have "?p = CHR ''/'' # rest" using q by simp
      then have "HasPrefix ?p ''/''" by (simp add: HasPrefix_def)
      then have "?q = drop 1 ?p" by (simp add: trim_path_def TrimPrefix_def)
      with \<open>?q = ?p\<close> q show False by (metis drop_Suc_Cons drop0 list.distinct(1) not_Cons_self2 One_nat_def)
    qed
    then have "length ?q < length ?p" using TrimPrefix_slash [of ?p] by (simp add: trim_path_def)
    moreover have "snd (first_segment ?q) = ?q" by (simp add: q first_segment_def CutByte_def)
    ultimately show ?thesis using le by simp
  qed
qed

function Handle :: "nat \<Rightarrow> 'h Router \<Rightarrow> string \<Rightarrow> 'h Command \<Rightarrow> goerror option \<times> 'h Router" where
  "Handle a (Router nm pth ch cmd ps) path command =
     (let p = trim_path path in
      if p = '''' then (None, Router nm pth ch command ps)
      else if hd p = CHR '':'' then
        (None, Router nm pth ch command (ps @ map (\<lambda>s. TrimPrefix s '':'') (SplitByte p (CHR ''/''))))
      else
        (let name = segment_name (fst (first_segment p)); rest = snd (first_segment p) in
         case getChildren ch name of
           None \<Rightarrow>
             (let fresh = Router name (if pth = [] then [name] else pth @ [name]) [] no_command [];
                  (e, child) = Handle a fresh rest command
              in (e, Router nm pth (ch @ [child]) cmd ps))
         | Some child \<Rightarrow>
             if c_Handle (r_command child) \<noteq> None
             then (Some (FmtWrap a (''handle already registered: /'' @ JoinStr (r_path child) ''/'') [ErrHandleRegistered]),
                   Router nm pth ch cmd ps)
             else
               (let (e, child') = Handle a child rest command
                in (e, Router nm pth (setChild ch name child') cmd ps))))"
  by pat_completeness auto
termination
  by (relation "measure (\<lambda>(a, r, path, command). length path)") (auto simp: first_segment_shorter)

declare Handle.simps [simp del]

subsection \<open>Lookup, completion, usage\<close>

fun Lookup :: "'h Router \<Rightarrow> string list \<Rightarrow> goerror + 'h Router \<times> string list" where
  "Lookup r [] = (if c_Handle (r_command r) = None then Inl ErrNotFound_cli else Inr (r, []))"
| "Lookup r (t # ts) =
     (case getChildren (r_children r) t of
        Some child \<Rightarrow> Lookup child ts
      | None \<Rightarrow> if c_Handle (r_command r) = None then Inl ErrNotFound_cli else Inr (r, t # ts))"

fun Completer :: "'h Router \<Rightarrow> string list \<Rightarrow> string list" where
  "Completer r [] = map (\<lambda>child. JoinStr (r_path child) '' '') (r_children r)"
| "Completer r (t # ts) =
     (case getChildren (r_children r) t of
        None \<Rightarrow> map (\<lambda>child. JoinStr (r_path child) '' '') (filter (\<lambda>child. HasPrefix (r_name child) t) (r_children r))
      | Some child \<Rightarrow> Completer child ts)"

definition Usage :: "'h Router \<Rightarrow> string" where
  "Usage r =
     (if length (r_path r) \<le> 0 then ''''
      else ''Usage: '' @ JoinStr (r_path r) '' '' @
        (if length (r_params r) > 0 then concat (map (\<lambda>s. '' {'' @ s @ ''}'') (r_params r)) else ''''))"

subsection \<open>Help text\<close>

record commander =
  cm_Name :: string
  cm_Path :: string
  cm_Description :: string

fun walk :: "'h Router \<Rightarrow> commander list" where
  "walk (Router nm pth ch cmd ps) =
     (if c_Handle cmd \<noteq> None
      then [\<lparr>cm_Name = nm, cm_Path = JoinStr pth '' '', cm_Description = c_Description cmd\<rparr>]
      else concat (map walk ch))"

text \<open>
  \<open>%-Ns\<close> pads with blanks to \<open>N\<close> runes: bytes of the form \<open>10xxxxxx\<close> continue a rune. The
  display width (package \<open>runewidth\<close>) is a parameter.
\<close>

definition rune_count :: "string \<Rightarrow> nat" where
  "rune_count s = length (filter (\<lambda>c. \<not> (128 \<le> (of_char c :: nat) \<and> (of_char c :: nat) < 192)) s)"

definition pad_right :: "nat \<Rightarrow> string \<Rightarrow> string" where
  "pad_right n s = s @ replicate (n - rune_count s) (CHR '' '')"

definition router_String :: "(string \<Rightarrow> nat) \<Rightarrow> 'h Router \<Rightarrow> string" where
  "router_String width r =
     (let vs = walk r;
          maxWidth = foldl (\<lambda>m v. if width (cm_Path v) > m then width (cm_Path v) else m) 0 vs
      in concat (map (\<lambda>v. pad_right (maxWidth + 4) (cm_Path v) @ '' '' @ cm_Description v @ [CHR 0x0A]) vs))"

subsection \<open>Facts about the tree\<close>

text \<open>The names a registration path stands for, and its parameters.\<close>

function route_names :: "string \<Rightarrow> string list" where
  "route_names path =
     (let p = trim_path path in
      if p = '''' \<or> hd p = CHR '':'' then []
      else segment_name (fst (first_segment p)) # route_names (snd (first_segment p)))"
  by pat_completeness auto
termination
  by (relation "measure length") (auto simp: first_segment_shorter)

declare route_names.simps [simp del]

fun node_at :: "'h Router \<Rightarrow> string list \<Rightarrow> 'h Router option" where
  "node_at r [] = Some r"
| "node_at r (t # ts) =
     (case getChildren (r_children r) t of None \<Rightarrow> None | Some child \<Rightarrow> node_at child ts)"

lemma getChildren_name: "getChildren ch n = Some x \<Longrightarrow> r_name x = n"
  by (induction ch) (auto split: if_splits)

lemma getChildren_setChild:
  "getChildren ch n = Some x \<Longrightarrow> r_name y = n \<Longrightarrow>
   getChildren (setChild ch n y) m = (if m = n then Some y else getChildren ch m)"
  by (induction ch) (auto split: if_splits)

lemma setChild_same: "getChildren ch n = Some x \<Longrightarrow> setChild ch n x = ch"
  by (induction ch) (auto split: if_splits)

lemma getChildren_snoc:
  "getChildren (ch @ [y]) m = (case getChildren ch m of Some x \<Rightarrow> Some x
     | None \<Rightarrow> if r_name y = m then Some y else None)"
  by (induction ch) auto

text \<open>The ways through \<open>Handle\<close>.\<close>

lemma Handle_cases:
  obtains (here) "route_names path = []" and
      "\<exists>ps. Handle a r path c = (None, Router (r_name r) (r_path r) (r_children r) c ps)"
  | (fresh) name rest child e where "route_names path = name # route_names rest" "length rest < length path"
      "getChildren (r_children r) name = None"
      "Handle a (Router name (if r_path r = [] then [name] else r_path r @ [name]) [] no_command []) rest c = (e, child)"
      "Handle a r path c = (e, Router (r_name r) (r_path r) (r_children r @ [child]) (r_command r) (r_params r))"
  | (taken) name rest child where "route_names path = name # route_names rest"
      "getChildren (r_children r) name = Some child" "c_Handle (r_command child) \<noteq> None"
      "\<exists>e. Handle a r path c = (Some e, r) \<and> Is e ErrHandleRegistered"
  | (inner) name rest child e child' where "route_names path = name # route_names rest"
      "length rest < length path"
      "getChildren (r_children r) name = Some child" "c_Handle (r_command child) = None"
      "Handle a child rest c = (e, child')"
      "Handle a r path c = (e, Router (r_name r) (r_path r) (setChild (r_children r) name child') (r_command r) (r_params r))"
proof -
  obtain nm pth ch cmd ps where r: "r = Router nm pth ch cmd ps" by (cases r)
  let ?p = "trim_path path"
  let ?name = "segment_name (fst (first_segment ?p))" and ?rest = "snd (first_segment ?p)"
  show ?thesis
  proof (cases "?p = '''' \<or> hd ?p = CHR '':''")
    case True
    then show ?thesis
      by (intro here; cases "?p = ''''") (simp_all add: r route_names.simps [of path] Handle.simps [of a nm] Let_def)
  next
    case False
    then have n: "route_names path = ?name # route_names ?rest" "length ?rest < length path"
      by (simp_all add: route_names.simps [of path] first_segment_shorter Let_def)
    show ?thesis
    proof (cases "getChildren ch ?name")
      case None
      obtain e child where "Handle a (Router ?name (if pth = [] then [?name] else pth @ [?name]) [] no_command []) ?rest c
          = (e, child)" by (rule prod.exhaust)
      then show ?thesis using False None n by (intro fresh [of ?name ?rest e child])
          (simp_all add: r Handle.simps [of a nm] Let_def split: if_splits)
    next
      case (Some child)
      show ?thesis
      proof (cases "c_Handle (r_command child) = None")
        case True
        obtain e child' where "Handle a child ?rest c = (e, child')" by (rule prod.exhaust)
        then show ?thesis using False Some True n by (intro inner [of ?name ?rest child e child'])
            (simp_all add: r Handle.simps [of a nm] Let_def)
      next
        case not_none: False
        then show ?thesis using False Some n by (intro taken [of ?name ?rest child])
            (simp_all add: r Handle.simps [of a nm] Let_def ErrHandleRegistered_def)
      qed
    qed
  qed
qed

lemma Handle_name: "r_name (snd (Handle a r path c)) = r_name r"
  by (cases rule: Handle_cases [of path a r c]) auto

lemma Handle_node: "Handle a r path c = (None, r') \<Longrightarrow>
  \<exists>q. node_at r' (route_names path) = Some q \<and> r_command q = c"
proof (induction "length path" arbitrary: r path r' rule: less_induct)
  case less
  show ?case
  proof (cases rule: Handle_cases [of path a r c])
    case here
    then show ?thesis using less.prems by auto
  next
    case (fresh name rest child e)
    let ?fr = "Router name (if r_path r = [] then [name] else r_path r @ [name]) [] no_command []"
    have e: "e = None" and r': "r' = Router (r_name r) (r_path r) (r_children r @ [child]) (r_command r) (r_params r)"
      using fresh(5) less.prems by auto
    have nm: "r_name child = name" using Handle_name [of a ?fr rest c] fresh(4) by simp
    obtain q where "node_at child (route_names rest) = Some q" "r_command q = c"
      using less.hyps [OF fresh(2) fresh(4) [unfolded e]] by blast
    then show ?thesis using fresh(1,3) nm by (simp add: r' getChildren_snoc)
  next
    case (taken name rest child)
    then show ?thesis using less.prems by auto
  next
    case (inner name rest child e child')
    have e: "e = None" and r': "r' = Router (r_name r) (r_path r) (setChild (r_children r) name child') (r_command r) (r_params r)"
      using inner(6) less.prems by auto
    have "r_name child' = name"
      using Handle_name [of a child rest c] inner(5) getChildren_name [OF inner(3)] by simp
    moreover obtain q where "node_at child' (route_names rest) = Some q" "r_command q = c"
      using less.hyps [OF inner(2) inner(5) [unfolded e]] by blast
    ultimately show ?thesis using inner(1,3) by (simp add: r' getChildren_setChild)
  qed
qed

lemma Lookup_node:
  "node_at r ts = Some q \<Longrightarrow> c_Handle (r_command q) \<noteq> None \<Longrightarrow>
   args = [] \<or> getChildren (r_children q) (hd args) = None \<Longrightarrow> Lookup r (ts @ args) = Inr (q, args)"
proof (induction ts arbitrary: r)
  case Nil
  then show ?case by (cases args) auto
next
  case (Cons t ts)
  then show ?case by (auto split: option.splits)
qed

text \<open>Registering below a node without a handler keeps every route of that node.\<close>

lemma Handle_keeps_inner:
  "c_Handle (r_command r) = None \<Longrightarrow> Handle a r path c = (e, r') \<Longrightarrow> Lookup r ts = Inr (q, args) \<Longrightarrow>
   Lookup r' ts = Inr (q, args) \<or> (\<exists>q'. Lookup r' ts = Inr (q', args) \<and> r_command q' = r_command q)"
proof (induction "length path" arbitrary: r path r' ts e rule: less_induct)
  case less
  obtain t us where ts: "ts = t # us" using less.prems by (cases ts) auto
  obtain x where x: "getChildren (r_children r) t = Some x" "Lookup x us = Inr (q, args)"
    using less.prems ts by (auto split: option.splits)
  show ?case
  proof (cases rule: Handle_cases [of path a r c])
    case here
    then show ?thesis using less.prems(2) ts x by auto
  next
    case (fresh name rest child e')
    then show ?thesis using less.prems(2) ts x by (auto simp: getChildren_snoc)
  next
    case (taken name rest child)
    then show ?thesis using less.prems by auto
  next
    case (inner name rest child e' child')
    have nm: "r_name child' = name"
      using Handle_name [of a child rest c] inner(5) getChildren_name [OF inner(3)] by simp
    show ?thesis
    proof (cases "t = name")
      case False
      then show ?thesis using less.prems(2) ts x inner nm by (auto simp: getChildren_setChild)
    next
      case True
      then have "Lookup child' us = Inr (q, args) \<or> (\<exists>q'. Lookup child' us = Inr (q', args) \<and> r_command q' = r_command q)"
        using less.hyps [OF inner(2,4,5), of us] x inner(3) by simp
      then show ?thesis using True less.prems(2) ts inner nm by (auto simp: getChildren_setChild)
    qed
  qed
qed

lemma Handle_fresh_ok: "r_children r = [] \<Longrightarrow> fst (Handle a r path c) = None"
proof (induction "length path" arbitrary: r path rule: less_induct)
  case less
  show ?case
  proof (cases rule: Handle_cases [of path a r c])
    case (fresh name rest child e)
    then show ?thesis using less.hyps [OF fresh(2)] by (metis Router.sel(3) fst_conv)
  qed (use less.prems in auto)
qed

lemma Handle_error_unchanged: "Handle a r path c = (Some e, r') \<Longrightarrow> r' = r \<and> Is e ErrHandleRegistered"
proof (induction "length path" arbitrary: r path r' rule: less_induct)
  case less
  show ?case
  proof (cases rule: Handle_cases [of path a r c])
    case (fresh name rest child e')
    then have "e' = None" using Handle_fresh_ok by (metis Router.sel(3) fst_conv)
    then show ?thesis using fresh less.prems by simp
  next
    case (inner name rest child e' child')
    then have "Handle a child rest c = (Some e, child')" using less.prems by simp
    then have "child' = child" "Is e ErrHandleRegistered" using less.hyps [OF inner(2)] by blast+
    then show ?thesis using inner less.prems by (cases r) (auto simp: setChild_same)
  qed (use less.prems in auto)
qed

section \<open>Properties\<close>

text \<open>
  A registered command is found. After a successful registration the names of the
  path lead to a node with the command, and looking up these names followed by arguments
  yields that node and exactly the arguments (unless the first argument is the name of a
  sub-command of the node).
\<close>

theorem router_finds_registered:
  assumes "Handle a r path c = (None, r')" and "c_Handle c \<noteq> None"
  shows "\<exists>q. node_at r' (route_names path) = Some q \<and> r_command q = c \<and>
    (\<forall>args. args = [] \<or> getChildren (r_children q) (hd args) = None \<longrightarrow>
       Lookup r' (route_names path @ args) = Inr (q, args))"
  using Handle_node [OF assms(1)] Lookup_node [of r' "route_names path"] assms(2) by metis

definition sample_command :: "nat \<Rightarrow> nat Command" where
  "sample_command h = \<lparr>c_Path = ''p'', c_Handle = Some h, c_Description = ''d''\<rparr>"

lemma sample_route: "route_names ''/user/get/:id'' = [''user'', ''get'']"
  by code_simp

theorem router_finds_registered_witness:
  "\<exists>q. Lookup (snd (Handle 900 (newRouter '''') ''/user/get/:id'' (sample_command 7))) [''user'', ''get'', ''42''] =
     Inr (q, [''42'']) \<and> r_command q = sample_command 7"
proof -
  let ?r = "newRouter '''' :: nat Router" and ?c = "sample_command 7"
  have h: "Handle 900 ?r ''/user/get/:id'' ?c = (None, snd (Handle 900 ?r ''/user/get/:id'' ?c))"
    by code_simp
  have n: "r_children q = []" if "node_at (snd (Handle 900 ?r ''/user/get/:id'' ?c)) [''user'', ''get''] = Some q" for q
  proof -
    have "map_option r_children (node_at (snd (Handle 900 ?r ''/user/get/:id'' ?c)) [''user'', ''get'']) = Some []"
      by code_simp
    with that show ?thesis by simp
  qed
  from router_finds_registered [OF h] obtain q where
    "node_at (snd (Handle 900 ?r ''/user/get/:id'' ?c)) [''user'', ''get''] = Some q" "r_command q = ?c"
    "\<forall>args. args = [] \<or> getChildren (r_children q) (hd args) = None \<longrightarrow>
       Lookup (snd (Handle 900 ?r ''/user/get/:id'' ?c)) ([''user'', ''get''] @ args) = Inr (q, args)"
    by (auto simp: sample_route sample_command_def)
  with n [of q] show ?thesis by (metis append_Cons append_Nil getChildren.simps(1))
qed

text \<open>
  Registering a command never changes what existing routes do: whatever command a
  line resolved to below the root, it resolves to the same command with the same
  arguments after any further registration, successful or not.
\<close>

theorem router_keeps_routes:
  assumes "Lookup r ts = Inr (q, args)" and "length args < length ts" and "Handle a r path c = (e, r')"
  shows "\<exists>q'. Lookup r' ts = Inr (q', args) \<and> r_command q' = r_command q"
proof -
  obtain t us where ts: "ts = t # us" using assms(2) by (cases ts) auto
  obtain x where x: "getChildren (r_children r) t = Some x" "Lookup x us = Inr (q, args)"
    using assms(1,2) ts by (auto split: option.splits if_splits)
  show ?thesis
  proof (cases rule: Handle_cases [of path a r c])
    case here
    then show ?thesis using assms(3) ts x by auto
  next
    case (fresh name rest child e')
    then show ?thesis using assms(3) ts x by (auto simp: getChildren_snoc)
  next
    case (taken name rest child)
    then show ?thesis using assms by auto
  next
    case (inner name rest child e' child')
    have nm: "r_name child' = name"
      using Handle_name [of a child rest c] inner(5) getChildren_name [OF inner(3)] by simp
    show ?thesis
    proof (cases "t = name")
      case False
      then show ?thesis using assms(3) ts x inner nm by (auto simp: getChildren_setChild)
    next
      case True
      then show ?thesis using Handle_keeps_inner [OF inner(4,5), of us q args] x inner nm assms(3) ts
        by (auto simp: getChildren_setChild)
    qed
  qed
qed

theorem router_keeps_routes_witness:
  "let r = snd (Handle 900 (newRouter '''') ''/user/get/:id'' (sample_command 7));
       r' = snd (Handle 901 r ''/user/list'' (sample_command 8))
   in \<exists>q'. Lookup r' [''user'', ''get'', ''42''] = Inr (q', [''42'']) \<and> r_command q' = sample_command 7"
proof -
  let ?r = "snd (Handle 900 (newRouter '''') ''/user/get/:id'' (sample_command 7))"
  have "map_sum id (\<lambda>(q, args). (r_command q, args)) (Lookup ?r [''user'', ''get'', ''42'']) =
      Inr (sample_command 7, [''42''])" by code_simp
  then obtain q where q: "Lookup ?r [''user'', ''get'', ''42''] = Inr (q, [''42''])" "r_command q = sample_command 7"
    by (cases "Lookup ?r [''user'', ''get'', ''42'']") auto
  have "\<exists>q'. Lookup (snd (Handle 901 ?r ''/user/list'' (sample_command 8))) [''user'', ''get'', ''42''] =
      Inr (q', [''42'']) \<and> r_command q' = r_command q"
    by (rule router_keeps_routes [OF q(1), where e = "fst (Handle 901 ?r ''/user/list'' (sample_command 8))"]) simp_all
  then show ?thesis using q(2) by (simp add: Let_def)
qed

text \<open>
  A refused registration has no effect: it leaves the tree as it was and its error
  matches \<open>ErrHandleRegistered\<close>.
\<close>

theorem router_refusal_harmless:
  assumes "Handle a r path c = (Some e, r')"
  shows "r' = r \<and> Is e ErrHandleRegistered"
  using assms by (rule Handle_error_unchanged)

theorem router_refusal_harmless_witness:
  "let r = snd (Handle 900 (newRouter '''') ''/user'' (sample_command 7))
   in snd (Handle 901 r ''/user/list'' (sample_command 8)) = r"
proof -
  let ?r = "snd (Handle 900 (newRouter '''') ''/user'' (sample_command 7))"
  have "fst (Handle 901 ?r ''/user/list'' (sample_command 8)) \<noteq> None" by code_simp
  then obtain e where "Handle 901 ?r ''/user/list'' (sample_command 8) =
      (Some e, snd (Handle 901 ?r ''/user/list'' (sample_command 8)))"
    by (metis option.exhaust prod.collapse)
  from router_refusal_harmless [OF this] show ?thesis by (simp add: Let_def)
qed

end
