(* ===== verification/Serialize.thy ===== *)
theory Serialize
  imports Router
begin

text \<open>
  \<open>transport/cli/serialize.go\<close>: what the command-line server prints for a value. A Go value is
  a term of \<open>gval\<close> with the kinds reflect distinguishes. Number and time formatting, \<open>fmt.Sprint\<close>,
  \<open>json.MarshalIndent\<close> and the display width of package runewidth are parameters. Maps
  are visited in an order of the runtime's choice.
\<close>

subsection \<open>Values\<close>

datatype gkind = KInt | KUint | KUint8 | KFloat | KString | KBool | KSlice | KArray | KStruct | KMap | KPointer | KIface
  | KInvalid | KOtherKind

text \<open>
  \<open>VSlice k vs\<close> is a slice whose element type has kind \<open>k\<close>, likewise \<open>VArray\<close>. A struct lists its fields with name, exported or not, and the value of
  the tag \<open>kos\<close>.
\<close>

datatype gval = VInt int | VUint nat | VFloat nat | VStr string | VBool bool | VTime nat | VNil | VNilPtr | VPtr gval
  | VSlice gkind "gval list" | VArray gkind "gval list"
  | VMap gkind "(gval \<times> gval) list" | VStruct "(string \<times> bool \<times> string option \<times> gval) list" | VOther nat

fun Kind :: "gval \<Rightarrow> gkind" where
  "Kind (VInt _) = KInt" | "Kind (VUint _) = KUint" | "Kind (VFloat _) = KFloat" | "Kind (VStr _) = KString"
| "Kind (VBool _) = KBool" | "Kind (VTime _) = KStruct" | "Kind VNil = KInvalid" | "Kind VNilPtr = KPointer"
| "Kind (VPtr _) = KPointer" | "Kind (VSlice _ _) = KSlice"
| "Kind (VArray _ _) = KArray" | "Kind (VMap _ _) = KMap" | "Kind (VStruct _) = KStruct" | "Kind (VOther _) = KOtherKind"

text \<open>\<open>reflect.Indirect(reflect.ValueOf(v))\<close>: the zero value for a nil pointer.\<close>

fun Indirect :: "gval \<Rightarrow> gval" where
  "Indirect (VPtr v) = v"
| "Indirect VNilPtr = VNil"
| "Indirect v = v"

definition isNormalKind :: "gkind \<Rightarrow> bool" where
  "isNormalKind k \<longleftrightarrow> k \<in> {KInt, KUint, KUint8, KFloat, KString}"

record formats =
  Sprint :: "gval \<Rightarrow> string"
  FormatFloat :: "nat \<Rightarrow> string"
  Sprintf_2f :: "nat \<Rightarrow> string"
  time_Format :: "nat \<Rightarrow> string"
  MarshalIndent :: "gval \<Rightarrow> goerror + string"
  StringWidth :: "string \<Rightarrow> nat"

datatype serialized = SPanic | SErr goerror | SOk string

definition json :: "formats \<Rightarrow> gval \<Rightarrow> serialized" where
  "json f v = (case MarshalIndent f v of Inl er \<Rightarrow> SErr er | Inr s \<Rightarrow> SOk s)"

subsection \<open>Maps\<close>

definition map_line :: "nat \<Rightarrow> string \<Rightarrow> string \<Rightarrow> string" where
  "map_line maxWidth k v = pad_right (maxWidth + 4) k @ '' '' @ v @ [CHR 0x0A]"

definition serializeMap ::
    "formats \<Rightarrow> ((string, string) gomap \<Rightarrow> (string \<times> string) list) \<Rightarrow> (gval \<times> gval) list \<Rightarrow> serialized" where
  "serializeMap f order val =
     (if \<not> (\<forall>(k, v)\<in>set val. isNormalKind (Kind (Indirect k)) \<and> isNormalKind (Kind (Indirect v)))
      then json f (VMap KIface val)
      else
        (let (ms, maxWidth) = fold (\<lambda>(k, v) (ms, maxWidth).
               let sk = Sprint f k; width = StringWidth f sk in
               (AList.update sk (Sprint f v) ms, if width > maxWidth then width else maxWidth)) val ([], 0)
         in SOk (concat (map (\<lambda>(k, v). map_line maxWidth k v) (order ms)))))"

subsection \<open>Tables\<close>

definition printBorder :: "nat list \<Rightarrow> string" where
  "printBorder ws = concat (map (\<lambda>l. ''+'' @ replicate (l + 2) (CHR ''-'')) ws) @ ''+'' @ [CHR 0x0A]"

definition toString :: "formats \<Rightarrow> gval \<Rightarrow> string" where
  "toString f v = (case v of VFloat x \<Rightarrow> Sprintf_2f f x | VTime t \<Rightarrow> time_Format f t | _ \<Rightarrow> Sprint f v)"

text \<open>The widths of the columns: cells of rows with a single cell do not count.\<close>

fun row_widths :: "formats \<Rightarrow> nat list \<Rightarrow> string list \<Rightarrow> nat list" where
  "row_widths f ws [] = ws"
| "row_widths f [] (c # cs) = []"
| "row_widths f (w # ws) (c # cs) = (if StringWidth f c > w then StringWidth f c else w) # row_widths f ws cs"

definition table_widths :: "formats \<Rightarrow> string list list \<Rightarrow> nat list" where
  "table_widths f rows =
     fold (\<lambda>row ws. if length row > 1 then row_widths f ws row else ws) rows
       (replicate (foldl (\<lambda>m row. if length row > m then length row else m) 0 rows) 0)"

definition cell_text :: "formats \<Rightarrow> nat \<Rightarrow> string \<Rightarrow> string" where
  "cell_text f w cell = ''| '' @ cell @ (if w > StringWidth f cell then replicate (w - StringWidth f cell) (CHR '' '') else '''') @ '' ''"

fun row_text :: "formats \<Rightarrow> nat list \<Rightarrow> string list \<Rightarrow> string" where
  "row_text f [] cells = ''|'' @ [CHR 0x0A]"
| "row_text f (w # ws) [] = cell_text f w '''' @ row_text f ws []"
| "row_text f (w # ws) (c # cs) = cell_text f w c @ row_text f ws cs"

definition printArray :: "formats \<Rightarrow> gval list list \<Rightarrow> string" where
  "printArray f vals =
     (let rows = map (map (toString f)) vals; widths = table_widths f rows in
      printBorder widths @
      (case rows of [] \<Rightarrow> '''' | row # rest \<Rightarrow>
         row_text f widths row @ printBorder widths @ concat (map (row_text f widths) rest)) @
      printBorder widths)"

definition canTabulate :: "gval list \<Rightarrow> bool" where
  "canTabulate val \<longleftrightarrow> (\<forall>row\<in>set val. isNormalKind (Kind (Indirect row)))"

text \<open>The elements of a slice or array with the kind reflect reports for each.\<close>

fun elements :: "gval \<Rightarrow> (gkind \<times> gval list) option" where
  "elements (VSlice k vs) = Some (k, vs)"
| "elements (VArray k vs) = Some (k, vs)"
| "elements v = None"

fun buildRowsFromSlices :: "gval list \<Rightarrow> gval list list option" where
  "buildRowsFromSlices [] = Some []"
| "buildRowsFromSlices (v # vs) =
     (case elements (Indirect v) of None \<Rightarrow> None
      | Some (k, es) \<Rightarrow>
          if \<exists>e\<in>set es. \<not> isNormalKind k \<and> e \<noteq> VNil then None
          else map_option ((#) es) (buildRowsFromSlices vs))"

text \<open>The fields reflect lists for a struct; those of \<open>time.Time\<close> are not exported.\<close>

fun struct_fields :: "gval \<Rightarrow> (string \<times> bool \<times> string option \<times> gval) list option" where
  "struct_fields (VStruct fs) = Some fs"
| "struct_fields (VTime t) = Some [(''wall'', False, None, VOther 0), (''ext'', False, None, VOther 1), (''loc'', False, None, VOther 2)]"
| "struct_fields v = None"

definition column_names :: "(string \<times> bool \<times> string option \<times> gval) list \<Rightarrow> (nat \<times> string) list" where
  "column_names fs =
     concat (map (\<lambda>(j, name, exported, tag, _).
        if \<not> exported then []
        else case tag of Some t \<Rightarrow> if t = ''-'' then [] else [(j, t)] | None \<Rightarrow> [(j, ToUpper name)])
      (zip [0..<length fs] fs))"

definition struct_row :: "nat list \<Rightarrow> (string \<times> bool \<times> string option \<times> gval) list \<Rightarrow> gval list" where
  "struct_row cols fs = map (\<lambda>(_, _, _, _, v). v) (filter (\<lambda>(j, _). j \<in> set cols) (zip [0..<length fs] fs))"

fun struct_rows :: "nat list \<Rightarrow> gval list \<Rightarrow> gval list list option" where
  "struct_rows cols [] = Some []"
| "struct_rows cols (v # vs) =
     (case struct_fields (Indirect v) of Some fs \<Rightarrow> map_option ((#) (struct_row cols fs)) (struct_rows cols vs) | None \<Rightarrow> None)"

definition buildRowsFromStructs :: "gval list \<Rightarrow> gval list list option" where
  "buildRowsFromStructs val =
     (case val of [] \<Rightarrow> Some []
      | v # _ \<Rightarrow> (case struct_fields (Indirect v) of
          Some fs \<Rightarrow> map_option ((#) (map (\<lambda>(_, n). VStr n) (column_names fs)))
            (struct_rows (map fst (column_names fs)) val)
        | None \<Rightarrow> None))"

definition buildRows :: "gval list \<Rightarrow> gval list list option" where
  "buildRows val =
     (case val of [] \<Rightarrow> Some []
      | v # _ \<Rightarrow> if Kind (Indirect v) = KArray \<or> Kind (Indirect v) = KSlice then buildRowsFromSlices val
          else if Kind (Indirect v) = KStruct then buildRowsFromStructs val
          else None)"

definition serializeArray :: "formats \<Rightarrow> gval list \<Rightarrow> serialized" where
  "serializeArray f val =
     (if \<not> canTabulate val then json f (VSlice KIface val)
      else case buildRows val of None \<Rightarrow> json f (VSlice KIface val) | Some rows \<Rightarrow> SOk (printArray f rows))"

subsection \<open>Values\<close>

text \<open>\<open>Bytes\<close> panics on an array that is not reached through a pointer, \<open>Interface\<close> on the zero value.\<close>

definition byte_string :: "gval list \<Rightarrow> string" where
  "byte_string vs = map (\<lambda>v. char_of (case v of VUint n \<Rightarrow> n | _ \<Rightarrow> 0)) vs"

definition serialize :: "formats \<Rightarrow> ((string, string) gomap \<Rightarrow> (string \<times> string) list) \<Rightarrow> gval \<Rightarrow> serialized" where
  "serialize f order val =
     (case Indirect val of
        VInt i \<Rightarrow> SOk (int_str i)
      | VUint n \<Rightarrow> SOk (nat_str n)
      | VFloat x \<Rightarrow> SOk (FormatFloat f x)
      | VStr s \<Rightarrow> SOk s
      | VSlice k vs \<Rightarrow> if k = KUint8 then SOk (byte_string vs) else serializeArray f vs
      | VArray k vs \<Rightarrow>
          if k = KUint8 then (if Kind val = KPointer then SOk (byte_string vs) else SPanic) else serializeArray f vs
      | VMap k kvs \<Rightarrow> serializeMap f order kvs
      | VNil \<Rightarrow> SPanic
      | v \<Rightarrow> json f v)"

section \<open>Properties\<close>

lemma buildRows_normal: "val \<noteq> [] \<Longrightarrow> canTabulate val \<Longrightarrow> buildRows val = None"
  by (cases val) (auto simp: canTabulate_def isNormalKind_def buildRows_def)

text \<open>
  A non-empty slice or array other than of bytes is always printed as JSON and never as a table: the
  check that guards the table accepts only elements of a plain kind, and the table
  is built only from slices and structs. A table is printed for the empty slice alone.
\<close>

theorem arrays_never_tabulated:
  assumes "Indirect val = VSlice k vs \<or> Indirect val = VArray k vs" and "k \<noteq> KUint8"
  shows "serialize f order val = (if vs = [] then SOk (printBorder [] @ printBorder []) else json f (VSlice KIface vs))"
proof (cases "vs = []")
  case True
  then show ?thesis using assms
    by (auto simp: serialize_def serializeArray_def canTabulate_def buildRows_def printArray_def table_widths_def)
next
  case False
  then show ?thesis using assms buildRows_normal [OF False]
    by (auto simp: serialize_def serializeArray_def)
qed

definition sample_formats :: formats where
  "sample_formats = \<lparr>Sprint = (\<lambda>_. ''v''), FormatFloat = (\<lambda>_. ''1''), Sprintf_2f = (\<lambda>_. ''1.00''), time_Format = (\<lambda>_. ''t''),
     MarshalIndent = (\<lambda>_. Inr ''json''), StringWidth = length\<rparr>"

theorem arrays_never_tabulated_witness:
  "serialize sample_formats (\<lambda>m. m) (VSlice KStruct [VStruct [(''Name'', True, None, VStr ''x'')]]) = SOk ''json''"
  using arrays_never_tabulated [of "VSlice KStruct [VStruct [(''Name'', True, None, VStr ''x'')]]" KStruct
      "[VStruct [(''Name'', True, None, VStr ''x'')]]" sample_formats "\<lambda>m. m"]
  by (simp add: json_def sample_formats_def)

end
