(* ===== verification/Session.thy ===== *)
theory Session
  imports Frame Serialize Middleware
begin

text \<open>
  \<open>transport/cli/context.go\<close> and \<open>transport/cli/server.go\<close>: one connection of the command-line
  server, from the bytes the client sends to the bytes it is answered.

  The \<open>Context\<close> of the connection is an object the handlers change, so it is part of the
  state, beside the metadata heap and the socket. The input is the list of the
  bytes the client sends. A handler answers an error or nil and may change the state; handlers that
  panic and the tracer and metrics hooks are not modelled. \<open>None\<close> is a panic of the server's own code.
  The tee writer of the metadata is its sequence of calls, as in \<open>Metadata\<close>; its effect on
  \<open>variables\<close> is not repeated there.
\<close>

subsection \<open>Bytes and strings\<close>

definition to_bytes :: "string \<Rightarrow> byte list" where
  "to_bytes s = map (\<lambda>c. of_nat (of_char c)) s"

definition of_bytes :: "byte list \<Rightarrow> string" where
  "of_bytes bs = map (\<lambda>b. char_of (unat b)) bs"

fun io_err :: "io_error \<Rightarrow> goerror" where
  "io_err EOF = ErrString 330 ''EOF''"
| "io_err ErrUnexpectedEOF = ErrString 331 ''unexpected EOF''"
| "io_err ErrShortWrite = ErrString 332 ''short write''"
| "io_err ErrNoProgress = ErrString 333 ''multiple Read calls return no data or error''"
| "io_err (WriteFailed n) = ErrString (1000 + n) ''write failed''"

subsection \<open>The context of a connection\<close>

text \<open>\<open>cx_ctx\<close> is the context of the current command, with its deadline if the frame has a timeout.\<close>

record cli_ctx =
  cx_ID :: int
  cx_seq :: "16 word"
  cx_ctx :: ctx
  cx_timeout :: "int option"
  cx_params :: "(string, string) gomap"
  cx_variables :: "(string, gval) gomap"
  cx_args :: "string list"

record 'w cli_state = env +
  cx :: cli_ctx
  sock :: 'w

definition background :: ctx where "background = \<lparr>metadataKey = None\<rparr>"

definition ctx_reset :: "int \<Rightarrow> cli_ctx" where
  "ctx_reset ident = \<lparr>cx_ID = ident, cx_seq = 0, cx_ctx = background, cx_timeout = None, cx_params = [],
     cx_variables = [], cx_args = []\<rparr>"

definition Argument :: "cli_ctx \<Rightarrow> int \<Rightarrow> string" where
  "Argument c index = (if index \<ge> int (length (cx_args c)) \<or> index < 0 then '''' else cx_args c ! nat index)"

definition Param :: "cli_ctx \<Rightarrow> string \<Rightarrow> string" where
  "Param c s = (case map_of (cx_params c) s of Some v \<Rightarrow> v | None \<Rightarrow> '''')"

definition SetValue :: "string \<Rightarrow> gval \<Rightarrow> cli_ctx \<Rightarrow> cli_ctx" where
  "SetValue name v c = c\<lparr>cx_variables := AList.update name v (cx_variables c)\<rparr>"

definition ctx_Value :: "cli_ctx \<Rightarrow> string \<Rightarrow> gval option" where
  "ctx_Value c name = map_of (cx_variables c) name"

subsection \<open>Answers\<close>

text \<open>The data of an answer: nil, a value with a \<open>Marshal\<close> method (and what it returns), or any other value.\<close>

datatype payload = PNil | PEncoder "goerror + byte list" | PValue gval

record responsePayload =
  rp_Type :: byte
  rp_Code :: int
  rp_Message :: string
  rp_Data :: payload

text \<open>What the server reads from its surroundings: formats, the order of maps, the clock, and how it writes.\<close>

record 'w cli_env =
  fmts :: formats
  map_ord :: "(string, string) gomap \<Rightarrow> (string \<times> string) list"
  clk :: "nat \<Rightarrow> 64 word"
  wr :: "'w writer"

definition OK_bytes :: "byte list" where "OK_bytes = to_bytes ''OK''"

definition encode :: "'w cli_env \<Rightarrow> payload \<Rightarrow> (goerror + byte list) option" where
  "encode e data =
     (case data of PNil \<Rightarrow> Some (Inr OK_bytes)
      | PEncoder m \<Rightarrow> Some m
      | PValue v \<Rightarrow> (case serialize (fmts e) (map_ord e) v of
          SPanic \<Rightarrow> None | SErr er \<Rightarrow> Some (Inl er) | SOk s \<Rightarrow> Some (Inr (to_bytes s))))"

definition error_frame :: "byte \<Rightarrow> 16 word \<Rightarrow> int \<Rightarrow> string \<Rightarrow> Frame" where
  "error_frame t sq code message =
     \<lparr>f_Feature = Feature, f_Type = t, f_Flag = FlagComplete, f_Seq = sq, f_Data = None,
      f_Error = to_bytes (''ERROR('' @ int_str code @ ''): '' @ message), f_Timeout = 0, f_Timestamp = 0\<rparr>"

definition on_sock :: "('w \<Rightarrow> io_error option \<times> 'w) \<Rightarrow> 'w cli_state \<Rightarrow> goerror option \<times> 'w cli_state" where
  "on_sock f s = (case f (sock s) of (er, w) \<Rightarrow> (map_option io_err er, s\<lparr>sock := w\<rparr>))"

definition ctx_send :: "'w cli_env \<Rightarrow> responsePayload \<Rightarrow> 'w cli_state \<Rightarrow> (goerror option \<times> 'w cli_state) option" where
  "ctx_send e res s =
     (if rp_Code res > 0 then
        Some (on_sock (writeFrame (wr e) (error_frame (rp_Type res) (cx_seq (cx s)) (rp_Code res) (rp_Message res))) s)
      else case encode e (rp_Data res) of
        None \<Rightarrow> None
      | Some (Inl er) \<Rightarrow> Some (Some er, s)
      | Some (Inr buf) \<Rightarrow> Some (on_sock (writeChunked (wr e) (rp_Type res) (cx_seq (cx s)) (clk e) buf) s))"

definition ctx_Success :: "'w cli_env \<Rightarrow> payload \<Rightarrow> 'w cli_state \<Rightarrow> (goerror option \<times> 'w cli_state) option" where
  "ctx_Success e v = ctx_send e \<lparr>rp_Type = PacketTypeCommand, rp_Code = 0, rp_Message = '''', rp_Data = v\<rparr>"

definition ctx_Error :: "'w cli_env \<Rightarrow> int \<Rightarrow> string \<Rightarrow> 'w cli_state \<Rightarrow> (goerror option \<times> 'w cli_state) option" where
  "ctx_Error e code message = ctx_send e \<lparr>rp_Type = PacketTypeCommand, rp_Code = code, rp_Message = message, rp_Data = PNil\<rparr>"

subsection \<open>Commands\<close>

type_synonym 'w HandleFunc = "'w cli_state \<Rightarrow> goerror option \<times> 'w cli_state"

text \<open>The server: its router, its middlewares and its context.\<close>

record 'w cli_server =
  sv_router :: "'w HandleFunc Router"
  sv_middleware :: "('w cli_state, ctx) Middleware list"
  sv_ctx :: ctx

definition wrapCommand :: "string \<Rightarrow> string \<Rightarrow> 'w HandleFunc \<Rightarrow> 'w HandleFunc Command" where
  "wrapCommand pathname desc cb =
     \<lparr>c_Path = pathname, c_Handle = Some cb,
      c_Description = (if desc = '''' then JoinStr (SplitByte (TrimPrefix pathname ''/'') (CHR ''/'')) '' '' else desc)\<rparr>"

definition server_Handle :: "nat \<Rightarrow> string \<Rightarrow> string \<Rightarrow> 'w HandleFunc \<Rightarrow> 'w cli_server \<Rightarrow> goerror option \<times> 'w cli_server" where
  "server_Handle a pathname desc cb svr =
     (case Handle a (sv_router svr) pathname (wrapCommand pathname desc cb) of (er, r) \<Rightarrow> (er, svr\<lparr>sv_router := r\<rparr>))"

definition Protocol :: string where "Protocol = ''cli''"

definition bind_params :: "string list \<Rightarrow> string list \<Rightarrow> (string, string) gomap" where
  "bind_params names args = fold (\<lambda>(n, v) m. AList.update n v m) (zip names args) []"

text \<open>The metadata of a command: path, protocol, and the readers and writers over the context.\<close>

definition command_metadata :: "string \<Rightarrow> cli_ctx \<Rightarrow> Metadata \<Rightarrow> Metadata" where
  "command_metadata path c md =
     set_TeeWriter [] (set_TeeReader (Param c) (md_Set RequestProtocol Protocol (md_Set RequestPath path md)))"

definition run_command :: "'w cli_server \<Rightarrow> 'w HandleFunc Router \<Rightarrow> 'w HandleFunc \<Rightarrow> string list \<Rightarrow> 'w cli_state \<Rightarrow> goerror option \<times> 'w cli_state" where
  "run_command svr r cb args s =
     (let c1 = (cx s)\<lparr>cx_args := args, cx_params := bind_params (r_params r) args\<rparr>;
          (h, p) = FromContext (heap s) (cx_ctx c1);
          h' = h[p := command_metadata (c_Path (r_command r)) c1 (h ! p)];
          c2 = c1\<lparr>cx_ctx := NewContext (cx_ctx c1) p\<rparr>
      in Chain (sv_middleware svr) (\<lambda>_. cb) (cx_ctx c2) (s\<lparr>heap := h', cx := c2\<rparr>))"

definition execute :: "'w cli_env \<Rightarrow> 'w cli_server \<Rightarrow> Frame \<Rightarrow> 'w cli_state \<Rightarrow> (goerror option \<times> 'w cli_state) option" where
  "execute e svr frame s =
     (let cmd = of_bytes (data_bytes frame);
          tokens = Fields cmd;
          c1 = (cx s)\<lparr>cx_ctx := sv_ctx svr,
            cx_timeout := (if sint (f_Timeout frame) > 0 then Some (sint (f_Timeout frame)) else None)\<rparr>;
          s1 = s\<lparr>cx := c1\<rparr>
      in case Lookup (sv_router svr) tokens of
           Inl er \<Rightarrow>
             if Is er ErrNotFound_cli then ctx_Error e CodeNotFound (''Command '' @ cmd @ '' not found'') s1
             else ctx_Error e CodeUnavailable (Error er) s1
         | Inr (r, args) \<Rightarrow>
             if length (r_params r) > length args then ctx_Error e CodeUnavailable (Usage r) s1
             else case c_Handle (r_command r) of
               None \<Rightarrow> None
             | Some cb \<Rightarrow> Some (run_command svr r cb args s1))"

subsection \<open>The loop of a connection\<close>

text \<open>The reply to a handshake is a struct printed as JSON; its content is a parameter.\<close>

definition answer :: "'w cli_env \<Rightarrow> (int \<Rightarrow> gval) \<Rightarrow> 'w cli_server \<Rightarrow> Frame \<Rightarrow> 'w cli_state \<Rightarrow> (goerror option \<times> 'w cli_state) option" where
  "answer e hello svr frame s0 =
     (let s = s0\<lparr>cx := (cx s0)\<lparr>cx_seq := f_Seq frame\<rparr>\<rparr> in
      if f_Type frame = PacketTypeHandshake then
        ctx_send e \<lparr>rp_Type = PacketTypeHandshake, rp_Code = 0, rp_Message = '''', rp_Data = PValue (hello (cx_ID (cx s)))\<rparr> s
      else if f_Type frame = PacketTypeCompleter then
        ctx_send e \<lparr>rp_Type = PacketTypeCompleter, rp_Code = 0, rp_Message = '''',
          rp_Data = PValue (VSlice KString (map VStr (Completer (sv_router svr) (Fields (of_bytes (data_bytes frame))))))\<rparr> s
      else if f_Type frame = PacketTypeCommand then execute e svr frame s
      else Some (None, s))"

function read_loop :: "'w cli_env \<Rightarrow> (int \<Rightarrow> gval) \<Rightarrow> 'w cli_server \<Rightarrow> byte list \<Rightarrow> 'w cli_state \<Rightarrow> (goerror \<times> 'w cli_state) option" where
  "read_loop e hello svr input s =
     (case readFrame input of Inl er \<Rightarrow> Some (io_err er, s)
      | Inr (frame, rest) \<Rightarrow>
          (case answer e hello svr frame s of None \<Rightarrow> None
           | Some (Some er, s') \<Rightarrow> Some (er, s')
           | Some (None, s') \<Rightarrow> read_loop e hello svr rest s'))"
  by pat_completeness auto
termination
  by (relation "measure (\<lambda>(e, hello, svr, input, s). length input)") (auto simp: readFrame_shrinks)

declare read_loop.simps [simp del]

subsection \<open>Connections\<close>

definition MaxInt64 :: int where "MaxInt64 = 2 ^ 63 - 1"

definition nextSequence :: "int \<Rightarrow> int" where
  "nextSequence sequence = (if sequence = MaxInt64 then 1 else sequence) + 1"

text \<open>The connections that are open, by their number, and those that were closed.\<close>

record conns =
  sequence :: int
  ctxMap :: "int list"
  closed :: "int list"

definition process ::
    "'w cli_env \<Rightarrow> (int \<Rightarrow> gval) \<Rightarrow> 'w cli_server \<Rightarrow> byte list \<Rightarrow> md_heap \<Rightarrow> 'w \<Rightarrow> conns \<Rightarrow> ((goerror \<times> 'w cli_state) \<times> conns) option" where
  "process e hello svr input h w cs =
     (let ident = nextSequence (sequence cs);
          s = \<lparr>heap = h, cx = ctx_reset ident, sock = w\<rparr>;
          cs1 = cs\<lparr>sequence := ident, ctxMap := ident # ctxMap cs\<rparr>
      in case read_loop e hello svr input s of None \<Rightarrow> None
         | Some r \<Rightarrow> Some (r, cs1\<lparr>ctxMap := removeAll ident (ctxMap cs1), closed := closed cs1 @ [ident]\<rparr>))"

text \<open>\<open>Stop\<close> closes the listener once and every open connection; the first error of these wins.\<close>

definition cli_Stop :: "bool \<Rightarrow> goerror option option \<Rightarrow> (int \<Rightarrow> goerror option) \<Rightarrow> conns \<Rightarrow> (goerror option \<times> bool) \<times> conns" where
  "cli_Stop exitFlag listener close cs =
     (if exitFlag then ((None, True), cs)
      else
        (let err = (case listener of None \<Rightarrow> None | Some er \<Rightarrow> er);
             closeErrs = List.map_filter close (ctxMap cs)
         in ((case closeErrs of [] \<Rightarrow> err | er # _ \<Rightarrow> Some er, True), cs\<lparr>closed := closed cs @ ctxMap cs\<rparr>)))"

subsection \<open>The client\<close>

text \<open>
  \<open>transport/cli/client.go\<close>. The sequence number skips 0. The loop over the socket hands each
  frame to the reader of its kind; \<open>waitResponse\<close> consumes the command frames until the complete one
  with its number, and prints on the way. When the frames run out it waits for its timeout: \<open>None\<close> for the rest.
\<close>

definition getSequence :: "16 word \<Rightarrow> 16 word" where
  "getSequence sq = (if sq + 1 = 0 then 1 else sq + 1)"

definition split_address :: "string \<Rightarrow> string \<times> string" where
  "split_address address =
     (let found = filter (\<lambda>i. take 3 (drop i address) = ''://'') [0..<length address] in
      case found of [] \<Rightarrow> (''tcp'', address) | pos # _ \<Rightarrow> (take pos address, drop (pos + 3) address))"

record inbox =
  ready :: nat
  completions :: "Frame list"
  commands :: "Frame list"

fun ioLoop :: "Frame list \<Rightarrow> inbox \<Rightarrow> inbox" where
  "ioLoop [] b = b"
| "ioLoop (frame # fs) b =
     ioLoop fs
       (if f_Type frame = PacketTypeHandshake then b\<lparr>ready := Suc (ready b)\<rparr>
        else if f_Type frame = PacketTypeCompleter then b\<lparr>completions := completions b @ [frame]\<rparr>
        else if f_Type frame = PacketTypeCommand then b\<lparr>commands := commands b @ [frame]\<rparr>
        else b)"

fun waitResponse :: "16 word \<Rightarrow> Frame list \<Rightarrow> string \<Rightarrow> string \<times> Frame list option" where
  "waitResponse sq [] out = (out, None)"
| "waitResponse sq (res # fs) out =
     (if f_Seq res = sq then
        (let out' = out @ of_bytes (if f_Error res \<noteq> [] then f_Error res else data_bytes res) in
         if f_Flag res = FlagComplete then (out' @ [CHR 0x0A], Some fs) else waitResponse sq fs out')
      else waitResponse sq fs out)"

definition command_frame :: "16 word \<Rightarrow> 64 word \<Rightarrow> 64 word \<Rightarrow> string \<Rightarrow> Frame" where
  "command_frame sq timeout now line = newFrame PacketTypeCommand FlagComplete sq timeout (Some (to_bytes line)) now"

text \<open>
  \<open>Execute\<close> on a fresh connection to the server: the error of the write, or what is printed and whether
  the answer was complete. Both directions of the connection take every byte.
\<close>

definition Execute ::
    "byte list cli_env \<Rightarrow> (int \<Rightarrow> gval) \<Rightarrow> byte list cli_server \<Rightarrow> byte list cli_state \<Rightarrow> 16 word \<Rightarrow> 64 word \<Rightarrow> 64 word \<Rightarrow> string \<Rightarrow>
     (goerror + string \<times> bool) option" where
  "Execute e hello svr s sq timeout now line =
     (case writeFrame buffer_writer (command_frame (getSequence sq) timeout now line) [] of
        (Some er, _) \<Rightarrow> Some (Inl (io_err er))
      | (None, input) \<Rightarrow>
        (case read_loop e hello svr input s of
           None \<Rightarrow> None
         | Some (_, s') \<Rightarrow>
             (case waitResponse (getSequence sq)
                 (commands (ioLoop (fst (read_frames (sock s'))) \<lparr>ready = 0, completions = [], commands = []\<rparr>)) [] of
                (out, rest) \<Rightarrow> Some (Inr (out, rest \<noteq> None)))))"

subsection \<open>Facts about a session\<close>

lemma of_to_bytes [simp]: "of_bytes (to_bytes s) = s"
proof -
  have "char_of (unat (of_nat (of_char c) :: byte)) = c" for c :: char
    by (simp add: unat_byte)
  then show ?thesis by (simp add: of_bytes_def to_bytes_def o_def)
qed

lemma length_to_bytes [simp]: "length (to_bytes s) = length s"
  by (simp add: to_bytes_def)

lemma of_bytes_append [simp]: "of_bytes (xs @ ys) = of_bytes xs @ of_bytes ys" "of_bytes [] = []"
  by (simp_all add: of_bytes_def)

lemma received_simps [simp]:
  "f_Seq (received f) = f_Seq f" "f_Type (received f) = f_Type f" "f_Flag (received f) = f_Flag f"
  "f_Error (received f) = f_Error f" "f_Timeout (received f) = f_Timeout f" "data_bytes (received f) = data_bytes f"
  by (simp_all add: received_def data_bytes_def)

lemma flags_differ [simp]: "FlagPortion \<noteq> FlagComplete" "FlagComplete \<noteq> FlagPortion"
  by (simp_all add: FlagPortion_def FlagComplete_def)

lemma well_chunked_Cons:
  assumes "well_chunked t sq buf (f # fs)"
  shows "f_Seq f = sq" "f_Type f = t" "f_Error f = []" "f_Flag f = (if fs = [] then FlagComplete else FlagPortion)"
    "buf = data_bytes f @ concat (map data_bytes fs)" "well_chunked t sq (concat (map data_bytes fs)) fs"
  using assms by (cases fs; auto simp: well_chunked_def)+

lemma waitResponse_chunks:
  "well_chunked t sq buf fs \<Longrightarrow> fs \<noteq> [] \<Longrightarrow>
   waitResponse sq (map received fs @ rest) out = (out @ of_bytes buf @ [CHR 0x0A], Some rest)"
proof (induction fs arbitrary: buf out)
  case (Cons f fs)
  note w = well_chunked_Cons [OF Cons.prems(1)]
  show ?case
  proof (cases "fs = []")
    case True
    then show ?thesis by (simp add: w)
  next
    case False
    with Cons.IH [OF w(6) False] show ?thesis by (simp add: w)
  qed
qed simp

lemma ioLoop_commands:
  "\<forall>f\<in>set fs. f_Type f = PacketTypeCommand \<Longrightarrow> ioLoop fs b = b\<lparr>commands := commands b @ fs\<rparr>"
  by (induction fs arbitrary: b) (auto simp: PacketTypeCommand_def PacketTypeHandshake_def PacketTypeCompleter_def)

lemma read_loop_once:
  assumes "length (data_bytes f) < 65536" and "length (f_Error f) < 65536"
    and "answer e hello svr (received f) s = Some (er, s')"
  shows "\<exists>er'. read_loop e hello svr (frame_bytes f) s = Some (er', s')"
proof -
  have "read_loop e hello svr [] s' = Some (io_err EOF, s')"
    by (simp add: read_loop.simps [of e hello svr "[]"] readFrame_def ReadFull_def)
  moreover have "readFrame (frame_bytes f) = Inr (received f, [])"
    using readFrame_bytes [OF assms(1,2), of "[]"] by simp
  ultimately show ?thesis
    using assms(3) by (cases er) (simp_all add: read_loop.simps [of e hello svr "frame_bytes f"])
qed

lemma Lookup_error: "Lookup r ts = Inl er \<Longrightarrow> er = ErrNotFound_cli"
  by (induction r ts rule: Lookup.induct) (auto split: option.splits if_splits)

lemma answer_command:
  "f_Type f = PacketTypeCommand \<Longrightarrow> answer e hello svr f s = execute e svr f (s\<lparr>cx := (cx s)\<lparr>cx_seq := f_Seq f\<rparr>\<rparr>)"
  by (simp add: answer_def PacketTypeCommand_def PacketTypeHandshake_def PacketTypeCompleter_def)

lemma run_command_chain:
  "\<exists>c s1. run_command svr r cb args s = Chain (sv_middleware svr) (\<lambda>_. cb) c s1 \<and> sock s1 = sock s \<and> cx_seq (cx s1) = cx_seq (cx s)"
proof -
  obtain h p where "FromContext (heap s) (cx_ctx (cx s)) = (h, p)" by (rule prod.exhaust)
  then show ?thesis by (simp add: run_command_def Let_def) (intro exI conjI, rule refl, simp_all)
qed

lemma execute_unknown:
  assumes "Lookup (sv_router svr) (Fields (of_bytes (data_bytes f))) = Inl er"
  shows "\<exists>s1. execute e svr f s = ctx_Error e CodeNotFound (''Command '' @ of_bytes (data_bytes f) @ '' not found'') s1 \<and>
    sock s1 = sock s \<and> cx_seq (cx s1) = cx_seq (cx s)"
  using assms Lookup_error [OF assms] unfolding execute_def Let_def
  by (simp only: sum.case Is_refl if_True) (rule exI, rule conjI [OF refl], simp)

text \<open>What the client makes of the bytes of complete frames of one answer.\<close>

lemma waitResponse_bytes:
  assumes "\<forall>f\<in>set fs. length (data_bytes f) < 65536 \<and> length (f_Error f) < 65536 \<and> f_Type f = PacketTypeCommand"
  shows "waitResponse sq (commands (ioLoop (fst (read_frames (concat (map frame_bytes fs))))
      \<lparr>ready = 0, completions = [], commands = []\<rparr>)) [] = waitResponse sq (map received fs) []"
proof -
  have "read_frames (concat (map frame_bytes fs)) = (map received fs, EOF)"
    using read_frames_bytes [of fs "[]"] assms by (simp add: read_frames_Nil)
  moreover have "ioLoop (map received fs) b = b\<lparr>commands := commands b @ map received fs\<rparr>" for b
    using assms by (intro ioLoop_commands) auto
  ultimately show ?thesis by simp
qed

text \<open>One command, whose answer appends the bytes of the frames \<open>fs\<close> to the socket.\<close>

lemma Execute_frames:
  assumes "length line < 65536" and "sock s = []"
    and "answer e hello svr (received (command_frame (getSequence sq) timeout now line)) s = Some (er, s')"
    and "sock s' = concat (map frame_bytes fs)"
    and "\<forall>f\<in>set fs. length (data_bytes f) < 65536 \<and> length (f_Error f) < 65536 \<and> f_Type f = PacketTypeCommand"
  shows "Execute e hello svr s sq timeout now line =
    Some (Inr (case waitResponse (getSequence sq) (map received fs) [] of (out, rest) \<Rightarrow> (out, rest \<noteq> None)))"
proof -
  let ?f = "command_frame (getSequence sq) timeout now line"
  have d: "data_bytes ?f = to_bytes line" "f_Error ?f = []" by (simp_all add: command_frame_def)
  have w: "writeFrame buffer_writer ?f [] = (None, frame_bytes ?f)"
    using writeFrame_buffer [of ?f "[]"] assms(1) by (simp add: d frame_bytes_def)
  from read_loop_once [OF _ _ assms(3)] assms(1) obtain er' where
    "read_loop e hello svr (frame_bytes ?f) s = Some (er', s')" by (auto simp: d)
  then show ?thesis
    using w waitResponse_bytes [OF assms(5), of "getSequence sq"] assms(4)
    by (simp add: Execute_def split: prod.splits)
qed

section \<open>Properties\<close>

text \<open>
  C16: A command and its answer. The line a client sends reaches the command the router finds for it; if that
  command, through the middlewares, answers with \<open>Success\<close>, the client prints exactly the encoded
  value and a newline and is done. An empty value is the exception: no frame is sent and
  the client prints nothing and waits for its timeout.
\<close>

theorem command_roundtrip:
  assumes "wr e = buffer_writer" and "sock s = []" and "length line < 65536"
    and "Lookup (sv_router svr) (Fields line) = Inr (r, args)" and "length (r_params r) \<le> length args"
    and "c_Handle (r_command r) = Some cb" and "encode e v = Some (Inr buf)"
    and "\<forall>c s. \<exists>s1. sock s1 = sock s \<and> cx_seq (cx s1) = cx_seq (cx s) \<and>
      ctx_Success e v s1 = Some (Chain (sv_middleware svr) (\<lambda>_. cb) c s)"
  shows "Execute e hello svr s sq timeout now line =
    Some (Inr (if buf = [] then ([], False) else (of_bytes buf @ [CHR 0x0A], True)))"
proof -
  define f where "f = received (command_frame (getSequence sq) timeout now line)"
  let ?fs = "chunk_frames PacketTypeCommand (getSequence sq) (clk e) buf 0"
  have f: "data_bytes f = to_bytes line" "f_Type f = PacketTypeCommand" "f_Seq f = getSequence sq"
    by (simp_all add: f_def command_frame_def)
  obtain s0 where a: "answer e hello svr f s = Some (run_command svr r cb args s0)"
    and s0: "sock s0 = []" "cx_seq (cx s0) = getSequence sq"
    using assms(2,4-6) by (simp add: answer_command [OF f(2)] execute_def f(1,3) Let_def not_less)
  obtain c s1 where c: "run_command svr r cb args s0 = Chain (sv_middleware svr) (\<lambda>_. cb) c s1"
    and s1: "sock s1 = []" "cx_seq (cx s1) = getSequence sq"
    using run_command_chain [of svr r cb args s0] s0 by auto
  from assms(8) obtain s2 where s2: "sock s2 = []" "cx_seq (cx s2) = getSequence sq"
    "ctx_Success e v s2 = Some (run_command svr r cb args s0)" using c s1 by metis
  then have "(None, s2\<lparr>sock := concat (map frame_bytes ?fs)\<rparr>) = run_command svr r cb args s0"
    using assms(1,7) by (simp add: ctx_Success_def ctx_send_def on_sock_def writeChunked_def chunk_loop_buffer)
  then obtain s' where s': "run_command svr r cb args s0 = (None, s')" "sock s' = concat (map frame_bytes ?fs)"
    by (metis cli_state.select_convs(2) cli_state.surjective cli_state.update_convs(2))
  have well: "well_chunked PacketTypeCommand (getSequence sq) buf ?fs"
    using chunk_frames_well [of PacketTypeCommand "getSequence sq" 0 buf "clk e"] by simp
  have empty: "?fs = [] \<longleftrightarrow> buf = []" by (subst chunk_frames.simps) (simp add: Let_def)
  have "Execute e hello svr s sq timeout now line =
      Some (Inr (case waitResponse (getSequence sq) (map received ?fs) [] of (out, rest) \<Rightarrow> (out, rest \<noteq> None)))"
    by (rule Execute_frames [OF assms(3,2) a [unfolded s'(1) f_def] s'(2)])
      (use well in \<open>auto simp: well_chunked_def wireChunkSize_def\<close>)
  then show ?thesis using waitResponse_chunks [OF well, of "[]" "[]"] empty by auto
qed

text \<open>
  A line no command is registered for is answered with the error 4004, and the client
  prints it with the line.
\<close>

theorem unknown_command:
  assumes "wr e = buffer_writer" and "sock s = []" and "length line < 65000"
    and "Lookup (sv_router svr) (Fields line) = Inl er"
  shows "Execute e hello svr s sq timeout now line =
    Some (Inr (''ERROR(4004): Command '' @ line @ '' not found'' @ [CHR 0x0A], True))"
proof -
  define f where "f = received (command_frame (getSequence sq) timeout now line)"
  define m where "m = ''Command '' @ line @ '' not found''"
  define g where "g = error_frame PacketTypeCommand (getSequence sq) CodeNotFound m"
  have i: "int_str CodeNotFound = ''4004''" by code_simp
  have g: "f_Error g = to_bytes (''ERROR(4004): '' @ m)" "data_bytes g = []" "f_Type g = PacketTypeCommand"
    "f_Seq g = getSequence sq" "f_Flag g = FlagComplete"
    by (simp_all add: g_def error_frame_def data_bytes_def i)
  have l: "length (f_Error g) < 65536" "f_Error g \<noteq> []" using assms(3) by (simp_all add: g m_def) (simp add: to_bytes_def)
  have f: "data_bytes f = to_bytes line" "f_Type f = PacketTypeCommand" "f_Seq f = getSequence sq"
    by (simp_all add: f_def command_frame_def)
  have p: "(0::int) < CodeNotFound" by (simp add: CodeNotFound_def)
  have "writeFrame buffer_writer g [] = (None, frame_bytes g)"
    using writeFrame_buffer [of g "[]"] l by (simp add: g(2) frame_bytes_def)
  moreover obtain s1 where "answer e hello svr f s = ctx_Error e CodeNotFound m s1" "sock s1 = []" "cx_seq (cx s1) = getSequence sq"
    using execute_unknown [of svr f er e "s\<lparr>cx := (cx s)\<lparr>cx_seq := f_Seq f\<rparr>\<rparr>"] assms(2,4) f(1,3)
    by (auto simp: answer_command [OF f(2)] m_def)
  ultimately obtain s' where a: "answer e hello svr f s = Some (None, s')" "sock s' = concat (map frame_bytes [g])"
    using assms(1) p by (simp add: ctx_Error_def ctx_send_def on_sock_def g_def [symmetric])
  have "Execute e hello svr s sq timeout now line =
      Some (Inr (case waitResponse (getSequence sq) (map received [g]) [] of (out, rest) \<Rightarrow> (out, rest \<noteq> None)))"
    by (rule Execute_frames [OF _ assms(2) a(1) [unfolded f_def] a(2)]) (use assms(3) l in \<open>auto simp: g(2,3)\<close>)
  then show ?thesis using l(2) by (simp add: g(1,4,5)) (simp add: m_def)
qed

subsection \<open>A sample server\<close>

definition sample_cli_env :: "byte list cli_env" where
  "sample_cli_env = \<lparr>fmts = sample_formats, map_ord = (\<lambda>m. m), clk = (\<lambda>_. 0), wr = buffer_writer\<rparr>"

definition sample_cli_server :: "byte list cli_server" where
  "sample_cli_server = \<lparr>sv_router = Router '''' [] [Router ''ping'' [''ping''] []
       (wrapCommand ''/ping'' '''' (\<lambda>s. the (ctx_Success sample_cli_env (PValue (VStr ''pong'')) s))) []] no_command [],
     sv_middleware = [], sv_ctx = background\<rparr>"

definition sample_cli_state :: "byte list cli_state" where
  "sample_cli_state = \<lparr>heap = [], cx = ctx_reset 1, sock = []\<rparr>"

lemma sample_cli_simps [simp]: "wr sample_cli_env = buffer_writer" "sock sample_cli_state = []"
  by (simp_all add: sample_cli_env_def sample_cli_state_def)

theorem command_roundtrip_witness:
  "Execute sample_cli_env (\<lambda>_. VNil) sample_cli_server sample_cli_state 0 0 0 ''ping'' = Some (Inr (''pong'' @ [CHR 0x0A], True))"
proof -
  let ?cb = "\<lambda>s. the (ctx_Success sample_cli_env (PValue (VStr ''pong'')) s)"
  let ?r = "Router ''ping'' [''ping''] [] (wrapCommand ''/ping'' '''' ?cb) []"
  have fields: "Fields ''ping'' = [''ping'']" by code_simp
  have en: "encode sample_cli_env (PValue (VStr ''pong'')) = Some (Inr (to_bytes ''pong''))"
    by (simp add: encode_def serialize_def)
  have nonempty: "to_bytes ''pong'' \<noteq> []" by (simp add: to_bytes_def)
  have "Execute sample_cli_env (\<lambda>_. VNil) sample_cli_server sample_cli_state 0 0 0 ''ping'' =
      Some (Inr (if to_bytes ''pong'' = [] then ([], False) else (of_bytes (to_bytes ''pong'') @ [CHR 0x0A], True)))"
  proof (rule command_roundtrip [where r = ?r and args = "[]" and cb = ?cb and v = "PValue (VStr ''pong'')"])
    show "Lookup (sv_router sample_cli_server) (Fields ''ping'') = Inr (?r, [])"
      by (simp only: fields) (simp add: sample_cli_server_def wrapCommand_def)
    show "\<forall>c s. \<exists>s1. sock s1 = sock s \<and> cx_seq (cx s1) = cx_seq (cx s) \<and>
        ctx_Success sample_cli_env (PValue (VStr ''pong'')) s1 = Some (Chain (sv_middleware sample_cli_server) (\<lambda>_. ?cb) c s)"
      by (simp add: sample_cli_server_def ctx_Success_def ctx_send_def en) blast
  qed (simp_all add: wrapCommand_def en del: of_to_bytes)
  then show ?thesis using nonempty by (simp del: of_bytes_append)
qed

theorem unknown_command_witness:
  "Execute sample_cli_env (\<lambda>_. VNil) sample_cli_server sample_cli_state 0 0 0 ''pong'' =
     Some (Inr (''ERROR(4004): Command pong not found'' @ [CHR 0x0A], True))"
proof -
  have fields: "Fields ''pong'' = [''pong'']" by code_simp
  have "Lookup (sv_router sample_cli_server) (Fields ''pong'') = Inl ErrNotFound_cli"
    by (simp only: fields) (simp add: sample_cli_server_def no_command_def)
  from unknown_command [OF sample_cli_simps _ this, of "\<lambda>_. VNil" 0 0 0] show ?thesis by simp
qed

end
