(* ===== verification/Http.thy ===== *)
theory Http
  imports JWT
begin

text \<open>
  \<open>transport/http\<close> (\<open>server.go\<close>, \<open>context.go\<close>, \<open>cors.go\<close>) and \<open>pkg/response\<close>: what happens to a request between
  the router and the handler of its route, and how errors and panics become answers.

  The answer is the state of a \<open>http.ResponseWriter\<close>: headers, status, whether something was written,
  and the documents written. The handlers that gin runs after an interceptor are a function argument; a
  handler that panics answers the panic. Header names are compared without
  regard to case, so the maps hold lower-case names. JSON encoding is a parameter. Values set on the metadata
  reach the client through its tee writer; they are kept in the log of that writer, which belongs to the metadata
  object, and not in the header map. Tracing and metrics are not modelled.
\<close>

subsection \<open>Envelopes\<close>

record Envelope =
  ev_Code :: int
  ev_Message :: string
  ev_Data :: "string option"

definition SetCode :: "int \<Rightarrow> Envelope \<Rightarrow> Envelope" where "SetCode c ev = ev\<lparr>ev_Code := c\<rparr>"
definition SetMessage :: "string \<Rightarrow> Envelope \<Rightarrow> Envelope" where "SetMessage m ev = ev\<lparr>ev_Message := m\<rparr>"
definition SetData :: "string option \<Rightarrow> Envelope \<Rightarrow> Envelope" where "SetData d ev = ev\<lparr>ev_Data := d\<rparr>"

definition newResponse :: "int \<Rightarrow> string \<Rightarrow> string option \<Rightarrow> Envelope" where
  "newResponse code message data = \<lparr>ev_Code = code, ev_Message = message, ev_Data = data\<rparr>"

type_synonym header = "(string, string list) gomap"

definition header_Get :: "header \<Rightarrow> string \<Rightarrow> string" where
  "header_Get h k = (case map_of h (ToLower k) of Some (v # _) \<Rightarrow> v | _ \<Rightarrow> '''')"

definition header_Set :: "string \<Rightarrow> string \<Rightarrow> header \<Rightarrow> header" where
  "header_Set k v h = AList.update (ToLower k) [v] h"

definition header_Add :: "string \<Rightarrow> string \<Rightarrow> header \<Rightarrow> header" where
  "header_Add k v h = AList.update (ToLower k) ((case map_of h (ToLower k) of Some vs \<Rightarrow> vs | None \<Rightarrow> []) @ [v]) h"

record http_state = env +
  rw_header :: header
  rw_status :: int
  rw_written :: bool
  rw_body :: "string list"
  gin_errors :: "goerror list"
  gin_aborted :: bool

type_synonym marshal = "Envelope \<Rightarrow> goerror + string"

definition WriteHeader :: "int \<Rightarrow> 'a http_state_scheme \<Rightarrow> 'a http_state_scheme" where
  "WriteHeader code s = (if rw_written s then s else s\<lparr>rw_status := code\<rparr>)"

definition rw_Write :: "string \<Rightarrow> 'a http_state_scheme \<Rightarrow> 'a http_state_scheme" where
  "rw_Write doc s = s\<lparr>rw_written := True, rw_body := rw_body s @ [doc]\<rparr>"

text \<open>\<open>response.Write\<close>; the fallback of a value that cannot be encoded has no data and is always encodable.\<close>

definition response_Write :: "marshal \<Rightarrow> int \<Rightarrow> Envelope option \<Rightarrow> 'a http_state_scheme \<Rightarrow> 'a http_state_scheme" where
  "response_Write marshal status0 ev0 s =
     (let status = (if status0 = 0 then 200 else status0);
          ev = (case ev0 of None \<Rightarrow> newResponse 1005 ''empty response'' None | Some e \<Rightarrow> e);
          s1 = WriteHeader status (s\<lparr>rw_header := header_Set ''Content-Type'' ''application/json; charset=utf-8'' (rw_header s)\<rparr>)
      in case marshal ev of
           Inr doc \<Rightarrow> rw_Write doc s1
         | Inl er \<Rightarrow> (case marshal (newResponse 1001 (''marshal failure: '' @ Error er) None) of
             Inr doc \<Rightarrow> rw_Write doc s1 | Inl _ \<Rightarrow> rw_Write [] s1))"

definition abortWithEnvelope :: "marshal \<Rightarrow> int \<Rightarrow> int \<Rightarrow> string \<Rightarrow> 'a http_state_scheme \<Rightarrow> 'a http_state_scheme" where
  "abortWithEnvelope marshal status code message s =
     (response_Write marshal status (Some (newResponse code message None)) s)\<lparr>gin_aborted := True\<rparr>"

text \<open>
  \<open>Error\<close> and \<open>Success\<close> of the context a handler gets: always status 200, the code is in the envelope.
  Rendering is done by gin's \<open>JSON\<close>, a parameter.
\<close>

definition context_Error :: "(int \<Rightarrow> Envelope \<Rightarrow> 's \<Rightarrow> 's) \<Rightarrow> int \<Rightarrow> string \<Rightarrow> 's \<Rightarrow> 's" where
  "context_Error gin_JSON code message = gin_JSON 200 (newResponse code message None)"

definition context_Success :: "(int \<Rightarrow> Envelope \<Rightarrow> 's \<Rightarrow> 's) \<Rightarrow> string option \<Rightarrow> 's \<Rightarrow> 's" where
  "context_Success gin_JSON v = gin_JSON 200 (newResponse 0 '''' v)"

subsection \<open>Recovery\<close>

text \<open>The rest of the chain: the value of a panic, if there is one, and the state.\<close>

type_synonym ('c, 's) gin_handler = "'c \<Rightarrow> 's \<Rightarrow> string option \<times> 's"

definition recoveryInterceptor :: "marshal \<Rightarrow> ('c, 'a http_state_scheme) gin_handler \<Rightarrow> ('c, 'a http_state_scheme) gin_handler" where
  "recoveryInterceptor marshal nxt c s =
     (case nxt c s of
        (None, s') \<Rightarrow> (None, s')
      | (Some r, s') \<Rightarrow>
          (None, if \<not> rw_written s' then abortWithEnvelope marshal 500 CodeInternal ''internal server error'' s'
                 else s'\<lparr>gin_aborted := True\<rparr>))"

text \<open>A registered route: the handler's error is recorded on the gin context.\<close>

definition register_handler :: "('c \<Rightarrow> 'a http_state_scheme \<Rightarrow> (string + goerror option) \<times> 'a http_state_scheme) \<Rightarrow> ('c, 'a http_state_scheme) gin_handler" where
  "register_handler h c s =
     (case h c s of
        (Inl p, s') \<Rightarrow> (Some p, s')
      | (Inr None, s') \<Rightarrow> (None, s')
      | (Inr (Some er), s') \<Rightarrow> (None, s'\<lparr>gin_errors := gin_errors s' @ [er]\<rparr>))"

subsection \<open>The request interceptor\<close>

text \<open>
  \<open>rq_ClientIP\<close> is gin's \<open>ClientIP()\<close> for the request's connection, a function of the request headers: unless the engine is
  told which proxies to trust, and the server does not tell it, gin answers from \<open>X-Forwarded-For\<close> or \<open>X-Real-IP\<close>.
\<close>

record request =
  rq_Method :: string
  rq_Path :: string
  rq_FullPath :: string
  rq_ClientIP :: "header \<Rightarrow> string"
  rq_Header :: header

definition http_Protocol :: string where "http_Protocol = ''http''"

definition request_metadata :: "string \<Rightarrow> request \<Rightarrow> Metadata \<Rightarrow> Metadata" where
  "request_metadata uuid rq md0 =
     (let hdr = header_Set RequestClientIP (rq_ClientIP rq (rq_Header rq)) (rq_Header rq);
          md1 = set_TeeWriter [] (set_TeeReader (header_Get hdr) md0);
          md2 = (if \<not> md_Has md1 RequestID then md_Set RequestID uuid md1 else md1);
          md3 = md_Set RequestProtocol http_Protocol md2;
          path = (if rq_FullPath rq = '''' then rq_Path rq else rq_FullPath rq);
          md4 = md_Set RequestPath path md3;
          md5 = md_Set RequestRoute (rq_FullPath rq) md4
      in md_Set RequestMethod (rq_Method rq) md5)"

definition run_next :: "('c, 'a http_state_scheme) gin_handler \<Rightarrow> ('a http_state_scheme, 'c) Handler" where
  "run_next nxt c s = (let s' = snd (nxt c s) in (if gin_errors s' = [] then None else Some (last (gin_errors s')), s'))"

definition respond_error :: "marshal \<Rightarrow> goerror \<Rightarrow> 'a http_state_scheme \<Rightarrow> 'a http_state_scheme" where
  "respond_error marshal err s =
     (if rw_written s then s
      else if IsAbort err then
        (case AsError err of
           Some ae \<Rightarrow> abortWithEnvelope marshal (HTTPStatus (Code ae)) (Code ae) (Message ae) s
         | None \<Rightarrow> abortWithEnvelope marshal 200 CodeOK '''' s)
      else
        (case AsError err of
           Some se \<Rightarrow> abortWithEnvelope marshal (HTTPStatus (Code se)) (Code se) (Message se) s
         | None \<Rightarrow> abortWithEnvelope marshal 500 CodeUnavailable ''internal server error'' s))"

text \<open>
  The chain runs with the inner recovery, so no panic of a handler reaches the interceptor.
\<close>

definition requestInterceptor ::
    "marshal \<Rightarrow> string \<Rightarrow> ('a http_state_scheme, 'b ctx_scheme) Middleware list \<Rightarrow> request \<Rightarrow>
     ('b ctx_scheme, 'a http_state_scheme) gin_handler \<Rightarrow> ('b ctx_scheme, 'a http_state_scheme) gin_handler" where
  "requestInterceptor marshal uuid mws rq nxt c s =
     (let (h, p) = FromContext (heap s) c;
          s0 = s\<lparr>heap := h[p := request_metadata uuid rq (h ! p)]\<rparr>
      in case Chain mws (run_next nxt) (NewContext c p) s0 of
           (None, s1) \<Rightarrow> (None, s1)
         | (Some err, s1) \<Rightarrow> (None, respond_error marshal err s1))"

definition http_engine ::
    "marshal \<Rightarrow> string \<Rightarrow> ('a http_state_scheme, 'b ctx_scheme) Middleware list \<Rightarrow> request \<Rightarrow>
     ('b ctx_scheme, 'a http_state_scheme) gin_handler \<Rightarrow> ('b ctx_scheme, 'a http_state_scheme) gin_handler" where
  "http_engine marshal uuid mws rq route =
     recoveryInterceptor marshal (requestInterceptor marshal uuid mws rq (recoveryInterceptor marshal route))"

subsection \<open>Facts about answers\<close>

lemma HTTPStatus_error: "400 \<le> HTTPStatus c"
  by (simp add: HTTPStatus_def)

lemma response_Write_simps [simp]:
  "rw_written (response_Write marshal st ev s)"
  "\<not> rw_written s \<Longrightarrow> rw_status (response_Write marshal st ev s) = (if st = 0 then 200 else st)"
  "length (rw_body (response_Write marshal st ev s)) = Suc (length (rw_body s))"
  by (auto simp: response_Write_def rw_Write_def WriteHeader_def Let_def split: sum.splits)

lemma abort_simps [simp]:
  "rw_written (abortWithEnvelope marshal st code msg s)"
  "\<not> rw_written s \<Longrightarrow> rw_status (abortWithEnvelope marshal st code msg s) = (if st = 0 then 200 else st)"
  "length (rw_body (abortWithEnvelope marshal st code msg s)) = Suc (length (rw_body s))"
  "gin_aborted (abortWithEnvelope marshal st code msg s)"
  by (simp_all add: abortWithEnvelope_def)

lemma abort_body:
  "marshal (newResponse code msg None) = Inr doc \<Longrightarrow> rw_body (abortWithEnvelope marshal st code msg s) = rw_body s @ [doc]"
  by (simp add: abortWithEnvelope_def response_Write_def rw_Write_def WriteHeader_def Let_def)

lemma respond_error_status:
  assumes "\<not> rw_written s" and "\<not> IsAbort er"
  shows "rw_written (respond_error marshal er s) \<and> 400 \<le> rw_status (respond_error marshal er s)"
proof (cases "AsError er")
  case None
  then show ?thesis using assms by (simp add: respond_error_def)
next
  case (Some se)
  then show ?thesis using assms HTTPStatus_error [of "Code se"] by (auto simp: respond_error_def)
qed

lemma recovery_never_panics: "fst (recoveryInterceptor marshal nxt c s) = None"
  by (simp add: recoveryInterceptor_def split: prod.splits option.splits)

lemma recovery_pass: "nxt c s = (None, s') \<Longrightarrow> recoveryInterceptor marshal nxt c s = (None, s')"
  by (simp add: recoveryInterceptor_def)

lemma header_Get_Set: "header_Get (header_Set k v h) k' = (if ToLower k' = ToLower k then v else header_Get h k')"
  by (simp add: header_Get_def header_Set_def gomap_simps)

lemma request_keys_distinct:
  "distinct [ToLower RequestID, ToLower RequestPath, ToLower RequestRoute, ToLower RequestMethod, ToLower RequestProtocol,
     ToLower RequestClientIP, ToLower authorizationKey]"
  by code_simp

lemma request_keys_distinct_rev:
  "distinct [ToLower authorizationKey, ToLower RequestClientIP, ToLower RequestProtocol, ToLower RequestMethod, ToLower RequestRoute,
     ToLower RequestPath, ToLower RequestID]"
  using distinct_rev [THEN iffD2, OF request_keys_distinct] by simp

lemmas request_keys_differ = request_keys_distinct [simplified] request_keys_distinct_rev [simplified]

text \<open>What the middlewares and handlers of a fresh context read.\<close>

lemma request_metadata_Get:
  defines "hdr rq \<equiv> header_Set RequestClientIP (rq_ClientIP rq (rq_Header rq)) (rq_Header rq)"
  shows "md_Get (request_metadata uuid rq md_New) RequestProtocol = (http_Protocol, True)"
    and "md_Get (request_metadata uuid rq md_New) RequestPath =
      (if rq_FullPath rq = '''' then rq_Path rq else rq_FullPath rq, True)"
    and "md_Get (request_metadata uuid rq md_New) RequestRoute = (rq_FullPath rq, True)"
    and "md_Get (request_metadata uuid rq md_New) RequestMethod = (rq_Method rq, True)"
    and "md_Get (request_metadata uuid rq md_New) RequestClientIP = (rq_ClientIP rq (rq_Header rq), rq_ClientIP rq (rq_Header rq) \<noteq> '''')"
    and "md_Get (request_metadata uuid rq md_New) authorizationKey =
      (header_Get (rq_Header rq) authorizationKey, header_Get (rq_Header rq) authorizationKey \<noteq> '''')"
proof -
  let ?md1 = "set_TeeWriter [] (set_TeeReader (header_Get (hdr rq)) md_New)"
  have md1: "md_Get ?md1 k = (header_Get (hdr rq) (ToLower k), header_Get (hdr rq) (ToLower k) \<noteq> '''')" for k
    by (simp add: md_Get_def set_TeeWriter_def set_TeeReader_def md_New_def canonicalMetadataKey_def Let_def)
  have low: "header_Get h (ToLower k) = header_Get h k" for h k by (simp add: header_Get_def)
  have md: "md_Get (request_metadata uuid rq md_New) k =
      (if ToLower k = ToLower RequestMethod then (rq_Method rq, True)
       else if ToLower k = ToLower RequestRoute then (rq_FullPath rq, True)
       else if ToLower k = ToLower RequestPath then (if rq_FullPath rq = '''' then rq_Path rq else rq_FullPath rq, True)
       else if ToLower k = ToLower RequestProtocol then (http_Protocol, True)
       else md_Get (if \<not> md_Has ?md1 RequestID then md_Set RequestID uuid ?md1 else ?md1) k)" for k
    by (simp add: request_metadata_def Let_def md_Get_Set hdr_def)
  note d = request_keys_differ
  show "md_Get (request_metadata uuid rq md_New) RequestProtocol = (http_Protocol, True)"
    and "md_Get (request_metadata uuid rq md_New) RequestPath =
      (if rq_FullPath rq = '''' then rq_Path rq else rq_FullPath rq, True)"
    and "md_Get (request_metadata uuid rq md_New) RequestRoute = (rq_FullPath rq, True)"
    and "md_Get (request_metadata uuid rq md_New) RequestMethod = (rq_Method rq, True)"
    using d by (simp_all add: md)
  have other: "md_Get (request_metadata uuid rq md_New) k = (header_Get (hdr rq) k, header_Get (hdr rq) k \<noteq> '''')"
    if "ToLower k \<noteq> ToLower RequestMethod" "ToLower k \<noteq> ToLower RequestRoute" "ToLower k \<noteq> ToLower RequestPath"
      "ToLower k \<noteq> ToLower RequestProtocol" "ToLower k \<noteq> ToLower RequestID" for k
    unfolding md using that by (simp add: md_Get_Set md1 low)
  show "md_Get (request_metadata uuid rq md_New) RequestClientIP = (rq_ClientIP rq (rq_Header rq), rq_ClientIP rq (rq_Header rq) \<noteq> '''')"
    using d other [of RequestClientIP] by (simp add: hdr_def header_Get_Set)
  show "md_Get (request_metadata uuid rq md_New) authorizationKey =
      (header_Get (rq_Header rq) authorizationKey, header_Get (rq_Header rq) authorizationKey \<noteq> '''')"
    using d other [of authorizationKey] by (simp add: hdr_def header_Get_Set)
qed

text \<open>The state the chain starts in, for a context without metadata.\<close>

definition entry_state :: "string \<Rightarrow> request \<Rightarrow> 'a http_state_scheme \<Rightarrow> 'a http_state_scheme" where
  "entry_state uuid rq s = s\<lparr>heap := heap s @ [request_metadata uuid rq md_New]\<rparr>"

lemma requestInterceptor_fresh:
  assumes "metadataKey c = None"
  shows "requestInterceptor marshal uuid mws rq nxt c s =
    (case Chain mws (run_next nxt) (NewContext c (length (heap s))) (entry_state uuid rq s) of
       (None, s1) \<Rightarrow> (None, s1) | (Some err, s1) \<Rightarrow> (None, respond_error marshal err s1))"
  using assms by (simp add: requestInterceptor_def FromContext_def entry_state_def Let_def)

lemma request_md_entry:
  "request_md (entry_state uuid rq s) (NewContext c (length (heap s))) = request_metadata uuid rq md_New"
  by (simp add: request_md_def FromContext_def NewContext_def entry_state_def)

lemma sentinels_no_abort: "\<not> IsAbort ErrAccessDenied" "\<not> IsAbort ErrTokenExpired" "\<not> IsAbort ErrPermissionDenied"
  by (simp_all add: IsAbort_def sentinel_defs New_def ErrAbort_def)

lemma engine_rejects:
  assumes "metadataKey c = None"
    and "\<And>nxt. Chain mws nxt (NewContext c (length (heap s))) (entry_state uuid rq s) = (Some er, s1)"
  shows "http_engine marshal uuid mws rq route c s = (None, respond_error marshal er s1)"
  unfolding http_engine_def by (rule recovery_pass) (simp add: requestInterceptor_fresh [OF assms(1)] assms(2))

text \<open>
  A request without a valid token on a protected path: the middleware answers an error that is no abort, the same for
  every next handler, and keeps what the validator keeps.
\<close>

lemma JWT_reject:
  assumes "\<not> on_allowlist opts (request_md s c)" and "md = request_md s c" and "I s"
    and "\<not> (md_Has md authorizationKey \<and> (\<exists>ti. parse_token lib opts (bearer_token md) = Inr ti \<and> Valid ti))"
    and val: "\<forall>v c t s. validate opts = Some v \<longrightarrow> (I s \<longrightarrow> I (snd (v c t s))) \<and> (\<forall>er. fst (v c t s) = Some er \<longrightarrow> \<not> IsAbort er)"
  shows "\<exists>er s2. (\<forall>nxt. JWT lib opts nxt c s = (Some er, s2)) \<and> \<not> IsAbort er \<and> I s2"
proof -
  note J = JWT_protected [OF assms(1), of lib, folded assms(2)]
  obtain ve s1 where v: "(case validate opts of None \<Rightarrow> (None, s) | Some v \<Rightarrow> v c (bearer_token md) s) = (ve, s1)"
    by (rule prod.exhaust)
  have s1: "I s1" "\<And>er. ve = Some er \<Longrightarrow> \<not> IsAbort er"
    using v val assms(3) by (auto split: option.splits) (metis fst_conv snd_conv)+
  have pe: "\<not> IsAbort (map_parse_error lib e)" for e using sentinels_no_abort by (simp add: map_parse_error_def)
  show ?thesis
  proof (cases "md_Has md authorizationKey")
    case False
    then show ?thesis using J assms(3) sentinels_no_abort by auto
  next
    case h: True
    show ?thesis
    proof (cases ve)
      case None
      then show ?thesis unfolding J using h v s1 assms(4) pe sentinels_no_abort
        by (cases "parse_token lib opts (bearer_token md)") auto
    next
      case (Some er)
      then show ?thesis unfolding J using h v s1 by simp
    qed
  qed
qed

section \<open>Properties\<close>

text \<open>
  C20: The request metadata cannot be forged by a header of the same name. Whatever headers a request has, the middlewares
  and handlers of a fresh context read the path, route, method and protocol the router found (a request without a route has
  an empty route), and as the client address exactly what gin's \<open>ClientIP()\<close> answers on the headers as they arrived. That
  answer is not the address of the peer: gin computes it from headers of the client (see the witness), and the server does
  not restrict the proxies it trusts.
\<close>

theorem request_metadata_trusted:
  assumes "metadataKey c = None" and "s0 = entry_state uuid rq s" and "c0 = NewContext c (length (heap s))"
  shows "ctx_Get (heap s0) c0 RequestRoute = (rq_FullPath rq, True) \<and>
    ctx_Get (heap s0) c0 RequestPath = (if rq_FullPath rq = '''' then rq_Path rq else rq_FullPath rq, True) \<and>
    ctx_Get (heap s0) c0 RequestMethod = (rq_Method rq, True) \<and>
    ctx_Get (heap s0) c0 RequestProtocol = (http_Protocol, True) \<and>
    fst (ctx_Get (heap s0) c0 RequestClientIP) = rq_ClientIP rq (rq_Header rq) \<and>
    (\<forall>marshal mws nxt. requestInterceptor marshal uuid mws rq nxt c s =
       (case Chain mws (run_next nxt) c0 s0 of (None, s1) \<Rightarrow> (None, s1) | (Some err, s1) \<Rightarrow> (None, respond_error marshal err s1)))"
proof -
  have "ctx_Get (heap s0) c0 k = md_Get (request_metadata uuid rq md_New) k" for k
    using assms by (simp add: ctx_Get_def FromContext_def NewContext_def entry_state_def md_Get_lower canonicalMetadataKey_def Let_def nth_append)
  then show ?thesis using request_metadata_Get [of uuid rq] assms(2,3)
    by (simp add: requestInterceptor_fresh [OF assms(1)])
qed

text \<open>
  The HTTP server fails closed. Behind the JWT middleware, on a path that is not on the allowlist, either the answer is
  written with a status of at least 400 and does not depend on the handler of the route, or the request carried a token that
  parsed and is valid (the validator writes no answer of its own and does not abort).
\<close>

theorem http_fail_closed:
  fixes s :: "'z http_state_scheme" and opts :: "('z http_state_scheme, 'a actx_scheme) jwt_options"
  assumes "metadataKey c = None" and "md = request_metadata uuid rq md_New" and "\<not> on_allowlist opts md" and "\<not> rw_written s"
    and "\<forall>v c t s. validate opts = Some v \<longrightarrow> rw_written (snd (v c t s)) = rw_written s \<and>
      (\<forall>er. fst (v c t s) = Some er \<longrightarrow> \<not> IsAbort er)"
  shows "(\<exists>s'. (\<forall>route. http_engine marshal uuid (JWT lib opts # mws) rq route c s = (None, s')) \<and>
      rw_written s' \<and> 400 \<le> rw_status s') \<or>
    (md_Has md authorizationKey \<and> (\<exists>ti. parse_token lib opts (bearer_token md) = Inr ti \<and> Valid ti))"
proof (cases "md_Has md authorizationKey \<and> (\<exists>ti. parse_token lib opts (bearer_token md) = Inr ti \<and> Valid ti)")
  case False
  let ?s = "entry_state uuid rq s" and ?c = "NewContext c (length (heap s))"
  have w: "\<not> rw_written ?s" using assms(4) by (simp add: entry_state_def)
  have na: "\<not> on_allowlist opts (request_md ?s ?c)" using assms(2,3) by (simp add: request_md_entry)
  have md: "md = request_md ?s ?c" by (simp add: request_md_entry assms(2))
  have "\<exists>er s2. (\<forall>nxt. JWT lib opts nxt ?c ?s = (Some er, s2)) \<and> \<not> IsAbort er \<and> \<not> rw_written s2"
    using JWT_reject [OF na md, of "\<lambda>s. \<not> rw_written s", OF w False] assms(5) by blast
  then obtain er s2 where e: "\<And>nxt. JWT lib opts nxt ?c ?s = (Some er, s2)" "\<not> IsAbort er" "\<not> rw_written s2" by blast
  have "http_engine marshal uuid (JWT lib opts # mws) rq route c s = (None, respond_error marshal er s2)" for route
    by (rule engine_rejects [OF assms(1)]) (simp add: Chain_Cons e(1))
  then show ?thesis using respond_error_status [OF e(3,2), of marshal] by blast
qed blast

text \<open>
  A handler that panics is answered once. Without middlewares, if the handler of a route panics before it has
  written, exactly one document is written, with status 500 and the code for an internal error;
  if it has written, nothing is added. The server never passes the panic on.
\<close>

theorem panic_answered:
  assumes "metadataKey c = None" and "route (NewContext c (length (heap s))) (entry_state uuid rq s) = (Some p, s1)"
    and "marshal (newResponse CodeInternal ''internal server error'' None) = Inr doc"
  shows "\<exists>s'. http_engine marshal uuid [] rq route c s = (None, s') \<and> gin_aborted s' \<and>
    (if rw_written s1 then rw_body s' = rw_body s1 \<and> rw_status s' = rw_status s1
     else rw_body s' = rw_body s1 @ [doc] \<and> rw_status s' = 500)"
proof -
  let ?s2 = "if \<not> rw_written s1 then abortWithEnvelope marshal 500 CodeInternal ''internal server error'' s1 else s1\<lparr>gin_aborted := True\<rparr>"
  have r: "recoveryInterceptor marshal route (NewContext c (length (heap s))) (entry_state uuid rq s) = (None, ?s2)"
    using assms(2) by (simp add: recoveryInterceptor_def)
  have w: "rw_written ?s2" by simp
  have "requestInterceptor marshal uuid [] rq (recoveryInterceptor marshal route) c s = (None, ?s2)"
    using r w unfolding requestInterceptor_fresh [OF assms(1)]
    by (cases "gin_errors ?s2 = []") (simp_all add: run_next_def respond_error_def Let_def del: if_not_P)
  then have "http_engine marshal uuid [] rq route c s = (None, ?s2)"
    unfolding http_engine_def by (rule recovery_pass)
  then show ?thesis using abort_body [of marshal CodeInternal "''internal server error''" doc 500 s1] assms(3) by auto
qed

text \<open>
  The text of an error that is not one of the coded ones is never sent to the client: all such errors get the same answer.
\<close>

lemma no_internal_detail:
  "AsError er = None \<Longrightarrow> \<not> IsAbort er \<Longrightarrow> AsError er' = None \<Longrightarrow> \<not> IsAbort er' \<Longrightarrow>
   respond_error marshal er s = respond_error marshal er' s"
  by (simp add: respond_error_def)

subsection \<open>A sample request\<close>

definition sample_marshal :: marshal where
  "sample_marshal ev = Inr (int_str (ev_Code ev) @ '' '' @ ev_Message ev)"

definition sample_http_state :: http_state where
  "sample_http_state = \<lparr>heap = [], rw_header = [], rw_status = 200, rw_written = False, rw_body = [], gin_errors = [], gin_aborted = False\<rparr>"

text \<open>A client address read the way gin reads it by default: the forwarded one when there is one.\<close>

definition sample_ClientIP :: "header \<Rightarrow> string" where
  "sample_ClientIP hdr = (let x = header_Get hdr ''X-Forwarded-For'' in if x \<noteq> '''' then x else ''10.0.0.1'')"

definition sample_rq :: "header \<Rightarrow> request" where
  "sample_rq hdr = \<lparr>rq_Method = ''GET'', rq_Path = ''/user/7'', rq_FullPath = ''/user/:id'', rq_ClientIP = sample_ClientIP, rq_Header = hdr\<rparr>"

definition sample_actx :: actx where "sample_actx = \<lparr>metadataKey = None, authKey = None\<rparr>"

theorem request_metadata_trusted_witness:
  "ctx_Get (heap (entry_state ''u'' (sample_rq [(''x-aeus-request-route'', [''''])]) sample_http_state)) (NewContext sample_actx 0) RequestRoute =
     (''/user/:id'', True) \<and>
   fst (ctx_Get (heap (entry_state ''u'' (sample_rq [(''x-forwarded-for'', [''forged''])]) sample_http_state)) (NewContext sample_actx 0)
     RequestClientIP) = ''forged''"
proof -
  have m: "metadataKey sample_actx = None" by (simp add: sample_actx_def)
  have h: "NewContext sample_actx 0 = NewContext sample_actx (length (heap sample_http_state))" by (simp add: sample_http_state_def)
  have f: "sample_ClientIP [(''x-forwarded-for'', [''forged''])] = ''forged''" by code_simp
  show ?thesis
    using request_metadata_trusted [OF m refl h, of "''u''" "sample_rq [(''x-aeus-request-route'', [''''])]"]
      request_metadata_trusted [OF m refl h, of "''u''" "sample_rq [(''x-forwarded-for'', [''forged''])]"] f
    by (simp add: sample_rq_def)
qed

definition sample_lib :: jwt_lib where
  "sample_lib = \<lparr>ParseWithClaims = (\<lambda>_. Inl (ErrExpired, None)), Parse = (\<lambda>_. Inl (ErrExpired, None)), ErrTokenMalformed = ErrMalformed,
     ErrTokenUnverifiable = ErrInvalid, ErrTokenNotValidYet = ErrExists, ErrTokenExpired_jwt = ErrExpired\<rparr>"

definition sample_jwt_options :: "(http_state, actx) jwt_options" where
  "sample_jwt_options = \<lparr>allows = [''/login''], claims = None, validate = None, permissionChecker = None\<rparr>"

theorem http_fail_closed_witness:
  "\<exists>s'. (\<forall>route. http_engine sample_marshal ''u'' [JWT sample_lib sample_jwt_options] (sample_rq []) route sample_actx sample_http_state = (None, s')) \<and>
     rw_written s' \<and> 400 \<le> rw_status s'"
proof -
  define md where "md = request_metadata ''u'' (sample_rq []) md_New"
  have m: "metadataKey sample_actx = None" "\<not> rw_written sample_http_state"
    by (simp_all add: sample_actx_def sample_http_state_def)
  have a: "\<not> on_allowlist sample_jwt_options md"
    by (simp add: md_def on_allowlist_def request_metadata_Get) (simp add: sample_rq_def sample_jwt_options_def)
  have "\<not> md_Has md authorizationKey"
    by (simp add: md_def md_Has_def request_metadata_Get) (simp add: sample_rq_def header_Get_def)
  with http_fail_closed [OF m(1) md_def a m(2), of sample_marshal sample_lib "[]"] show ?thesis
    by (simp add: sample_jwt_options_def)
qed

theorem panic_answered_witness:
  "\<exists>s'. http_engine sample_marshal ''u'' [] (sample_rq []) (\<lambda>c s. (Some ''boom'', s)) sample_actx sample_http_state = (None, s') \<and>
     rw_status s' = 500 \<and> length (rw_body s') = 1"
proof -
  have m: "metadataKey sample_actx = None" by (simp add: sample_actx_def)
  have w: "\<not> rw_written (entry_state ''u'' (sample_rq []) sample_http_state)" "rw_body (entry_state ''u'' (sample_rq []) sample_http_state) = []"
    by (simp_all add: entry_state_def sample_http_state_def)
  obtain doc where d: "sample_marshal (newResponse CodeInternal ''internal server error'' None) = Inr doc" by (simp add: sample_marshal_def)
  show ?thesis
    using panic_answered [OF m, of "\<lambda>c s. (Some ''boom'', s)" sample_http_state "''u''" "sample_rq []" _ _ sample_marshal doc, OF refl d] w by auto
qed

end
