(* ===== verification/Listen.thy ===== *)
theory Listen
  imports Errs "HOL-Library.Sublist"
begin

text \<open>
  Addresses and listeners: \<open>pkg/netutil\<close>, and the configuration, start and stop of the HTTP server
  (\<open>transport/http/types.go\<close> and \<open>server.go\<close>). The operating system is a parameter: the interfaces of the
  machine, what \<open>net.Listen\<close> answers for an address, and how serving ends. Values the server only passes on (handlers,
  loggers, contexts, gin options) are not modelled.
\<close>

subsection \<open>The standard library\<close>

text \<open>\<open>strconv.Atoi\<close> on a 64-bit machine: an optional sign, decimal digits, and a value of 64 bits.\<close>

fun digits_val :: "int \<Rightarrow> string \<Rightarrow> int option" where
  "digits_val acc [] = Some acc"
| "digits_val acc (c # cs) =
     (let d = (of_char c :: int) - 48 in if 0 \<le> d \<and> d \<le> 9 then digits_val (acc * 10 + d) cs else None)"

definition Atoi :: "string \<Rightarrow> int option" where
  "Atoi s =
     (let neg = (s \<noteq> '''' \<and> hd s = CHR ''-''); body = (if s \<noteq> '''' \<and> hd s \<in> {CHR ''-'', CHR ''+''} then tl s else s) in
      if body = '''' then None
      else case digits_val 0 body of
        None \<Rightarrow> None
      | Some n \<Rightarrow> (let v = (if neg then - n else n) in if - (2 ^ 63) \<le> v \<and> v < 2 ^ 63 then Some v else None))"

text \<open>\<open>net.SplitHostPort\<close> and \<open>net.JoinHostPort\<close>; the error of the former has no content here.\<close>

definition last_colon :: "string \<Rightarrow> (string \<times> string) option" where
  "last_colon s =
     (if CHR '':'' \<in> set s
      then Some (rev (tl (dropWhile (\<lambda>c. c \<noteq> CHR '':'') (rev s))), rev (takeWhile (\<lambda>c. c \<noteq> CHR '':'') (rev s)))
      else None)"

definition SplitHostPort :: "string \<Rightarrow> (string \<times> string) option" where
  "SplitHostPort hp =
     (case last_colon hp of
        None \<Rightarrow> None
      | Some (before, port) \<Rightarrow>
          if hp \<noteq> '''' \<and> hd hp = CHR ''['' then
            (let inner = takeWhile (\<lambda>c. c \<noteq> CHR '']'') (tl hp); after = dropWhile (\<lambda>c. c \<noteq> CHR '']'') (tl hp) in
             if after = [] then None
             else if before \<noteq> ''['' @ inner @ '']'' then None
             else if CHR ''['' \<in> set (inner @ after) \<or> CHR '']'' \<in> set (tl after) then None
             else Some (inner, port))
          else if CHR '':'' \<in> set before then None
          else if CHR ''['' \<in> set hp \<or> CHR '']'' \<in> set hp then None
          else Some (before, port))"

definition JoinHostPort :: "string \<Rightarrow> string \<Rightarrow> string" where
  "JoinHostPort host port = (if CHR '':'' \<in> set host then ''['' @ host @ '']:'' @ port else host @ '':'' @ port)"

subsection \<open>netutil\<close>

record ipnet =
  ip_String :: string
  ip_isLoopback :: bool
  ip_is4 :: bool

text \<open>An address of an interface is \<open>Some\<close> when it is an \<open>*net.IPNet\<close>.\<close>

record iface =
  if_up :: bool
  if_Name :: string
  if_Addrs :: "goerror + ipnet option list"

fun first_ipv4 :: "ipnet option list \<Rightarrow> string option" where
  "first_ipv4 [] = None"
| "first_ipv4 (None # as) = first_ipv4 as"
| "first_ipv4 (Some ip # as) = (if \<not> ip_isLoopback ip \<and> ip_is4 ip then Some (ip_String ip) else first_ipv4 as)"

fun localip_loop :: "iface list \<Rightarrow> string" where
  "localip_loop [] = ''localhost''"
| "localip_loop (i # is) =
     (if \<not> if_up i then localip_loop is
      else if HasPrefix (if_Name i) ''lo'' then localip_loop is
      else case if_Addrs i of
        Inl er \<Rightarrow> localip_loop is
      | Inr as \<Rightarrow> (case first_ipv4 as of Some st \<Rightarrow> st | None \<Rightarrow> localip_loop is))"

definition LocalIP :: "goerror + iface list \<Rightarrow> string" where
  "LocalIP interfaces = (case interfaces of Inl er \<Rightarrow> '''' | Inr is \<Rightarrow> localip_loop is)"

datatype laddr = TCPAddr string int | OtherAddr string

fun addr_String :: "laddr \<Rightarrow> string" where
  "addr_String (TCPAddr ip port) = JoinHostPort ip (int_str port)"
| "addr_String (OtherAddr s) = s"

definition EffectiveAddr :: "goerror + iface list \<Rightarrow> string \<Rightarrow> laddr option \<Rightarrow> string" where
  "EffectiveAddr interfaces adr l =
     (let split = SplitHostPort adr in
      if split = None \<and> l = None then ''''
      else
        (let (host, port) = (case split of None \<Rightarrow> ('''', '''') | Some hp \<Rightarrow> hp);
             (host, port) = (case l of
                None \<Rightarrow> (host, port)
              | Some (TCPAddr ip p) \<Rightarrow> (ip, int_str p)
              | Some (OtherAddr s) \<Rightarrow> (case SplitHostPort s of None \<Rightarrow> (host, port) | Some hp \<Rightarrow> hp))
         in if host \<noteq> '''' \<and> host \<noteq> ''0.0.0.0'' \<and> host \<noteq> ''[::]'' \<and> host \<noteq> ''::'' then JoinHostPort host port
            else JoinHostPort (LocalIP interfaces) port))"

subsection \<open>Options of the HTTP server\<close>

record 'cors http_options =
  ho_network :: string
  ho_address :: string
  ho_certFile :: string
  ho_keyFile :: string
  ho_debug :: bool
  ho_debugAddr :: string
  ho_cors :: "'cors option"
  ho_enableHealth :: bool
  ho_enableMetrics :: bool
  ho_readHeaderTimeout :: int
  ho_readTimeout :: int
  ho_writeTimeout :: int
  ho_idleTimeout :: int
  ho_maxHeaderBytes :: int

definition http_WithNetwork :: "string \<Rightarrow> 'c http_options \<Rightarrow> 'c http_options" where "http_WithNetwork n o' = o'\<lparr>ho_network := n\<rparr>"
definition http_WithCORS :: "'c \<Rightarrow> 'c http_options \<Rightarrow> 'c http_options" where "http_WithCORS cfg o' = o'\<lparr>ho_cors := Some cfg\<rparr>"
definition http_WithAddress :: "string \<Rightarrow> 'c http_options \<Rightarrow> 'c http_options" where "http_WithAddress a o' = o'\<lparr>ho_address := a\<rparr>"
definition http_WithCertFile :: "string \<Rightarrow> 'c http_options \<Rightarrow> 'c http_options" where "http_WithCertFile f o' = o'\<lparr>ho_certFile := f\<rparr>"
definition http_WithKeyFile :: "string \<Rightarrow> 'c http_options \<Rightarrow> 'c http_options" where "http_WithKeyFile f o' = o'\<lparr>ho_keyFile := f\<rparr>"
definition http_WithDebug :: "bool \<Rightarrow> 'c http_options \<Rightarrow> 'c http_options" where "http_WithDebug b o' = o'\<lparr>ho_debug := b\<rparr>"
definition http_WithDebugAddr :: "string \<Rightarrow> 'c http_options \<Rightarrow> 'c http_options" where "http_WithDebugAddr a o' = o'\<lparr>ho_debugAddr := a\<rparr>"
definition http_WithEnableHealth :: "bool \<Rightarrow> 'c http_options \<Rightarrow> 'c http_options" where "http_WithEnableHealth b o' = o'\<lparr>ho_enableHealth := b\<rparr>"
definition http_WithEnableMetrics :: "bool \<Rightarrow> 'c http_options \<Rightarrow> 'c http_options" where "http_WithEnableMetrics b o' = o'\<lparr>ho_enableMetrics := b\<rparr>"
definition http_WithReadHeaderTimeout :: "int \<Rightarrow> 'c http_options \<Rightarrow> 'c http_options" where "http_WithReadHeaderTimeout d o' = o'\<lparr>ho_readHeaderTimeout := d\<rparr>"
definition http_WithReadTimeout :: "int \<Rightarrow> 'c http_options \<Rightarrow> 'c http_options" where "http_WithReadTimeout d o' = o'\<lparr>ho_readTimeout := d\<rparr>"
definition http_WithWriteTimeout :: "int \<Rightarrow> 'c http_options \<Rightarrow> 'c http_options" where "http_WithWriteTimeout d o' = o'\<lparr>ho_writeTimeout := d\<rparr>"
definition http_WithIdleTimeout :: "int \<Rightarrow> 'c http_options \<Rightarrow> 'c http_options" where "http_WithIdleTimeout d o' = o'\<lparr>ho_idleTimeout := d\<rparr>"
definition http_WithMaxHeaderBytes :: "int \<Rightarrow> 'c http_options \<Rightarrow> 'c http_options" where "http_WithMaxHeaderBytes n o' = o'\<lparr>ho_maxHeaderBytes := n\<rparr>"

subsection \<open>Construction, start and stop\<close>

text \<open>
  \<open>Inl\<close> is a panic. The address before the options is the port of the environment variable; \<open>quote\<close> is the verb
  \<open>%q\<close> and \<open>atoi_err\<close> the text of the error of \<open>Atoi\<close>.
\<close>

definition port_address :: "(string \<Rightarrow> string) \<Rightarrow> (string \<Rightarrow> string) \<Rightarrow> string \<Rightarrow> string \<Rightarrow> string + string" where
  "port_address quote atoi_err var portStr =
     (case Atoi portStr of
        Some n \<Rightarrow> Inr ('':'' @ int_str n)
      | None \<Rightarrow> if portStr \<noteq> '''' then Inl (''invalid '' @ var @ '' '' @ quote portStr @ '': '' @ atoi_err portStr) else Inr '':0'')"

definition http_default_options :: "string \<Rightarrow> 'c http_options" where
  "http_default_options address =
     \<lparr>ho_network = ''tcp'', ho_address = address, ho_certFile = '''', ho_keyFile = '''', ho_debug = False, ho_debugAddr = '''', ho_cors = None,
      ho_enableHealth = False, ho_enableMetrics = False, ho_readHeaderTimeout = 10000000000, ho_readTimeout = 0, ho_writeTimeout = 0,
      ho_idleTimeout = 120000000000, ho_maxHeaderBytes = 1048576\<rparr>"

record 'c http_server =
  hs_opts :: "'c http_options"
  hs_scheme :: string
  hs_host :: string
  hs_listener :: "laddr option"
  hs_interceptors :: "string list"
  hs_routes :: "string list"
  hs_noRoute :: bool
  hs_pprof :: "laddr option"
  hs_serve :: bool
  hs_shut :: "string list"

text \<open>The interceptors in the order gin runs them; \<open>check\<close> is \<open>validateCORS\<close>.\<close>

definition http_New :: "(string \<Rightarrow> string) \<Rightarrow> (string \<Rightarrow> string) \<Rightarrow> ('c \<Rightarrow> goerror option) \<Rightarrow> string \<Rightarrow> ('c http_options \<Rightarrow> 'c http_options) list \<Rightarrow> string + 'c http_server" where
  "http_New quote atoi_err check portStr cbs =
     (case port_address quote atoi_err ''HTTP_PORT'' portStr of
        Inl p \<Rightarrow> Inl p
      | Inr address \<Rightarrow>
          (let opts = foldl (\<lambda>o' cb. cb o') (http_default_options address) cbs;
               rest = [''recovery'', ''request'', ''recovery''];
               mk = (\<lambda>is. \<lparr>hs_opts = opts, hs_scheme = ''http'', hs_host = '''', hs_listener = None, hs_interceptors = is, hs_routes = [],
                 hs_noRoute = False, hs_pprof = None, hs_serve = False, hs_shut = []\<rparr>)
           in case ho_cors opts of
                None \<Rightarrow> Inr (mk rest)
              | Some cfg \<Rightarrow> (case check cfg of
                  Some er \<Rightarrow> Inl (''transport/http: invalid CORS config: '' @ Error er)
                | None \<Rightarrow> Inr (mk (''cors'' # rest)))))"

text \<open>\<open>listen\<close> is \<open>net.Listen\<close>: the address that was bound.\<close>

type_synonym net_listen = "string \<Rightarrow> string \<Rightarrow> goerror + laddr"

definition http_createListener :: "net_listen \<Rightarrow> goerror + iface list \<Rightarrow> 'c http_server \<Rightarrow> goerror option \<times> 'c http_server" where
  "http_createListener listen interfaces sv =
     (case hs_listener sv of
        Some _ \<Rightarrow> (None, sv)
      | None \<Rightarrow> (case listen (ho_network (hs_opts sv)) (ho_address (hs_opts sv)) of
          Inl er \<Rightarrow> (Some er, sv)
        | Inr l \<Rightarrow> (None, sv\<lparr>hs_listener := Some l, hs_host := EffectiveAddr interfaces (ho_address (hs_opts sv)) (Some l)\<rparr>)))"

definition http_Endpoint :: "net_listen \<Rightarrow> goerror + iface list \<Rightarrow> 'c http_server \<Rightarrow> (goerror + string) \<times> 'c http_server" where
  "http_Endpoint listen interfaces sv =
     (case http_createListener listen interfaces sv of
        (Some er, sv') \<Rightarrow> (Inl er, sv')
      | (None, sv') \<Rightarrow> (Inr (hs_scheme sv' @ ''://'' @ hs_host sv'), sv'))"

definition startPprof :: "net_listen \<Rightarrow> (string \<Rightarrow> string) \<Rightarrow> nat \<Rightarrow> 'c http_server \<Rightarrow> goerror option \<times> 'c http_server" where
  "startPprof listen quote a sv =
     (if ho_debugAddr (hs_opts sv) = '''' then (None, sv)
      else case listen ''tcp'' (ho_debugAddr (hs_opts sv)) of
        Inl er \<Rightarrow> (Some (FmtWrap a (''pprof listen: '' @ Error er) [er]), sv)
      | Inr ln \<Rightarrow>
          (case SplitHostPort (addr_String ln) of
             Some (host, port) \<Rightarrow>
               if host \<noteq> '''' \<and> host \<noteq> ''127.0.0.1'' \<and> host \<noteq> ''::1'' \<and> host \<noteq> ''localhost'' then
                 (Some (ErrString a (''pprof listener must bind to a loopback address; got '' @ quote (addr_String ln))), sv)
               else (None, sv\<lparr>hs_pprof := Some ln\<rparr>)
           | None \<Rightarrow> (None, sv\<lparr>hs_pprof := Some ln\<rparr>)))"

definition start_routes :: "'c http_options \<Rightarrow> string list" where
  "start_routes opts = (if ho_enableHealth opts then [''/health'', ''/ready''] else []) @ (if ho_enableMetrics opts then [''/metrics''] else [])"

text \<open>
  \<open>Start\<close>, with serving at its end: \<open>serve\<close> says how \<open>Serve\<close> or \<open>ServeTLS\<close> ends. \<open>hs_serve\<close> says whether the
  server object exists, and \<open>hs_shut\<close> lists the servers that \<open>Stop\<close> has shut down.
\<close>

definition http_Start :: "net_listen \<Rightarrow> (string \<Rightarrow> string) \<Rightarrow> nat \<Rightarrow> goerror + iface list \<Rightarrow> goerror \<Rightarrow> (bool \<Rightarrow> goerror) \<Rightarrow> 'c http_server \<Rightarrow>
    goerror option \<times> 'c http_server" where
  "http_Start listen quote a interfaces closed serve sv =
     (let sv0 = sv\<lparr>hs_serve := True\<rparr>;
          (per, sv1) = (if ho_debug (hs_opts sv0) \<and> ho_debugAddr (hs_opts sv0) \<noteq> '''' then startPprof listen quote a sv0 else (None, sv0))
      in
      case per of
        Some er \<Rightarrow> (Some er, sv1)
      | None \<Rightarrow>
          (let sv2 = sv1\<lparr>hs_routes := hs_routes sv1 @ start_routes (hs_opts sv1)\<rparr> in
           case http_createListener listen interfaces sv2 of
             (Some er, sv3) \<Rightarrow> (Some er, sv3)
           | (None, sv3) \<Rightarrow>
               (let tls = (ho_certFile (hs_opts sv3) \<noteq> '''' \<and> ho_keyFile (hs_opts sv3) \<noteq> '''');
                    sv4 = sv3\<lparr>hs_noRoute := True, hs_scheme := (if tls then ''https'' else hs_scheme sv3)\<rparr>;
                    er = serve tls
                in (if Is er closed then None else Some er, sv4))))"

definition http_Stop :: "goerror option \<Rightarrow> 'c http_server \<Rightarrow> goerror option \<times> 'c http_server" where
  "http_Stop shutdown sv =
     (let sv1 = (if hs_pprof sv \<noteq> None then sv\<lparr>hs_shut := hs_shut sv @ [''pprof'']\<rparr> else sv) in
      if \<not> hs_serve sv1 then (None, sv1) else (shutdown, sv1\<lparr>hs_shut := hs_shut sv1 @ [''http'']\<rparr>))"

subsection \<open>Facts about addresses\<close>

lemma last_colon_append: "CHR '':'' \<notin> set p \<Longrightarrow> last_colon (h @ '':'' @ p) = Some (h, p)"
proof -
  assume p: "CHR '':'' \<notin> set p"
  have r: "rev (h @ '':'' @ p) = rev p @ CHR '':'' # rev h" by simp
  have "dropWhile (\<lambda>c. c \<noteq> CHR '':'') (rev p @ CHR '':'' # rev h) = CHR '':'' # rev h"
    "takeWhile (\<lambda>c. c \<noteq> CHR '':'') (rev p @ CHR '':'' # rev h) = rev p"
    using p by (subst dropWhile_append2 takeWhile_append2; auto)+
  then show ?thesis unfolding last_colon_def r by simp
qed

text \<open>A joined address is split into the same host and port, also for IPv6 hosts.\<close>

lemma split_join:
  assumes "CHR '':'' \<notin> set p" "set p \<inter> {CHR ''['', CHR '']''} = {}" "set h \<inter> {CHR ''['', CHR '']''} = {}"
  shows "SplitHostPort (JoinHostPort h p) = Some (h, p)"
proof (cases "CHR '':'' \<in> set h")
  case False
  have "h = '''' \<or> hd (h @ '':'' @ p) \<noteq> CHR ''[''" using assms(3) by (cases h) auto
  then have "hd (h @ '':'' @ p) \<noteq> CHR ''[''" by auto
  then show ?thesis using assms False last_colon_append [OF assms(1), of h]
    by (simp add: SplitHostPort_def JoinHostPort_def)
next
  case True
  define hp where "hp = ''['' @ h @ '']:'' @ p"
  have lc: "last_colon hp = Some (''['' @ h @ '']'', p)"
    using last_colon_append [OF assms(1), of "''['' @ h @ '']''"] by (simp add: hp_def)
  have tw: "takeWhile (\<lambda>c. c \<noteq> CHR '']'') (tl hp) = h" "dropWhile (\<lambda>c. c \<noteq> CHR '']'') (tl hp) = '']:'' @ p"
    using assms(3) by (auto simp: hp_def takeWhile_append dropWhile_append)
  have "hp \<noteq> ''''" "hd hp = CHR ''[''" by (simp_all add: hp_def)
  then have "SplitHostPort hp = Some (h, p)"
    unfolding SplitHostPort_def lc option.case prod.case tw Let_def using assms by auto
  then show ?thesis using True by (simp add: JoinHostPort_def hp_def)
qed

lemma digit_char_plain: "d < 10 \<Longrightarrow> digit_char d \<notin> {CHR '':'', CHR ''['', CHR '']''}"
proof -
  assume "d < 10"
  then have "(of_char (digit_char d) :: nat) = 48 + d" by (simp add: digit_char_def)
  with \<open>d < 10\<close> have "(of_char (digit_char d) :: nat) \<notin> {58, 91, 93}" by auto
  then show ?thesis by auto
qed

lemma nat_str_plain: "set (nat_str n) \<inter> {CHR '':'', CHR ''['', CHR '']''} = {}"
proof (induction n rule: nat_str.induct)
  case (1 n)
  then show ?case using digit_char_plain [of n] digit_char_plain [of "n mod 10"]
    by (subst nat_str.simps) auto
qed

lemma int_str_plain: "set (int_str n) \<inter> {CHR '':'', CHR ''['', CHR '']''} = {}"
  using nat_str_plain by (auto simp: int_str_def)

lemma split_tcp:
  assumes "set ip \<inter> {CHR ''['', CHR '']''} = {}"
  shows "SplitHostPort (addr_String (TCPAddr ip port)) = Some (ip, int_str port)"
  using int_str_plain [of port] assms by (simp add: split_join)

text \<open>The address the registry publishes is that of the listener, never a wildcard one.\<close>

lemma EffectiveAddr_tcp:
  "EffectiveAddr interfaces adr (Some (TCPAddr ip port)) =
     JoinHostPort (if ip \<in> {'''', ''0.0.0.0'', ''[::]'', ''::''} then LocalIP interfaces else ip) (int_str port)"
  by (simp add: EffectiveAddr_def Let_def split: option.splits)

lemma LocalIP_cases:
  "LocalIP (Inr ifs) = ''localhost'' \<or>
   (\<exists>i\<in>set ifs. \<exists>as ip. if_up i \<and> \<not> HasPrefix (if_Name i) ''lo'' \<and> if_Addrs i = Inr as \<and> Some ip \<in> set as \<and>
      \<not> ip_isLoopback ip \<and> ip_is4 ip \<and> LocalIP (Inr ifs) = ip_String ip)"
proof -
  have f: "first_ipv4 as = Some st \<Longrightarrow> \<exists>ip. Some ip \<in> set as \<and> \<not> ip_isLoopback ip \<and> ip_is4 ip \<and> st = ip_String ip" for as st
    by (induction as rule: first_ipv4.induct) (auto split: if_splits)
  have "localip_loop ifs = ''localhost'' \<or>
   (\<exists>i\<in>set ifs. \<exists>as ip. if_up i \<and> \<not> HasPrefix (if_Name i) ''lo'' \<and> if_Addrs i = Inr as \<and> Some ip \<in> set as \<and>
      \<not> ip_isLoopback ip \<and> ip_is4 ip \<and> localip_loop ifs = ip_String ip)"
  proof (induction ifs)
    case (Cons i ifs)
    show ?case
    proof (cases "\<exists>as st. if_up i \<and> \<not> HasPrefix (if_Name i) ''lo'' \<and> if_Addrs i = Inr as \<and> first_ipv4 as = Some st")
      case True
      then show ?thesis using f by fastforce
    next
      case False
      then have "localip_loop (i # ifs) = localip_loop ifs" by (auto split: sum.splits option.splits)
      with Cons show ?thesis by (metis list.set_intros(2))
    qed
  qed simp
  then show ?thesis by (simp add: LocalIP_def)
qed

subsection \<open>Start\<close>

lemma http_New_fresh:
  assumes "http_New quote atoi_err check portStr cbs = Inr sv"
  shows "hs_pprof sv = None \<and> hs_routes sv = [] \<and> hs_listener sv = None \<and> \<not> hs_serve sv"
  using assms by (auto simp: http_New_def Let_def split: sum.splits option.splits)

lemma createListener_keeps:
  assumes "http_createListener listen interfaces sv = (r, sv')"
  shows "hs_pprof sv' = hs_pprof sv" "hs_routes sv' = hs_routes sv" "hs_opts sv' = hs_opts sv"
  using assms by (auto simp: http_createListener_def split: option.splits sum.splits)

lemma startPprof_cases:
  assumes "startPprof listen quote a sv = (r, sv')" "hs_pprof sv = None"
  shows "hs_routes sv' = hs_routes sv \<and> hs_opts sv' = hs_opts sv \<and>
    (hs_pprof sv' = None \<or>
     (\<exists>ln. hs_pprof sv' = Some ln \<and> ho_debugAddr (hs_opts sv) \<noteq> '''' \<and> listen ''tcp'' (ho_debugAddr (hs_opts sv)) = Inr ln \<and>
        (case SplitHostPort (addr_String ln) of None \<Rightarrow> True
         | Some (host, _) \<Rightarrow> host \<in> {'''', ''127.0.0.1'', ''::1'', ''localhost''})))"
proof (cases "ho_debugAddr (hs_opts sv) = ''''")
  case True
  then show ?thesis using assms by (simp add: startPprof_def)
next
  case da: False
  show ?thesis
  proof (cases "listen ''tcp'' (ho_debugAddr (hs_opts sv))")
    case (Inl er)
    then show ?thesis using assms da by (simp add: startPprof_def)
  next
    case (Inr ln)
    show ?thesis
    proof (cases "SplitHostPort (addr_String ln)")
      case None
      then show ?thesis using assms da Inr by (auto simp: startPprof_def)
    next
      case (Some hp)
      obtain host port where hp: "hp = (host, port)" by (cases hp)
      show ?thesis
      proof (cases "host \<in> {'''', ''127.0.0.1'', ''::1'', ''localhost''}")
        case True
        then have "startPprof listen quote a sv = (None, sv\<lparr>hs_pprof := Some ln\<rparr>)" using da Inr Some hp by (auto simp: startPprof_def)
        then show ?thesis using True assms da Inr Some hp by auto
      next
        case False
        then have "snd (startPprof listen quote a sv) = sv" using da Inr Some hp by (simp add: startPprof_def)
        then show ?thesis using assms by simp
      qed
    qed
  qed
qed

lemma http_Start_state:
  assumes "http_Start listen quote a interfaces closed serve sv = (r, sv')" "hs_pprof sv = None"
  shows "set (hs_routes sv') \<subseteq> set (hs_routes sv) \<union> set (start_routes (hs_opts sv)) \<and>
    (hs_pprof sv' = None \<or>
     (\<exists>ln. hs_pprof sv' = Some ln \<and> ho_debug (hs_opts sv) \<and> ho_debugAddr (hs_opts sv) \<noteq> '''' \<and>
        listen ''tcp'' (ho_debugAddr (hs_opts sv)) = Inr ln \<and>
        (case SplitHostPort (addr_String ln) of None \<Rightarrow> True
         | Some (host, _) \<Rightarrow> host \<in> {'''', ''127.0.0.1'', ''::1'', ''localhost''})))"
proof -
  define sv0 where "sv0 = sv\<lparr>hs_serve := True\<rparr>"
  define dbg where "dbg = (ho_debug (hs_opts sv) \<and> ho_debugAddr (hs_opts sv) \<noteq> '''')"
  have p0: "hs_pprof sv0 = None" "hs_opts sv0 = hs_opts sv" "hs_routes sv0 = hs_routes sv" using assms(2) by (simp_all add: sv0_def)
  obtain per sv1 where s1: "(if dbg then startPprof listen quote a sv0 else (None, sv0)) = (per, sv1)" by (rule prod.exhaust)
  have st: "hs_routes sv1 = hs_routes sv" "hs_opts sv1 = hs_opts sv"
    "hs_pprof sv1 = None \<or>
     (\<exists>ln. hs_pprof sv1 = Some ln \<and> dbg \<and> listen ''tcp'' (ho_debugAddr (hs_opts sv)) = Inr ln \<and>
        (case SplitHostPort (addr_String ln) of None \<Rightarrow> True
         | Some (host, _) \<Rightarrow> host \<in> {'''', ''127.0.0.1'', ''::1'', ''localhost''}))"
    using s1 startPprof_cases [of listen quote a sv0 per sv1] p0 by (auto simp del: insert_iff split: if_splits)
  obtain r3 sv3 where s3: "http_createListener listen interfaces (sv1\<lparr>hs_routes := hs_routes sv1 @ start_routes (hs_opts sv1)\<rparr>) = (r3, sv3)"
    by (rule prod.exhaust)
  note k = createListener_keeps [OF s3]
  have "hs_pprof sv' = hs_pprof sv1 \<and> (hs_routes sv' = hs_routes sv \<or> hs_routes sv' = hs_routes sv @ start_routes (hs_opts sv))"
    using assms(1) unfolding http_Start_def Let_def sv0_def [symmetric] p0 dbg_def [symmetric] s1 prod.case s3
    using k st(1,2) by (auto split: option.splits)
  with st(3) show ?thesis unfolding dbg_def by auto
qed

text \<open>
  The profiler is never reachable from outside. After a new server has started, with any options, it has a profiler
  listener only if debugging was switched on and a debug address was given, the listener is the one bound to that
  address, and its host is a loopback one (or absent); and the public engine has got no routes but the
  probes and the metrics.
\<close>

theorem pprof_loopback:
  assumes "http_New quote atoi_err check portStr cbs = Inr sv"
    and "http_Start listen quote' a interfaces closed serve sv = (r, sv')"
  shows "set (hs_routes sv') \<subseteq> {''/health'', ''/ready'', ''/metrics''} \<and>
    (\<forall>ip port. hs_pprof sv' = Some (TCPAddr ip port) \<longrightarrow> set ip \<inter> {CHR ''['', CHR '']''} = {} \<longrightarrow>
       ho_debug (hs_opts sv) \<and> ho_debugAddr (hs_opts sv) \<noteq> '''' \<and> listen ''tcp'' (ho_debugAddr (hs_opts sv)) = Inr (TCPAddr ip port) \<and>
       ip \<in> {'''', ''127.0.0.1'', ''::1'', ''localhost''})"
proof -
  note f = http_New_fresh [OF assms(1)]
  note s = http_Start_state [OF assms(2)]
  have "set (start_routes (hs_opts sv)) \<subseteq> {''/health'', ''/ready'', ''/metrics''}" by (auto simp: start_routes_def)
  then have "set (hs_routes sv') \<subseteq> {''/health'', ''/ready'', ''/metrics''}" using s f by auto
  moreover have "ho_debug (hs_opts sv) \<and> ho_debugAddr (hs_opts sv) \<noteq> '''' \<and> listen ''tcp'' (ho_debugAddr (hs_opts sv)) = Inr (TCPAddr ip port) \<and>
       ip \<in> {'''', ''127.0.0.1'', ''::1'', ''localhost''}"
    if "hs_pprof sv' = Some (TCPAddr ip port)" "set ip \<inter> {CHR ''['', CHR '']''} = {}" for ip port
    using s f that split_tcp [OF that(2), of port] by (auto simp del: insert_iff addr_String.simps)
  ultimately show ?thesis by blast
qed

definition sample_pprof_options :: "(unit http_options \<Rightarrow> unit http_options) list" where
  "sample_pprof_options = [http_WithDebug True, http_WithDebugAddr ''127.0.0.1:6060'']"

theorem pprof_loopback_witness:
  "\<exists>sv r sv'. http_New id id (\<lambda>_. None) '''' sample_pprof_options = Inr sv \<and>
     http_Start (\<lambda>n adr. Inr (TCPAddr ''127.0.0.1'' 6060)) id 0 (Inr []) (ErrString 1 ''closed'') (\<lambda>_. ErrString 1 ''closed'') sv = (r, sv') \<and>
     r = None \<and> hs_pprof sv' = Some (TCPAddr ''127.0.0.1'' 6060) \<and> ''127.0.0.1'' \<in> {'''', ''127.0.0.1'', ''::1'', ''localhost''} \<and>
     set (hs_routes sv') \<subseteq> {''/health'', ''/ready'', ''/metrics''}"
proof -
  define lb where "lb = ''127.0.0.1''"
  have l: "lb \<in> {'''', ''127.0.0.1'', ''::1'', ''localhost''}" "set lb \<inter> {CHR ''['', CHR '']''} = {}" by (simp_all add: lb_def)
  let ?n = "http_New id id (\<lambda>_. None) '''' sample_pprof_options :: string + unit http_server"
  have "\<exists>sv. ?n = Inr sv \<and> hs_pprof sv = None \<and> ho_debug (hs_opts sv) \<and> ho_debugAddr (hs_opts sv) = ''127.0.0.1:6060'' \<and>
      hs_listener sv = None"
    by (simp add: http_New_def port_address_def Atoi_def Let_def sample_pprof_options_def http_default_options_def
        http_WithDebug_def http_WithDebugAddr_def)
  then obtain sv where n: "?n = Inr sv" and sv: "ho_debug (hs_opts sv)" "ho_debugAddr (hs_opts sv) \<noteq> ''''" "hs_listener sv = None" by auto
  define ln where "ln = TCPAddr lb 6060"
  have "\<exists>sv'. http_Start (\<lambda>n adr. Inr ln) id 0 (Inr []) (ErrString 1 ''closed'') (\<lambda>_. ErrString 1 ''closed'') sv = (None, sv') \<and>
      hs_pprof sv' = Some ln"
    using sv split_tcp [OF l(2), of 6060] l(1)
    by (auto simp: http_Start_def startPprof_def http_createListener_def Let_def ln_def simp del: addr_String.simps insert_iff)
  then obtain sv' where s: "http_Start (\<lambda>n adr. Inr ln) id 0 (Inr []) (ErrString 1 ''closed'') (\<lambda>_. ErrString 1 ''closed'') sv = (None, sv')"
    and p: "hs_pprof sv' = Some ln" by blast
  have "set (hs_routes sv') \<subseteq> {''/health'', ''/ready'', ''/metrics''}" "lb \<in> {'''', ''127.0.0.1'', ''::1'', ''localhost''}"
    using pprof_loopback [OF n s] p l(2) unfolding ln_def by blast+
  with n s p show ?thesis unfolding lb_def [symmetric] ln_def [symmetric] by blast
qed

end
