(* ===== verification/Grpc.thy ===== *)
theory Grpc
  imports Http Listen
begin

text \<open>
  \<open>transport/grpc\<close>: the interceptors of the gRPC server, the mapping of errors to gRPC statuses, and the options,
  start and stop of the server. The grpc package is a parameter: the handler of a method, and what the
  runtime passes as incoming and outgoing metadata of the context. Metadata values of the grpc package are maps from lower-case
  names to lists, like the headers of \<open>Http\<close>. Tracing is not modelled.

  The response of a unary call is a variable that the innermost handler assigns; it is a field of the state. The
  outgoing metadata is the map the context had, with the writes that the tee writer has received.
\<close>

record 'q grpc_ctx = actx +
  gc_incoming :: "header option"
  gc_outgoing :: "header option"
  gc_request :: "'q option"

record 'r grpc_state = env +
  gr_resp :: "'r option"
  gr_headers :: "header list"

definition grpc_Protocol :: string where "grpc_Protocol = ''grpc''"

definition carrier_Get :: "header \<Rightarrow> string \<Rightarrow> string" where
  "carrier_Get m key = (case map_of m (ToLower key) of Some (v # _) \<Rightarrow> v | _ \<Rightarrow> '''')"

definition reader_Get :: "header option \<Rightarrow> string \<Rightarrow> string" where
  "reader_Get m key = (case m of None \<Rightarrow> '''' | Some md \<Rightarrow> (case map_of md (ToLower key) of Some (v # _) \<Rightarrow> v | _ \<Rightarrow> ''''))"

definition writer_Set :: "header \<Rightarrow> string \<times> string \<Rightarrow> header" where
  "writer_Set m kv = header_Set (fst kv) (snd kv) m"

subsection \<open>Metadata of a call\<close>

definition grpc_metadata :: "string \<Rightarrow> header option \<Rightarrow> string \<Rightarrow> Metadata \<Rightarrow> Metadata" where
  "grpc_metadata uuid incoming fullMethod md0 =
     (let md1 = (case incoming of Some inc \<Rightarrow> set_TeeReader (reader_Get (Some inc)) md0 | None \<Rightarrow> md0);
          md2 = set_TeeWriter [] md1;
          md3 = (if \<not> md_Has md2 RequestID then md_Set RequestID uuid md2 else md2);
          md4 = md_Set RequestPath fullMethod md3
      in md_Set RequestProtocol grpc_Protocol md4)"

definition attachMetadata :: "string \<Rightarrow> string \<Rightarrow> ('q, 'a) grpc_ctx_scheme \<Rightarrow> ('r, 'b) grpc_state_scheme \<Rightarrow>
    ('q, 'a) grpc_ctx_scheme \<times> nat \<times> header \<times> ('r, 'b) grpc_state_scheme" where
  "attachMetadata uuid fullMethod c s =
     (let (h, p) = FromContext (heap s) c;
          outgoing = (case gc_outgoing c of Some out \<Rightarrow> out | None \<Rightarrow> []);
          s' = s\<lparr>heap := h[p := grpc_metadata uuid (gc_incoming c) fullMethod (h ! p)]\<rparr>
      in (NewContext c p, p, outgoing, s'))"

text \<open>The outgoing map after the call: the writes of the tee writer since it was attached.\<close>

definition outgoing_of :: "nat \<Rightarrow> header \<Rightarrow> ('r, 'b) grpc_state_scheme \<Rightarrow> header" where
  "outgoing_of p out s = foldl writer_Set out (case teeWriter (heap s ! p) of Some w \<Rightarrow> w | None \<Rightarrow> [])"

definition flushOutgoingMD :: "nat \<Rightarrow> header \<Rightarrow> ('r, 'b) grpc_state_scheme \<Rightarrow> ('r, 'b) grpc_state_scheme" where
  "flushOutgoingMD p out s =
     (let m = outgoing_of p out s in if length m > 0 then s\<lparr>gr_headers := gr_headers s @ [m]\<rparr> else s)"

subsection \<open>Errors\<close>

datatype grpc_error = StatusError int string | PlainError goerror

definition status_Error :: "int \<Rightarrow> string \<Rightarrow> grpc_error option" where
  "status_Error code msg = (if code = 0 then None else Some (StatusError code msg))"

definition mapGRPCError :: "goerror option \<Rightarrow> grpc_error option" where
  "mapGRPCError er =
     (case er of
        None \<Rightarrow> None
      | Some err \<Rightarrow>
          if IsAbort err then
            (case AsError err of
               Some ae \<Rightarrow> status_Error (GRPCStatus (Code ae)) (Message ae)
             | None \<Rightarrow> status_Error 0 '''')
          else (case AsError err of
               Some ae \<Rightarrow> status_Error (GRPCStatus (Code ae)) (Message ae)
             | None \<Rightarrow> Some (PlainError err)))"

definition recordMetrics :: "('r, 'b) grpc_state_scheme MetricsRecorder option \<Rightarrow> string \<Rightarrow> int \<Rightarrow> grpc_error option \<Rightarrow>
    ('r, 'b) grpc_state_scheme \<Rightarrow> ('r, 'b) grpc_state_scheme" where
  "recordMetrics recorder fullMethod dur err s =
     (case recorder of
        None \<Rightarrow> s
      | Some r \<Rightarrow>
          (let status = (if err = None then ''success'' else ''error'');
               s1 = RecordRequestDuration r grpc_Protocol fullMethod status dur s
           in RecordRequestTotal r grpc_Protocol fullMethod status s1))"

subsection \<open>Interceptors\<close>

type_synonym ('q, 'r, 'c, 's) unary_handler = "'c \<Rightarrow> 'q \<Rightarrow> 's \<Rightarrow> ('r option \<times> goerror option) \<times> 's"

definition unary_next :: "('q, 'r, 'c, ('r, 'b) grpc_state_scheme) unary_handler \<Rightarrow> 'q \<Rightarrow> (('r, 'b) grpc_state_scheme, 'c) Handler" where
  "unary_next handler req c s = (case handler c req s of ((resp, nerr), s') \<Rightarrow> (nerr, s'\<lparr>gr_resp := resp\<rparr>))"

definition unaryServerInterceptor ::
    "string \<Rightarrow> (('r, 'b) grpc_state_scheme \<Rightarrow> int) \<Rightarrow> ('r, 'b) grpc_state_scheme MetricsRecorder option \<Rightarrow>
     (('r, 'b) grpc_state_scheme, ('q, 'a) grpc_ctx_scheme) Middleware list \<Rightarrow> string \<Rightarrow> 'q \<Rightarrow>
     ('q, 'r, ('q, 'a) grpc_ctx_scheme, ('r, 'b) grpc_state_scheme) unary_handler \<Rightarrow> ('q, 'a) grpc_ctx_scheme \<Rightarrow> ('r, 'b) grpc_state_scheme \<Rightarrow>
     ('r option \<times> grpc_error option) \<times> ('r, 'b) grpc_state_scheme" where
  "unaryServerInterceptor uuid now recorder mws fullMethod req handler c s =
     (let start = now s;
          (c1, p, out, s1) = attachMetadata uuid fullMethod c (s\<lparr>gr_resp := None\<rparr>);
          c2 = c1\<lparr>gc_request := Some req\<rparr>
      in case Chain mws (unary_next handler req) c2 s1 of
           (err, s2) \<Rightarrow>
             (let err' = mapGRPCError err;
                  s3 = flushOutgoingMD p out s2;
                  s4 = recordMetrics recorder fullMethod (now s3 - start) err' s3
              in ((gr_resp s2, err'), s4)))"

text \<open>A stream handler gets the stream and with it the stream's own context; the context of the middlewares is dropped.\<close>

definition stream_next :: "('c \<Rightarrow> 's \<Rightarrow> goerror option \<times> 's) \<Rightarrow> 'c \<Rightarrow> ('s, 'c) Handler" where
  "stream_next handler ss_ctx c s = handler ss_ctx s"

definition streamServerInterceptor ::
    "string \<Rightarrow> (('r, 'b) grpc_state_scheme \<Rightarrow> int) \<Rightarrow> ('r, 'b) grpc_state_scheme MetricsRecorder option \<Rightarrow>
     (('r, 'b) grpc_state_scheme, ('q, 'a) grpc_ctx_scheme) Middleware list \<Rightarrow> string \<Rightarrow>
     (('q, 'a) grpc_ctx_scheme \<Rightarrow> ('r, 'b) grpc_state_scheme \<Rightarrow> goerror option \<times> ('r, 'b) grpc_state_scheme) \<Rightarrow>
     ('q, 'a) grpc_ctx_scheme \<Rightarrow> ('r, 'b) grpc_state_scheme \<Rightarrow> grpc_error option \<times> ('r, 'b) grpc_state_scheme" where
  "streamServerInterceptor uuid now recorder mws fullMethod handler c s =
     (let start = now s;
          (c1, p, out, s1) = attachMetadata uuid fullMethod c s
      in case Chain mws (stream_next handler c) c1 s1 of
           (err, s2) \<Rightarrow>
             (let err' = mapGRPCError err;
                  s3 = flushOutgoingMD p out s2
              in (err', recordMetrics recorder fullMethod (now s3 - start) err' s3)))"

definition GetRequestValueFromContext :: "('q, 'a) grpc_ctx_scheme option \<Rightarrow> 'q option" where
  "GetRequestValueFromContext c = (case c of None \<Rightarrow> None | Some c' \<Rightarrow> gc_request c')"

subsection \<open>Options, start and stop\<close>

record grpc_options =
  go_network :: string
  go_address :: string

definition grpc_WithNetwork :: "string \<Rightarrow> grpc_options \<Rightarrow> grpc_options" where "grpc_WithNetwork n o' = o'\<lparr>go_network := n\<rparr>"
definition grpc_WithAddress :: "string \<Rightarrow> grpc_options \<Rightarrow> grpc_options" where "grpc_WithAddress a o' = o'\<lparr>go_address := a\<rparr>"

record grpc_server =
  gs_opts :: grpc_options
  gs_host :: string
  gs_listener :: "laddr option"
  gs_reflection :: bool

definition grpc_New :: "(string \<Rightarrow> string) \<Rightarrow> (string \<Rightarrow> string) \<Rightarrow> string \<Rightarrow> (grpc_options \<Rightarrow> grpc_options) list \<Rightarrow> string + grpc_server" where
  "grpc_New quote atoi_err portStr cbs =
     (case port_address quote atoi_err ''GRPC_PORT'' portStr of
        Inl p \<Rightarrow> Inl p
      | Inr address \<Rightarrow> Inr \<lparr>gs_opts = foldl (\<lambda>o' cb. cb o') \<lparr>go_network = ''tcp'', go_address = address\<rparr> cbs, gs_host = '''',
          gs_listener = None, gs_reflection = False\<rparr>)"

definition grpc_createListener :: "net_listen \<Rightarrow> goerror + iface list \<Rightarrow> grpc_server \<Rightarrow> goerror option \<times> grpc_server" where
  "grpc_createListener listen interfaces sv =
     (case gs_listener sv of
        Some _ \<Rightarrow> (None, sv)
      | None \<Rightarrow> (case listen (go_network (gs_opts sv)) (go_address (gs_opts sv)) of
          Inl er \<Rightarrow> (Some er, sv)
        | Inr l \<Rightarrow> (None, sv\<lparr>gs_listener := Some l, gs_host := EffectiveAddr interfaces (go_address (gs_opts sv)) (Some l)\<rparr>)))"

definition grpc_Start :: "net_listen \<Rightarrow> goerror + iface list \<Rightarrow> goerror option \<Rightarrow> grpc_server \<Rightarrow> goerror option \<times> grpc_server" where
  "grpc_Start listen interfaces serve sv =
     (case grpc_createListener listen interfaces sv of
        (Some er, sv') \<Rightarrow> (Some er, sv')
      | (None, sv') \<Rightarrow> (serve, sv'\<lparr>gs_reflection := True\<rparr>))"

definition grpc_Endpoint :: "net_listen \<Rightarrow> goerror + iface list \<Rightarrow> grpc_server \<Rightarrow> (goerror + string) \<times> grpc_server" where
  "grpc_Endpoint listen interfaces sv =
     (case grpc_createListener listen interfaces sv of
        (Some er, sv') \<Rightarrow> (Inl er, sv')
      | (None, sv') \<Rightarrow> (Inr (''grpc://'' @ gs_host sv'), sv'))"

text \<open>
  \<open>Stop\<close> waits for the graceful stop or the end of its context, whichever comes first (\<open>Inl\<close> the error of the context);
  the second component says whether the server was stopped by force.
\<close>

definition grpc_Stop :: "goerror + unit \<Rightarrow> goerror option \<times> bool" where
  "grpc_Stop first = (case first of Inr () \<Rightarrow> (None, False) | Inl er \<Rightarrow> (Some er, True))"

subsection \<open>Facts\<close>

lemma GRPCStatus_error: "GRPCStatus c \<noteq> 0"
  by (simp add: GRPCStatus_def code_defs)

lemma mapGRPCError_error: "\<not> IsAbort er \<Longrightarrow> mapGRPCError (Some er) \<noteq> None"
  using GRPCStatus_error by (simp add: mapGRPCError_def status_Error_def split: option.splits)

text \<open>A coded error keeps its message and its code's status on both transports, abort or not.\<close>

lemma transports_agree:
  assumes "AsError er = Some ae" and "\<not> rw_written s" and "marshal (newResponse (Code ae) (Message ae) None) = Inr doc"
  shows "mapGRPCError (Some er) = Some (StatusError (GRPCStatus (Code ae)) (Message ae)) \<and>
    rw_status (respond_error marshal er s) = HTTPStatus (Code ae) \<and> rw_body (respond_error marshal er s) = rw_body s @ [doc]"
  using assms GRPCStatus_error HTTPStatus_error [of "Code ae"] abort_body [of marshal _ _ doc]
  by (auto simp: mapGRPCError_def status_Error_def respond_error_def)

text \<open>An abort with an error that has no code is reported as success, without a response.\<close>

lemma plain_abort_is_success: "IsAbort er \<Longrightarrow> AsError er = None \<Longrightarrow> mapGRPCError (Some er) = None"
  by (simp add: mapGRPCError_def status_Error_def)

lemma grpc_metadata_Get:
  "md_Get (grpc_metadata uuid inc fullMethod md_New) RequestPath = (fullMethod, True)"
  "md_Get (grpc_metadata uuid inc fullMethod md_New) RequestProtocol = (grpc_Protocol, True)"
  "ToLower k \<notin> {ToLower RequestPath, ToLower RequestProtocol, ToLower RequestID} \<Longrightarrow>
    md_Get (grpc_metadata uuid inc fullMethod md_New) k = (reader_Get inc k, reader_Get inc k \<noteq> '''')"
proof -
  let ?md2 = "set_TeeWriter [] (case inc of Some i \<Rightarrow> set_TeeReader (reader_Get (Some i)) md_New | None \<Rightarrow> md_New)"
  have low: "reader_Get i (ToLower k) = reader_Get i k" for i k by (simp add: reader_Get_def split: option.splits)
  have md2: "md_Get ?md2 k = (reader_Get inc k, reader_Get inc k \<noteq> '''')" for k
    by (cases inc) (simp_all add: md_Get_def set_TeeWriter_def set_TeeReader_def md_New_def canonicalMetadataKey_def Let_def low,
      simp_all add: reader_Get_def)
  note d = request_keys_differ
  show "md_Get (grpc_metadata uuid inc fullMethod md_New) RequestPath = (fullMethod, True)"
    "md_Get (grpc_metadata uuid inc fullMethod md_New) RequestProtocol = (grpc_Protocol, True)"
    using d by (simp_all add: grpc_metadata_def Let_def md_Get_Set)
  show "md_Get (grpc_metadata uuid inc fullMethod md_New) k = (reader_Get inc k, reader_Get inc k \<noteq> '''')"
    if "ToLower k \<notin> {ToLower RequestPath, ToLower RequestProtocol, ToLower RequestID}"
    using that by (simp add: grpc_metadata_def Let_def md_Get_Set md2)
qed

definition grpc_entry :: "string \<Rightarrow> string \<Rightarrow> ('q, 'a) grpc_ctx_scheme \<Rightarrow> ('r, 'b) grpc_state_scheme \<Rightarrow> ('r, 'b) grpc_state_scheme" where
  "grpc_entry uuid fullMethod c s = s\<lparr>heap := heap s @ [grpc_metadata uuid (gc_incoming c) fullMethod md_New]\<rparr>"

lemma attach_fresh:
  "metadataKey c = None \<Longrightarrow> attachMetadata uuid fullMethod c s =
     (NewContext c (length (heap s)), length (heap s), (case gc_outgoing c of Some out \<Rightarrow> out | None \<Rightarrow> []), grpc_entry uuid fullMethod c s)"
  by (simp add: attachMetadata_def FromContext_def grpc_entry_def Let_def)

lemma request_md_grpc:
  "request_md (grpc_entry uuid fullMethod c s) (NewContext c' (length (heap s))) = grpc_metadata uuid (gc_incoming c) fullMethod md_New"
  "request_md (grpc_entry uuid fullMethod c s) ((NewContext c' (length (heap s)))\<lparr>gc_request := rq\<rparr>) = grpc_metadata uuid (gc_incoming c) fullMethod md_New"
  by (simp_all add: request_md_def FromContext_def NewContext_def grpc_entry_def)

subsection \<open>Properties\<close>

text \<open>
  C23: The gRPC server fails closed. With the JWT middleware first in the chain, for a method that is not on the allowlist, a unary
  call and a stream either both end with an error status (the unary call without a response), the same for every handler of the
  method, so the handler did not run, or the metadata carried a token that parsed and is valid. The validator of the middleware, if
  any, does not abort and sets no response.
\<close>

theorem grpc_fail_closed:
  fixes s :: "('r, 'b) grpc_state_scheme" and opts :: "(('r, 'b) grpc_state_scheme, ('q, 'a) grpc_ctx_scheme) jwt_options"
  assumes "metadataKey c = None" and "md = grpc_metadata uuid (gc_incoming c) fullMethod md_New" and "\<not> on_allowlist opts md"
    and "\<forall>v c t s. validate opts = Some v \<longrightarrow> (gr_resp s = None \<longrightarrow> gr_resp (snd (v c t s)) = None) \<and>
      (\<forall>er. fst (v c t s) = Some er \<longrightarrow> \<not> IsAbort er)"
  shows "(\<exists>er s'. \<forall>handler. unaryServerInterceptor uuid now recorder (JWT lib opts # mws) fullMethod req handler c s = ((None, Some er), s')) \<and>
    (\<exists>er s'. \<forall>handler. streamServerInterceptor uuid now recorder (JWT lib opts # mws) fullMethod handler c s = (Some er, s')) \<or>
    (md_Has md authorizationKey \<and> (\<exists>ti. parse_token lib opts (bearer_token md) = Inr ti \<and> Valid ti))"
proof (cases "md_Has md authorizationKey \<and> (\<exists>ti. parse_token lib opts (bearer_token md) = Inr ti \<and> Valid ti)")
  case False
  let ?s = "grpc_entry uuid fullMethod c (s\<lparr>gr_resp := None\<rparr>)" and ?c = "(NewContext c (length (heap s)))\<lparr>gc_request := Some req\<rparr>"
  have md: "md = request_md ?s ?c" using request_md_grpc(2) [where s = "s\<lparr>gr_resp := None\<rparr>" and c = c and c' = c] by (simp add: assms(2))
  have na: "\<not> on_allowlist opts (request_md ?s ?c)" using assms(3) md by simp
  have r: "gr_resp ?s = None" by (simp add: grpc_entry_def)
  obtain er s2 where e: "\<And>nxt. JWT lib opts nxt ?c ?s = (Some er, s2)" "\<not> IsAbort er" "gr_resp s2 = None"
    using JWT_reject [OF na md, of "\<lambda>s. gr_resp s = None", OF r False assms(4)] by blast
  obtain ge where ge: "mapGRPCError (Some er) = Some ge" using mapGRPCError_error [OF e(2)] by auto
  have unary: "\<exists>er s'. \<forall>handler. unaryServerInterceptor uuid now recorder (JWT lib opts # mws) fullMethod req handler c s = ((None, Some er), s')"
    using attach_fresh [OF assms(1), where s = "s\<lparr>gr_resp := None\<rparr>"] e ge
    by (auto simp: unaryServerInterceptor_def Let_def)
  let ?t = "grpc_entry uuid fullMethod c s" and ?d = "NewContext c (length (heap s))"
  have md': "md = request_md ?t ?d" using request_md_grpc(1) [where s = s and c = c and c' = c] by (simp add: assms(2))
  have na': "\<not> on_allowlist opts (request_md ?t ?d)" using assms(3) md' by simp
  obtain er' s3 where e': "\<And>nxt. JWT lib opts nxt ?d ?t = (Some er', s3)" "\<not> IsAbort er'"
    using JWT_reject [OF na' md', of "\<lambda>s. True", OF _ False] assms(4) by blast
  obtain ge' where ge': "mapGRPCError (Some er') = Some ge'" using mapGRPCError_error [OF e'(2)] by auto
  have "\<exists>er s'. \<forall>handler. streamServerInterceptor uuid now recorder (JWT lib opts # mws) fullMethod handler c s = (Some er, s')"
    using attach_fresh [OF assms(1), where s = s] e' ge'
    by (auto simp: streamServerInterceptor_def Let_def)
  with unary show ?thesis by blast
qed blast

text \<open>
  The middlewares of a gRPC call read the method's full name as the path and \<open>grpc\<close> as the protocol, whatever the caller
  sends; every other key except the request id, among them the address of the client that the rate
  limiter counts by, is the value the caller sent.
\<close>

theorem grpc_metadata_read:
  assumes "metadataKey c = None" and "gc_incoming c = Some inc" and "attachMetadata uuid fullMethod c s = (c1, p, out, s1)"
  shows "ctx_Get (heap s1) c1 RequestPath = (fullMethod, True) \<and> ctx_Get (heap s1) c1 RequestProtocol = (''grpc'', True) \<and>
    fst (ctx_Get (heap s1) c1 RequestClientIP) = header_Get inc RequestClientIP \<and>
    fst (ctx_Get (heap s1) c1 authorizationKey) = header_Get inc authorizationKey"
proof -
  have e: "c1 = NewContext c (length (heap s))" "s1 = grpc_entry uuid fullMethod c s"
    using attach_fresh [OF assms(1), where s = s] assms(3) by auto
  have "ctx_Get (heap s1) c1 k = md_Get (grpc_metadata uuid (Some inc) fullMethod md_New) k" for k
    using assms(2) by (simp add: e ctx_Get_def FromContext_def NewContext_def grpc_entry_def md_Get_lower canonicalMetadataKey_def Let_def nth_append)
  moreover have "reader_Get (Some inc) k = header_Get inc k" for k by (simp add: reader_Get_def header_Get_def)
  ultimately show ?thesis using grpc_metadata_Get [where inc = "Some inc"] request_keys_differ
    by (simp add: grpc_Protocol_def)
qed

text \<open>
  A stream handler never sees what the middlewares put into the context. When the JWT middleware admits a stream with claims, the
  handler runs on the stream's own context, which has none; a unary handler gets them.
\<close>

theorem stream_claims_lost:
  fixes c :: "('q, 'a) grpc_ctx_scheme" and s :: "('r, 'b) grpc_state_scheme"
  assumes "metadataKey c = None" and "authKey c = None" and "md = grpc_metadata uuid (gc_incoming c) fullMethod md_New"
    and "\<not> on_allowlist opts md" and "validate opts = None" and "permissionChecker opts = None"
    and "md_Has md authorizationKey" and "parse_token lib opts (bearer_token md) = Inr ti" and "Valid ti"
  shows "fst (streamServerInterceptor uuid now None [JWT lib opts] fullMethod (\<lambda>c s. (check (auth_FromContext c), s)) c s) =
      mapGRPCError (check None) \<and>
    snd (fst (unaryServerInterceptor uuid now None [JWT lib opts] fullMethod req (\<lambda>c q s. ((None, check (auth_FromContext c)), s)) c s)) =
      mapGRPCError (check (Some (tClaims ti)))"
proof -
  have J: "JWT lib opts nxt c' s' = nxt (auth_NewContext c' (tClaims ti)) s'" if "request_md s' c' = md" for nxt c' and s' :: "('r, 'b) grpc_state_scheme"
  proof -
    have "\<not> on_allowlist opts (request_md s' c')" using that assms(4) by simp
    from JWT_protected [OF this] show ?thesis using that assms(5-9) by simp
  qed
  let ?s1 = "grpc_entry uuid fullMethod c s" and ?s2 = "grpc_entry uuid fullMethod c (s\<lparr>gr_resp := None\<rparr>)"
  let ?c = "NewContext c (length (heap s))"
  have m: "request_md ?s1 ?c = md" "request_md ?s2 (?c\<lparr>gc_request := Some req\<rparr>) = md"
    using request_md_grpc(1) [where s = s and c = c and c' = c]
      request_md_grpc(2) [where s = "s\<lparr>gr_resp := None\<rparr>" and c = c and c' = c] assms(3) by simp_all
  show ?thesis
    using attach_fresh [OF assms(1), where s = s] attach_fresh [OF assms(1), where s = "s\<lparr>gr_resp := None\<rparr>"] J [OF m(1)] J [OF m(2)]
    by (simp add: streamServerInterceptor_def unaryServerInterceptor_def stream_next_def unary_next_def recordMetrics_def Let_def
        auth_FromContext_def auth_NewContext_def assms(2))
qed

subsection \<open>A sample call\<close>

definition sample_call :: "header \<Rightarrow> unit grpc_ctx" where
  "sample_call inc = \<lparr>metadataKey = None, authKey = None, gc_incoming = Some inc, gc_outgoing = None, gc_request = None\<rparr>"

definition sample_grpc_state :: "unit grpc_state" where
  "sample_grpc_state = \<lparr>heap = [], gr_resp = None, gr_headers = []\<rparr>"

definition sample_grpc_options :: "(unit grpc_state, unit grpc_ctx) jwt_options" where
  "sample_grpc_options = \<lparr>allows = [''/login''], claims = None, validate = None, permissionChecker = None\<rparr>"

lemma sample_grpc_md:
  "md_Get (grpc_metadata ''u'' (gc_incoming (sample_call inc)) ''/svc/get'' md_New) RequestPath = (''/svc/get'', True)"
  "md_Get (grpc_metadata ''u'' (gc_incoming (sample_call inc)) ''/svc/get'' md_New) authorizationKey =
     (header_Get inc authorizationKey, header_Get inc authorizationKey \<noteq> '''')"
  using grpc_metadata_Get [where inc = "Some inc"] request_keys_differ
  by (simp_all add: sample_call_def reader_Get_def header_Get_def)

lemma sample_grpc_protected: "\<not> on_allowlist sample_grpc_options (grpc_metadata ''u'' (gc_incoming (sample_call inc)) ''/svc/get'' md_New)"
proof -
  have "\<not> isAllowed ''/svc/get'' (allows sample_grpc_options)" by code_simp
  then show ?thesis by (simp add: on_allowlist_def sample_grpc_md)
qed

theorem grpc_fail_closed_witness:
  "(\<exists>er s'. \<forall>handler. unaryServerInterceptor ''u'' (\<lambda>_. 0) None [JWT sample_lib sample_grpc_options] ''/svc/get'' () handler (sample_call []) sample_grpc_state =
     ((None, Some er), s')) \<and>
   (\<exists>er s'. \<forall>handler. streamServerInterceptor ''u'' (\<lambda>_. 0) None [JWT sample_lib sample_grpc_options] ''/svc/get'' handler (sample_call []) sample_grpc_state =
     (Some er, s'))"
proof -
  define md where "md = grpc_metadata ''u'' (gc_incoming (sample_call [])) ''/svc/get'' md_New"
  have m: "metadataKey (sample_call []) = None" by (simp add: sample_call_def)
  have "\<not> md_Has md authorizationKey" by (simp add: md_def md_Has_def sample_grpc_md) (simp add: header_Get_def)
  with grpc_fail_closed [OF m md_def, of sample_grpc_options, folded md_def, OF sample_grpc_protected [of "[]", folded md_def],
      where lib = sample_lib and mws = "[]" and now = "\<lambda>_. 0" and recorder = None and req = "()" and s = sample_grpc_state]
  show ?thesis by (simp add: sample_grpc_options_def)
qed

theorem grpc_metadata_read_witness:
  "fst (ctx_Get (heap (snd (snd (snd (attachMetadata ''u'' ''/svc/get'' (sample_call [(''x-aeus-request-client-ip'', [''1.2.3.4''])]) sample_grpc_state)))))
     (fst (attachMetadata ''u'' ''/svc/get'' (sample_call [(''x-aeus-request-client-ip'', [''1.2.3.4''])]) sample_grpc_state)) RequestClientIP) = ''1.2.3.4''"
proof -
  define inc where "inc = [(''x-aeus-request-client-ip'', [''1.2.3.4''])]"
  have m: "metadataKey (sample_call inc) = None" "gc_incoming (sample_call inc) = Some inc" by (simp_all add: sample_call_def)
  obtain c1 p out s1 where a: "attachMetadata ''u'' ''/svc/get'' (sample_call inc) sample_grpc_state = (c1, p, out, s1)" by (rule prod_cases4)
  have "header_Get inc RequestClientIP = ''1.2.3.4''" unfolding inc_def by code_simp
  with grpc_metadata_read [OF m a] a show ?thesis unfolding inc_def [symmetric] by simp
qed

definition sample_token_lib :: jwt_lib where
  "sample_token_lib = sample_lib\<lparr>Parse := (\<lambda>_. Inr \<lparr>Valid = True, tClaims = MapClaims []\<rparr>)\<rparr>"

theorem stream_claims_lost_witness:
  "fst (streamServerInterceptor ''u'' (\<lambda>_. 0) None [JWT sample_token_lib sample_grpc_options] ''/svc/get''
      (\<lambda>c s. (if auth_FromContext c = None then Some ErrAccessDenied else None, s)) (sample_call [(''authorization'', [''t''])]) sample_grpc_state) \<noteq> None"
proof -
  define inc where "inc = [(''authorization'', [''t''])]"
  define md where "md = grpc_metadata ''u'' (gc_incoming (sample_call inc)) ''/svc/get'' md_New"
  have m: "metadataKey (sample_call inc) = None" "authKey (sample_call inc) = None" by (simp_all add: sample_call_def)
  have "header_Get inc authorizationKey = ''t''" unfolding inc_def by code_simp
  then have h: "md_Has md authorizationKey" by (simp add: md_def md_Has_def sample_grpc_md)
  have o: "validate sample_grpc_options = None" "permissionChecker sample_grpc_options = None" by (simp_all add: sample_grpc_options_def)
  have p: "parse_token sample_token_lib sample_grpc_options (bearer_token md) = Inr \<lparr>Valid = True, tClaims = MapClaims []\<rparr>"
    by (simp add: parse_token_def sample_grpc_options_def sample_token_lib_def)
  have "mapGRPCError (Some ErrAccessDenied) \<noteq> None" using mapGRPCError_error sentinels_no_abort by blast
  with stream_claims_lost [OF m md_def sample_grpc_protected [of inc, folded md_def] o h p,
      where check = "\<lambda>x. if x = None then Some ErrAccessDenied else None" and now = "\<lambda>_. 0" and s = sample_grpc_state and req = "()"]
  show ?thesis by (simp add: inc_def)
qed

end
