(* ===== verification/Menus.thy ===== *)
theory Menus
  imports Models
begin

text \<open>
  Package \<open>admin/models\<close>, files \<open>menu.go\<close>, \<open>role.go\<close>, \<open>role_permission.go\<close> and
  \<open>permission.go\<close>: the menu tree built from the flat rows, the path to a row, and the
  operations that keep the role grants in step with roles, menus and the catalogue.
\<close>

subsection \<open>The menu tree\<close>

datatype MenuTreeNode = MenuTreeNode (n_Component: string) (n_Title: string) (n_Uri: string)
  (n_Icon: string) (n_Hidden: bool) (n_Public: bool) (n_Children: "MenuTreeNode list")

definition byComponent :: "Menu list \<Rightarrow> string \<rightharpoonup> nat" where
  "byComponent menus = fold (\<lambda>i m. m(m_Component (menus ! i) \<mapsto> i)) [0..<length menus] Map.empty"

definition menu_children :: "Menu list \<Rightarrow> string \<Rightarrow> nat list" where
  "menu_children menus =
     fold (\<lambda>i ch. let p = m_Parent (menus ! i) in
             if byComponent menus p = None \<or> p = '''' then ch else ch(p := ch p @ [i]))
       [0..<length menus] (\<lambda>_. [])"

text \<open>
  The recursion of \<open>buildSubtree\<close> follows the rows, not a structure, and may not end; the
  fuel bounds its depth, and \<open>None\<close> says that the bound was reached.
\<close>

fun those :: "'a option list \<Rightarrow> 'a list option" where
  "those [] = Some []"
| "those (None # xs) = None"
| "those (Some x # xs) = map_option ((#) x) (those xs)"

fun buildSubtree :: "nat \<Rightarrow> Menu list \<Rightarrow> (string \<Rightarrow> nat list) \<Rightarrow> nat \<Rightarrow> MenuTreeNode option" where
  "buildSubtree 0 menus children idx = None"
| "buildSubtree (Suc fuel) menus children idx =
     (let m = menus ! idx in
      map_option
        (MenuTreeNode (m_Component m) (m_Name m) (m_Uri m) (m_Icon m) (m_Hidden m) (m_Public m))
        (those (map (buildSubtree fuel menus children) (children (m_Component m)))))"

definition is_root :: "Menu list \<Rightarrow> nat \<Rightarrow> bool" where
  "is_root menus i \<longleftrightarrow> m_Parent (menus ! i) = '''' \<or> byComponent menus (m_Parent (menus ! i)) = None"

definition BuildTree :: "nat \<Rightarrow> Menu list \<Rightarrow> MenuTreeNode list option" where
  "BuildTree fuel menus =
     those (map (buildSubtree fuel menus (menu_children menus)) (filter (is_root menus) [0..<length menus]))"

subsection \<open>Facts about the tree\<close>

lemma those_Some: "those xs = Some ys \<longleftrightarrow> xs = map Some ys"
proof (induction xs arbitrary: ys)
  case (Cons x xs)
  show ?case by (cases x; cases ys) (auto simp: Cons.IH)
qed auto

lemma those_total: "\<forall>x\<in>set xs. f x \<noteq> None \<Longrightarrow> those (map f xs) = Some (map (the \<circ> f) xs)"
  by (simp add: those_Some)

lemma fold_upd_dom: "dom (fold (\<lambda>i m. m(f i \<mapsto> i)) is m) = f ` set is \<union> dom m"
  by (induction "is" arbitrary: m) auto

lemma byComponent_None: "byComponent menus c = None \<longleftrightarrow> c \<notin> m_Component ` set menus"
proof -
  have "dom (byComponent menus) = (\<lambda>i. m_Component (menus ! i)) ` {0..<length menus}"
    by (simp add: byComponent_def fold_upd_dom)
  also have "\<dots> = m_Component ` set menus" by (force simp: in_set_conv_nth image_iff)
  finally show ?thesis by (auto simp: domIff [symmetric])
qed

lemma fold_bucket:
  "fold (\<lambda>i ch. if Q (p i) then ch else ch(p i := ch (p i) @ [i])) xs ch c =
     ch c @ filter (\<lambda>i. p i = c \<and> \<not> Q c) xs"
  by (induction xs arbitrary: ch) auto

lemma menu_children_eq:
  "menu_children menus c = filter (\<lambda>i. m_Parent (menus ! i) = c \<and> \<not> is_root menus i) [0..<length menus]"
  using fold_bucket [where Q = "\<lambda>p. byComponent menus p = None \<or> p = ''''"
      and p = "\<lambda>i. m_Parent (menus ! i)" and ch = "\<lambda>_. []" and xs = "[0..<length menus]" and c = c]
  by (simp add: menu_children_def Let_def is_root_def) (rule filter_cong; auto)

text \<open>
  A chain of rows, each the child of the next, that ends in a root. With distinct
  components a row starts at most one chain.
\<close>

fun chain :: "Menu list \<Rightarrow> nat list \<Rightarrow> bool" where
  "chain menus [] \<longleftrightarrow> False"
| "chain menus [i] \<longleftrightarrow> i < length menus \<and> is_root menus i"
| "chain menus (i # p # ps) \<longleftrightarrow> i < length menus \<and> \<not> is_root menus i \<and>
     m_Parent (menus ! i) = m_Component (menus ! p) \<and> chain menus (p # ps)"

lemma chain_hd: "chain menus (i # ps) \<Longrightarrow> i < length menus"
  by (cases ps) auto

lemma component_inj:
  "distinct (map m_Component menus) \<Longrightarrow> i < length menus \<Longrightarrow> j < length menus \<Longrightarrow>
   m_Component (menus ! i) = m_Component (menus ! j) \<Longrightarrow> i = j"
  by (metis length_map nth_eq_iff_index_eq nth_map)

lemma chain_unique:
  assumes dist: "distinct (map m_Component menus)"
  shows "chain menus ps \<Longrightarrow> chain menus qs \<Longrightarrow> hd ps = hd qs \<Longrightarrow> ps = qs"
proof (induction ps arbitrary: qs)
  case (Cons i ps)
  then obtain qs' where qs: "qs = i # qs'" by (cases qs) auto
  show ?case
  proof (cases ps; cases qs')
    fix p ps' q qs'' assume c: "ps = p # ps'" "qs' = q # qs''"
    then have *: "chain menus ps" "chain menus qs'" "m_Component (menus ! p) = m_Component (menus ! q)"
      using Cons.prems qs by auto
    then have "p = q" using component_inj [OF dist] chain_hd c by metis
    then show ?thesis using Cons.IH [OF *(1,2)] c qs by simp
  qed (use Cons.prems qs in auto)
qed simp

lemma chain_suffix: "chain menus (qs @ i # ps) \<Longrightarrow> chain menus (i # ps)"
proof (induction qs)
  case (Cons q qs)
  then show ?case by (cases qs) auto
qed simp

lemma chain_distinct:
  assumes dist: "distinct (map m_Component menus)"
  shows "chain menus ps \<Longrightarrow> distinct ps"
proof (induction ps)
  case (Cons i ps)
  have "i \<notin> set ps"
  proof
    assume "i \<in> set ps"
    then obtain as bs where s: "ps = as @ i # bs" by (auto simp: in_set_conv_decomp)
    then have "chain menus (i # bs)" using Cons.prems chain_suffix [of menus "i # as"] by simp
    from chain_unique [OF dist Cons.prems this] s show False by simp
  qed
  moreover have "distinct ps" using Cons by (cases ps) auto
  ultimately show ?case by simp
qed simp

lemma chain_set: "chain menus ps \<Longrightarrow> set ps \<subseteq> {..<length menus}"
proof (induction ps)
  case (Cons i ps)
  then show ?case by (cases ps) auto
qed simp

lemma chain_length:
  assumes "distinct (map m_Component menus)" and "chain menus ps"
  shows "length ps \<le> length menus"
  using card_mono [OF _ chain_set [OF assms(2)]] chain_distinct [OF assms] by (simp add: distinct_card)

lemma chain_child:
  assumes "chain menus (i # ps)" and "c \<in> set (menu_children menus (m_Component (menus ! i)))"
  shows "chain menus (c # i # ps)"
  using assms by (simp add: menu_children_eq)

lemma chain_parent:
  "chain menus (qs @ c # i # ps) \<Longrightarrow> c \<in> set (menu_children menus (m_Component (menus ! i)))"
  using chain_suffix [of menus qs c "i # ps"] chain_hd [of menus c "i # ps"] by (simp add: menu_children_eq)

fun flatten :: "MenuTreeNode \<Rightarrow> string list" where
  "flatten (MenuTreeNode c t u ic h p ts) = c # concat (map flatten ts)"

text \<open>
  Below a row that a chain reaches from a root, the recursion ends, and its nodes are
  the rows whose own chain goes through that row, each once.
\<close>

definition below :: "Menu list \<Rightarrow> nat list \<Rightarrow> nat set" where
  "below menus ps = {j. \<exists>qs. chain menus (j # qs) \<and> suffix ps (j # qs)}"

definition row_component :: "Menu list \<Rightarrow> nat \<Rightarrow> string" where
  "row_component menus i = m_Component (menus ! i)"

definition builds :: "nat \<Rightarrow> Menu list \<Rightarrow> nat \<Rightarrow> nat set \<Rightarrow> bool" where
  "builds fuel menus i B \<longleftrightarrow>
     (\<exists>t ix. buildSubtree fuel menus (menu_children menus) i = Some t \<and>
       flatten t = map (row_component menus) ix \<and> distinct ix \<and> set ix = B)"

lemma below_self: "chain menus (i # ps) \<Longrightarrow> i \<in> below menus (i # ps)"
  unfolding below_def by blast

lemma below_disjoint:
  assumes "distinct (map m_Component menus)" and "j \<in> below menus ps" and "j \<in> below menus qs"
    and "length ps = length qs"
  shows "ps = qs"
proof -
  from assms(2,3) obtain as bs where c: "chain menus (j # as)" "suffix ps (j # as)"
    "chain menus (j # bs)" "suffix qs (j # bs)" unfolding below_def by blast
  then have "as = bs" using chain_unique [OF assms(1)] by fastforce
  with c assms(4) show ?thesis by (metis suffix_length_suffix suffix_def append_eq_append_conv)
qed

lemma below_strict:
  assumes "distinct (map m_Component menus)" and "chain menus (i # ps)"
  shows "i \<notin> below menus (c # i # ps)"
proof
  assume "i \<in> below menus (c # i # ps)"
  then obtain qs where q: "chain menus (i # qs)" "suffix (c # i # ps) (i # qs)" unfolding below_def by blast
  then have "qs = ps" using chain_unique [OF assms(1) _ assms(2)] by fastforce
  with q(2) show False by (auto dest: suffix_length_le)
qed

lemma below_split:
  assumes "chain menus (i # ps)"
  shows "below menus (i # ps) =
    insert i (\<Union>c\<in>set (menu_children menus (m_Component (menus ! i))). below menus (c # i # ps))"
    (is "?L = insert i ?R")
proof (intro set_eqI iffI)
  fix j assume "j \<in> ?L"
  then obtain qs zs where q: "chain menus (j # qs)" "j # qs = zs @ i # ps" by (auto simp: below_def suffix_def)
  show "j \<in> insert i ?R"
  proof (cases zs rule: rev_cases)
    case (snoc ys c)
    then have "c \<in> set (menu_children menus (m_Component (menus ! i)))"
      using q chain_parent [of menus ys c i ps] by simp
    moreover have "j \<in> below menus (c # i # ps)" unfolding below_def suffix_def mem_Collect_eq
      using q snoc by (intro exI [of _ qs] conjI exI [of _ ys]) simp_all
    ultimately show ?thesis by blast
  qed (use q in simp)
next
  fix j assume "j \<in> insert i ?R"
  then show "j \<in> ?L" using below_self [OF assms] by (auto simp: below_def suffix_def)
qed

lemma builds_forest:
  assumes "\<And>c. c \<in> set cs \<Longrightarrow> builds fuel menus c (B c)" and "distinct cs"
    and "\<And>c d. c \<in> set cs \<Longrightarrow> d \<in> set cs \<Longrightarrow> c \<noteq> d \<Longrightarrow> B c \<inter> B d = {}"
  shows "\<exists>ts ix. those (map (buildSubtree fuel menus (menu_children menus)) cs) = Some ts \<and>
    concat (map flatten ts) = map (row_component menus) ix \<and> distinct ix \<and> set ix = (\<Union>c\<in>set cs. B c)"
  using assms
proof (induction cs)
  case Nil
  show ?case by (intro exI [of _ "[]"]) simp
next
  case (Cons c cs)
  then have "\<exists>ts ix. those (map (buildSubtree fuel menus (menu_children menus)) cs) = Some ts \<and>
    concat (map flatten ts) = map (row_component menus) ix \<and> distinct ix \<and> set ix = (\<Union>c\<in>set cs. B c)" by simp
  then obtain ts ix where ih: "those (map (buildSubtree fuel menus (menu_children menus)) cs) = Some ts"
    "concat (map flatten ts) = map (row_component menus) ix" "distinct ix" "set ix = (\<Union>c\<in>set cs. B c)" by blast
  from Cons.prems(1) [of c] obtain t jx where t: "buildSubtree fuel menus (menu_children menus) c = Some t"
    "flatten t = map (row_component menus) jx" "distinct jx" "set jx = B c" unfolding builds_def by auto
  have "B c \<inter> (\<Union>c\<in>set cs. B c) = {}" using Cons.prems(2,3) by fastforce
  then show ?case using ih t by (intro exI [of _ "t # ts"] exI [of _ "jx @ ix"]) auto
qed

lemma builds_below:
  assumes dist: "distinct (map m_Component menus)"
  shows "chain menus (i # ps) \<Longrightarrow> length menus \<le> fuel + length ps \<Longrightarrow>
    builds fuel menus i (below menus (i # ps))"
proof (induction fuel arbitrary: i ps)
  case 0
  then show ?case using chain_length [OF dist "0.prems"(1)] by simp
next
  case (Suc fuel)
  let ?cs = "menu_children menus (m_Component (menus ! i))"
  note ch = chain_child [OF Suc.prems(1)]
  have "\<exists>ts ix. those (map (buildSubtree fuel menus (menu_children menus)) ?cs) = Some ts \<and>
    concat (map flatten ts) = map (row_component menus) ix \<and> distinct ix \<and>
    set ix = (\<Union>c\<in>set ?cs. below menus (c # i # ps))"
  proof (rule builds_forest)
    show "builds fuel menus c (below menus (c # i # ps))" if "c \<in> set ?cs" for c
      using Suc.IH [OF ch [OF that]] Suc.prems(2) by simp
    show "distinct ?cs" by (simp add: menu_children_eq)
    show "below menus (c # i # ps) \<inter> below menus (d # i # ps) = {}" if "c \<noteq> d" for c d
      using below_disjoint [OF dist, of _ "c # i # ps" "d # i # ps"] that by auto
  qed
  then obtain ts ix where ts: "those (map (buildSubtree fuel menus (menu_children menus)) ?cs) = Some ts"
    "concat (map flatten ts) = map (row_component menus) ix" "distinct ix"
    "set ix = (\<Union>c\<in>set ?cs. below menus (c # i # ps))" by blast
  then have "i \<notin> set ix" using below_strict [OF dist Suc.prems(1)] by simp
  with ts show ?case unfolding builds_def below_split [OF Suc.prems(1)]
    by (simp add: Let_def) (intro exI [of _ "i # ix"]; simp add: row_component_def)
qed

text \<open>A row is reachable if its parents lead to a root.\<close>

inductive reachable :: "Menu list \<Rightarrow> nat \<Rightarrow> bool" for menus where
  root: "i < length menus \<Longrightarrow> is_root menus i \<Longrightarrow> reachable menus i"
| child: "i < length menus \<Longrightarrow> \<not> is_root menus i \<Longrightarrow> reachable menus p \<Longrightarrow>
    m_Parent (menus ! i) = m_Component (menus ! p) \<Longrightarrow> reachable menus i"

lemma reachable_chain: "reachable menus i \<longleftrightarrow> (\<exists>ps. chain menus (i # ps))"
proof
  show "reachable menus i \<Longrightarrow> \<exists>ps. chain menus (i # ps)"
  proof (induction rule: reachable.induct)
    case (root i)
    then show ?case by (intro exI [of _ "[]"]) simp
  next
    case (child i p)
    then obtain ps where "chain menus (p # ps)" by blast
    with child show ?case by (intro exI [of _ "p # ps"]) simp
  qed
  have "chain menus ps \<Longrightarrow> ps \<noteq> [] \<Longrightarrow> reachable menus (hd ps)" for ps
  proof (induction ps)
    case (Cons i ps)
    then show ?case by (cases ps) (auto intro: reachable.intros)
  qed simp
  then show "\<exists>ps. chain menus (i # ps) \<Longrightarrow> reachable menus i" by fastforce
qed

lemma chain_root: "chain menus ps \<Longrightarrow> ps \<noteq> [] \<and> chain menus [last ps]"
proof (induction ps)
  case (Cons i ps)
  then show ?case by (cases ps) auto
qed simp

lemma roots_reach:
  "(\<Union>r\<in>set (filter (is_root menus) [0..<length menus]). below menus [r]) = {i. reachable menus i}"
proof (intro set_eqI iffI)
  fix i assume "i \<in> {i. reachable menus i}"
  then obtain ps where p: "chain menus (i # ps)" by (auto simp: reachable_chain)
  then have "chain menus [last (i # ps)]" using chain_root by blast
  moreover have "suffix [last (i # ps)] (i # ps)" by (metis append_butlast_last_id list.discI suffix_def)
  ultimately show "i \<in> (\<Union>r\<in>set (filter (is_root menus) [0..<length menus]). below menus [r])"
    using p by (auto simp: below_def)
qed (auto simp: below_def reachable_chain)

subsection \<open>Path to a row, visible rows\<close>

text \<open>The loop of \<open>PathTo\<close>; the fuel bounds the number of its rounds.\<close>

fun path_loop :: "nat \<Rightarrow> (Menu, 'd) table_ops \<Rightarrow> 'd \<Rightarrow> string set \<Rightarrow> string \<Rightarrow> string list \<Rightarrow> string list option" where
  "path_loop 0 ops db visited cur path = None"
| "path_loop (Suc fuel) ops db visited cur path =
     (if cur = '''' then Some path
      else if cur \<in> visited then Some path
      else (case First ops (\<lambda>m. m_Component m = cur) db of
              Inl err \<Rightarrow> Some path
            | Inr p \<Rightarrow> path_loop fuel ops db (insert cur visited) (m_Parent p) (m_Component p # path)))"

definition PathTo :: "nat \<Rightarrow> (Menu, 'd) table_ops \<Rightarrow> 'd \<Rightarrow> nat \<Rightarrow> (goerror + string list) option" where
  "PathTo fuel ops db ident =
     (case First ops (\<lambda>m. m_ID m = ident) db of
        Inl err \<Rightarrow> Some (Inl err)
      | Inr start \<Rightarrow> map_option Inr
          (path_loop fuel ops db {m_Component start} (m_Parent start) [m_Component start]))"

definition parent_link :: "Menu list \<Rightarrow> string \<Rightarrow> string \<Rightarrow> bool" where
  "parent_link ms p c \<longleftrightarrow> (\<exists>m\<in>set ms. m_Component m = c \<and> m_Parent m = p)"

definition path_end :: "(Menu, 'd) table_ops \<Rightarrow> 'd \<Rightarrow> string list \<Rightarrow> string \<Rightarrow> bool" where
  "path_end ops db path cur \<longleftrightarrow> cur = '''' \<or> cur \<in> set path \<or> (\<exists>e. First ops (\<lambda>m. m_Component m = cur) db = Inl e)"

lemma path_loop_spec:
  assumes g: "gorm_table ops rows"
  shows "card (m_Component ` set (rows db) - set path) < fuel \<Longrightarrow> visited = set path \<Longrightarrow> path \<noteq> [] \<Longrightarrow>
    distinct path \<Longrightarrow> successively (parent_link (rows db)) path \<Longrightarrow> parent_link (rows db) cur (hd path) \<Longrightarrow>
    \<exists>path' cur'. path_loop fuel ops db visited cur path = Some path' \<and> path' \<noteq> [] \<and> last path' = last path \<and>
      distinct path' \<and> successively (parent_link (rows db)) path' \<and> parent_link (rows db) cur' (hd path') \<and>
      path_end ops db path' cur'"
proof (induction fuel arbitrary: visited cur path)
  case (Suc fuel)
  show ?case
  proof (cases "path_end ops db path cur")
    case True
    then have "path_loop (Suc fuel) ops db visited cur path = Some path"
      using Suc.prems(2) by (auto simp: path_end_def)
    with True Suc.prems show ?thesis by blast
  next
    case False
    then obtain p where p: "cur \<noteq> ''''" "cur \<notin> set path" "First ops (\<lambda>m. m_Component m = cur) db = Inr p"
      unfolding path_end_def by (metis sum.exhaust)
    from gorm_table.first_law [OF g p(3)] have pr: "p \<in> set (rows db)" "m_Component p = cur" by auto
    let ?path = "cur # path"
    have "m_Component ` set (rows db) - set ?path \<subset> m_Component ` set (rows db) - set path"
      using pr p(2) by auto
    then have "card (m_Component ` set (rows db) - set ?path) < fuel"
      using Suc.prems(1) psubset_card_mono
      by (metis (no_types, lifting) List.finite_set finite_Diff finite_imageI less_Suc_eq_le less_le_trans)
    moreover have "successively (parent_link (rows db)) ?path"
      using Suc.prems(3,5,6) by (cases path) auto
    moreover have "parent_link (rows db) (m_Parent p) cur" using pr by (auto simp: parent_link_def)
    ultimately have "\<exists>path' cur'. path_loop fuel ops db (set ?path) (m_Parent p) ?path = Some path' \<and> path' \<noteq> [] \<and>
      last path' = last ?path \<and> distinct path' \<and> successively (parent_link (rows db)) path' \<and>
      parent_link (rows db) cur' (hd path') \<and> path_end ops db path' cur'"
      using Suc.IH [of ?path] Suc.prems(4) p(2) by simp
    then show ?thesis using p pr Suc.prems(2,3) by simp
  qed
qed simp

text \<open>
  C36: Menu tree. For rows with distinct components the recursion of \<open>BuildTree\<close> ends (a
  depth of the number of rows is enough), and the forest has one node for each row whose
  parents lead to a root (a row with no parent, or with a parent outside the input):
  no row is duplicated, and only rows on or below a parent cycle are left out.
\<close>

theorem menu_tree:
  assumes "distinct (map m_Component menus)" and "length menus \<le> fuel"
  shows "\<exists>ts. BuildTree fuel menus = Some ts \<and> distinct (concat (map flatten ts)) \<and>
    set (concat (map flatten ts)) = {m_Component (menus ! i) | i. reachable menus i}"
proof -
  let ?rs = "filter (is_root menus) [0..<length menus]"
  have "\<exists>ts ix. those (map (buildSubtree fuel menus (menu_children menus)) ?rs) = Some ts \<and>
    concat (map flatten ts) = map (row_component menus) ix \<and> distinct ix \<and>
    set ix = (\<Union>c\<in>set ?rs. below menus [c])"
  proof (rule builds_forest)
    show "builds fuel menus c (below menus [c])" if "c \<in> set ?rs" for c
      using builds_below [OF assms(1), of c "[]" fuel] that assms(2) by simp
    show "below menus [c] \<inter> below menus [d] = {}" if "c \<noteq> d" for c d
      using below_disjoint [OF assms(1), of _ "[c]" "[d]"] that by auto
  qed simp
  then obtain ts ix where ts: "BuildTree fuel menus = Some ts" "concat (map flatten ts) = map (row_component menus) ix"
    "distinct ix" "set ix = {i. reachable menus i}" unfolding BuildTree_def roots_reach by blast
  have "inj_on (row_component menus) {i. reachable menus i}"
    using component_inj [OF assms(1)]
    by (auto simp: inj_on_def row_component_def reachable_chain dest: chain_hd)
  with ts(3,4) have "distinct (concat (map flatten ts))" unfolding ts(2) by (simp add: distinct_map)
  moreover have "set (concat (map flatten ts)) = {m_Component (menus ! i) | i. reachable menus i}"
    unfolding ts(2) set_map ts(4) by (auto simp: row_component_def)
  ultimately show ?thesis using ts(1) by blast
qed

text \<open>
  Path to a menu row. Against a table that behaves as documented the loop of
  \<open>PathTo\<close> ends, whatever cycles the parents form (more rounds than there are rows are
  never needed). The path it returns ends in the component of the requested row, has no
  repetition, each entry is the parent of the next, and it starts at a row whose parent is
  empty, already on the path, or not found.
\<close>

theorem path_to_row:
  assumes "gorm_table ops rows" and "length (rows db) \<le> fuel" and "First ops (\<lambda>m. m_ID m = ident) db = Inr start"
  shows "\<exists>path. PathTo fuel ops db ident = Some (Inr path) \<and> path \<noteq> [] \<and> last path = m_Component start \<and>
    distinct path \<and>
    successively (\<lambda>p c. \<exists>m\<in>set (rows db). m_Component m = c \<and> m_Parent m = p) path \<and>
    (\<exists>m\<in>set (rows db). m_Component m = hd path \<and>
      (m_Parent m = '''' \<or> m_Parent m \<in> set path \<or>
       (\<exists>e. First ops (\<lambda>r. m_Component r = m_Parent m) db = Inl e)))"
proof -
  from gorm_table.first_law [OF assms(1,3)] have s: "start \<in> set (rows db)" by simp
  let ?C = "m_Component ` set (rows db)"
  have "card ?C \<le> length (rows db)" by (metis card_image_le card_length le_trans List.finite_set)
  moreover have "card (?C - {m_Component start}) < card ?C"
    using s by (intro psubset_card_mono) auto
  ultimately have "card (?C - set [m_Component start]) < fuel" using assms(2) by simp
  from path_loop_spec [OF assms(1) this, of "{m_Component start}" "m_Parent start"] s
  obtain path cur where p: "path_loop fuel ops db {m_Component start} (m_Parent start) [m_Component start] = Some path"
    "path \<noteq> []" "last path = m_Component start" "distinct path" "successively (parent_link (rows db)) path"
    "parent_link (rows db) cur (hd path)" "path_end ops db path cur" by (auto simp: parent_link_def)
  then have "PathTo fuel ops db ident = Some (Inr path)" using assms(3) by (simp add: PathTo_def)
  moreover from p(5) have "successively (\<lambda>p c. \<exists>m\<in>set (rows db). m_Component m = c \<and> m_Parent m = p) path"
    by (simp add: parent_link_def [abs_def])
  moreover from p(6) obtain m where "m \<in> set (rows db)" "m_Component m = hd path" "m_Parent m = cur"
    by (auto simp: parent_link_def)
  ultimately show ?thesis using p(2-4,7) unfolding path_end_def by blast
qed

definition sample_menu :: "nat \<Rightarrow> string \<Rightarrow> string \<Rightarrow> Menu" where
  "sample_menu i c p = \<lparr>m_ID = i, m_Parent = p, m_Name = c, m_Component = c, m_Uri = '''', m_ViewPath = '''',
     m_Icon = '''', m_Hidden = False, m_Public = False, m_Sort = 0, m_Description = ''''\<rparr>"

definition sample_menus :: "Menu list" where
  "sample_menus = [sample_menu 1 ''Sys'' '''', sample_menu 2 ''Users'' ''Sys'', sample_menu 3 ''A'' ''B'',
     sample_menu 4 ''B'' ''A'', sample_menu 5 ''Orphan'' ''Gone'']"

theorem menu_tree_witness:
  "\<exists>ts. BuildTree 5 sample_menus = Some ts \<and> concat (map flatten ts) = [''Sys'', ''Users'', ''Orphan''] \<and>
     set (concat (map flatten ts)) = {m_Component (sample_menus ! i) | i. reachable sample_menus i}"
proof -
  have "distinct (map m_Component sample_menus)" "length sample_menus \<le> 5" by code_simp+
  from menu_tree [OF this] obtain ts where ts: "BuildTree 5 sample_menus = Some ts"
    "set (concat (map flatten ts)) = {m_Component (sample_menus ! i) | i. reachable sample_menus i}" by blast
  have "map_option (\<lambda>ts. concat (map flatten ts)) (BuildTree 5 sample_menus) = Some [''Sys'', ''Users'', ''Orphan'']"
    by code_simp
  with ts show ?thesis by auto
qed

theorem path_to_row_witness:
  "PathTo 5 (mem_table (\<lambda>d. d) (\<lambda>rs d. rs)) sample_menus 2 = Some (Inr [''Sys'', ''Users'']) \<and>
   (\<exists>path. PathTo 5 (mem_table (\<lambda>d. d) (\<lambda>rs d. rs)) sample_menus 3 = Some (Inr path) \<and> distinct path)"
proof
  show "PathTo 5 (mem_table (\<lambda>d. d) (\<lambda>rs d. rs)) sample_menus 2 = Some (Inr [''Sys'', ''Users''])" by code_simp
  have "First (mem_table (\<lambda>d. d) (\<lambda>rs d. rs)) (\<lambda>m. m_ID m = 3) sample_menus = Inr (sample_menu 3 ''A'' ''B'')"
    "length sample_menus \<le> 5" by code_simp+
  from path_to_row [OF list_table.gorm_table_axioms this(2,1)]
  show "\<exists>path. PathTo 5 (mem_table (\<lambda>d. d) (\<lambda>rs d. rs)) sample_menus 3 = Some (Inr path) \<and> distinct path"
    by blast
qed

end
