(* ===== verification/Grants.thy ===== *)
theory Grants
  imports Menus
begin

text \<open>
  Package \<open>admin/models\<close>, files \<open>role.go\<close>, \<open>role_permission.go\<close>, \<open>permission.go\<close>,
  \<open>permissions.go\<close>, \<open>tenant.go\<close> and the hook of \<open>menu.go\<close>: reading and writing the grants of
  a role, and the hooks that keep them in step with the roles and menus they refer to.

  The tables are the fields of \<open>grant_tables\<close>. A handle obtained with \<open>NewDB\<close> and
  \<open>SkipHooks\<close> sees every tenant's rows; a handle that carries a request context sees the
  rows the tenant callbacks leave, so which rows an operation sees is up to the table
  operations it is given. The locale \<open>grant_db\<close> states what the lemmas need of them.
\<close>

record 'd grant_tables =
  T_Role :: "(Role, 'd) table_ops"
  T_RolePermission :: "(RolePermission, 'd) table_ops"
  T_User :: "(User, 'd) table_ops"
  T_Menu :: "(Menu, 'd) table_ops"
  T_Permission :: "(Permission, 'd) table_ops"
  OrderByParentID :: "Menu list \<Rightarrow> Menu list"

subsection \<open>Grants\<close>

definition RolePermission_BeforeCreate :: "RolePermission \<Rightarrow> RolePermission" where
  "RolePermission_BeforeCreate m = m\<lparr>rp_TenantID := ApplyDefaultTenant (rp_TenantID m)\<rparr>"

definition Role_BeforeCreate :: "Role \<Rightarrow> Role" where
  "Role_BeforeCreate m = m\<lparr>r_TenantID := ApplyDefaultTenant (r_TenantID m)\<rparr>"

definition Tenant_BeforeCreate :: "string \<Rightarrow> Tenant \<Rightarrow> Tenant" where
  "Tenant_BeforeCreate uuid m = (if t_ID m = '''' then m\<lparr>t_ID := uuid\<rparr> else m)"

definition purgeRolePermissions :: "'d grant_tables \<Rightarrow> (RolePermission \<Rightarrow> bool) \<Rightarrow> 'd \<Rightarrow> goerror option \<times> 'd" where
  "purgeRolePermissions T scope d = Delete (T_RolePermission T) scope d"

definition MenuPermissionDatas :: "'d grant_tables \<Rightarrow> string \<Rightarrow> 'd \<Rightarrow> goerror + string list" where
  "MenuPermissionDatas T roleKey d =
     (case Find (T_RolePermission T) (\<lambda>r. rp_RoleKey r = roleKey \<and> rp_Type r = RolePermissionTypeMenu) d of
        Inl e \<Rightarrow> Inl e | Inr rs \<Rightarrow> Inr (remdups (map rp_Data rs)))"

definition APIPermissionDatas :: "'d grant_tables \<Rightarrow> string \<Rightarrow> 'd \<Rightarrow> goerror + string list" where
  "APIPermissionDatas T roleKey d =
     (case Find (T_RolePermission T) (\<lambda>r. rp_RoleKey r = roleKey \<and> rp_Type r = RolePermissionTypePermission) d of
        Inl e \<Rightarrow> Inl e | Inr rs \<Rightarrow> Inr (remdups (map rp_Data rs)))"

definition missingDataValues ::
  "('r, 'd) table_ops \<Rightarrow> ('r \<Rightarrow> string) \<Rightarrow> string list \<Rightarrow> 'd \<Rightarrow> goerror + string list" where
  "missingDataValues ops column values d =
     (if values = [] then Inr []
      else (case Find ops (\<lambda>r. column r \<in> set values) d of
              Inl e \<Rightarrow> Inl e
            | Inr existing \<Rightarrow> (let have = set (map column existing) in Inr (filter (\<lambda>n. n \<notin> have) values))))"

definition ValidateMenuData :: "'d grant_tables \<Rightarrow> string list \<Rightarrow> 'd \<Rightarrow> goerror + string list" where
  "ValidateMenuData T components d = missingDataValues (T_Menu T) m_Component components d"

definition ValidatePermissionData :: "'d grant_tables \<Rightarrow> string list \<Rightarrow> 'd \<Rightarrow> goerror + string list" where
  "ValidatePermissionData T datas d = missingDataValues (T_Permission T) p_Data datas d"

definition ListByType :: "'d grant_tables \<Rightarrow> string \<Rightarrow> 'd \<Rightarrow> goerror + string list" where
  "ListByType T t d =
     (case Find (T_Permission T) (\<lambda>p. if t \<noteq> '''' then p_Type p = t else True) d of
        Inl e \<Rightarrow> Inl e | Inr rs \<Rightarrow> Inr (remdups (map p_Data rs)))"

definition grant_row :: "string \<Rightarrow> string \<Rightarrow> string \<Rightarrow> string \<Rightarrow> RolePermission" where
  "grant_row tenantID roleKey ty x = \<lparr>rp_TenantID = tenantID, rp_RoleKey = roleKey, rp_Type = ty, rp_Data = x\<rparr>"

definition ReplacePermissions ::
  "'d grant_tables \<Rightarrow> string \<Rightarrow> string list \<Rightarrow> string list \<Rightarrow> string list \<Rightarrow> 'd \<Rightarrow> goerror option \<times> 'd" where
  "ReplacePermissions T roleKey menus perms tenantIDs d =
     (let tenantID = (case tenantIDs of [] \<Rightarrow> '''' | t # _ \<Rightarrow> t) in
      case Delete (T_RolePermission T) (\<lambda>r. rp_RoleKey r = roleKey) d of
        (Some e, d1) \<Rightarrow> (Some e, d1)
      | (None, d1) \<Rightarrow>
          if length menus + length perms = 0 then (None, d1)
          else let rows = map (grant_row tenantID roleKey RolePermissionTypeMenu) menus @
                          map (grant_row tenantID roleKey RolePermissionTypePermission) perms in
               Create (T_RolePermission T) (map RolePermission_BeforeCreate rows) d1)"

definition GrantMissingPermissions ::
  "'d grant_tables \<Rightarrow> string \<Rightarrow> string \<Rightarrow> string list \<Rightarrow> string list \<Rightarrow> 'd \<Rightarrow> goerror option \<times> 'd" where
  "GrantMissingPermissions T roleKey tenantID menus perms d =
     (if menus = [] \<and> perms = [] then (None, d)
      else (case Find (T_RolePermission T) (\<lambda>r. rp_RoleKey r = roleKey \<and> rp_TenantID r = tenantID) d of
         Inl e \<Rightarrow> (Some e, d)
       | Inr existing \<Rightarrow>
           let menuHave = set (map rp_Data (filter (\<lambda>r. rp_Type r = RolePermissionTypeMenu) existing));
               permHave = set (map rp_Data (filter (\<lambda>r. rp_Type r = RolePermissionTypePermission) existing));
               rows = map (grant_row tenantID roleKey RolePermissionTypeMenu) (filter (\<lambda>m. m \<notin> menuHave) menus) @
                      map (grant_row tenantID roleKey RolePermissionTypePermission) (filter (\<lambda>p. p \<notin> permHave) perms)
           in if rows = [] then (None, d)
              else Create (T_RolePermission T) (map RolePermission_BeforeCreate rows) d))"

subsection \<open>Hooks on roles and menus\<close>

definition same_key :: "string \<Rightarrow> string \<Rightarrow> RolePermission \<Rightarrow> bool" where
  "same_key k t r \<longleftrightarrow> rp_RoleKey r = k \<and> rp_TenantID r = t"

definition holds_role :: "string \<Rightarrow> string \<Rightarrow> User \<Rightarrow> bool" where
  "holds_role k t u \<longleftrightarrow> u_RoleKey u = k \<and> u_TenantID u = t"

text \<open>
  The two blocks of \<open>Role.BeforeUpdate\<close>. What GORM knows of the update is passed in:
  whether the fields \<open>Key\<close> and \<open>DeletedAt\<close> changed, and the destination map of a column
  update, restricted to the values that are strings.
\<close>

definition repoint_key :: "'d grant_tables \<Rightarrow> Role \<Rightarrow> string \<Rightarrow> 'd \<Rightarrow> goerror option \<times> 'd" where
  "repoint_key T old newKey d =
     (if newKey \<noteq> '''' \<and> newKey \<noteq> r_Key old then
        (case Update (T_RolePermission T) (same_key (r_Key old) (r_TenantID old)) (\<lambda>r. r\<lparr>rp_RoleKey := newKey\<rparr>) d of
           (Inl e, d1) \<Rightarrow> (Some e, d1)
         | (Inr _, d1) \<Rightarrow>
             (case Update (T_User T) (holds_role (r_Key old) (r_TenantID old)) (\<lambda>u. u\<lparr>u_RoleKey := newKey\<rparr>) d1 of
                (Inl e, d2) \<Rightarrow> (Some e, d2)
              | (Inr _, d2) \<Rightarrow> (None, d2)))
      else (None, d))"

definition detach_key :: "'d grant_tables \<Rightarrow> Role \<Rightarrow> 'd \<Rightarrow> goerror option \<times> 'd" where
  "detach_key T old d =
     (case Delete (T_RolePermission T) (same_key (r_Key old) (r_TenantID old)) d of
        (Some e, d1) \<Rightarrow> (Some e, d1)
      | (None, d1) \<Rightarrow>
          (case Update (T_User T) (holds_role (r_Key old) (r_TenantID old)) (\<lambda>u. u\<lparr>u_RoleKey := ''''\<rparr>) d1 of
             (Inl e, d2) \<Rightarrow> (Some e, d2)
           | (Inr _, d2) \<Rightarrow> (None, d2)))"

definition dest_key :: "(string \<rightharpoonup> string) option \<Rightarrow> string" where
  "dest_key dest = (case dest of
      None \<Rightarrow> ''''
    | Some m \<Rightarrow> (case m ''`key`'' of
                  Some v \<Rightarrow> v
                | None \<Rightarrow> (case m ''key'' of Some v \<Rightarrow> v | None \<Rightarrow> '''')))"

definition Role_BeforeUpdate ::
  "'d grant_tables \<Rightarrow> Role \<Rightarrow> bool \<Rightarrow> bool \<Rightarrow> (string \<rightharpoonup> string) option \<Rightarrow> 'd \<Rightarrow> goerror option \<times> 'd" where
  "Role_BeforeUpdate T m key_changed deletedChanged dest d =
     (let newKey = dest_key dest;
          keyChanged = (key_changed \<or> newKey \<noteq> '''') in
      if \<not> keyChanged \<and> \<not> deletedChanged then (None, d)
      else (case First (T_Role T) (\<lambda>r. r_ID r = r_ID m) d of
         Inl e \<Rightarrow> (Some e, d)
       | Inr old \<Rightarrow>
           if r_TenantID old = '''' then (None, d)
           else (case (if keyChanged then repoint_key T old (if newKey = '''' then r_Key m else newKey) d else (None, d)) of
              (Some e, d1) \<Rightarrow> (Some e, d1)
            | (None, d1) \<Rightarrow> if deletedChanged then detach_key T old d1 else (None, d1))))"

definition Role_AfterDelete :: "'d grant_tables \<Rightarrow> Role \<Rightarrow> 'd \<Rightarrow> goerror option \<times> 'd" where
  "Role_AfterDelete T m d =
     (if r_TenantID m = '''' then (None, d)
      else (case Update (T_User T) (holds_role (r_Key m) (r_TenantID m)) (\<lambda>u. u\<lparr>u_RoleKey := ''''\<rparr>) d of
         (Inl e, d1) \<Rightarrow> (Some e, d1)
       | (Inr _, d1) \<Rightarrow> purgeRolePermissions T (same_key (r_Key m) (r_TenantID m)) d1))"

definition Menu_AfterDelete :: "'d grant_tables \<Rightarrow> Menu \<Rightarrow> 'd \<Rightarrow> goerror option \<times> 'd" where
  "Menu_AfterDelete T m d =
     purgeRolePermissions T (\<lambda>r. rp_Type r = RolePermissionTypeMenu \<and> rp_Data r = m_Component m) d"

subsection \<open>Visible menus\<close>

definition VisibleMenusByComponents :: "'d grant_tables \<Rightarrow> string list \<Rightarrow> 'd \<Rightarrow> goerror + Menu list" where
  "VisibleMenusByComponents T components d =
     (case Find (T_Menu T) (\<lambda>m. m_Component m \<in> set components) d of
        Inl e \<Rightarrow> Inl e | Inr ms \<Rightarrow> Inr (OrderByParentID T ms))"

definition VisibleByRole :: "'d grant_tables \<Rightarrow> string \<Rightarrow> 'd \<Rightarrow> goerror + Menu list" where
  "VisibleByRole T role d =
     (case MenuPermissionDatas T role d of
        Inl e \<Rightarrow> Inl e
      | Inr components \<Rightarrow>
          if components = [] then Inr [] else VisibleMenusByComponents T components d)"

subsection \<open>What the hooks need of the tables\<close>

text \<open>
  Three tables of one database, each behaving as \<open>gorm_table\<close> says, where a write to the
  grants leaves the users alone and a write to the users leaves the grants alone.
\<close>

locale grant_db =
  rp: gorm_table "T_RolePermission T" rps +
  us: gorm_table "T_User T" users +
  ro: gorm_table "T_Role T" roles
  for T :: "'d grant_tables" and rps users roles +
  assumes rp_delete_users: "Delete (T_RolePermission T) P d = (e, d') \<Longrightarrow> users d' = users d"
    and rp_update_users: "Update (T_RolePermission T) P f d = (e', d') \<Longrightarrow> users d' = users d"
    and rp_create_users: "Create (T_RolePermission T) rs d = (e, d') \<Longrightarrow> users d' = users d"
    and us_update_rps: "Update (T_User T) Q g d = (e', d') \<Longrightarrow> rps d' = rps d"

definition grant_set :: "RolePermission list \<Rightarrow> string \<Rightarrow> string \<Rightarrow> (string \<times> string) set" where
  "grant_set rs k t = (\<lambda>r. (rp_Type r, rp_Data r)) ` {r \<in> set rs. same_key k t r}"

definition holders :: "User list \<Rightarrow> string \<Rightarrow> string \<Rightarrow> nat set" where
  "holders us k t = u_ID ` {u \<in> set us. holds_role k t u}"

lemma image_update:
  assumes "S' = (\<lambda>r. if P r then f r else r) ` S" and "\<And>r. pr (f r) = pr r"
  shows "pr ` {r \<in> S'. K r} = pr ` {r \<in> S. P r \<and> K (f r)} \<union> pr ` {r \<in> S. \<not> P r \<and> K r}"
proof -
  have "{r \<in> S'. K r} = f ` {r \<in> S. P r \<and> K (f r)} \<union> {r \<in> S. \<not> P r \<and> K r}"
    unfolding assms(1) by auto
  then show ?thesis by (simp add: image_Un image_image assms(2))
qed

lemma grants_repoint:
  assumes "set rs' = (\<lambda>r. if same_key k t r then r\<lparr>rp_RoleKey := n\<rparr> else r) ` set rs" and "n \<noteq> k"
  shows "grant_set rs' k' t' =
    (if t' = t \<and> k' = k then {} else if t' = t \<and> k' = n then grant_set rs k t \<union> grant_set rs n t else grant_set rs k' t')"
proof -
  have "grant_set rs' k' t' = (\<lambda>r. (rp_Type r, rp_Data r)) ` {r \<in> set rs. same_key k t r \<and> n = k' \<and> t = t'} \<union>
      (\<lambda>r. (rp_Type r, rp_Data r)) ` {r \<in> set rs. \<not> same_key k t r \<and> same_key k' t' r}"
    unfolding grant_set_def
    using image_update [OF assms(1), of "\<lambda>r. (rp_Type r, rp_Data r)" "same_key k' t'"]
    by (simp add: same_key_def cong: conj_cong)
  with assms(2) show ?thesis by (auto simp: grant_set_def same_key_def image_iff)
qed

lemma holders_repoint:
  assumes "set us' = (\<lambda>u. if holds_role k t u then u\<lparr>u_RoleKey := n\<rparr> else u) ` set us" and "n \<noteq> k"
  shows "holders us' k' t' =
    (if t' = t \<and> k' = k then {} else if t' = t \<and> k' = n then holders us k t \<union> holders us n t else holders us k' t')"
proof -
  have "holders us' k' t' = u_ID ` {u \<in> set us. holds_role k t u \<and> n = k' \<and> t = t'} \<union>
      u_ID ` {u \<in> set us. \<not> holds_role k t u \<and> holds_role k' t' u}"
    unfolding holders_def using image_update [OF assms(1), of u_ID "holds_role k' t'"]
    by (simp add: holds_role_def cong: conj_cong)
  with assms(2) show ?thesis by (auto simp: holders_def holds_role_def image_iff)
qed

lemma grants_purge:
  assumes "set rs' = {r \<in> set rs. \<not> same_key k t r}"
  shows "grant_set rs' k' t' = (if t' = t \<and> k' = k then {} else grant_set rs k' t')"
  unfolding grant_set_def assms by (auto simp: same_key_def)

context grant_db
begin

lemma repoint_key_spec:
  assumes "repoint_key T old n d = (None, d')" and "n \<noteq> ''''" and "n \<noteq> r_Key old"
  shows "grant_set (rps d') k t =
      (if t = r_TenantID old \<and> k = r_Key old then {}
       else if t = r_TenantID old \<and> k = n then grant_set (rps d) (r_Key old) t \<union> grant_set (rps d) n t
       else grant_set (rps d) k t)"
    and "holders (users d') k t =
      (if t = r_TenantID old \<and> k = r_Key old then {}
       else if t = r_TenantID old \<and> k = n then holders (users d) (r_Key old) t \<union> holders (users d) n t
       else holders (users d) k t)"
proof -
  from assms obtain x d1 y where
    1: "Update (T_RolePermission T) (same_key (r_Key old) (r_TenantID old)) (\<lambda>r. r\<lparr>rp_RoleKey := n\<rparr>) d = (Inr x, d1)"
    and 2: "Update (T_User T) (holds_role (r_Key old) (r_TenantID old)) (\<lambda>u. u\<lparr>u_RoleKey := n\<rparr>) d1 = (Inr y, d')"
    by (auto simp: repoint_key_def split: prod.splits sum.splits)
  have "set (rps d') = (\<lambda>r. if same_key (r_Key old) (r_TenantID old) r then r\<lparr>rp_RoleKey := n\<rparr> else r) ` set (rps d)"
    using rp.update_set [OF 1] us_update_rps [OF 2] by simp
  from grants_repoint [OF this assms(3)] show "grant_set (rps d') k t =
      (if t = r_TenantID old \<and> k = r_Key old then {}
       else if t = r_TenantID old \<and> k = n then grant_set (rps d) (r_Key old) t \<union> grant_set (rps d) n t
       else grant_set (rps d) k t)" by simp
  have "set (users d') = (\<lambda>u. if holds_role (r_Key old) (r_TenantID old) u then u\<lparr>u_RoleKey := n\<rparr> else u) ` set (users d)"
    using us.update_set [OF 2] rp_update_users [OF 1] by simp
  from holders_repoint [OF this assms(3)] show "holders (users d') k t =
      (if t = r_TenantID old \<and> k = r_Key old then {}
       else if t = r_TenantID old \<and> k = n then holders (users d) (r_Key old) t \<union> holders (users d) n t
       else holders (users d) k t)" by simp
qed

lemma detached:
  assumes "set (rps d') = {r \<in> set (rps d). \<not> same_key k0 t0 r}"
    and "set (users d') = (\<lambda>u. if holds_role k0 t0 u then u\<lparr>u_RoleKey := ''''\<rparr> else u) ` set (users d)"
    and "k0 \<noteq> ''''"
  shows "grant_set (rps d') k t = (if t = t0 \<and> k = k0 then {} else grant_set (rps d) k t)"
    and "k \<noteq> '''' \<Longrightarrow> holders (users d') k t = (if t = t0 \<and> k = k0 then {} else holders (users d) k t)"
  using grants_purge [OF assms(1)] holders_repoint [OF assms(2)] assms(3) by auto

lemma detach_key_sets:
  assumes "detach_key T old d = (None, d')"
  shows "set (rps d') = {r \<in> set (rps d). \<not> same_key (r_Key old) (r_TenantID old) r}"
    and "set (users d') =
      (\<lambda>u. if holds_role (r_Key old) (r_TenantID old) u then u\<lparr>u_RoleKey := ''''\<rparr> else u) ` set (users d)"
proof -
  from assms obtain d1 y where
    1: "Delete (T_RolePermission T) (same_key (r_Key old) (r_TenantID old)) d = (None, d1)"
    and 2: "Update (T_User T) (holds_role (r_Key old) (r_TenantID old)) (\<lambda>u. u\<lparr>u_RoleKey := ''''\<rparr>) d1 = (Inr y, d')"
    by (auto simp: detach_key_def split: prod.splits option.splits sum.splits)
  show "set (rps d') = {r \<in> set (rps d). \<not> same_key (r_Key old) (r_TenantID old) r}"
    using rp.delete_set [OF 1] us_update_rps [OF 2] by simp
  show "set (users d') =
      (\<lambda>u. if holds_role (r_Key old) (r_TenantID old) u then u\<lparr>u_RoleKey := ''''\<rparr> else u) ` set (users d)"
    using us.update_set [OF 2] rp_delete_users [OF 1] by simp
qed

lemma Role_AfterDelete_sets:
  assumes "Role_AfterDelete T m d = (None, d')" and "r_TenantID m \<noteq> ''''"
  shows "set (rps d') = {r \<in> set (rps d). \<not> same_key (r_Key m) (r_TenantID m) r}"
    and "set (users d') =
      (\<lambda>u. if holds_role (r_Key m) (r_TenantID m) u then u\<lparr>u_RoleKey := ''''\<rparr> else u) ` set (users d)"
proof -
  from assms obtain d1 y where
    1: "Update (T_User T) (holds_role (r_Key m) (r_TenantID m)) (\<lambda>u. u\<lparr>u_RoleKey := ''''\<rparr>) d = (Inr y, d1)"
    and 2: "Delete (T_RolePermission T) (same_key (r_Key m) (r_TenantID m)) d1 = (None, d')"
    by (auto simp: Role_AfterDelete_def purgeRolePermissions_def split: prod.splits sum.splits)
  show "set (rps d') = {r \<in> set (rps d). \<not> same_key (r_Key m) (r_TenantID m) r}"
    using rp.delete_set [OF 2] us_update_rps [OF 1] by simp
  show "set (users d') =
      (\<lambda>u. if holds_role (r_Key m) (r_TenantID m) u then u\<lparr>u_RoleKey := ''''\<rparr> else u) ` set (users d)"
    using us.update_set [OF 1] rp_delete_users [OF 2] by simp
qed

end

lemma grant_row_sel:
  "rp_TenantID (grant_row t k ty x) = t" "rp_RoleKey (grant_row t k ty x) = k"
  "rp_Type (grant_row t k ty x) = ty" "rp_Data (grant_row t k ty x) = x"
  by (simp_all add: grant_row_def)

lemma before_create_row:
  "t \<noteq> '''' \<Longrightarrow> RolePermission_BeforeCreate (grant_row t k ty x) = grant_row t k ty x"
  by (simp add: RolePermission_BeforeCreate_def grant_row_def ApplyDefaultTenant_def)

context grant_db
begin

lemma replace_set:
  assumes "ReplacePermissions T roleKey menus perms tenantIDs d = (None, d')"
  shows "set (rps d') = {r \<in> set (rps d). rp_RoleKey r \<noteq> roleKey} \<union>
    RolePermission_BeforeCreate ` grant_row (case tenantIDs of [] \<Rightarrow> '''' | t # _ \<Rightarrow> t) roleKey RolePermissionTypeMenu ` set menus \<union>
    RolePermission_BeforeCreate ` grant_row (case tenantIDs of [] \<Rightarrow> '''' | t # _ \<Rightarrow> t) roleKey RolePermissionTypePermission ` set perms"
    and "users d' = users d"
proof -
  obtain e d1 where del: "Delete (T_RolePermission T) (\<lambda>r. rp_RoleKey r = roleKey) d = (e, d1)"
    by (rule prod.exhaust)
  then have [simp]: "e = None" using assms by (cases e) (simp_all add: ReplacePermissions_def Let_def)
  from assms del have c: "if length menus + length perms = 0 then d' = d1
    else Create (T_RolePermission T) (map RolePermission_BeforeCreate
      (map (grant_row (case tenantIDs of [] \<Rightarrow> '''' | t # _ \<Rightarrow> t) roleKey RolePermissionTypeMenu) menus @
       map (grant_row (case tenantIDs of [] \<Rightarrow> '''' | t # _ \<Rightarrow> t) roleKey RolePermissionTypePermission) perms)) d1 = (None, d')"
    by (auto simp: ReplacePermissions_def Let_def split: if_splits)
  show "users d' = users d"
    using c rp_create_users rp_delete_users [OF del] by (auto split: if_splits)
  show "set (rps d') = {r \<in> set (rps d). rp_RoleKey r \<noteq> roleKey} \<union>
    RolePermission_BeforeCreate ` grant_row (case tenantIDs of [] \<Rightarrow> '''' | t # _ \<Rightarrow> t) roleKey RolePermissionTypeMenu ` set menus \<union>
    RolePermission_BeforeCreate ` grant_row (case tenantIDs of [] \<Rightarrow> '''' | t # _ \<Rightarrow> t) roleKey RolePermissionTypePermission ` set perms"
    using c rp.create_set [of _ d1 d'] rp.delete_set [OF del [unfolded \<open>e = None\<close>]]
    by (cases "length menus + length perms = 0") (auto simp: image_Un image_image)
qed

lemma replace_grants:
  assumes "ReplacePermissions T roleKey menus perms [t] d = (None, d')" and "t \<noteq> ''''"
  shows "grant_set (rps d') roleKey t =
      (\<lambda>m. (RolePermissionTypeMenu, m)) ` set menus \<union> (\<lambda>p. (RolePermissionTypePermission, p)) ` set perms"
    and "k \<noteq> roleKey \<Longrightarrow> grant_set (rps d') k t' = grant_set (rps d) k t'"
    and "t' \<noteq> t \<Longrightarrow> grant_set (rps d') roleKey t' = {}"
proof -
  have rows: "set (rps d') = {r \<in> set (rps d). rp_RoleKey r \<noteq> roleKey} \<union>
      grant_row t roleKey RolePermissionTypeMenu ` set menus \<union> grant_row t roleKey RolePermissionTypePermission ` set perms"
    using replace_set(1) [OF assms(1)] assms(2) by (simp add: image_image before_create_row)
  then have "{r \<in> set (rps d'). same_key roleKey t r} =
      grant_row t roleKey RolePermissionTypeMenu ` set menus \<union> grant_row t roleKey RolePermissionTypePermission ` set perms"
    by (auto simp: same_key_def grant_row_def)
  then show "grant_set (rps d') roleKey t =
      (\<lambda>m. (RolePermissionTypeMenu, m)) ` set menus \<union> (\<lambda>p. (RolePermissionTypePermission, p)) ` set perms"
    by (simp add: grant_set_def image_Un image_image grant_row_def)
  have "\<forall>r\<in>set (rps d'). rp_RoleKey r \<noteq> roleKey \<or> rp_TenantID r = t"
    unfolding rows by (simp add: ball_Un grant_row_sel)
  then show "grant_set (rps d') roleKey t' = {}" if "t' \<noteq> t"
    using that by (auto simp: grant_set_def same_key_def)
  assume "k \<noteq> roleKey"
  with rows have "{r \<in> set (rps d'). same_key k t' r} = {r \<in> set (rps d). same_key k t' r}"
    by (auto simp: same_key_def grant_row_def)
  then show "grant_set (rps d') k t' = grant_set (rps d) k t'" by (simp add: grant_set_def)
qed

lemma menu_datas_set:
  assumes "MenuPermissionDatas T roleKey d = Inr cs"
  shows "set cs = {rp_Data r | r. r \<in> set (rps d) \<and> rp_RoleKey r = roleKey \<and> rp_Type r = RolePermissionTypeMenu}"
    and "distinct cs"
  using assms rp.find_set
  by (auto simp: MenuPermissionDatas_def split: sum.splits)

lemma api_datas_set:
  assumes "APIPermissionDatas T roleKey d = Inr cs"
  shows "set cs = {rp_Data r | r. r \<in> set (rps d) \<and> rp_RoleKey r = roleKey \<and> rp_Type r = RolePermissionTypePermission}"
    and "distinct cs"
  using assms rp.find_set
  by (auto simp: APIPermissionDatas_def split: sum.splits)

lemma grant_missing_set:
  assumes "GrantMissingPermissions T roleKey t menus perms d = (None, d')" and "t \<noteq> ''''"
  shows "set (rps d') = set (rps d) \<union> grant_row t roleKey RolePermissionTypeMenu ` set menus \<union>
    grant_row t roleKey RolePermissionTypePermission ` set perms"
proof (cases "menus = [] \<and> perms = []")
  case True
  with assms show ?thesis by (simp add: GrantMissingPermissions_def)
next
  case False
  then obtain ex where ex: "Find (T_RolePermission T) (\<lambda>r. rp_RoleKey r = roleKey \<and> rp_TenantID r = t) d = Inr ex"
    using assms(1) by (auto simp: GrantMissingPermissions_def split: sum.splits)
  let ?have = "\<lambda>ty. rp_Data ` {r \<in> set ex. rp_Type r = ty}"
  let ?new = "grant_row t roleKey RolePermissionTypeMenu ` (set menus - ?have RolePermissionTypeMenu) \<union>
    grant_row t roleKey RolePermissionTypePermission ` (set perms - ?have RolePermissionTypePermission)"
  have "set (rps d') = set (rps d) \<union> ?new"
    using assms(1) False ex rp.create_set [of _ d d']
    by (auto simp: GrantMissingPermissions_def Let_def before_create_row [OF assms(2)] image_Un image_image set_diff_eq filter_empty_conv
        split: if_splits)
  moreover have "grant_row t roleKey ty x \<in> set (rps d)" if "x \<in> ?have ty" for ty x
  proof -
    from that obtain r where r: "r \<in> set ex" "rp_Type r = ty" "rp_Data r = x" by auto
    with rp.find_set [OF ex] have "r \<in> set (rps d)" "grant_row t roleKey ty x = r"
      by (auto simp: grant_row_def)
    then show ?thesis by simp
  qed
  ultimately show ?thesis by blast
qed

lemma grant_missing_idle:
  assumes "grant_row t roleKey RolePermissionTypeMenu ` set menus \<subseteq> set (rps d)"
    and "grant_row t roleKey RolePermissionTypePermission ` set perms \<subseteq> set (rps d)"
    and "Find (T_RolePermission T) (\<lambda>r. rp_RoleKey r = roleKey \<and> rp_TenantID r = t) d = Inr ex"
  shows "GrantMissingPermissions T roleKey t menus perms d = (None, d)"
proof -
  have "x \<in> rp_Data ` {r \<in> set ex. rp_Type r = ty}" if "grant_row t roleKey ty x \<in> set (rps d)" for ty x
    using that rp.find_set [OF assms(3)] by (force simp: grant_row_def)
  with assms show ?thesis
    by (simp add: GrantMissingPermissions_def Let_def filter_empty_conv image_subset_iff)
qed

end

subsection \<open>A database of lists\<close>

record memdb =
  gdb_roles :: "Role list"
  gdb_rps :: "RolePermission list"
  gdb_users :: "User list"
  gdb_menus :: "Menu list"
  gdb_perms :: "Permission list"

definition mem_tables :: "memdb grant_tables" where
  "mem_tables =
     \<lparr>T_Role = mem_table gdb_roles (\<lambda>rs d. d\<lparr>gdb_roles := rs\<rparr>),
      T_RolePermission = mem_table gdb_rps (\<lambda>rs d. d\<lparr>gdb_rps := rs\<rparr>),
      T_User = mem_table gdb_users (\<lambda>rs d. d\<lparr>gdb_users := rs\<rparr>),
      T_Menu = mem_table gdb_menus (\<lambda>rs d. d\<lparr>gdb_menus := rs\<rparr>),
      T_Permission = mem_table gdb_perms (\<lambda>rs d. d\<lparr>gdb_perms := rs\<rparr>),
      OrderByParentID = (\<lambda>ms. ms)\<rparr>"

interpretation mdb: grant_db mem_tables gdb_rps gdb_users gdb_roles
proof -
  have "gorm_table (mem_table gdb_rps (\<lambda>rs d. d\<lparr>gdb_rps := rs\<rparr>)) gdb_rps"
    "gorm_table (mem_table gdb_users (\<lambda>rs d. d\<lparr>gdb_users := rs\<rparr>)) gdb_users"
    "gorm_table (mem_table gdb_roles (\<lambda>rs d. d\<lparr>gdb_roles := rs\<rparr>)) gdb_roles"
    by (rule mem_table_gorm; simp)+
  then show "grant_db mem_tables gdb_rps gdb_users gdb_roles"
    by (simp add: grant_db_def mem_tables_def grant_db_axioms_def) (auto simp: mem_table_def)
qed

section \<open>Properties\<close>

lemma BeforeUpdate_runs:
  assumes "First (T_Role T) (\<lambda>r. r_ID r = r_ID m) d = Inr old" and "r_TenantID old \<noteq> ''''"
    and "key_changed \<or> dest_key dest \<noteq> '''' \<or> deletedChanged"
  shows "Role_BeforeUpdate T m key_changed deletedChanged dest d =
    (case (if key_changed \<or> dest_key dest \<noteq> '''' then repoint_key T old (if dest_key dest = '''' then r_Key m else dest_key dest) d
           else (None, d)) of
       (Some e, d1) \<Rightarrow> (Some e, d1)
     | (None, d1) \<Rightarrow> if deletedChanged then detach_key T old d1 else (None, d1))"
  using assms by (auto simp: Role_BeforeUpdate_def Let_def)

text \<open>
  Renaming a role. When the update hook of a role succeeds for a new key (read from
  the model or from the column map of the update), every grant and every user of the old
  key moves to the new key: nothing is left under the old key, what is found under
  the new key is what both keys had, and the grants and users of every other key and of
  every other tenant are as before.
\<close>

theorem role_rename:
  assumes "grant_db T rps users roles"
    and "First (T_Role T) (\<lambda>r. r_ID r = r_ID m) d = Inr old" and "r_TenantID old \<noteq> ''''"
    and "n = (if dest_key dest = '''' then r_Key m else dest_key dest)" and "n \<noteq> ''''" and "n \<noteq> r_Key old"
    and "key_changed \<or> dest_key dest \<noteq> ''''"
    and "Role_BeforeUpdate T m key_changed False dest d = (None, d')"
  shows "grant_set (rps d') k t =
      (if t = r_TenantID old \<and> k = r_Key old then {}
       else if t = r_TenantID old \<and> k = n then grant_set (rps d) (r_Key old) t \<union> grant_set (rps d) n t
       else grant_set (rps d) k t) \<and>
    holders (users d') k t =
      (if t = r_TenantID old \<and> k = r_Key old then {}
       else if t = r_TenantID old \<and> k = n then holders (users d) (r_Key old) t \<union> holders (users d) n t
       else holders (users d) k t)"
proof -
  have "repoint_key T old n d = (None, d')"
    using assms(7,8) BeforeUpdate_runs [OF assms(2,3)] assms(4) by (auto split: prod.splits option.splits)
  from grant_db.repoint_key_spec [OF assms(1) this assms(5,6)] show ?thesis by simp
qed

text \<open>
  Removing a role. After a soft delete (the update hook, for an update that does not
  change the key as well) or a hard delete (the delete hook), the tenant has no grant and
  no user under the role's key, and every other grant is as before; the only users that
  change are those of the removed role.
\<close>

theorem role_removed:
  assumes "grant_db T rps users roles" and "r_TenantID old \<noteq> ''''" and "r_Key old \<noteq> ''''"
    and "First (T_Role T) (\<lambda>r. r_ID r = r_ID m) d = Inr old \<and> dest_key dest = '''' \<and>
           Role_BeforeUpdate T m False True dest d = (None, d') \<or>
         Role_AfterDelete T old d = (None, d')"
  shows "grant_set (rps d') k t = (if t = r_TenantID old \<and> k = r_Key old then {} else grant_set (rps d) k t) \<and>
    holders (users d') (r_Key old) (r_TenantID old) = {} \<and>
    (k \<noteq> '''' \<and> (t \<noteq> r_TenantID old \<or> k \<noteq> r_Key old) \<longrightarrow> holders (users d') k t = holders (users d) k t)"
proof -
  have "set (rps d') = {r \<in> set (rps d). \<not> same_key (r_Key old) (r_TenantID old) r} \<and>
    set (users d') =
      (\<lambda>u. if holds_role (r_Key old) (r_TenantID old) u then u\<lparr>u_RoleKey := ''''\<rparr> else u) ` set (users d)"
    using assms(4)
  proof
    assume *: "First (T_Role T) (\<lambda>r. r_ID r = r_ID m) d = Inr old \<and> dest_key dest = '''' \<and>
           Role_BeforeUpdate T m False True dest d = (None, d')"
    then have "detach_key T old d = (None, d')" using BeforeUpdate_runs [OF _ assms(2), of T m d False dest True] by simp
    from grant_db.detach_key_sets [OF assms(1) this] show ?thesis by simp
  next
    assume "Role_AfterDelete T old d = (None, d')"
    from grant_db.Role_AfterDelete_sets [OF assms(1) this assms(2)] show ?thesis by simp
  qed
  from grant_db.detached [OF assms(1) this [THEN conjunct1] this [THEN conjunct2] assms(3)] assms(3)
  show ?thesis by simp
qed

text \<open>
  An update that changes the key and marks the row deleted at once purges the old key
  after its grants have moved away, so they survive the deletion under the new key.
\<close>

lemma rename_and_delete:
  assumes "grant_db T rps users roles"
    and "First (T_Role T) (\<lambda>r. r_ID r = r_ID m) d = Inr old" and "r_TenantID old \<noteq> ''''"
    and "dest_key dest = ''''" and "r_Key m \<noteq> ''''" and "r_Key m \<noteq> r_Key old"
    and "Role_BeforeUpdate T m True True dest d = (None, d')"
  shows "grant_set (rps d') (r_Key m) (r_TenantID old) =
    grant_set (rps d) (r_Key old) (r_TenantID old) \<union> grant_set (rps d) (r_Key m) (r_TenantID old)"
proof -
  obtain e d1 where re: "repoint_key T old (r_Key m) d = (e, d1)" by (rule prod.exhaust)
  then have "e = None" "detach_key T old d1 = (None, d')"
    using assms(4,7) BeforeUpdate_runs [OF assms(2,3), of True dest True] by (auto split: option.splits)
  with re have "repoint_key T old (r_Key m) d = (None, d1)" by simp
  from grant_db.repoint_key_spec(1) [OF assms(1) this assms(5,6)]
    grants_purge [OF grant_db.detach_key_sets(1) [OF assms(1) \<open>detach_key T old d1 = (None, d')\<close>]] assms(6)
  show ?thesis by simp
qed

text \<open>
  Topping up the grants of a role. If \<open>GrantMissingPermissions\<close> succeeds for a
  non-empty tenant, the role has exactly its old grants and the requested ones, no row was
  deleted or changed, and running it again on the result (with the same reads working)
  does nothing.
\<close>

theorem grant_missing:
  assumes "grant_db T rps users roles" and "t \<noteq> ''''"
    and "GrantMissingPermissions T roleKey t menus perms d = (None, d')"
    and "Find (T_RolePermission T) (\<lambda>r. rp_RoleKey r = roleKey \<and> rp_TenantID r = t) d' = Inr ex"
  shows "set (rps d') = set (rps d) \<union> grant_row t roleKey RolePermissionTypeMenu ` set menus \<union>
      grant_row t roleKey RolePermissionTypePermission ` set perms \<and>
    GrantMissingPermissions T roleKey t menus perms d' = (None, d')"
proof -
  note s = grant_db.grant_missing_set [OF assms(1,3,2)]
  moreover have "GrantMissingPermissions T roleKey t menus perms d' = (None, d')"
    by (rule grant_db.grant_missing_idle [OF assms(1) _ _ assms(4)]) (auto simp: s)
  ultimately show ?thesis by simp
qed

definition sample_role :: "nat \<Rightarrow> string \<Rightarrow> Role" where
  "sample_role i k = \<lparr>r_ID = i, r_TenantID = ''acme'', r_Key = k, r_Name = k, r_Status = ''enabled'', r_Builtin = False, r_IsSuper = False\<rparr>"

definition sample_rdb :: memdb where
  "sample_rdb = \<lparr>gdb_roles = [sample_role 1 ''ops''],
     gdb_rps = [grant_row ''acme'' ''ops'' ''menu'' ''Users'', grant_row ''globex'' ''ops'' ''menu'' ''Logs''],
     gdb_users = [sample_user\<lparr>u_ID := 7, u_TenantID := ''acme'', u_RoleKey := ''ops''\<rparr>],
     gdb_menus = [], gdb_perms = []\<rparr>"

lemma sample_first: "First (T_Role mem_tables) (\<lambda>r. r_ID r = 1) sample_rdb = Inr (sample_role 1 ''ops'')"
  by (simp add: mem_tables_def mem_table_def sample_rdb_def sample_role_def)

lemma sample_sets:
  "grant_set (gdb_rps sample_rdb) ''ops'' ''acme'' = {(''menu'', ''Users'')}"
  "grant_set (gdb_rps sample_rdb) ''ops'' ''globex'' = {(''menu'', ''Logs'')}"
  "grant_set (gdb_rps sample_rdb) ''staff'' ''acme'' = {}"
  "holders (gdb_users sample_rdb) ''ops'' ''acme'' = {7}"
  "holders (gdb_users sample_rdb) ''staff'' ''acme'' = {}"
  by code_simp+

theorem role_rename_witness:
  "\<exists>d'. Role_BeforeUpdate mem_tables (sample_role 1 ''ops'') False False (Some [''key'' \<mapsto> ''staff'']) sample_rdb = (None, d') \<and>
     grant_set (gdb_rps d') ''staff'' ''acme'' = {(''menu'', ''Users'')} \<and> holders (gdb_users d') ''staff'' ''acme'' = {7}"
proof -
  obtain e d' where d': "Role_BeforeUpdate mem_tables (sample_role 1 ''ops'') False False (Some [''key'' \<mapsto> ''staff'']) sample_rdb = (e, d')"
    by (rule prod.exhaust)
  moreover have "fst (Role_BeforeUpdate mem_tables (sample_role 1 ''ops'') False False (Some [''key'' \<mapsto> ''staff'']) sample_rdb) = None"
    by code_simp
  ultimately have d: "Role_BeforeUpdate mem_tables (sample_role 1 ''ops'') False False (Some [''key'' \<mapsto> ''staff'']) sample_rdb = (None, d')"
    by simp
  have "dest_key (Some [''key'' \<mapsto> ''staff'']) = ''staff''" by (simp add: dest_key_def)
  with role_rename [OF mdb.grant_db_axioms _ _ _ _ _ _ d, of "sample_role 1 ''ops''" "''staff''" "''staff''" "''acme''"] sample_first
  have "grant_set (gdb_rps d') ''staff'' ''acme'' = grant_set (gdb_rps sample_rdb) ''ops'' ''acme'' \<union> grant_set (gdb_rps sample_rdb) ''staff'' ''acme''"
    "holders (gdb_users d') ''staff'' ''acme'' = holders (gdb_users sample_rdb) ''ops'' ''acme'' \<union> holders (gdb_users sample_rdb) ''staff'' ''acme''"
    by (auto simp: sample_role_def)
  with d show ?thesis by (simp add: sample_sets)
qed

theorem role_removed_witness:
  "\<exists>d'. Role_AfterDelete mem_tables (sample_role 1 ''ops'') sample_rdb = (None, d') \<and>
     grant_set (gdb_rps d') ''ops'' ''acme'' = {} \<and> grant_set (gdb_rps d') ''ops'' ''globex'' = {(''menu'', ''Logs'')} \<and>
     holders (gdb_users d') ''ops'' ''acme'' = {}"
proof -
  obtain e d' where d': "Role_AfterDelete mem_tables (sample_role 1 ''ops'') sample_rdb = (e, d')" by (rule prod.exhaust)
  moreover have "fst (Role_AfterDelete mem_tables (sample_role 1 ''ops'') sample_rdb) = None" by code_simp
  ultimately have d: "Role_AfterDelete mem_tables (sample_role 1 ''ops'') sample_rdb = (None, d')" by simp
  note r = role_removed [OF mdb.grant_db_axioms _ _ disjI2, OF _ _ d]
  from r [of "''ops''" "''acme''"] r [of "''ops''" "''globex''"] d show ?thesis
    by (simp add: sample_role_def sample_sets)
qed

theorem grant_missing_witness:
  "\<exists>d'. GrantMissingPermissions mem_tables ''ops'' ''acme'' [''Users'', ''Roles''] [] sample_rdb = (None, d') \<and>
     length (gdb_rps d') = 3 \<and> GrantMissingPermissions mem_tables ''ops'' ''acme'' [''Users'', ''Roles''] [] d' = (None, d')"
proof -
  obtain e d' where d': "GrantMissingPermissions mem_tables ''ops'' ''acme'' [''Users'', ''Roles''] [] sample_rdb = (e, d')"
    by (rule prod.exhaust)
  moreover have *: "fst (GrantMissingPermissions mem_tables ''ops'' ''acme'' [''Users'', ''Roles''] [] sample_rdb) = None"
    "length (gdb_rps (snd (GrantMissingPermissions mem_tables ''ops'' ''acme'' [''Users'', ''Roles''] [] sample_rdb))) = 3"
    by code_simp+
  ultimately have d: "GrantMissingPermissions mem_tables ''ops'' ''acme'' [''Users'', ''Roles''] [] sample_rdb = (None, d')" by simp
  have "GrantMissingPermissions mem_tables ''ops'' ''acme'' [''Users'', ''Roles''] [] d' = (None, d')"
    using grant_missing [OF mdb.grant_db_axioms _ d,
        of "filter (\<lambda>r. rp_RoleKey r = ''ops'' \<and> rp_TenantID r = ''acme'') (gdb_rps d')"]
    by (simp add: mem_tables_def mem_table_def)
  with d * show ?thesis by simp
qed

end
