(* ===== verification/Services.thy ===== *)
theory Services
  imports Grants Cache Auth "HOL-Library.Char_ord" "HOL-Library.List_Lexorder"
begin

text \<open>
  Package \<open>admin/service\<close>, files \<open>role.go\<close>, \<open>user.go\<close>, \<open>menu.go\<close>, \<open>permission.go\<close>,
  \<open>tenant.go\<close> and \<open>convert.go\<close>: the RPC handlers of the admin console over the tables of
  \<open>Grants\<close> and the read-through cache of \<open>Cache\<close>.

  A handler takes the result of the generated \<open>Validate\<close> method of its request as an
  argument (\<open>None\<close> for a valid request), the context of the request, and the state it
  changes; an error is returned as \<open>Inl\<close>. The argument \<open>a\<close> is the address of an error
  value the handler allocates. A service built without a database has no cache (\<open>None\<close>),
  and its handlers query directly.
\<close>

subsection \<open>Requests and responses\<close>

datatype PermissionType = TYPE_UNSPECIFIED | TYPE_MENU | TYPE_API | TYPE_BUTTON | TYPE_DATA_SCOPE | TYPE_OTHER int

record RolePermissionsResponse =
  resp_Menus :: "string list"
  resp_Apis :: "string list"

record UserProfile =
  pf_Uid :: string
  pf_Username :: string
  pf_Email :: string
  pf_Gender :: string
  pf_Description :: string
  pf_Avatar :: string
  pf_Role :: string
  pf_DeptId :: int

record UpdateProfileRequest =
  up_Username :: string
  up_Email :: string
  up_Gender :: string
  up_Description :: string

record MenuEntry =
  me_Name :: string
  me_Component :: string
  me_Uri :: string
  me_Parent :: string
  me_Icon :: string
  me_Public :: bool
  me_Hidden :: bool
  me_ViewPath :: string

record ListVisibleMenusResponse =
  vm_TotalCount :: int
  vm_Menus :: "MenuEntry list"

record TenantInfo =
  ti_Id :: string
  ti_Name :: string
  ti_Status :: string
  ti_CreatedAt :: int

subsection \<open>Dependencies\<close>

record 'd svc =
  tables :: "'d grant_tables"
  T_Tenant :: "(Tenant, 'd) table_ops"
  Commit :: "'d \<Rightarrow> goerror option"
  bcrypt_gen :: "string \<Rightarrow> goerror + string"
  bcrypt_cmp :: "string \<Rightarrow> string \<Rightarrow> bool"
  Sprintf :: "string \<Rightarrow> string list list \<Rightarrow> string"

text \<open>
  A transaction runs its body and commits; if the body or the commit fails the state is
  the one before.
\<close>

definition Transaction :: "'d svc \<Rightarrow> ('d \<Rightarrow> goerror option \<times> 'd) \<Rightarrow> 'd \<Rightarrow> goerror option \<times> 'd" where
  "Transaction s body d =
     (case body d of
        (Some e, _) \<Rightarrow> (Some e, d)
      | (None, d1) \<Rightarrow> (case Commit s d1 of Some e \<Rightarrow> (Some e, d) | None \<Rightarrow> (None, d1)))"

text \<open>\<open>Save\<close> runs the update hook and writes the whole row under its primary key.\<close>

definition Save_user :: "'d svc \<Rightarrow> nat \<Rightarrow> User \<Rightarrow> 'd \<Rightarrow> goerror option \<times> 'd" where
  "Save_user s a u d =
     (case User_BeforeUpdate (bcrypt_gen s) a u of
        Inl e \<Rightarrow> (Some e, d)
      | Inr u' \<Rightarrow>
          (case Update (T_User (tables s)) (\<lambda>r. u_ID r = u_ID u') (\<lambda>_. u') d of
             (Inl e, d1) \<Rightarrow> (Some e, d1) | (Inr _, d1) \<Rightarrow> (None, d1)))"

definition found_or :: "('r, 'd) table_ops \<Rightarrow> goerror \<Rightarrow> goerror + 'r \<Rightarrow> goerror + 'r" where
  "found_or ops err r =
     (case r of Inl e \<Rightarrow> if Is e (ErrRecordNotFound ops) then Inl err else Inl e | Inr x \<Rightarrow> Inr x)"

subsection \<open>Conversions\<close>

definition profileFromUser :: "User \<Rightarrow> UserProfile" where
  "profileFromUser u =
     \<lparr>pf_Uid = u_UID u, pf_Username = u_Username u, pf_Email = u_Email u, pf_Gender = u_Gender u,
      pf_Description = u_Description u, pf_Avatar = u_Avatar u, pf_Role = u_RoleKey u, pf_DeptId = u_DeptID u\<rparr>"

definition menusToProtoList :: "Menu list \<Rightarrow> ListVisibleMenusResponse" where
  "menusToProtoList xs =
     (if xs = [] then \<lparr>vm_TotalCount = 0, vm_Menus = []\<rparr>
      else let items = map (\<lambda>m. \<lparr>me_Name = m_Name m, me_Component = m_Component m, me_Uri = m_Uri m,
                 me_Parent = m_Parent m, me_Icon = m_Icon m, me_Public = m_Public m, me_Hidden = m_Hidden m,
                 me_ViewPath = m_ViewPath m\<rparr>) xs
           in \<lparr>vm_TotalCount = int (length items), vm_Menus = items\<rparr>)"

datatype MenuNode = MenuNode (mn_Name: string) (mn_Title: string) (mn_Component: string) (mn_Uri: string)
  (mn_Icon: string) (mn_Hidden: bool) (mn_Public: bool) (mn_Children: "MenuNode list")

fun menuNodeToPb :: "MenuTreeNode \<Rightarrow> MenuNode" where
  "menuNodeToPb (MenuTreeNode c title uri icon hidden public children) =
     MenuNode c title c uri icon hidden public (map menuNodeToPb children)"

definition menuNodesToPb :: "MenuTreeNode list \<Rightarrow> MenuNode list" where
  "menuNodesToPb xs = (if xs = [] then [] else map menuNodeToPb xs)"

definition PermissionTypeFromPb :: "PermissionType \<Rightarrow> string" where
  "PermissionTypeFromPb t =
     (case t of TYPE_API \<Rightarrow> PermissionTypeAPI | TYPE_BUTTON \<Rightarrow> PermissionTypeButton
      | TYPE_DATA_SCOPE \<Rightarrow> PermissionTypeData | _ \<Rightarrow> '''')"

subsection \<open>Role service\<close>

type_synonym rolePermissionsData = "string list \<times> string list"

definition load_role_permissions :: "'d grant_tables \<Rightarrow> string \<Rightarrow> 'd \<Rightarrow> goerror + rolePermissionsData" where
  "load_role_permissions T role d =
     (case MenuPermissionDatas T role d of
        Inl e \<Rightarrow> Inl e
      | Inr menus \<Rightarrow> (case APIPermissionDatas T role d of Inl e \<Rightarrow> Inl e | Inr apis \<Rightarrow> Inr (menus, apis)))"

definition rolePermissionsDirect ::
  "'d svc \<Rightarrow> PermissionType \<Rightarrow> string \<Rightarrow> 'd \<Rightarrow> goerror + RolePermissionsResponse" where
  "rolePermissionsDirect s ty role d =
     (case ty of
        TYPE_MENU \<Rightarrow>
          (case MenuPermissionDatas (tables s) role d of
             Inl e \<Rightarrow> Inl e | Inr menus \<Rightarrow> Inr \<lparr>resp_Menus = menus, resp_Apis = []\<rparr>)
      | TYPE_API \<Rightarrow>
          (case APIPermissionDatas (tables s) role d of
             Inl e \<Rightarrow> Inl e | Inr apis \<Rightarrow> Inr \<lparr>resp_Menus = [], resp_Apis = apis\<rparr>)
      | _ \<Rightarrow>
          (case load_role_permissions (tables s) role d of
             Inl e \<Rightarrow> Inl e | Inr (menus, apis) \<Rightarrow> Inr \<lparr>resp_Menus = menus, resp_Apis = apis\<rparr>))"

definition RolePermissions ::
  "'d svc \<Rightarrow> (rolePermissionsData, 'd, 's) Cacher option \<Rightarrow> nat \<Rightarrow> goerror option \<Rightarrow> 'c actx_scheme \<Rightarrow>
   PermissionType \<Rightarrow> string \<Rightarrow> 'd \<Rightarrow> 's tstate \<Rightarrow> (goerror + RolePermissionsResponse) \<times> 's tstate" where
  "RolePermissions s cacher a valid c ty role d ts =
     (case valid of
        Some e \<Rightarrow> (Inl e, ts)
      | None \<Rightarrow>
          if ty = TYPE_BUTTON \<or> ty = TYPE_DATA_SCOPE then (Inr \<lparr>resp_Menus = [], resp_Apis = []\<rparr>, ts)
          else (case cacher of
             None \<Rightarrow> (rolePermissionsDirect s ty role d, ts)
           | Some grantsCacher \<Rightarrow>
               (let tenantID = (case ClaimsFromContext c of Some cl \<Rightarrow> TenantID cl | None \<Rightarrow> '''');
                    key = ''role:permissions:'' @ tenantID @ '':'' @ role;
                    (r, ts1) = Try grantsCacher a d key (load_role_permissions (tables s) role) ts
                in case r of
                     Inl e \<Rightarrow> (Inl e, ts1)
                   | Inr (menus, apis) \<Rightarrow>
                       (Inr (case ty of
                          TYPE_MENU \<Rightarrow> \<lparr>resp_Menus = menus, resp_Apis = []\<rparr>
                        | TYPE_API \<Rightarrow> \<lparr>resp_Menus = [], resp_Apis = apis\<rparr>
                        | _ \<Rightarrow> \<lparr>resp_Menus = menus, resp_Apis = apis\<rparr>), ts1))))"

definition replace_body :: "'d svc \<Rightarrow> nat \<Rightarrow> string \<Rightarrow> string list \<Rightarrow> string list \<Rightarrow> 'd \<Rightarrow> goerror option \<times> 'd" where
  "replace_body s a roleKey menus apis d =
     (case found_or (T_Role (tables s)) ErrNotFound (First (T_Role (tables s)) (\<lambda>r. r_Key r = roleKey) d) of
        Inl e \<Rightarrow> (Some e, d)
      | Inr role \<Rightarrow>
          if r_IsSuper role then
            (Some (Newf (Sprintf s) a CodePermissionDenied
               ''super admin role permissions are managed automatically and cannot be modified'' []), d)
          else (case ValidateMenuData (tables s) menus d of
             Inl e \<Rightarrow> (Some e, d)
           | Inr missing \<Rightarrow>
               if missing \<noteq> [] then (Some (Newf (Sprintf s) a CodeInvalid ''missing menu components %v'' [missing]), d)
               else (case ValidatePermissionData (tables s) apis d of
                  Inl e \<Rightarrow> (Some e, d)
                | Inr missing' \<Rightarrow>
                    if missing' \<noteq> []
                    then (Some (Newf (Sprintf s) a CodeInvalid ''missing permission datas %v'' [missing']), d)
                    else ReplacePermissions (tables s) roleKey menus apis [r_TenantID role] d)))"

definition ReplaceRolePermissions ::
  "'d svc \<Rightarrow> nat \<Rightarrow> goerror option \<Rightarrow> string \<Rightarrow> string list \<Rightarrow> string list \<Rightarrow> 'd \<Rightarrow> (goerror + string \<times> int) \<times> 'd" where
  "ReplaceRolePermissions s a valid roleKey menus apis d =
     (case valid of
        Some e \<Rightarrow> (Inl e, d)
      | None \<Rightarrow>
          (case Transaction s (replace_body s a roleKey menus apis) d of
             (Some e, d1) \<Rightarrow> (Inl e, d1)
           | (None, d1) \<Rightarrow> (Inr (roleKey, signed_take_bit 31 (int (length menus + length apis))), d1)))"

definition role_options :: "'d svc \<Rightarrow> 'd \<Rightarrow> goerror + (string \<times> string) list" where
  "role_options s d =
     (case Find (T_Role (tables s)) (\<lambda>_. True) d of
        Inl e \<Rightarrow> Inl e
      | Inr rws \<Rightarrow> Inr (map (\<lambda>r. (r_Key r, r_Name r)) (sort_key r_Key rws)))"

definition ListRoleOptions ::
  "'d svc \<Rightarrow> ((string \<times> string) list, 'd, 's) Cacher option \<Rightarrow> bool \<Rightarrow> nat \<Rightarrow> 'c actx_scheme \<Rightarrow> 'd \<Rightarrow> 's tstate \<Rightarrow>
   (goerror + (string \<times> string) list) \<times> 's tstate" where
  "ListRoleOptions s cacher has_db a c d ts =
     (case cacher of
        None \<Rightarrow>
          if \<not> has_db then (Inl (Newf (Sprintf s) a CodeUnavailable ''role service has no database'' []), ts)
          else (role_options s d, ts)
      | Some rolesCacher \<Rightarrow>
          Try rolesCacher a d (''role:options:'' @ TenantIDFromContext c) (role_options s) ts)"

definition RoleMenus :: "'d svc \<Rightarrow> goerror option \<Rightarrow> string \<Rightarrow> 'd \<Rightarrow> goerror + ListVisibleMenusResponse" where
  "RoleMenus s valid role d =
     (case valid of
        Some e \<Rightarrow> Inl e
      | None \<Rightarrow> (case VisibleByRole (tables s) role d of Inl e \<Rightarrow> Inl e | Inr menus \<Rightarrow> Inr (menusToProtoList menus)))"

subsection \<open>User service\<close>

definition defaultAvatarMaxLen :: nat where "defaultAvatarMaxLen = 1024"

definition loadByUID :: "'d svc \<Rightarrow> Claims \<Rightarrow> 'd \<Rightarrow> goerror + User" where
  "loadByUID s cl d =
     found_or (T_User (tables s)) ErrNotFound (First (T_User (tables s)) (\<lambda>u. u_UID u = UID cl) d)"

definition Profile :: "'d svc \<Rightarrow> 'c actx_scheme \<Rightarrow> 'd \<Rightarrow> goerror + UserProfile" where
  "Profile s c d =
     (case ClaimsFromContext c of
        None \<Rightarrow> Inl ErrAccessDenied
      | Some cl \<Rightarrow> (case loadByUID s cl d of Inl e \<Rightarrow> Inl e | Inr u \<Rightarrow> Inr (profileFromUser u)))"

definition UpdateProfile ::
  "'d svc \<Rightarrow> nat \<Rightarrow> goerror option \<Rightarrow> 'c actx_scheme \<Rightarrow> UpdateProfileRequest \<Rightarrow> 'd \<Rightarrow> (goerror + UserProfile) \<times> 'd" where
  "UpdateProfile s a valid c req d =
     (case valid of
        Some e \<Rightarrow> (Inl e, d)
      | None \<Rightarrow>
     (case ClaimsFromContext c of
        None \<Rightarrow> (Inl ErrAccessDenied, d)
      | Some cl \<Rightarrow>
     (case loadByUID s cl d of
        Inl e \<Rightarrow> (Inl e, d)
      | Inr u0 \<Rightarrow>
          (let u1 = (if up_Username req \<noteq> '''' then u0\<lparr>u_Username := up_Username req\<rparr> else u0);
               u2 = (if up_Email req \<noteq> '''' then u1\<lparr>u_Email := up_Email req\<rparr> else u1);
               u3 = (if up_Gender req \<noteq> '''' then u2\<lparr>u_Gender := up_Gender req\<rparr> else u2);
               u = (if up_Description req \<noteq> '''' then u3\<lparr>u_Description := up_Description req\<rparr> else u3)
           in case Save_user s a u d of
                (Some e, d1) \<Rightarrow> (Inl e, d1)
              | (None, d1) \<Rightarrow> (Inr (profileFromUser u), d1)))))"

definition ChangePassword ::
  "'d svc \<Rightarrow> nat \<Rightarrow> goerror option \<Rightarrow> 'c actx_scheme \<Rightarrow> string \<Rightarrow> string \<Rightarrow> 'd \<Rightarrow> goerror option \<times> 'd" where
  "ChangePassword s a valid c oldPassword newPassword d =
     (case valid of
        Some e \<Rightarrow> (Some e, d)
      | None \<Rightarrow>
     (case ClaimsFromContext c of
        None \<Rightarrow> (Some ErrAccessDenied, d)
      | Some cl \<Rightarrow>
     (case loadByUID s cl d of
        Inl e \<Rightarrow> (Some e, d)
      | Inr u \<Rightarrow>
          if \<not> ValidatePassword (bcrypt_cmp s) u oldPassword then (Some ErrInvalidPassword, d)
          else if newPassword = oldPassword
          then (Some (Newf (Sprintf s) a CodeInvalid ''new password must differ from the old one'' []), d)
          else (case Save_user s a (u\<lparr>u_Password := newPassword\<rparr>) d of
                  (Some e, d1) \<Rightarrow> (Some e, d1)
                | (None, d1) \<Rightarrow> (None, d1)))))"

definition ResetPassword ::
  "'d svc \<Rightarrow> nat \<Rightarrow> goerror option \<Rightarrow> 'c actx_scheme \<Rightarrow> string \<Rightarrow> string \<Rightarrow> 'd \<Rightarrow> (goerror + string) \<times> 'd" where
  "ResetPassword s a valid c targetUid newPassword d =
     (case valid of
        Some e \<Rightarrow> (Inl e, d)
      | None \<Rightarrow>
     (case ClaimsFromContext c of
        None \<Rightarrow> (Inl ErrAccessDenied, d)
      | Some cl \<Rightarrow>
     (case found_or (T_Role (tables s)) ErrAccessDenied (First (T_Role (tables s)) (\<lambda>r. r_Key r = Role cl) d) of
        Inl e \<Rightarrow> (Inl e, d)
      | Inr role \<Rightarrow>
          if \<not> r_IsSuper role then (Inl ErrAccessDenied, d)
          else (case found_or (T_User (tables s)) ErrNotFound (First (T_User (tables s)) (\<lambda>u. u_UID u = targetUid) d) of
                  Inl e \<Rightarrow> (Inl e, d)
                | Inr target \<Rightarrow>
                    (case Save_user s a (target\<lparr>u_Password := newPassword\<rparr>) d of
                       (Some e, d1) \<Rightarrow> (Inl e, d1)
                     | (None, d1) \<Rightarrow> (Inr (u_UID target), d1))))))"

definition SetAvatarByURL ::
  "'d svc \<Rightarrow> goerror option \<Rightarrow> 'c actx_scheme \<Rightarrow> string \<Rightarrow> 'd \<Rightarrow> (goerror + string) \<times> 'd" where
  "SetAvatarByURL s valid c avatarUrl d =
     (case valid of
        Some e \<Rightarrow> (Inl e, d)
      | None \<Rightarrow>
     (case ClaimsFromContext c of
        None \<Rightarrow> (Inl ErrAccessDenied, d)
      | Some cl \<Rightarrow>
          (let url = TrimSpace avatarUrl in
           if url = '''' \<or> length url > defaultAvatarMaxLen then (Inl ErrInvalid, d)
           else (case Update (T_User (tables s)) (\<lambda>u. u_UID u = UID cl) (\<lambda>u. u\<lparr>u_Avatar := url\<rparr>) d of
                   (Inl e, d1) \<Rightarrow> (Inl e, d1)
                 | (Inr n, d1) \<Rightarrow> if n = 0 then (Inl ErrNotFound, d1) else (Inr url, d1)))))"

text \<open>
  The cached payload of \<open>ListVisibleMenus\<close>: the components (\<open>None\<close> for the nil slice) and
  the menus.
\<close>

type_synonym visibleMenuData = "string list option \<times> Menu list"

definition load_visible_menus :: "'d grant_tables \<Rightarrow> string \<Rightarrow> 'd \<Rightarrow> goerror + visibleMenuData" where
  "load_visible_menus T role d =
     (case MenuPermissionDatas T role d of
        Inl e \<Rightarrow> Inl e
      | Inr components \<Rightarrow>
          if components = [] then Inr (None, [])
          else (case VisibleMenusByComponents T components d of
                  Inl e \<Rightarrow> Inl e | Inr menus \<Rightarrow> Inr (Some components, menus)))"

definition listVisibleMenusDirect :: "'d svc \<Rightarrow> Claims \<Rightarrow> 'd \<Rightarrow> goerror + ListVisibleMenusResponse" where
  "listVisibleMenusDirect s cl d =
     (case MenuPermissionDatas (tables s) (Role cl) d of
        Inl e \<Rightarrow> Inl e
      | Inr menuComponents \<Rightarrow>
          if menuComponents = [] then Inr \<lparr>vm_TotalCount = 0, vm_Menus = []\<rparr>
          else (case VisibleMenusByComponents (tables s) menuComponents d of
                  Inl e \<Rightarrow> Inl e | Inr menus \<Rightarrow> Inr (menusToProtoList menus)))"

definition ListVisibleMenus ::
  "'d svc \<Rightarrow> (visibleMenuData, 'd, 's) Cacher option \<Rightarrow> nat \<Rightarrow> 'c actx_scheme \<Rightarrow> 'd \<Rightarrow> 's tstate \<Rightarrow>
   (goerror + ListVisibleMenusResponse) \<times> 's tstate" where
  "ListVisibleMenus s cacher a c d ts =
     (case ClaimsFromContext c of
        None \<Rightarrow> (Inl ErrAccessDenied, ts)
      | Some cl \<Rightarrow>
     (case cacher of
        None \<Rightarrow> (listVisibleMenusDirect s cl d, ts)
      | Some grantsCacher \<Rightarrow>
          (let key = ''user:visible_menus:'' @ TenantID cl @ '':'' @ Role cl;
               (r, ts1) = Try grantsCacher a d key (load_visible_menus (tables s) (Role cl)) ts
           in case r of
                Inl e \<Rightarrow> (Inl e, ts1)
              | Inr (components, menus) \<Rightarrow>
                  (case components of
                     None \<Rightarrow> (Inr \<lparr>vm_TotalCount = 0, vm_Menus = []\<rparr>, ts1)
                   | Some _ \<Rightarrow> (Inr (menusToProtoList menus), ts1)))))"

definition listPermissionCodesDirect :: "'d svc \<Rightarrow> Claims \<Rightarrow> 'd \<Rightarrow> goerror + string list \<times> int" where
  "listPermissionCodesDirect s cl d =
     (case APIPermissionDatas (tables s) (Role cl) d of
        Inl e \<Rightarrow> Inl e | Inr codes \<Rightarrow> Inr (codes, int (length codes)))"

definition ListPermissionCodes ::
  "'d svc \<Rightarrow> (string list, 'd, 's) Cacher option \<Rightarrow> nat \<Rightarrow> 'c actx_scheme \<Rightarrow> 'd \<Rightarrow> 's tstate \<Rightarrow>
   (goerror + string list \<times> int) \<times> 's tstate" where
  "ListPermissionCodes s cacher a c d ts =
     (case ClaimsFromContext c of
        None \<Rightarrow> (Inl ErrAccessDenied, ts)
      | Some cl \<Rightarrow>
     (case cacher of
        None \<Rightarrow> (listPermissionCodesDirect s cl d, ts)
      | Some grantsCacher \<Rightarrow>
          (let key = ''user:perm_codes:'' @ TenantID cl @ '':'' @ Role cl;
               (r, ts1) = Try grantsCacher a d key (APIPermissionDatas (tables s) (Role cl)) ts
           in case r of
                Inl e \<Rightarrow> (Inl e, ts1)
              | Inr codes \<Rightarrow> (Inr (codes, int (length codes)), ts1))))"

subsection \<open>Menu, permission and tenant services\<close>

definition load_menus :: "'d grant_tables \<Rightarrow> 'd \<Rightarrow> goerror + Menu list" where
  "load_menus T d =
     (case Find (T_Menu T) (\<lambda>_. True) d of Inl e \<Rightarrow> Inl e | Inr ms \<Rightarrow> Inr (OrderByParentID T ms))"

text \<open>The tree of the rows; \<open>fuel\<close> bounds the depth, and \<open>None\<close> says it was reached.\<close>

definition menuTreeDirect :: "'d svc \<Rightarrow> nat \<Rightarrow> nat \<Rightarrow> bool \<Rightarrow> 'd \<Rightarrow> (goerror + MenuNode list) option" where
  "menuTreeDirect s fuel a has_db d =
     (if \<not> has_db then Some (Inl (Newf (Sprintf s) a CodeUnavailable ''menu service has no database'' []))
      else (case load_menus (tables s) d of
              Inl e \<Rightarrow> Some (Inl e)
            | Inr ms \<Rightarrow> map_option (\<lambda>ts. Inr (menuNodesToPb ts)) (BuildTree fuel ms)))"

definition MenuTree ::
  "'d svc \<Rightarrow> nat \<Rightarrow> (Menu list, 'd, 's) Cacher option \<Rightarrow> nat \<Rightarrow> bool \<Rightarrow> 'd \<Rightarrow> 's tstate \<Rightarrow>
   (goerror + MenuNode list) option \<times> 's tstate" where
  "MenuTree s fuel cacher a has_db d ts =
     (case cacher of
        None \<Rightarrow> (menuTreeDirect s fuel a has_db d, ts)
      | Some menusCacher \<Rightarrow>
          (let (r, ts1) = Try menusCacher a d ''menu:tree'' (load_menus (tables s)) ts
           in case r of
                Inl e \<Rightarrow> (Some (Inl e), ts1)
              | Inr ms \<Rightarrow> (map_option (\<lambda>tr. Inr (menuNodesToPb tr)) (BuildTree fuel ms), ts1)))"

definition ListCatalog :: "'d svc \<Rightarrow> PermissionType \<Rightarrow> 'd \<Rightarrow> goerror + string list" where
  "ListCatalog s ty d = ListByType (tables s) (PermissionTypeFromPb ty) d"

definition requireSuper :: "'d svc \<Rightarrow> 'c actx_scheme \<Rightarrow> 'd \<Rightarrow> goerror option" where
  "requireSuper s c d =
     (case ClaimsFromContext c of
        None \<Rightarrow> Some ErrAccessDenied
      | Some cl \<Rightarrow>
     (case found_or (T_Role (tables s)) ErrAccessDenied (First (T_Role (tables s)) (\<lambda>r. r_Key r = Role cl) d) of
        Inl e \<Rightarrow> Some e
      | Inr role \<Rightarrow> if \<not> r_IsSuper role then Some ErrAccessDenied else None))"

definition ListTenantOptions :: "'d svc \<Rightarrow> 'c actx_scheme \<Rightarrow> 'd \<Rightarrow> goerror + (string \<times> string) list" where
  "ListTenantOptions s c d =
     (case requireSuper s c d of
        Some e \<Rightarrow> Inl e
      | None \<Rightarrow>
          (case Find (T_Tenant s) (\<lambda>_. True) d of
             Inl e \<Rightarrow> Inl e
           | Inr rws \<Rightarrow> Inr (map (\<lambda>t. (t_ID t, t_Name t)) (sort_key t_Name rws))))"

definition Tenant_info :: "'d svc \<Rightarrow> 'c actx_scheme \<Rightarrow> goerror option \<Rightarrow> string \<Rightarrow> 'd \<Rightarrow> goerror + TenantInfo" where
  "Tenant_info s c valid ident d =
     (case requireSuper s c d of
        Some e \<Rightarrow> Inl e
      | None \<Rightarrow>
     (case valid of
        Some e \<Rightarrow> Inl e
      | None \<Rightarrow>
          (case found_or (T_Tenant s) ErrNotFound (First (T_Tenant s) (\<lambda>t. t_ID t = ident) d) of
             Inl e \<Rightarrow> Inl e
           | Inr t \<Rightarrow> Inr \<lparr>ti_Id = t_ID t, ti_Name = t_Name t, ti_Status = t_Status t, ti_CreatedAt = t_CreatedAt t\<rparr>)))"

subsection \<open>Facts about the services\<close>

lemma found_or_Inr [simp]: "found_or ops err r = Inr x \<longleftrightarrow> r = Inr x"
  by (auto simp: found_or_def split: sum.splits)

lemma found_or_ok [simp]: "found_or ops err (Inr x) = Inr x"
  by simp

lemma Transaction_error: "Transaction s body d = (Some e, d') \<Longrightarrow> d' = d"
  by (auto simp: Transaction_def split: prod.splits option.splits)

lemma Transaction_ok: "Transaction s body d = (None, d') \<Longrightarrow> body d = (None, d')"
  by (auto simp: Transaction_def split: prod.splits option.splits)

lemma missing_none:
  assumes "gorm_table ops rows" and "missingDataValues ops col values d = Inr []"
  shows "set values \<subseteq> col ` set (rows d)"
  using assms gorm_table.find_set [OF assms(1)]
  by (fastforce simp: missingDataValues_def Let_def filter_empty_conv split: if_splits sum.splits)

lemma replace_body_ok:
  assumes "replace_body s a k ms as d = (None, d')"
  obtains role where "First (T_Role (tables s)) (\<lambda>r. r_Key r = k) d = Inr role" and "\<not> r_IsSuper role"
    and "ValidateMenuData (tables s) ms d = Inr []" and "ValidatePermissionData (tables s) as d = Inr []"
    and "ReplacePermissions (tables s) k ms as [r_TenantID role] d = (None, d')"
proof -
  obtain role where r: "found_or (T_Role (tables s)) ErrNotFound (First (T_Role (tables s)) (\<lambda>r. r_Key r = k) d) = Inr role"
    using assms by (cases "found_or (T_Role (tables s)) ErrNotFound (First (T_Role (tables s)) (\<lambda>r. r_Key r = k) d)")
      (auto simp: replace_body_def)
  with assms show thesis
    by (intro that [of role]) (auto simp: replace_body_def split: if_splits sum.splits)
qed

lemma Save_user_ok:
  assumes "gorm_table (T_User (tables s)) us" and "Save_user s a u d = (None, d')"
  obtains h where "hashPassword (bcrypt_gen s) (u_Password u) = Inr h" and "checkPlaintextPasswordPolicy a u = None"
    and "set (us d') = (\<lambda>r. if u_ID r = u_ID u then u\<lparr>u_Password := h\<rparr> else r) ` set (us d)"
proof -
  obtain u' where u': "User_BeforeUpdate (bcrypt_gen s) a u = Inr u'"
    using assms(2) by (cases "User_BeforeUpdate (bcrypt_gen s) a u") (auto simp: Save_user_def)
  then obtain h where h: "hashPassword (bcrypt_gen s) (u_Password u) = Inr h"
    "checkPlaintextPasswordPolicy a u = None" "u' = u\<lparr>u_Password := h\<rparr>"
    by (auto simp: User_BeforeUpdate_def split: option.splits sum.splits)
  obtain n where "Update (T_User (tables s)) (\<lambda>r. u_ID r = u_ID u') (\<lambda>_. u') d = (Inr n, d')"
    using assms(2) u' by (auto simp: Save_user_def split: prod.splits sum.splits)
  from gorm_table.update_set [OF assms(1) this] h show thesis by (intro that [of h]) auto
qed

lemma hash_validates:
  assumes "\<forall>p h. gen p = Inr h \<longrightarrow> h \<noteq> '''' \<and> cmp h p" and "hashPassword gen p = Inr h"
    and "p \<noteq> ''''" and "\<not> HasPrefix p ''$2''" and "u_Password u = h"
  shows "ValidatePassword cmp u p"
  using assms by (auto simp: hashPassword_def ValidatePassword_def split: if_splits sum.splits)

lemma requireSuper_ok:
  assumes "requireSuper s c d = None"
  obtains cl role where "ClaimsFromContext c = Some cl"
    and "First (T_Role (tables s)) (\<lambda>r. r_Key r = Role cl) d = Inr role" and "r_IsSuper role"
proof -
  obtain cl where c: "ClaimsFromContext c = Some cl" using assms by (auto simp: requireSuper_def split: option.splits)
  with assms obtain role where
    "found_or (T_Role (tables s)) ErrAccessDenied (First (T_Role (tables s)) (\<lambda>r. r_Key r = Role cl) d) = Inr role"
    by (auto simp: requireSuper_def split: sum.splits)
  with c assms show thesis by (intro that [of cl role]) (auto simp: requireSuper_def split: if_splits)
qed

lemma ResetPassword_super:
  "requireSuper s c d = Some e \<Longrightarrow> valid = None \<Longrightarrow> ResetPassword s a valid c uid p d = (Inl e, d)"
  unfolding ResetPassword_def requireSuper_def
  by (cases "ClaimsFromContext c"; simp)
    (cases "found_or (T_Role (tables s)) ErrAccessDenied
       (First (T_Role (tables s)) (\<lambda>r. r_Key r = Role (the (ClaimsFromContext c))) d)"; auto split: if_splits)

lemma menusToProtoList_simps:
  "map me_Component (vm_Menus (menusToProtoList xs)) = map m_Component xs"
  "vm_TotalCount (menusToProtoList xs) = int (length (vm_Menus (menusToProtoList xs)))"
  by (simp_all add: menusToProtoList_def Let_def)

section \<open>Properties\<close>

text \<open>
  Replacing the grants of a role. The handler is all or nothing: if it answers an
  error the database is unchanged. If it succeeds, the role exists and is not a super
  role, every requested menu and permission exists, the role's grants in its tenant are
  exactly the requested ones, and the grants of every other role key and all users are
  unchanged. (Grants under the same key that the handle sees in other tenants are
  deleted: the handler relies on the tenant callbacks to hide them.)
\<close>

theorem replace_role_permissions:
  assumes "grant_db (tables s) rps us rls"
    and "gorm_table (T_Menu (tables s)) ms" and "gorm_table (T_Permission (tables s)) ps"
    and "ReplaceRolePermissions s a valid k menus apis d = (r, d')"
  shows "case r of
      Inl e \<Rightarrow> d' = d
    | Inr res \<Rightarrow> valid = None \<and> fst res = k \<and> us d' = us d \<and>
        set menus \<subseteq> m_Component ` set (ms d) \<and> set apis \<subseteq> p_Data ` set (ps d) \<and>
        (\<exists>role\<in>set (rls d). r_Key role = k \<and> \<not> r_IsSuper role \<and>
          (r_TenantID role \<noteq> '''' \<longrightarrow>
            grant_set (rps d') k (r_TenantID role) =
              (\<lambda>m. (RolePermissionTypeMenu, m)) ` set menus \<union> (\<lambda>p. (RolePermissionTypePermission, p)) ` set apis \<and>
            (\<forall>k' t. k' \<noteq> k \<longrightarrow> grant_set (rps d') k' t = grant_set (rps d) k' t) \<and>
            (\<forall>t. t \<noteq> r_TenantID role \<longrightarrow> grant_set (rps d') k t = {})))"
proof (cases "valid = None \<and> fst (Transaction s (replace_body s a k menus apis) d) = None")
  case True
  then have "Transaction s (replace_body s a k menus apis) d = (None, d')" and r: "fst (projr r) = k" "\<exists>x. r = Inr x"
    using assms(4) by (auto simp: ReplaceRolePermissions_def split: prod.splits)
  from replace_body_ok [OF Transaction_ok [OF this(1)]] obtain role where
    f: "First (T_Role (tables s)) (\<lambda>r. r_Key r = k) d = Inr role" "\<not> r_IsSuper role"
    and v: "ValidateMenuData (tables s) menus d = Inr []" "ValidatePermissionData (tables s) apis d = Inr []"
    and rp: "ReplacePermissions (tables s) k menus apis [r_TenantID role] d = (None, d')" by blast
  have "role \<in> set (rls d) \<and> r_Key role = k"
    using gorm_table.first_law [OF grant_db.axioms(3) [OF assms(1)] f(1)] by simp
  moreover have "set menus \<subseteq> m_Component ` set (ms d)" "set apis \<subseteq> p_Data ` set (ps d)"
    using missing_none [OF assms(2) v(1) [unfolded ValidateMenuData_def]]
      missing_none [OF assms(3) v(2) [unfolded ValidatePermissionData_def]] by auto
  moreover obtain x where "r = Inr x" "fst x = k" using r by auto
  moreover note grant_db.replace_set(2) [OF assms(1) rp]
  moreover have "r_TenantID role \<noteq> '''' \<longrightarrow>
    grant_set (rps d') k (r_TenantID role) =
      (\<lambda>m. (RolePermissionTypeMenu, m)) ` set menus \<union> (\<lambda>p. (RolePermissionTypePermission, p)) ` set apis \<and>
    (\<forall>k' t. k' \<noteq> k \<longrightarrow> grant_set (rps d') k' t = grant_set (rps d) k' t) \<and>
    (\<forall>t. t \<noteq> r_TenantID role \<longrightarrow> grant_set (rps d') k t = {})"
    using grant_db.replace_grants [OF assms(1) rp] by simp
  ultimately show ?thesis using f(2) True by auto
next
  case False
  then have "(\<exists>e. r = Inl e) \<and> d' = d"
    using assms(4) Transaction_error
    by (auto simp: ReplaceRolePermissions_def split: option.splits prod.splits)
  then show ?thesis by auto
qed

text \<open>
  Operations reserved to super administrators. If the tenant list or a tenant is
  returned, or a password reset succeeds or changes the database at all, then the caller
  carries claims and the role row the database holds for the claimed role at that moment
  is a super role.
\<close>

theorem super_only:
  assumes "gorm_table (T_Role (tables s)) rls"
    and "(\<exists>xs. ListTenantOptions s c d = Inr xs) \<or> (\<exists>i. Tenant_info s c valid ident d = Inr i) \<or>
      (\<exists>uid'. fst (ResetPassword s a valid c uid p d) = Inr uid') \<or> snd (ResetPassword s a valid c uid p d) \<noteq> d"
  shows "\<exists>cl role. ClaimsFromContext c = Some cl \<and> role \<in> set (rls d) \<and> r_Key role = Role cl \<and> r_IsSuper role"
proof -
  have "requireSuper s c d = None"
  proof (rule ccontr)
    assume "requireSuper s c d \<noteq> None"
    then obtain e where e: "requireSuper s c d = Some e" by blast
    have "\<exists>e. ResetPassword s a valid c uid p d = (Inl e, d)"
      using ResetPassword_super [OF e, of valid] by (cases valid) (auto simp: ResetPassword_def)
    with e assms(2) show False by (auto simp: ListTenantOptions_def Tenant_info_def)
  qed
  then obtain cl role where "ClaimsFromContext c = Some cl"
    "First (T_Role (tables s)) (\<lambda>r. r_Key r = Role cl) d = Inr role" "r_IsSuper role" by (rule requireSuper_ok)
  with gorm_table.first_law [OF assms(1)] show ?thesis by blast
qed

text \<open>
  C35: Changing a password. If the handler succeeds, the old password was valid for the
  caller's row, and afterwards that row (there is one) differs from the old row only in the
  password, while rows with another id are unchanged. What the row holds then depends on the
  new password, on which the request has no rules: an ordinary one satisfies the password
  policy and the row validates it; one that looks like a bcrypt hash is stored as it is, with
  no policy; an empty one is stored as it is, and no password validates the row any more.
  (With a bcrypt that accepts its own hashes and never hashes to the empty string.)
\<close>

theorem change_password:
  assumes "gorm_table (T_User (tables s)) us"
    and "\<forall>p h. bcrypt_gen s p = Inr h \<longrightarrow> h \<noteq> '''' \<and> bcrypt_cmp s h p"
    and "ChangePassword s a valid c old new d = (None, d')"
  shows "\<exists>cl u. ClaimsFromContext c = Some cl \<and> u \<in> set (us d) \<and> u_UID u = UID cl \<and>
    ValidatePassword (bcrypt_cmp s) u old \<and> old \<noteq> new \<and>
    (\<exists>v\<in>set (us d'). u_ID v = u_ID u) \<and>
    (\<forall>v\<in>set (us d'). if u_ID v = u_ID u
       then v = u\<lparr>u_Password := u_Password v\<rparr> \<and>
            (if new = '''' then \<forall>p. \<not> ValidatePassword (bcrypt_cmp s) v p
             else if HasPrefix new ''$2'' then u_Password v = new
             else CheckPasswordPolicy a new = None \<and> ValidatePassword (bcrypt_cmp s) v new)
       else v \<in> set (us d)) \<and>
    (\<forall>v\<in>set (us d). u_ID v \<noteq> u_ID u \<longrightarrow> v \<in> set (us d'))"
proof -
  obtain cl where cl: "valid = None" "ClaimsFromContext c = Some cl"
    using assms(3) by (auto simp: ChangePassword_def split: option.splits)
  then obtain u where u: "loadByUID s cl d = Inr u" "ValidatePassword (bcrypt_cmp s) u old" "old \<noteq> new"
    "Save_user s a (u\<lparr>u_Password := new\<rparr>) d = (None, d')"
    using assms(3) by (auto simp: ChangePassword_def split: option.splits sum.splits if_splits prod.splits)
  then have uid: "u \<in> set (us d)" "u_UID u = UID cl"
    using gorm_table.first_law [OF assms(1)] by (auto simp: loadByUID_def)
  obtain h where "hashPassword (bcrypt_gen s) (u_Password (u\<lparr>u_Password := new\<rparr>)) = Inr h"
    "checkPlaintextPasswordPolicy a (u\<lparr>u_Password := new\<rparr>) = None"
    "set (us d') = (\<lambda>r. if u_ID r = u_ID (u\<lparr>u_Password := new\<rparr>)
       then u\<lparr>u_Password := new\<rparr>\<lparr>u_Password := h\<rparr> else r) ` set (us d)"
    by (rule Save_user_ok [OF assms(1) u(4)])
  then have h: "hashPassword (bcrypt_gen s) new = Inr h"
    "set (us d') = (\<lambda>r. if u_ID r = u_ID u then u\<lparr>u_Password := h\<rparr> else r) ` set (us d)"
    and policy: "checkPlaintextPasswordPolicy a (u\<lparr>u_Password := new\<rparr>) = None" by simp_all
  have "if new = '''' then \<forall>p. \<not> ValidatePassword (bcrypt_cmp s) (u\<lparr>u_Password := h\<rparr>) p
      else if HasPrefix new ''$2'' then h = new
      else CheckPasswordPolicy a new = None \<and> ValidatePassword (bcrypt_cmp s) (u\<lparr>u_Password := h\<rparr>) new"
    using h(1) policy hash_validates [OF assms(2) h(1), of "u\<lparr>u_Password := h\<rparr>"]
    by (auto simp: hashPassword_def ValidatePassword_def checkPlaintextPasswordPolicy_def split: if_splits)
  moreover have "u\<lparr>u_Password := h\<rparr> \<in> set (us d')" unfolding h(2) using uid(1) by (force simp: image_iff)
  moreover have "v = u\<lparr>u_Password := h\<rparr> \<or> u_ID v \<noteq> u_ID u \<and> v \<in> set (us d)" if "v \<in> set (us d')" for v
    using that unfolding h(2) by auto
  moreover have "v \<in> set (us d')" if "v \<in> set (us d)" "u_ID v \<noteq> u_ID u" for v
    using that unfolding h(2) by (force simp: image_iff)
  ultimately show ?thesis using cl(2) u(2,3) uid
    by (intro exI [of _ cl] exI [of _ u] conjI) (fastforce simp del: HasPrefix_def)+
qed

text \<open>
  The menus of a role. The role preview and the menu list of a caller with that role
  agree; when they answer, the components listed are exactly the menus
  for which a menu grant of the role exists, each row once, and the count is their number.
\<close>

theorem role_menus_exact:
  assumes "grant_db (tables s) rps us rls" and "gorm_table (T_Menu (tables s)) ms"
    and "\<forall>xs. mset (OrderByParentID (tables s) xs) = mset xs"
    and "RoleMenus s None (Role cl) d = Inr resp"
  shows "listVisibleMenusDirect s cl d = Inr resp \<and>
    mset (map me_Component (vm_Menus resp)) =
      image_mset m_Component (filter_mset
        (\<lambda>m. \<exists>r\<in>set (rps d). rp_RoleKey r = Role cl \<and> rp_Type r = RolePermissionTypeMenu \<and> rp_Data r = m_Component m)
        (mset (ms d))) \<and>
    vm_TotalCount resp = int (length (vm_Menus resp))"
proof -
  obtain cs where cs: "MenuPermissionDatas (tables s) (Role cl) d = Inr cs"
    using assms(4) by (auto simp: RoleMenus_def VisibleByRole_def split: sum.splits)
  have set_cs: "(m_Component m \<in> set cs) =
      (\<exists>r\<in>set (rps d). rp_RoleKey r = Role cl \<and> rp_Type r = RolePermissionTypeMenu \<and> rp_Data r = m_Component m)" for m :: Menu
    using grant_db.menu_datas_set(1) [OF assms(1) cs] by auto
  show ?thesis
  proof (cases "cs = []")
    case True
    then show ?thesis using assms(4) cs set_cs
      by (auto simp: RoleMenus_def VisibleByRole_def listVisibleMenusDirect_def menusToProtoList_def
          intro!: filter_mset_False [symmetric])
  next
    case False
    then obtain fs where fs: "Find (T_Menu (tables s)) (\<lambda>m. m_Component m \<in> set cs) d = Inr fs"
      "resp = menusToProtoList (OrderByParentID (tables s) fs)"
      using assms(4) cs
      by (auto simp: RoleMenus_def VisibleByRole_def VisibleMenusByComponents_def split: sum.splits)
    have "mset (OrderByParentID (tables s) fs) = filter_mset (\<lambda>m. m_Component m \<in> set cs) (mset (ms d))"
      using gorm_table.find_law [OF assms(2) fs(1)] assms(3) by simp
    then have "mset (map me_Component (vm_Menus resp)) =
        image_mset m_Component (filter_mset (\<lambda>m. m_Component m \<in> set cs) (mset (ms d)))"
      unfolding fs(2) menusToProtoList_simps by simp
    moreover have "listVisibleMenusDirect s cl d = Inr resp"
      using fs cs False by (simp add: listVisibleMenusDirect_def VisibleMenusByComponents_def)
    ultimately show ?thesis unfolding set_cs [symmetric] using fs(2) menusToProtoList_simps(2) by blast
  qed
qed

subsection \<open>Concrete values\<close>

definition sample_svc :: "memdb svc" where
  "sample_svc =
     \<lparr>tables = mem_tables,
      T_Tenant = replica (\<lambda>_. [\<lparr>t_ID = ''acme'', t_Name = ''Acme'', t_Status = ''enabled'', t_CreatedAt = 0\<rparr>]),
      Commit = (\<lambda>_. None), bcrypt_gen = (\<lambda>p. Inr (''$2a'' @ p)), bcrypt_cmp = (\<lambda>h p. h = ''$2a'' @ p),
      Sprintf = (\<lambda>f _. f)\<rparr>"

definition sample_sdb :: memdb where
  "sample_sdb = sample_rdb\<lparr>gdb_roles := [sample_role 1 ''ops'', (sample_role 2 ''root'')\<lparr>r_IsSuper := True\<rparr>],
     gdb_users := [sample_user\<lparr>u_ID := 7, u_UID := ''u7'', u_Password := ''$2apassw0rd'', u_RoleKey := ''root''\<rparr>],
     gdb_menus := [sample_menu 1 ''Users'' '''', sample_menu 2 ''Roles'' ''''],
     gdb_perms := [\<lparr>p_ID = 0, p_Type = ''api'', p_Data = ''GET /x'', p_Description = '''', p_Group = ''''\<rparr>]\<rparr>"

definition sample_cl :: Claims where
  "sample_cl = \<lparr>Registered = \<lparr>ID = '''', ExpiresAt = None, IssuedAt = None, NotBefore = None\<rparr>,
     UID = ''u7'', Role = ''root'', TenantID = ''acme'', TokenType = ''access''\<rparr>"

definition sample_actx :: actx where
  "sample_actx = \<lparr>metadataKey = None, authKey = Some (StructClaims (Some sample_cl))\<rparr>"

lemma sample_tables [simp]: "tables sample_svc = mem_tables"
  by (simp add: sample_svc_def)

lemma mem_tables_gorm:
  "gorm_table (T_Menu mem_tables) gdb_menus" "gorm_table (T_Permission mem_tables) gdb_perms"
  "gorm_table (T_User mem_tables) gdb_users" "gorm_table (T_Role mem_tables) gdb_roles"
  unfolding mem_tables_def grant_tables.simps by (rule mem_table_gorm; simp)+

theorem replace_role_permissions_witness:
  "\<exists>res d'. ReplaceRolePermissions sample_svc 900 None ''ops'' [''Roles''] [''GET /x''] sample_sdb = (Inr res, d') \<and>
     grant_set (gdb_rps d') ''ops'' ''acme'' = {(''menu'', ''Roles''), (''permission'', ''GET /x'')} \<and>
     grant_set (gdb_rps d') ''ops'' ''globex'' = {}"
proof -
  obtain r d' where d': "ReplaceRolePermissions sample_svc 900 None ''ops'' [''Roles''] [''GET /x''] sample_sdb = (r, d')"
    by (rule prod.exhaust)
  moreover have "fst (ReplaceRolePermissions sample_svc 900 None ''ops'' [''Roles''] [''GET /x''] sample_sdb) = Inr (''ops'', 2)"
    by code_simp
  ultimately have r: "r = Inr (''ops'', 2)" by simp
  have "grant_db (tables sample_svc) gdb_rps gdb_users gdb_roles" "gorm_table (T_Menu (tables sample_svc)) gdb_menus"
    "gorm_table (T_Permission (tables sample_svc)) gdb_perms"
    using mdb.grant_db_axioms mem_tables_gorm by simp_all
  from replace_role_permissions [OF this d'] obtain role where
    role: "role \<in> set (gdb_roles sample_sdb)" "r_Key role = ''ops''" and
    gr: "r_TenantID role \<noteq> '''' \<longrightarrow>
      grant_set (gdb_rps d') ''ops'' (r_TenantID role) =
        (\<lambda>m. (RolePermissionTypeMenu, m)) ` set [''Roles''] \<union> (\<lambda>p. (RolePermissionTypePermission, p)) ` set [''GET /x''] \<and>
      (\<forall>t. t \<noteq> r_TenantID role \<longrightarrow> grant_set (gdb_rps d') ''ops'' t = {})"
    unfolding r by auto
  from role have "r_TenantID role = ''acme''" by (auto simp: sample_sdb_def sample_role_def)
  with gr d' r show ?thesis by (auto simp: type_names)
qed

theorem super_only_witness:
  "ListTenantOptions sample_svc sample_actx sample_sdb = Inr [(''acme'', ''Acme'')] \<and>
   (\<exists>cl role. ClaimsFromContext sample_actx = Some cl \<and> role \<in> set (gdb_roles sample_sdb) \<and> r_Key role = Role cl \<and> r_IsSuper role)"
proof
  show *: "ListTenantOptions sample_svc sample_actx sample_sdb = Inr [(''acme'', ''Acme'')]" by code_simp
  show "\<exists>cl role. ClaimsFromContext sample_actx = Some cl \<and> role \<in> set (gdb_roles sample_sdb) \<and> r_Key role = Role cl \<and> r_IsSuper role"
    by (rule super_only [where s = sample_svc and valid = None and a = 900 and uid = "''''" and p = "''''" and ident = "''''"])
      (use mem_tables_gorm * in auto)
qed

theorem change_password_witness:
  "\<exists>d'. ChangePassword sample_svc 900 None sample_actx ''passw0rd'' ''n3wpassword'' sample_sdb = (None, d') \<and>
     (\<exists>v\<in>set (gdb_users d'). ValidatePassword (bcrypt_cmp sample_svc) v ''n3wpassword'')"
proof -
  let ?r = "ChangePassword sample_svc 900 None sample_actx ''passw0rd'' ''n3wpassword'' sample_sdb"
  have "fst ?r = None" by code_simp
  then have d: "?r = (None, snd ?r)" by (metis prod.collapse)
  have "gorm_table (T_User (tables sample_svc)) gdb_users"
    and "\<forall>p h. bcrypt_gen sample_svc p = Inr h \<longrightarrow> h \<noteq> '''' \<and> bcrypt_cmp sample_svc h p"
    using mem_tables_gorm by (simp_all add: sample_svc_def)
  moreover have "''n3wpassword'' \<noteq> ''''" "\<not> HasPrefix ''n3wpassword'' ''$2''" by code_simp+
  ultimately obtain v where "v \<in> set (gdb_users (snd ?r))" "ValidatePassword (bcrypt_cmp sample_svc) v ''n3wpassword''"
    using change_password [of sample_svc gdb_users 900 None sample_actx "''passw0rd''" "''n3wpassword''" sample_sdb "snd ?r"] d
    by metis
  with d show ?thesis by blast
qed

theorem role_menus_exact_witness:
  "\<exists>resp. RoleMenus sample_svc None (Role (sample_cl\<lparr>Role := ''ops''\<rparr>)) sample_sdb = Inr resp \<and>
     listVisibleMenusDirect sample_svc (sample_cl\<lparr>Role := ''ops''\<rparr>) sample_sdb = Inr resp \<and>
     map me_Component (vm_Menus resp) = [''Users'']"
proof -
  let ?cl = "sample_cl\<lparr>Role := ''ops''\<rparr>"
  have m: "map_sum id (\<lambda>resp. map me_Component (vm_Menus resp)) (RoleMenus sample_svc None (Role ?cl) sample_sdb) =
    Inr [''Users'']" by code_simp
  then obtain resp where r: "RoleMenus sample_svc None (Role ?cl) sample_sdb = Inr resp"
    by (cases "RoleMenus sample_svc None (Role ?cl) sample_sdb") auto
  have "\<forall>xs. mset (OrderByParentID (tables sample_svc) xs) = mset xs" by (simp add: mem_tables_def)
  with role_menus_exact [OF _ _ _ r, of gdb_rps gdb_users gdb_roles gdb_menus] mdb.grant_db_axioms mem_tables_gorm(1)
  have "listVisibleMenusDirect sample_svc ?cl sample_sdb = Inr resp" by simp
  with r m show ?thesis by simp
qed

end
