(* ===== verification/TenantScope.thy ===== *)
theory TenantScope
  imports Services
begin

text \<open>
  Package \<open>admin\<close>, file \<open>tenant_scope.go\<close>, and the resolvers of \<open>admin/middleware\<close>: the
  GORM callbacks that confine an operation to the tenant of its context.

  The context of a request gains the value stored under \<open>tenantBypassKey\<close>. The callbacks
  are a transformation of the table operations of \<open>Gorm\<close>: what they append to the WHERE
  clause is a conjunct of the predicate, and what they write into the rows of a create is
  the effect of \<open>setTenantID\<close> on them. \<open>setTenantID\<close> walks a value by reflection; the
  datatype \<open>rvalue\<close> holds what it can see of one.
\<close>

subsection \<open>Contexts and resolvers\<close>

record sctx = actx +
  tenantBypassKey :: bool

type_synonym Resolver = "sctx \<Rightarrow> string"

definition WithoutTenant :: "sctx \<Rightarrow> sctx" where
  "WithoutTenant c = c\<lparr>tenantBypassKey := True\<rparr>"

definition tenantBypassed :: "sctx \<Rightarrow> bool" where
  "tenantBypassed c = tenantBypassKey c"

definition FromClaimsResolver :: Resolver where
  "FromClaimsResolver c = TenantIDFromContext c"

definition FromClaimsUserResolve :: "sctx \<Rightarrow> string" where
  "FromClaimsUserResolve c = (case ClaimsFromContext c of Some cl \<Rightarrow> UID cl | None \<Rightarrow> '''')"

subsection \<open>The tenant column\<close>

text \<open>
  A parsed schema: the address of the schema object and the column names of its
  fields. The cache maps addresses to the answer found earlier.
\<close>

record Schema =
  s_addr :: nat
  s_DBNames :: "string list"

definition hasTenantIDColumn :: "Schema option \<Rightarrow> (nat, bool) gomap \<Rightarrow> bool \<times> (nat, bool) gomap" where
  "hasTenantIDColumn so cached =
     (case so of
        None \<Rightarrow> (False, cached)
      | Some s \<Rightarrow>
          (case map_of cached (s_addr s) of
             Some v \<Rightarrow> (v, cached)
           | None \<Rightarrow>
               if ''tenant_id'' \<in> set (s_DBNames s) then (True, AList.update (s_addr s) True cached)
               else (False, AList.update (s_addr s) False cached)))"

subsection \<open>Forcing the tenant of a created row\<close>

datatype rvalue =
    RInvalid
  | RSlice "rvalue list"
  | RPointer "rvalue option"
  | RStruct "rfield list"
  | RString string
  | ROther
and rfield = RField (rf_Name: string) (rf_Anonymous: bool) (rf_CanSet: bool) (rf_Value: rvalue)

fun setTenantID :: "string \<Rightarrow> rvalue \<Rightarrow> rvalue"
  and set_field :: "string \<Rightarrow> rfield \<Rightarrow> rfield" where
  "setTenantID tid RInvalid = RInvalid"
| "setTenantID tid (RSlice vs) = RSlice (map (setTenantID tid) vs)"
| "setTenantID tid (RPointer None) = RPointer None"
| "setTenantID tid (RPointer (Some v)) = RPointer (Some (setTenantID tid v))"
| "setTenantID tid (RStruct fs) = RStruct (map (set_field tid) fs)"
| "setTenantID tid (RString s) = RString s"
| "setTenantID tid ROther = ROther"
| "set_field tid (RField name anonymous canSet v) =
     (if anonymous then RField name anonymous canSet (setTenantID tid v)
      else if name = ''TenantID'' then
        (case v of RString s \<Rightarrow> RField name anonymous canSet (RString (if canSet then tid else s))
         | _ \<Rightarrow> RField name anonymous canSet v)
      else RField name anonymous canSet v)"

subsection \<open>The callbacks\<close>

text \<open>
  What the callbacks know of a model: whether its schema has the column, the column of a
  row, the value reflection shows of a row, and the row after that value was written
  through.
\<close>

record 'r tmodel =
  has_column :: bool
  tenant_of :: "'r \<Rightarrow> string"
  reflect :: "'r \<Rightarrow> rvalue"
  write_back :: "'r \<Rightarrow> rvalue \<Rightarrow> 'r"

definition applyTenantScope :: "Resolver \<Rightarrow> 'r tmodel \<Rightarrow> sctx \<Rightarrow> ('r \<Rightarrow> bool) \<Rightarrow> 'r \<Rightarrow> bool" where
  "applyTenantScope resolver m c P =
     (if \<not> has_column m \<or> tenantBypassed c then P
      else (let tid = resolver c in
            if tid = '''' then P else (\<lambda>r. P r \<and> tenant_of m r = tid)))"

definition create_callback :: "Resolver \<Rightarrow> 'r tmodel \<Rightarrow> sctx \<Rightarrow> 'r list \<Rightarrow> 'r list" where
  "create_callback resolver m c rs =
     (if \<not> has_column m \<or> tenantBypassed c then rs
      else (let tid = resolver c in
            if tid = '''' then rs
            else (case setTenantID tid (RSlice (map (reflect m) rs)) of
                    RSlice vs \<Rightarrow> map2 (write_back m) rs vs
                  | _ \<Rightarrow> rs)))"

definition installTenantScope ::
  "Resolver option \<Rightarrow> 'r tmodel \<Rightarrow> sctx \<Rightarrow> ('r, 'd) table_ops \<Rightarrow> ('r, 'd) table_ops" where
  "installTenantScope resolver m c ops =
     (case resolver of
        None \<Rightarrow> ops
      | Some res \<Rightarrow>
          ops\<lparr>Find := (\<lambda>P. Find ops (applyTenantScope res m c P)),
              First := (\<lambda>P. First ops (applyTenantScope res m c P)),
              Create := (\<lambda>rs. Create ops (create_callback res m c rs)),
              Update := (\<lambda>P. Update ops (applyTenantScope res m c P)),
              Delete := (\<lambda>P. Delete ops (applyTenantScope res m c P))\<rparr>)"

definition tenantScopingEnabled :: "bool \<Rightarrow> Resolver option \<Rightarrow> bool" where
  "tenantScopingEnabled has_db resolver \<longleftrightarrow> has_db \<and> resolver \<noteq> None"

subsection \<open>Facts about the walk and the cache\<close>

text \<open>The tenant fields the walk reaches: of the structs it enters, through embedded fields only.\<close>

fun tenant_fields :: "rvalue \<Rightarrow> string list"
  and field_tenants :: "rfield \<Rightarrow> string list" where
  "tenant_fields (RSlice vs) = concat (map tenant_fields vs)"
| "tenant_fields (RPointer (Some v)) = tenant_fields v"
| "tenant_fields (RStruct fs) = concat (map field_tenants fs)"
| "tenant_fields _ = []"
| "field_tenants (RField name anonymous canSet v) =
     (if anonymous then tenant_fields v
      else if name = ''TenantID'' \<and> canSet then (case v of RString s \<Rightarrow> [s] | _ \<Rightarrow> [])
      else [])"

lemma setTenantID_fields:
  "tenant_fields (setTenantID tid v) = replicate (length (tenant_fields v)) tid"
  "field_tenants (set_field tid f) = replicate (length (field_tenants f)) tid"
proof (induction tid v and tid f rule: setTenantID_set_field.induct)
  case (2 tid vs)
  then show ?case by (induction vs) (auto simp: replicate_add)
next
  case (5 tid fs)
  then show ?case by (induction fs) (auto simp: replicate_add)
next
  case (8 tid name anonymous canSet v)
  then show ?case by (cases v) auto
qed auto

text \<open>A row after the walk.\<close>

definition forced :: "'r tmodel \<Rightarrow> string \<Rightarrow> 'r \<Rightarrow> 'r" where
  "forced m tid r = write_back m r (setTenantID tid (reflect m r))"

lemma map2_self: "map2 f xs (map g xs) = map (\<lambda>x. f x (g x)) xs"
  by (induction xs) auto

lemma create_callback_forced:
  "create_callback res m c rs =
     (if \<not> has_column m \<or> tenantBypassed c \<or> res c = '''' then rs else map (forced m (res c)) rs)"
  by (simp add: create_callback_def Let_def forced_def map2_self comp_def)

text \<open>
  A model whose tenant column is a field \<open>TenantID\<close> that the walk reaches: every row shows
  such a field, and the column of a written row is read from one of them.
\<close>

definition tenant_model :: "'r tmodel \<Rightarrow> bool" where
  "tenant_model m \<longleftrightarrow> has_column m \<and> (\<forall>r. tenant_fields (reflect m r) \<noteq> []) \<and>
     (\<forall>r v. tenant_fields v \<noteq> [] \<longrightarrow> tenant_of m (write_back m r v) \<in> set (tenant_fields v))"

lemma tenant_of_forced: "tenant_model m \<Longrightarrow> tenant_of m (forced m tid r) = tid"
proof -
  assume m: "tenant_model m"
  let ?v = "setTenantID tid (reflect m r)"
  have v: "tenant_fields ?v = replicate (length (tenant_fields (reflect m r))) tid"
    by (rule setTenantID_fields(1))
  have ne: "tenant_fields ?v \<noteq> []" using m by (simp add: v tenant_model_def)
  then have "tenant_of m (write_back m r ?v) \<in> set (tenant_fields ?v)" using m by (simp add: tenant_model_def)
  then show ?thesis by (simp add: forced_def v split: if_splits)
qed

definition cache_ok :: "(nat \<Rightarrow> string list) \<Rightarrow> (nat, bool) gomap \<Rightarrow> bool" where
  "cache_ok columns cached \<longleftrightarrow> (\<forall>a v. map_of cached a = Some v \<longrightarrow> v = (''tenant_id'' \<in> set (columns a)))"

lemma hasTenantIDColumn_correct:
  assumes "cache_ok columns cached" and "s_DBNames s = columns (s_addr s)"
  shows "hasTenantIDColumn (Some s) cached = (b, cached') \<Longrightarrow>
    b = (''tenant_id'' \<in> set (s_DBNames s)) \<and> cache_ok columns cached'"
  using assms
  by (auto simp: hasTenantIDColumn_def cache_ok_def update_conv' split: option.splits if_splits)

subsection \<open>A handle confined to a tenant\<close>

text \<open>
  A table whose handle carries the callbacks, for a context whose resolver answers the
  tenant \<open>tid\<close>. The rows of other tenants are \<open>foreign\<close>.
\<close>

locale tenant_table = gorm_table ops rows
  for ops :: "('r, 'd) table_ops" and rows :: "'d \<Rightarrow> 'r list" +
  fixes m :: "'r tmodel" and res :: Resolver and c :: sctx and tid :: string
  assumes model: "tenant_model m"
    and in_scope: "\<not> tenantBypassed c" "res c = tid" "tid \<noteq> ''''"
begin

lemma has_column: "has_column m"
  using model by (simp add: tenant_model_def)

definition foreign :: "'d \<Rightarrow> 'r multiset" where
  "foreign d = filter_mset (\<lambda>r. tenant_of m r \<noteq> tid) (mset (rows d))"

definition handle :: "('r, 'd) table_ops" where
  "handle = installTenantScope (Some res) m c ops"

lemma scope: "applyTenantScope res m c P = (\<lambda>r. P r \<and> tenant_of m r = tid)"
  using has_column in_scope by (simp add: applyTenantScope_def Let_def)

lemma handle_ops:
  "Find handle P = Find ops (\<lambda>r. P r \<and> tenant_of m r = tid)"
  "First handle P = First ops (\<lambda>r. P r \<and> tenant_of m r = tid)"
  "Create handle rs = Create ops (map (forced m tid) rs)"
  "Update handle P f = Update ops (\<lambda>r. P r \<and> tenant_of m r = tid) f"
  "Delete handle P = Delete ops (\<lambda>r. P r \<and> tenant_of m r = tid)"
  "ErrRecordNotFound handle = ErrRecordNotFound ops"
  using has_column in_scope by (simp_all add: handle_def installTenantScope_def scope create_callback_forced)

lemma find_own: "Find handle P d = Inr rs \<Longrightarrow> set rs = {r \<in> set (rows d). P r \<and> tenant_of m r = tid}"
  unfolding handle_ops by (rule find_set)

lemma first_own: "First handle P d = Inr r \<Longrightarrow> r \<in> set (rows d) \<and> P r \<and> tenant_of m r = tid"
  unfolding handle_ops using first_law by blast

lemma create_foreign: "Create handle rs d = (None, d') \<Longrightarrow> foreign d' = foreign d"
  unfolding handle_ops foreign_def using create_law [of _ d d']
  by (simp add: tenant_of_forced [OF model] filter_mset_eq_conv)

lemma delete_foreign: "Delete handle P d = (None, d') \<Longrightarrow> foreign d' = foreign d"
proof -
  assume "Delete handle P d = (None, d')"
  then have "mset (rows d') = filter_mset (\<lambda>r. \<not> (P r \<and> tenant_of m r = tid)) (mset (rows d))"
    unfolding handle_ops using delete_law by fastforce
  moreover have "(\<lambda>r. \<not> (P r \<and> tenant_of m r = tid) \<and> tenant_of m r \<noteq> tid) = (\<lambda>r. tenant_of m r \<noteq> tid)" by auto
  ultimately show "foreign d' = foreign d" by (simp add: foreign_def filter_filter_mset)
qed

lemma update_foreign:
  assumes "Update handle P f d = (Inr n, d')" and "\<And>r. tenant_of m (f r) = tenant_of m r"
  shows "foreign d' = foreign d"
proof -
  let ?g = "\<lambda>r. if P r \<and> tenant_of m r = tid then f r else r"
  have "foreign d' = filter_mset (\<lambda>r. tenant_of m r \<noteq> tid) (image_mset ?g (mset (rows d)))"
    using update_law [OF assms(1) [unfolded handle_ops]] by (simp add: foreign_def)
  also have "\<dots> = image_mset ?g (filter_mset (\<lambda>r. tenant_of m (?g r) \<noteq> tid) (mset (rows d)))"
    by (rule filter_mset_image_mset)
  also have "(\<lambda>r. tenant_of m (?g r) \<noteq> tid) = (\<lambda>r. tenant_of m r \<noteq> tid)"
    by (rule ext) (simp add: assms(2))
  also have "image_mset ?g (filter_mset (\<lambda>r. tenant_of m r \<noteq> tid) (mset (rows d))) = foreign d"
    unfolding foreign_def by (rule multiset.map_cong [THEN trans, OF refl _ multiset.map_ident]) simp
  finally show ?thesis .
qed

text \<open>An update that assigns the tenant column moves rows of the tenant; it touches no other.\<close>

lemma update_keeps_foreign:
  assumes "Update handle P f d = (Inr n, d')"
  shows "foreign d \<subseteq># foreign d'"
proof -
  let ?g = "\<lambda>r. if P r \<and> tenant_of m r = tid then f r else r"
  have e: "mset (rows d') = image_mset ?g (mset (rows d))"
    using update_law [OF assms(1) [unfolded handle_ops]] by simp
  have "image_mset ?g (foreign d) = foreign d"
    unfolding foreign_def by (rule multiset.map_cong [THEN trans, OF refl _ multiset.map_ident]) simp
  moreover have "image_mset ?g (foreign d) \<subseteq># image_mset ?g (mset (rows d))"
    unfolding foreign_def by (rule image_mset_subseteq_mono) (rule multiset_filter_subset)
  ultimately have "foreign d \<subseteq># mset (rows d')" by (simp add: e)
  then have "filter_mset (\<lambda>r. tenant_of m r \<noteq> tid) (foreign d) \<subseteq># foreign d'"
    unfolding foreign_def by (rule multiset_filter_mono)
  moreover have "filter_mset (\<lambda>r. tenant_of m r \<noteq> tid) (foreign d) = foreign d"
    unfolding foreign_def by (simp add: filter_filter_mset)
  ultimately show ?thesis by simp
qed

end

subsection \<open>Sequences of operations\<close>

text \<open>The writes that succeed through a handle, with updates that satisfy \<open>ok\<close>.\<close>

inductive tenant_step :: "('r, 'd) table_ops \<Rightarrow> (('r \<Rightarrow> 'r) \<Rightarrow> bool) \<Rightarrow> 'd \<Rightarrow> 'd \<Rightarrow> bool" for h ok where
  create: "Create h rs d = (None, d') \<Longrightarrow> tenant_step h ok d d'"
| update: "Update h P f d = (Inr n, d') \<Longrightarrow> ok f \<Longrightarrow> tenant_step h ok d d'"
| delete: "Delete h P d = (None, d') \<Longrightarrow> tenant_step h ok d d'"

context tenant_table
begin

lemma run_keeps_foreign: "(tenant_step handle ok)\<^sup>*\<^sup>* d d' \<Longrightarrow> foreign d \<subseteq># foreign d'"
proof (induction rule: rtranclp_induct)
  case (step y z)
  from step(2) have "foreign y \<subseteq># foreign z"
    by (cases rule: tenant_step.cases) (auto dest: create_foreign delete_foreign update_keeps_foreign)
  with step(3) show ?case by (rule subset_mset.order_trans)
qed simp

lemma run_foreign:
  assumes "\<And>f r. ok f \<Longrightarrow> tenant_of m (f r) = tenant_of m r"
  shows "(tenant_step handle ok)\<^sup>*\<^sup>* d d' \<Longrightarrow> foreign d' = foreign d"
proof (induction rule: rtranclp_induct)
  case (step y z)
  from step(2) have "foreign z = foreign y"
    by (cases rule: tenant_step.cases) (auto dest: create_foreign delete_foreign intro: update_foreign assms)
  with step(3) show ?case by simp
qed simp

end

subsection \<open>The grant tables of a request\<close>

text \<open>
  The structs of the models by reflection: an embedded \<open>TenantModel\<close>, itself an embedded
  \<open>BaseModel\<close> and the field \<open>TenantID\<close>, then the fields of the model. The walk assigns no
  field but \<open>TenantID\<close>, so this is the one a row is written back from.
\<close>

definition TenantModel :: "string \<Rightarrow> rfield" where
  "TenantModel t = RField ''TenantModel'' True True
     (RStruct [RField ''BaseModel'' True True
                 (RStruct [RField ''ID'' False True ROther, RField ''CreatedAt'' False True ROther,
                           RField ''UpdatedAt'' False True ROther, RField ''DeletedAt'' False True (RStruct [])]),
               RField ''TenantID'' False True (RString t)])"

definition read_tenant :: "rvalue \<Rightarrow> string \<Rightarrow> string" where
  "read_tenant v t = (case tenant_fields v of [] \<Rightarrow> t | t' # _ \<Rightarrow> t')"

definition rp_model :: "RolePermission tmodel" where
  "rp_model = \<lparr>has_column = True, tenant_of = rp_TenantID,
     reflect = (\<lambda>r. RStruct [TenantModel (rp_TenantID r), RField ''RoleKey'' False True (RString (rp_RoleKey r)),
       RField ''Type'' False True (RString (rp_Type r)), RField ''Data'' False True (RString (rp_Data r))]),
     write_back = (\<lambda>r v. r\<lparr>rp_TenantID := read_tenant v (rp_TenantID r)\<rparr>)\<rparr>"

definition role_model :: "Role tmodel" where
  "role_model = \<lparr>has_column = True, tenant_of = r_TenantID,
     reflect = (\<lambda>r. RStruct [TenantModel (r_TenantID r), RField ''Key'' False True (RString (r_Key r)),
       RField ''Name'' False True (RString (r_Name r)), RField ''Status'' False True (RString (r_Status r)),
       RField ''Builtin'' False True ROther, RField ''IsSuper'' False True ROther]),
     write_back = (\<lambda>r v. r\<lparr>r_TenantID := read_tenant v (r_TenantID r)\<rparr>)\<rparr>"

definition user_model :: "User tmodel" where
  "user_model = \<lparr>has_column = True, tenant_of = u_TenantID,
     reflect = (\<lambda>r. RStruct [TenantModel (u_TenantID r), RField ''UID'' False True (RString (u_UID r)),
       RField ''Username'' False True (RString (u_Username r)), RField ''RoleKey'' False True (RString (u_RoleKey r)),
       RField ''Status'' False True (RString (u_Status r)), RField ''DeptID'' False True ROther,
       RField ''Password'' False True (RString (u_Password r)), RField ''Email'' False True (RString (u_Email r)),
       RField ''Avatar'' False True (RString (u_Avatar r)), RField ''Gender'' False True (RString (u_Gender r)),
       RField ''Description'' False True (RString (u_Description r))]),
     write_back = (\<lambda>r v. r\<lparr>u_TenantID := read_tenant v (u_TenantID r)\<rparr>)\<rparr>"

lemma read_tenant_field: "tenant_fields v \<noteq> [] \<Longrightarrow> read_tenant v t \<in> set (tenant_fields v)"
  by (cases "tenant_fields v") (simp_all add: read_tenant_def)

lemma models_tenant [simp]: "tenant_model rp_model" "tenant_model role_model" "tenant_model user_model"
  by (simp_all add: tenant_model_def rp_model_def role_model_def user_model_def TenantModel_def read_tenant_field)

lemma tenant_of_models: "tenant_of rp_model = rp_TenantID" "tenant_of role_model = r_TenantID" "tenant_of user_model = u_TenantID"
  by (simp_all add: rp_model_def role_model_def user_model_def)

lemma forced_rp:
  "forced rp_model tid r = r\<lparr>rp_TenantID := tid\<rparr>"
  by (simp add: forced_def rp_model_def TenantModel_def read_tenant_def)

definition scope_tables :: "Resolver \<Rightarrow> sctx \<Rightarrow> 'd grant_tables \<Rightarrow> 'd grant_tables" where
  "scope_tables res c T =
     T\<lparr>T_Role := installTenantScope (Some res) role_model c (T_Role T),
       T_RolePermission := installTenantScope (Some res) rp_model c (T_RolePermission T),
       T_User := installTenantScope (Some res) user_model c (T_User T)\<rparr>"

definition in_tenant :: "Resolver \<Rightarrow> sctx \<Rightarrow> string \<Rightarrow> bool" where
  "in_tenant res c tid \<longleftrightarrow> \<not> tenantBypassed c \<and> res c = tid \<and> tid \<noteq> ''''"

lemma tenant_tableI:
  assumes "gorm_table ops rows" and "in_tenant res c tid" and "tenant_model m"
  shows "tenant_table ops rows m res c tid"
  using assms by (auto simp: tenant_table_def tenant_table_axioms_def in_tenant_def)

lemma rp_tenant_table:
  "gorm_table ops rows \<Longrightarrow> in_tenant res c tid \<Longrightarrow> tenant_table ops rows rp_model res c tid"
  by (rule tenant_tableI) simp_all

lemma role_tenant_table:
  "gorm_table ops rows \<Longrightarrow> in_tenant res c tid \<Longrightarrow> tenant_table ops rows role_model res c tid"
  by (rule tenant_tableI) simp_all

lemma scoped_replace:
  assumes g: "gorm_table (T_RolePermission T) rps" and i: "in_tenant res c tid"
    and r: "ReplacePermissions (scope_tables res c T) k menus perms [tid] d = (None, d')"
  shows "filter_mset (\<lambda>r. rp_TenantID r \<noteq> tid) (mset (rps d')) = filter_mset (\<lambda>r. rp_TenantID r \<noteq> tid) (mset (rps d))"
    and "grant_set (rps d') k tid =
      (\<lambda>m. (RolePermissionTypeMenu, m)) ` set menus \<union> (\<lambda>p. (RolePermissionTypePermission, p)) ` set perms"
proof -
  let ?h = "installTenantScope (Some res) rp_model c (T_RolePermission T)"
  note t = rp_tenant_table [OF g i]
  note h = tenant_table.handle_def [OF t]
  have tid: "tid \<noteq> ''''" using i by (simp add: in_tenant_def)
  have T: "T_RolePermission (scope_tables res c T) = ?h" by (simp add: scope_tables_def)
  obtain e d1 where del: "Delete ?h (\<lambda>r. rp_RoleKey r = k) d = (e, d1)" by (rule prod.exhaust)
  then have [simp]: "e = None" using r by (cases e) (simp_all add: ReplacePermissions_def T Let_def)
  let ?rows = "map (grant_row tid k RolePermissionTypeMenu) menus @ map (grant_row tid k RolePermissionTypePermission) perms"
  have hook: "RolePermission_BeforeCreate \<circ> grant_row tid k ty = grant_row tid k ty" for ty
    by (rule ext) (simp add: before_create_row [OF tid])
  have cr: "if length menus + length perms = 0 then d' = d1 else Create ?h ?rows d1 = (None, d')"
    using r del by (auto simp: ReplacePermissions_def T Let_def hook split: if_splits)
  have f1: "tenant_table.foreign rps rp_model tid d1 = tenant_table.foreign rps rp_model tid d"
    using tenant_table.delete_foreign [OF t] del unfolding h by simp
  have "tenant_table.foreign rps rp_model tid d' = tenant_table.foreign rps rp_model tid d1"
    using cr tenant_table.create_foreign [OF t] unfolding h by (auto split: if_splits)
  with f1 show "filter_mset (\<lambda>r. rp_TenantID r \<noteq> tid) (mset (rps d')) = filter_mset (\<lambda>r. rp_TenantID r \<noteq> tid) (mset (rps d))"
    unfolding tenant_table.foreign_def [OF t] by (simp add: tenant_of_models)
  have "Delete (T_RolePermission T) (\<lambda>r. rp_RoleKey r = k \<and> rp_TenantID r = tid) d = (None, d1)"
    using del tenant_table.handle_ops(5) [OF t] unfolding h by (simp add: tenant_of_models)
  from gorm_table.delete_set [OF g this] have s1: "set (rps d1) = {r \<in> set (rps d). \<not> same_key k tid r}"
    by (auto simp: same_key_def)
  have "Create ?h ?rows d1 = Create (T_RolePermission T) ?rows d1"
    using tenant_table.handle_ops(3) [OF t] unfolding h by (simp add: forced_rp grant_row_def [abs_def] o_def)
  with cr gorm_table.create_set [OF g, of ?rows d1 d'] have "set (rps d') = set (rps d1) \<union> set ?rows"
    by (cases "length menus + length perms = 0") auto
  then have "{r \<in> set (rps d'). same_key k tid r} = set ?rows"
    using s1 by (auto simp: same_key_def grant_row_def)
  then show "grant_set (rps d') k tid =
      (\<lambda>m. (RolePermissionTypeMenu, m)) ` set menus \<union> (\<lambda>p. (RolePermissionTypePermission, p)) ` set perms"
    by (simp add: grant_set_def image_Un image_image grant_row_def)
qed

section \<open>Properties\<close>

text \<open>
  C31: Tenant isolation. Through a handle with the tenant callbacks, in a context whose
  resolver names a tenant and that is not marked as cross-tenant, over any sequence of
  successful creates, updates and deletes with any rows, conditions and assignments, every
  row of another tenant stays as it is, and what is read afterwards are exactly the rows
  of the tenant that meet the condition. Creates add rows of the tenant only, whatever
  tenant they were given; the callbacks do not keep an update from assigning the column,
  and rows come to another tenant in no other way: when no update assigns it, the rows of
  other tenants are exactly the same. (The model has the column as a field that the walk
  of \<open>setTenantID\<close> reaches, as all models that embed \<open>TenantModel\<close> do.)
\<close>

theorem tenant_isolation:
  assumes "gorm_table ops rows" and "in_tenant res c tid" and "tenant_model m"
    and "(tenant_step (installTenantScope (Some res) m c ops) ok)\<^sup>*\<^sup>* d d'"
    and "foreign = (\<lambda>d. filter_mset (\<lambda>r. tenant_of m r \<noteq> tid) (mset (rows d)))"
  shows "foreign d \<subseteq># foreign d' \<and>
    ((\<forall>f r. ok f \<longrightarrow> tenant_of m (f r) = tenant_of m r) \<longrightarrow> foreign d' = foreign d) \<and>
    (\<forall>rs d''. Create (installTenantScope (Some res) m c ops) rs d' = (None, d'') \<longrightarrow> foreign d'' = foreign d') \<and>
    (\<forall>P rs. Find (installTenantScope (Some res) m c ops) P d' = Inr rs \<longrightarrow>
      set rs = {r \<in> set (rows d'). P r \<and> tenant_of m r = tid}) \<and>
    (\<forall>P r. First (installTenantScope (Some res) m c ops) P d' = Inr r \<longrightarrow> tenant_of m r = tid)"
proof -
  have t: "tenant_table ops rows m res c tid" using assms(1-3) by (rule tenant_tableI)
  note h = tenant_table.handle_def [OF t]
  have f: "foreign = tenant_table.foreign rows m tid"
    by (rule ext) (simp add: assms(5) tenant_table.foreign_def [OF t])
  have "foreign d' = foreign d" if "\<forall>f r. ok f \<longrightarrow> tenant_of m (f r) = tenant_of m r"
    unfolding f by (rule tenant_table.run_foreign [OF t, unfolded h, OF _ assms(4)]) (use that in blast)
  moreover have "foreign d \<subseteq># foreign d'"
    unfolding f by (rule tenant_table.run_keeps_foreign [OF t, unfolded h, OF assms(4)])
  moreover note tenant_table.create_foreign [OF t, unfolded h, folded f]
    tenant_table.find_own [OF t, unfolded h] tenant_table.first_own [OF t, unfolded h]
  ultimately show ?thesis by auto
qed

text \<open>
  Replacing grants inside a tenant. Over tables with the tenant callbacks the
  replacement of a role's grants leaves every grant of every other tenant as it was, in
  all outcomes; if it succeeds the role belongs to the caller's tenant and its grants
  there are exactly the requested ones.
\<close>

theorem replace_in_tenant:
  assumes "gorm_table (T_RolePermission T) rps" and "gorm_table (T_Role T) rls"
    and "in_tenant res c tid" and "tables s = scope_tables res c T"
    and "ReplaceRolePermissions s a valid k menus apis d = (r, d')"
  shows "filter_mset (\<lambda>r. rp_TenantID r \<noteq> tid) (mset (rps d')) = filter_mset (\<lambda>r. rp_TenantID r \<noteq> tid) (mset (rps d)) \<and>
    (\<forall>res. r = Inr res \<longrightarrow>
      (\<exists>role\<in>set (rls d). r_Key role = k \<and> r_TenantID role = tid \<and> \<not> r_IsSuper role) \<and>
      grant_set (rps d') k tid =
        (\<lambda>m. (RolePermissionTypeMenu, m)) ` set menus \<union> (\<lambda>p. (RolePermissionTypePermission, p)) ` set apis)"
proof (cases "valid = None \<and> fst (Transaction s (replace_body s a k menus apis) d) = None")
  case True
  then have "Transaction s (replace_body s a k menus apis) d = (None, d')"
    using assms(5) by (auto simp: ReplaceRolePermissions_def split: prod.splits)
  from replace_body_ok [OF Transaction_ok [OF this(1)]] obtain role where
    f: "First (T_Role (tables s)) (\<lambda>r. r_Key r = k) d = Inr role" "\<not> r_IsSuper role"
    and rp: "ReplacePermissions (tables s) k menus apis [r_TenantID role] d = (None, d')" by blast
  note t = role_tenant_table [OF assms(2,3)]
  have role: "role \<in> set (rls d)" "r_Key role = k" "r_TenantID role = tid"
    using tenant_table.first_own [OF t, unfolded tenant_table.handle_def [OF t], of "\<lambda>r. r_Key r = k" d role] f(1)
    by (simp_all add: assms(4) scope_tables_def tenant_of_models)
  from scoped_replace [OF assms(1,3) rp [unfolded assms(4) role(3)]] role f(2) show ?thesis by blast
next
  case False
  then have "(\<exists>e. r = Inl e) \<and> d' = d"
    using assms(5) Transaction_error
    by (auto simp: ReplaceRolePermissions_def split: option.splits prod.splits)
  then show ?thesis by auto
qed

definition tenant_ctx :: "string \<Rightarrow> sctx" where
  "tenant_ctx t = \<lparr>metadataKey = None, authKey = Some (StructClaims (Some (sample_cl\<lparr>TenantID := t\<rparr>))),
     tenantBypassKey = False\<rparr>"

lemma tenant_ctx_in: "t \<noteq> '''' \<Longrightarrow> in_tenant FromClaimsResolver (tenant_ctx t) t"
  by (simp add: in_tenant_def tenant_ctx_def tenantBypassed_def FromClaimsResolver_def TenantIDFromContext_def
      ClaimsFromContext_def auth_FromContext_def)

theorem tenant_isolation_witness:
  "\<exists>d'. Delete (installTenantScope (Some FromClaimsResolver) rp_model (tenant_ctx ''acme'') (T_RolePermission mem_tables))
       (\<lambda>_. True) sample_rdb = (None, d') \<and>
     filter_mset (\<lambda>r. rp_TenantID r \<noteq> ''acme'') (mset (gdb_rps d')) = {#grant_row ''globex'' ''ops'' ''menu'' ''Logs''#}"
proof -
  let ?h = "installTenantScope (Some FromClaimsResolver) rp_model (tenant_ctx ''acme'') (T_RolePermission mem_tables)"
  let ?r = "Delete ?h (\<lambda>_. True) sample_rdb"
  have "fst ?r = None" by code_simp
  then have d: "?r = (None, snd ?r)" by (metis prod.collapse)
  then have "(tenant_step ?h (\<lambda>f. False))\<^sup>*\<^sup>* sample_rdb (snd ?r)" by (blast intro: tenant_step.delete)
  from tenant_isolation [OF mdb.rp.gorm_table_axioms tenant_ctx_in models_tenant(1) this refl]
  have "filter_mset (\<lambda>r. tenant_of rp_model r \<noteq> ''acme'') (mset (gdb_rps (snd ?r))) =
      filter_mset (\<lambda>r. tenant_of rp_model r \<noteq> ''acme'') (mset (gdb_rps sample_rdb))"
    by simp
  then have "filter_mset (\<lambda>r. rp_TenantID r \<noteq> ''acme'') (mset (gdb_rps (snd ?r))) =
      filter_mset (\<lambda>r. rp_TenantID r \<noteq> ''acme'') (mset (gdb_rps sample_rdb))" by (simp add: tenant_of_models)
  also have "\<dots> = {#grant_row ''globex'' ''ops'' ''menu'' ''Logs''#}" by (simp add: sample_rdb_def grant_row_sel)
  finally show ?thesis using d by blast
qed

theorem replace_in_tenant_witness:
  "\<exists>res d'. ReplaceRolePermissions (sample_svc\<lparr>tables := scope_tables FromClaimsResolver (tenant_ctx ''acme'') mem_tables\<rparr>)
       900 None ''ops'' [''Roles''] [] sample_sdb = (Inr res, d') \<and>
     grant_set (gdb_rps d') ''ops'' ''acme'' = {(''menu'', ''Roles'')} \<and>
     filter_mset (\<lambda>r. rp_TenantID r \<noteq> ''acme'') (mset (gdb_rps d')) = {#grant_row ''globex'' ''ops'' ''menu'' ''Logs''#}"
proof -
  let ?s = "sample_svc\<lparr>tables := scope_tables FromClaimsResolver (tenant_ctx ''acme'') mem_tables\<rparr>"
  let ?r = "ReplaceRolePermissions ?s 900 None ''ops'' [''Roles''] [] sample_sdb"
  have "fst ?r = Inr (''ops'', 1)" by code_simp
  then have d: "?r = (Inr (''ops'', 1), snd ?r)" by (metis prod.collapse)
  have "in_tenant FromClaimsResolver (tenant_ctx ''acme'') ''acme''" by (rule tenant_ctx_in) simp
  from replace_in_tenant [OF mdb.rp.gorm_table_axioms mdb.ro.gorm_table_axioms this _ d]
  have "filter_mset (\<lambda>r. rp_TenantID r \<noteq> ''acme'') (mset (gdb_rps (snd ?r))) =
      filter_mset (\<lambda>r. rp_TenantID r \<noteq> ''acme'') (mset (gdb_rps sample_sdb))"
    "grant_set (gdb_rps (snd ?r)) ''ops'' ''acme'' = {(''menu'', ''Roles'')}"
    by (simp_all add: type_names)
  moreover have "filter_mset (\<lambda>r. rp_TenantID r \<noteq> ''acme'') (mset (gdb_rps sample_sdb)) =
      {#grant_row ''globex'' ''ops'' ''menu'' ''Logs''#}"
    by (simp add: sample_sdb_def sample_rdb_def grant_row_sel)
  ultimately show ?thesis using d by metis
qed

end
