(* ===== verification/Endpoints.thy ===== *)
theory Endpoints
  imports Http TenantScope
begin

text \<open>
  Package \<open>admin\<close>, files \<open>options.go\<close>, \<open>responder.go\<close>, \<open>schema_endpoint.go\<close>, \<open>endpoint_allowlist.go\<close>,
  \<open>modeltypes_endpoint.go\<close> and \<open>modeltiers_endpoint.go\<close>: the options of the admin server, the envelope writer, and the
  endpoints that serve schema metadata and option lists for pickers.

  Package rest is a parameter (\<open>endpoint_env\<close>): the lookup of schema rows, whether a model has a tenant
  column, and the two queries that build option lists, whose result is kept as its encoding. Loggers and response writers of the
  application are not modelled.
\<close>

subsection \<open>Options\<close>

record AuditOptions =
  ao_Enabled :: bool
  ao_Excludes :: "string list"

record Options =
  op_DB :: bool
  op_Router :: bool
  op_EnabledOpenAPI :: bool
  op_MultiTenant :: bool
  op_AutoMigrate :: bool
  op_TenantResolver :: "Resolver option"
  op_Audit :: AuditOptions
  op_UserResolve :: "(sctx \<Rightarrow> goerror + string) option"
  op_VueOutputDir :: string

definition newOptions :: "(Options \<Rightarrow> Options) list \<Rightarrow> Options" where
  "newOptions opts =
     (let o0 = \<lparr>op_DB = False, op_Router = False, op_EnabledOpenAPI = False, op_MultiTenant = False, op_AutoMigrate = True, op_TenantResolver = None,
            op_Audit = \<lparr>ao_Enabled = False, ao_Excludes = []\<rparr>, op_UserResolve = None, op_VueOutputDir = ''''\<rparr>;
          o1 = foldl (\<lambda>o' f. f o') o0 opts;
          o2 = (if op_MultiTenant o1 \<and> op_TenantResolver o1 = None then o1\<lparr>op_TenantResolver := Some FromClaimsResolver\<rparr> else o1)
      in if op_UserResolve o2 = None then o2\<lparr>op_UserResolve := Some (\<lambda>c. Inr (FromClaimsUserResolve c))\<rparr> else o2)"

definition WithOpenAPI :: "bool \<Rightarrow> Options \<Rightarrow> Options" where "WithOpenAPI b o' = o'\<lparr>op_EnabledOpenAPI := b\<rparr>"
definition WithDB :: "bool \<Rightarrow> Options \<Rightarrow> Options" where "WithDB b o' = o'\<lparr>op_DB := b\<rparr>"
definition WithAutoMigrate :: "bool \<Rightarrow> Options \<Rightarrow> Options" where "WithAutoMigrate b o' = o'\<lparr>op_AutoMigrate := b\<rparr>"
definition WithTenantResolver :: "Resolver option \<Rightarrow> Options \<Rightarrow> Options" where
  "WithTenantResolver r o' = o'\<lparr>op_TenantResolver := r, op_MultiTenant := True\<rparr>"
definition WithMultiTenant :: "bool \<Rightarrow> Options \<Rightarrow> Options" where "WithMultiTenant b o' = o'\<lparr>op_MultiTenant := b\<rparr>"
definition WithRouter :: "bool \<Rightarrow> Options \<Rightarrow> Options" where "WithRouter b o' = o'\<lparr>op_Router := b\<rparr>"
definition WithVueOutputDir :: "string \<Rightarrow> Options \<Rightarrow> Options" where "WithVueOutputDir d o' = o'\<lparr>op_VueOutputDir := d\<rparr>"
definition WithAudit :: "bool \<Rightarrow> Options \<Rightarrow> Options" where
  "WithAudit b o' = o'\<lparr>op_Audit := (op_Audit o')\<lparr>ao_Enabled := b\<rparr>\<rparr>"
definition WithAuditExcludes :: "string list \<Rightarrow> Options \<Rightarrow> Options" where
  "WithAuditExcludes mt o' = o'\<lparr>op_Audit := (op_Audit o')\<lparr>ao_Excludes := ao_Excludes (op_Audit o') @ mt\<rparr>\<rparr>"
definition WithUserResolve :: "(sctx \<Rightarrow> goerror + string) option \<Rightarrow> Options \<Rightarrow> Options" where
  "WithUserResolve f o' = o'\<lparr>op_UserResolve := f\<rparr>"

subsection \<open>Responder\<close>

definition writeEnvelope :: "marshal \<Rightarrow> int \<Rightarrow> string \<Rightarrow> string option \<Rightarrow> 'a http_state_scheme \<Rightarrow> 'a http_state_scheme" where
  "writeEnvelope marshal code message data s = response_Write marshal 200 (Some (newResponse code message data)) s"

text \<open>The value handed to the responder is an error or a payload.\<close>

definition respond_envelope :: "goerror + string option \<Rightarrow> Envelope" where
  "respond_envelope data =
     (case data of
        Inr payload \<Rightarrow> newResponse CodeOK '''' payload
      | Inl err \<Rightarrow>
          (let (code, message) = (case AsError err of Some e \<Rightarrow> (Code e, Message e) | None \<Rightarrow> (CodeInvalid, ''''))
           in newResponse code (if message = '''' then Error err else message) None))"

definition respond :: "marshal \<Rightarrow> goerror + string option \<Rightarrow> 'a http_state_scheme \<Rightarrow> 'a http_state_scheme" where
  "respond marshal data s =
     (let ev = respond_envelope data in writeEnvelope marshal (ev_Code ev) (ev_Message ev) (ev_Data ev) s)"

subsection \<open>Schema metadata\<close>

record column_schema =
  cs_TenantID :: string
  cs_Column :: string
  cs_Format :: string
  cs_Scenarios :: "string list"

record schema_names =
  FormatPassword :: string
  sn_Search :: string
  sn_List :: string
  sn_Detail :: string
  sn_Export :: string

record ('m, 'd) endpoint_env =
  ee_opts :: Options
  ee_names :: schema_names
  GetSchemas :: "string \<Rightarrow> string \<Rightarrow> string \<Rightarrow> 'd \<Rightarrow> goerror + column_schema list"
  ee_models :: "(string, 'm) gomap"
  ee_hasTenant :: "'m \<Rightarrow> bool"
  rest_ModelTypes :: "string \<Rightarrow> 'm \<Rightarrow> string \<Rightarrow> string \<Rightarrow> string \<Rightarrow> 'd \<Rightarrow> goerror + string"
  rest_ModelTiers :: "string \<Rightarrow> 'm \<Rightarrow> string \<Rightarrow> string \<Rightarrow> string \<Rightarrow> string \<Rightarrow> 'd \<Rightarrow> goerror + string"
  ee_encode :: "column_schema list \<Rightarrow> string"

definition TrimSlash :: "string \<Rightarrow> string" where
  "TrimSlash s = rev (dropWhile (\<lambda>c. c = CHR ''/'') (rev (dropWhile (\<lambda>c. c = CHR ''/'') s)))"

definition parseSchemaPath :: "string \<Rightarrow> (string \<times> string) option" where
  "parseSchemaPath p =
     (case SplitByte (TrimSlash p) CHR ''/'' of
        [x, module, tbl] \<Rightarrow> if x \<noteq> ''schema'' then None else if module = '''' \<or> tbl = '''' then None else Some (module, tbl)
      | _ \<Rightarrow> None)"

definition schemaTenantID :: "Options \<Rightarrow> sctx \<Rightarrow> string" where
  "schemaTenantID opts c =
     (if \<not> op_MultiTenant opts then '''' else case op_TenantResolver opts of None \<Rightarrow> '''' | Some r \<Rightarrow> r c)"

text \<open>
  The rows are filtered again in place, in the array the lookup returned: the second component is what that array holds
  afterwards.
\<close>

definition filter_in_place :: "('a \<Rightarrow> bool) \<Rightarrow> 'a list \<Rightarrow> 'a list \<times> 'a list" where
  "filter_in_place P rows = (let out = filter P rows in (out, out @ drop (length out) rows))"

definition querySchemas :: "('m, 'd) endpoint_env \<Rightarrow> string \<Rightarrow> string \<Rightarrow> string \<Rightarrow> 'd \<Rightarrow> goerror + column_schema list" where
  "querySchemas e module tbl tid d =
     (case GetSchemas e tid module tbl d of
        Inl er \<Rightarrow> Inl er
      | Inr rows \<Rightarrow> Inr (fst (filter_in_place (\<lambda>r. cs_TenantID r = tid) rows)))"

definition schema_handler :: "('m, 'd) endpoint_env \<Rightarrow> string \<Rightarrow> sctx \<Rightarrow> 'd \<Rightarrow> Envelope" where
  "schema_handler e path c d =
     (case parseSchemaPath path of
        None \<Rightarrow> newResponse CodeInvalid ''module and table required'' None
      | Some (module, tbl) \<Rightarrow>
          (case querySchemas e module tbl (schemaTenantID (ee_opts e) c) d of
             Inl er \<Rightarrow> newResponse CodeInvalid (Error er) None
           | Inr [] \<Rightarrow> newResponse CodeNotFound (''schema not found for module='' @ module @ '', table='' @ tbl) None
           | Inr its \<Rightarrow> newResponse CodeOK '''' (Some (ee_encode e its))))"

subsection \<open>Selectable columns\<close>

definition readScenarios :: "schema_names \<Rightarrow> string list" where
  "readScenarios k = [sn_Search k, sn_List k, sn_Detail k, ''view'', sn_Export k]"

fun selectable_loop :: "schema_names \<Rightarrow> column_schema list \<Rightarrow> string list \<Rightarrow> string list" where
  "selectable_loop k [] out = out"
| "selectable_loop k (row # rows) out =
     (if cs_Column row = '''' \<or> cs_Format row = FormatPassword k then selectable_loop k rows out
      else if list_ex (\<lambda>sc. sc \<in> set (cs_Scenarios row)) (readScenarios k) then selectable_loop k rows (List.insert (cs_Column row) out)
      else selectable_loop k rows out)"

definition selectableColumnsDB :: "('m, 'd) endpoint_env \<Rightarrow> nat \<Rightarrow> string \<Rightarrow> string \<Rightarrow> string \<Rightarrow> 'd \<Rightarrow> goerror + string list" where
  "selectableColumnsDB e a module tbl tid d =
     (case querySchemas e module tbl tid d of
        Inl er \<Rightarrow> Inl (FmtWrap a (''load sys_schemas for '' @ module @ ''/'' @ tbl @ '': '' @ Error er) [er])
      | Inr [] \<Rightarrow> Inl (ErrString a (''no schema metadata for '' @ module @ ''/'' @ tbl))
      | Inr rows \<Rightarrow> Inr (selectable_loop (ee_names e) rows []))"

fun require_loop :: "(string \<Rightarrow> string) \<Rightarrow> nat \<Rightarrow> string \<Rightarrow> string list \<Rightarrow> string list \<Rightarrow> goerror option" where
  "require_loop quote a mt allowed [] = None"
| "require_loop quote a mt allowed (c # cs) =
     (if c \<notin> set allowed then Some (ErrString a (''column '' @ quote c @ '' is not selectable for '' @ mt)) else require_loop quote a mt allowed cs)"

definition requireSelectableColumns ::
    "('m, 'd) endpoint_env \<Rightarrow> (string \<Rightarrow> string) \<Rightarrow> nat \<Rightarrow> string \<Rightarrow> string \<Rightarrow> string \<Rightarrow> string list \<Rightarrow> 'd \<Rightarrow> goerror option" where
  "requireSelectableColumns e quote a module tbl tid cols d =
     (case selectableColumnsDB e a module tbl tid d of
        Inl er \<Rightarrow> Some er
      | Inr allowed \<Rightarrow> require_loop quote a (module @ ''/'' @ tbl) allowed cols)"

subsection \<open>Option lists\<close>

definition parseModuleTablePath :: "string \<Rightarrow> string \<Rightarrow> (string \<times> string) option" where
  "parseModuleTablePath p wantSegment =
     (case SplitByte (TrimSlash p) CHR ''/'' of
        [x, y, module, tbl] \<Rightarrow>
          if x \<noteq> ''rest'' \<or> y \<noteq> wantSegment then None else if module = '''' \<or> tbl = '''' then None else Some (module, tbl)
      | _ \<Rightarrow> None)"

definition valueTypes :: "string list" where
  "valueTypes = [''string'', ''int'', ''int64'', ''uint'', ''uint64'']"

definition unsupported_type :: "(string \<Rightarrow> string) \<Rightarrow> string \<Rightarrow> string" where
  "unsupported_type quote vt = ''unsupported valueType '' @ quote vt @ '' (allowed: string, int, int64, uint, uint64)''"

text \<open>\<open>q\<close> is \<open>Query().Get\<close> of the request.\<close>

definition parseModelTypeQuery :: "(string \<Rightarrow> string) \<Rightarrow> (string \<Rightarrow> string) \<Rightarrow> string + string \<times> string \<times> string" where
  "parseModelTypeQuery quote q =
     (let label = TrimSpace (q ''label''); val = TrimSpace (q ''value'') in
      if label = '''' then Inl ''query ?label is required''
      else if val = '''' then Inl ''query ?value is required''
      else (let vt0 = TrimSpace (q ''valueType''); vt = (if vt0 = '''' then ''string'' else vt0) in
            if vt \<in> set valueTypes then Inr (label, val, vt) else Inl (unsupported_type quote vt)))"

definition parseModelTierQuery :: "(string \<Rightarrow> string) \<Rightarrow> (string \<Rightarrow> string) \<Rightarrow> string + string \<times> string \<times> string \<times> string" where
  "parseModelTierQuery quote q =
     (let parent = TrimSpace (q ''parent''); label = TrimSpace (q ''label''); val = TrimSpace (q ''value'') in
      if parent = '''' then Inl ''query ?parent is required''
      else if label = '''' then Inl ''query ?label is required''
      else if val = '''' then Inl ''query ?value is required''
      else (let vt0 = TrimSpace (q ''valueType''); vt = (if vt0 = '''' then ''string'' else vt0) in
            if vt \<in> set valueTypes then Inr (parent, label, val, vt) else Inl (unsupported_type quote vt)))"

definition queryModelTypes :: "('m, 'd) endpoint_env \<Rightarrow> (string \<Rightarrow> string) \<Rightarrow> nat \<Rightarrow> 'm \<Rightarrow> string \<Rightarrow> string \<Rightarrow> string \<Rightarrow> string \<Rightarrow> 'd \<Rightarrow> goerror + string" where
  "queryModelTypes e quote a m tenant label val vt d =
     (if vt \<in> set valueTypes then rest_ModelTypes e vt m tenant label val d
      else Inl (ErrString a (''unsupported valueType '' @ quote vt)))"

definition queryModelTiers :: "('m, 'd) endpoint_env \<Rightarrow> (string \<Rightarrow> string) \<Rightarrow> nat \<Rightarrow> 'm \<Rightarrow> string \<Rightarrow> string \<Rightarrow> string \<Rightarrow> string \<Rightarrow> string \<Rightarrow> 'd \<Rightarrow> goerror + string" where
  "queryModelTiers e quote a m tenant parent label val vt d =
     (if vt \<in> set valueTypes then rest_ModelTiers e vt m tenant parent label val d
      else Inl (ErrString a (''unsupported valueType '' @ quote vt)))"

definition lookupModel :: "('m, 'd) endpoint_env \<Rightarrow> string \<Rightarrow> string \<Rightarrow> 'm option" where
  "lookupModel e module tbl = map_of (ee_models e) (module @ ''/'' @ tbl)"

definition model_types_handler :: "('m, 'd) endpoint_env \<Rightarrow> (string \<Rightarrow> string) \<Rightarrow> nat \<Rightarrow> string \<Rightarrow> (string \<Rightarrow> string) \<Rightarrow> sctx \<Rightarrow> 'd \<Rightarrow> Envelope" where
  "model_types_handler e quote a path q c d =
     (case parseModuleTablePath path ''model-types'' of
        None \<Rightarrow> newResponse CodeInvalid ''module and table required'' None
      | Some (module, tbl) \<Rightarrow>
          (case parseModelTypeQuery quote q of
             Inl msg \<Rightarrow> newResponse CodeInvalid msg None
           | Inr (label, val, vt) \<Rightarrow>
               (case lookupModel e module tbl of
                  None \<Rightarrow> newResponse CodeNotFound (''model not registered for module='' @ module @ '', table='' @ tbl) None
                | Some m \<Rightarrow>
                    (let schemaTenant = schemaTenantID (ee_opts e) c in
                     case requireSelectableColumns e quote a module tbl schemaTenant [label, val] d of
                       Some er \<Rightarrow> newResponse CodeInvalid (Error er) None
                     | None \<Rightarrow>
                         (case queryModelTypes e quote a m (if ee_hasTenant e m then schemaTenant else '''') label val vt d of
                            Inl er \<Rightarrow> newResponse CodeInvalid (Error er) None
                          | Inr its \<Rightarrow> newResponse CodeOK '''' (Some its))))))"

definition model_tiers_handler :: "('m, 'd) endpoint_env \<Rightarrow> (string \<Rightarrow> string) \<Rightarrow> nat \<Rightarrow> string \<Rightarrow> (string \<Rightarrow> string) \<Rightarrow> sctx \<Rightarrow> 'd \<Rightarrow> Envelope" where
  "model_tiers_handler e quote a path q c d =
     (case parseModuleTablePath path ''model-tiers'' of
        None \<Rightarrow> newResponse CodeInvalid ''module and table required'' None
      | Some (module, tbl) \<Rightarrow>
          (case parseModelTierQuery quote q of
             Inl msg \<Rightarrow> newResponse CodeInvalid msg None
           | Inr (parent, label, val, vt) \<Rightarrow>
               (case lookupModel e module tbl of
                  None \<Rightarrow> newResponse CodeNotFound (''model not registered for module='' @ module @ '', table='' @ tbl) None
                | Some m \<Rightarrow>
                    (let schemaTenant = schemaTenantID (ee_opts e) c in
                     case requireSelectableColumns e quote a module tbl schemaTenant [parent, label, val] d of
                       Some er \<Rightarrow> newResponse CodeInvalid (Error er) None
                     | None \<Rightarrow>
                         (case queryModelTiers e quote a m (if ee_hasTenant e m then schemaTenant else '''') parent label val vt d of
                            Inl er \<Rightarrow> newResponse CodeInvalid (Error er) None
                          | Inr its \<Rightarrow> newResponse CodeOK '''' (Some its))))))"

subsection \<open>Facts\<close>

text \<open>A column the pickers may read: a schema row of the tenant lists it for some reading, and it is no password.\<close>

definition selectable :: "('m, 'd) endpoint_env \<Rightarrow> string \<Rightarrow> string \<Rightarrow> string \<Rightarrow> 'd \<Rightarrow> string \<Rightarrow> bool" where
  "selectable e module tbl tid d col \<longleftrightarrow>
     (\<exists>rows. GetSchemas e tid module tbl d = Inr rows \<and>
       (\<exists>row\<in>set rows. cs_TenantID row = tid \<and> cs_Column row = col \<and> col \<noteq> '''' \<and> cs_Format row \<noteq> FormatPassword (ee_names e) \<and>
          set (readScenarios (ee_names e)) \<inter> set (cs_Scenarios row) \<noteq> {}))"

lemma selectable_loop_set:
  "set (selectable_loop k rows out) = set out \<union>
     {cs_Column r | r. r \<in> set rows \<and> cs_Column r \<noteq> '''' \<and> cs_Format r \<noteq> FormatPassword k \<and> set (readScenarios k) \<inter> set (cs_Scenarios r) \<noteq> {}}"
  by (induction k rows out rule: selectable_loop.induct) (auto simp: list_ex_iff)

lemma require_loop_None: "require_loop quote a mt allowed cs = None \<longleftrightarrow> set cs \<subseteq> set allowed"
  by (induction quote a mt allowed cs rule: require_loop.induct) auto

lemma requireSelectable_iff:
  "requireSelectableColumns e quote a module tbl tid cols d = None \<longleftrightarrow>
     (\<exists>rows. GetSchemas e tid module tbl d = Inr rows \<and> (\<exists>r\<in>set rows. cs_TenantID r = tid)) \<and> (\<forall>c\<in>set cols. selectable e module tbl tid d c)"
proof (cases "GetSchemas e tid module tbl d")
  case (Inl er)
  then show ?thesis by (simp add: requireSelectableColumns_def selectableColumnsDB_def querySchemas_def)
next
  case (Inr rows)
  have q: "querySchemas e module tbl tid d = Inr (filter (\<lambda>r. cs_TenantID r = tid) rows)"
    using Inr by (simp add: querySchemas_def filter_in_place_def Let_def)
  show ?thesis
  proof (cases "filter (\<lambda>r. cs_TenantID r = tid) rows")
    case Nil
    then show ?thesis using q Inr by (auto simp: requireSelectableColumns_def selectableColumnsDB_def filter_empty_conv)
  next
    case (Cons r rs)
    have "requireSelectableColumns e quote a module tbl tid cols d =
        require_loop quote a (module @ ''/'' @ tbl) (selectable_loop (ee_names e) (filter (\<lambda>r. cs_TenantID r = tid) rows) []) cols"
      using q Cons by (simp add: requireSelectableColumns_def selectableColumnsDB_def del: selectable_loop.simps)
    moreover have "set (selectable_loop (ee_names e) (filter (\<lambda>r. cs_TenantID r = tid) rows) []) = {c. selectable e module tbl tid d c}"
      using Inr by (auto simp: selectable_loop_set selectable_def)
    moreover have "r \<in> set (filter (\<lambda>r. cs_TenantID r = tid) rows)" unfolding Cons by simp
    then have "r \<in> set rows \<and> cs_TenantID r = tid" by simp
    ultimately show ?thesis using Inr by (auto simp: require_loop_None)
  qed
qed

lemma parse_model_path:
  assumes "module \<noteq> ''''" "tbl \<noteq> ''''" "CHR ''/'' \<notin> set module" "CHR ''/'' \<notin> set tbl" "CHR ''/'' \<notin> set seg" "seg \<noteq> ''''"
  shows "parseModuleTablePath (''/rest/'' @ seg @ ''/'' @ module @ ''/'' @ tbl) seg = Some (module, tbl)"
proof -
  let ?p = "''rest/'' @ seg @ ''/'' @ module @ ''/'' @ tbl"
  have d: "dropWhile (\<lambda>c. c = CHR ''/'') (rev ?p) = rev ?p"
    using assms(2,4) by (cases tbl rule: rev_cases) auto
  have "TrimSlash (''/rest/'' @ seg @ ''/'' @ module @ ''/'' @ tbl) = ?p"
    using d by (simp add: TrimSlash_def)
  moreover have "SplitByte ?p CHR ''/'' = [''rest'', seg, module, tbl]"
    using SplitByte_append_sep [of "CHR ''/''" "''rest''" "seg @ ''/'' @ module @ ''/'' @ tbl"]
      SplitByte_append_sep [OF assms(5), of "module @ ''/'' @ tbl"] SplitByte_append_sep [OF assms(3), of tbl] SplitByte_no_sep [OF assms(4)]
    by simp
  ultimately show ?thesis using assms by (simp add: parseModuleTablePath_def)
qed

lemma codes_not_ok: "CodeInvalid \<noteq> CodeOK" "CodeNotFound \<noteq> CodeOK"
  by (simp_all add: code_defs)

lemma ev_Code_new [simp]: "ev_Code (newResponse c m d) = c" "ev_Data (newResponse c m d) = d"
  by (simp_all add: newResponse_def)

lemma types_ok:
  assumes "ev_Code (model_types_handler e quote a path q c d) = CodeOK" and cols: "cols = [TrimSpace (q ''label''), TrimSpace (q ''value'')]"
  shows "\<exists>module tbl m its vt tenant. lookupModel e module tbl = Some m \<and> ev_Data (model_types_handler e quote a path q c d) = Some its \<and>
    (\<forall>col\<in>set cols. selectable e module tbl (schemaTenantID (ee_opts e) c) d col) \<and>
    tenant = (if ee_hasTenant e m then schemaTenantID (ee_opts e) c else '''') \<and> rest_ModelTypes e vt m tenant (cols ! 0) (cols ! 1) d = Inr its"
proof -
  note h = model_types_handler_def
  obtain module tbl where p: "parseModuleTablePath path ''model-types'' = Some (module, tbl)"
    using assms(1) codes_not_ok unfolding h by (fastforce split: option.splits)
  obtain vt where v: "parseModelTypeQuery quote q = Inr (cols ! 0, cols ! 1, vt)" "vt \<in> set valueTypes"
    using assms(1) codes_not_ok p unfolding h by (auto simp: cols parseModelTypeQuery_def Let_def split: if_splits)
  obtain m where m: "lookupModel e module tbl = Some m"
    using assms(1) codes_not_ok p v unfolding h by (fastforce split: option.splits)
  have r: "requireSelectableColumns e quote a module tbl (schemaTenantID (ee_opts e) c) cols d = None"
    using assms(1) codes_not_ok p v m unfolding h by (auto simp: cols Let_def split: option.splits)
  define tenant where "tenant = (if ee_hasTenant e m then schemaTenantID (ee_opts e) c else '''')"
  obtain its where "rest_ModelTypes e vt m tenant (cols ! 0) (cols ! 1) d = Inr its" "ev_Data (model_types_handler e quote a path q c d) = Some its"
    using assms(1) codes_not_ok p v m r unfolding h by (auto simp: cols Let_def queryModelTypes_def tenant_def [symmetric] split: sum.splits)
  with m r show ?thesis unfolding requireSelectable_iff tenant_def by blast
qed

lemma tiers_ok:
  assumes "ev_Code (model_tiers_handler e quote a path q c d) = CodeOK" and cols: "cols = [TrimSpace (q ''parent''), TrimSpace (q ''label''), TrimSpace (q ''value'')]"
  shows "\<exists>module tbl m its vt tenant. lookupModel e module tbl = Some m \<and> ev_Data (model_tiers_handler e quote a path q c d) = Some its \<and>
    (\<forall>col\<in>set cols. selectable e module tbl (schemaTenantID (ee_opts e) c) d col) \<and>
    tenant = (if ee_hasTenant e m then schemaTenantID (ee_opts e) c else '''') \<and> rest_ModelTiers e vt m tenant (cols ! 0) (cols ! 1) (cols ! 2) d = Inr its"
proof -
  note h = model_tiers_handler_def
  obtain module tbl where p: "parseModuleTablePath path ''model-tiers'' = Some (module, tbl)"
    using assms(1) codes_not_ok unfolding h by (fastforce split: option.splits)
  obtain vt where v: "parseModelTierQuery quote q = Inr (cols ! 0, cols ! 1, cols ! 2, vt)" "vt \<in> set valueTypes"
    using assms(1) codes_not_ok p unfolding h by (auto simp: cols parseModelTierQuery_def Let_def split: if_splits)
  obtain m where m: "lookupModel e module tbl = Some m"
    using assms(1) codes_not_ok p v unfolding h by (fastforce split: option.splits)
  have r: "requireSelectableColumns e quote a module tbl (schemaTenantID (ee_opts e) c) cols d = None"
    using assms(1) codes_not_ok p v m unfolding h by (auto simp: cols Let_def split: option.splits)
  define tenant where "tenant = (if ee_hasTenant e m then schemaTenantID (ee_opts e) c else '''')"
  obtain its where "rest_ModelTiers e vt m tenant (cols ! 0) (cols ! 1) (cols ! 2) d = Inr its" "ev_Data (model_tiers_handler e quote a path q c d) = Some its"
    using assms(1) codes_not_ok p v m r unfolding h by (auto simp: cols Let_def queryModelTiers_def tenant_def [symmetric] split: sum.splits)
  with m r show ?thesis unfolding requireSelectable_iff tenant_def by blast
qed

text \<open>
  C25: The option lists never show a column that is not meant to be read. When the model-types or the model-tiers endpoint answers
  with success, the model is registered, every column it was asked for is listed for reading in the schema rows of the caller's
  tenant and is no password, and the list was read with the caller's tenant if the model has tenants.
\<close>

theorem columns_selectable:
  assumes "ev = model_types_handler e quote a path q c d \<and> cols = [TrimSpace (q ''label''), TrimSpace (q ''value'')] \<or>
      ev = model_tiers_handler e quote a path q c d \<and> cols = [TrimSpace (q ''parent''), TrimSpace (q ''label''), TrimSpace (q ''value'')]"
    and "ev_Code ev = CodeOK"
  shows "\<exists>module tbl m its vt tenant. lookupModel e module tbl = Some m \<and> ev_Data ev = Some its \<and>
    (\<forall>col\<in>set cols. selectable e module tbl (schemaTenantID (ee_opts e) c) d col) \<and>
    tenant = (if ee_hasTenant e m then schemaTenantID (ee_opts e) c else '''') \<and>
    (rest_ModelTypes e vt m tenant (cols ! 0) (cols ! 1) d = Inr its \<or> rest_ModelTiers e vt m tenant (cols ! 0) (cols ! 1) (cols ! 2) d = Inr its)"
proof -
  consider "ev = model_types_handler e quote a path q c d" "cols = [TrimSpace (q ''label''), TrimSpace (q ''value'')]"
    | "ev = model_tiers_handler e quote a path q c d" "cols = [TrimSpace (q ''parent''), TrimSpace (q ''label''), TrimSpace (q ''value'')]"
    using assms(1) by blast
  then show ?thesis
  proof cases
    case 1
    show ?thesis using types_ok [OF assms(2) [unfolded 1(1)] 1(2)] unfolding 1(1) by blast
  next
    case 2
    show ?thesis using tiers_ok [OF assms(2) [unfolded 2(1)] 2(2)] unfolding 2(1) by blast
  qed
qed

definition sample_endpoints :: "(unit, unit) endpoint_env" where
  "sample_endpoints =
     \<lparr>ee_opts = newOptions [], ee_names = \<lparr>FormatPassword = ''password'', sn_Search = ''search'', sn_List = ''list'', sn_Detail = ''detail'', sn_Export = ''export''\<rparr>,
      GetSchemas = (\<lambda>tid module tbl d. Inr [\<lparr>cs_TenantID = '''', cs_Column = ''id'', cs_Format = ''text'', cs_Scenarios = [''list'']\<rparr>,
        \<lparr>cs_TenantID = '''', cs_Column = ''password'', cs_Format = ''password'', cs_Scenarios = [''list'']\<rparr>]),
      ee_models = [(''system/sys_users'', ())], ee_hasTenant = (\<lambda>_. False),
      rest_ModelTypes = (\<lambda>vt m tid l v d. Inr (l @ ''='' @ v)), rest_ModelTiers = (\<lambda>vt m tid p l v d. Inr ''''), ee_encode = (\<lambda>_. '''')\<rparr>"

definition sample_query :: "string \<Rightarrow> string \<Rightarrow> string" where
  "sample_query v k = (if k = ''label'' then ''id'' else if k = ''value'' then v else '''')"

text \<open>Asking for the password is refused, and a column that may be read is served.\<close>

theorem columns_selectable_witness:
  "\<exists>module tbl m its. lookupModel sample_endpoints module tbl = Some m \<and> selectable sample_endpoints module tbl '''' () ''id'' \<and>
     ev_Data (model_types_handler sample_endpoints id 0 ''/rest/model-types/system/sys_users'' (sample_query ''id'') (tenant_ctx ''t'') ()) = Some its \<and>
     ev_Code (model_types_handler sample_endpoints id 0 ''/rest/model-types/system/sys_users'' (sample_query ''password'') (tenant_ctx ''t'') ()) = CodeInvalid"
proof -
  let ?h = "\<lambda>v. model_types_handler sample_endpoints id 0 ''/rest/model-types/system/sys_users'' (sample_query v) (tenant_ctx ''t'') ()"
  have ten: "schemaTenantID (ee_opts sample_endpoints) c' = ''''" for c' by (simp add: schemaTenantID_def sample_endpoints_def newOptions_def Let_def)
  have p: "parseModuleTablePath ''/rest/model-types/system/sys_users'' ''model-types'' = Some (''system'', ''sys_users'')" by code_simp
  have l: "lookupModel sample_endpoints ''system'' ''sys_users'' = Some ()" by code_simp
  have q: "parseModelTypeQuery id (sample_query ''id'') = Inr (''id'', ''id'', ''string'')"
    "parseModelTypeQuery id (sample_query ''password'') = Inr (''id'', ''password'', ''string'')" by code_simp+
  have r: "requireSelectableColumns sample_endpoints id 0 ''system'' ''sys_users'' '''' [''id'', ''id''] () = None"
    "requireSelectableColumns sample_endpoints id 0 ''system'' ''sys_users'' '''' [''id'', ''password''] () \<noteq> None" by code_simp+
  have t: "queryModelTypes sample_endpoints id 0 () '''' ''id'' ''id'' ''string'' () = Inr ''id=id''" by code_simp
  have ok: "ev_Code (?h ''id'') = CodeOK"
    unfolding model_types_handler_def p option.case prod.case q sum.case l ten Let_def r(1) by (simp add: t)
  have bad: "ev_Code (?h ''password'') = CodeInvalid"
    unfolding model_types_handler_def p option.case prod.case q sum.case l ten Let_def using r(2) by (auto split: option.splits)
  have c: "[TrimSpace (sample_query ''id'' ''label''), TrimSpace (sample_query ''id'' ''value'')] = [''id'', ''id'']" by code_simp
  from columns_selectable [OF disjI1, OF conjI, OF refl refl ok] show ?thesis unfolding c ten using bad by fastforce
qed

text \<open>
  The second filter runs in the array that the lookup returned. If that array is the one a cache keeps for all tenants, a
  request of one tenant overwrites the rows of another, and the next request of that other tenant finds less than before.
\<close>

lemma shared_rows_lost:
  "let rows = [(''a'', 1 :: nat), (''b'', 2)]; (out, rows') = filter_in_place (\<lambda>r. fst r = ''b'') rows
   in out = [(''b'', 2)] \<and> rows' = [(''b'', 2), (''b'', 2)] \<and> fst (filter_in_place (\<lambda>r. fst r = ''a'') rows') = []"
  by (simp add: filter_in_place_def Let_def)

lemma filter_in_place_array: "length (snd (filter_in_place P rows)) = length rows"
  by (simp add: filter_in_place_def Let_def)

text \<open>An error is never answered with the code of success, unless it carries that code itself.\<close>

lemma respond_error_code:
  "ev_Code (respond_envelope (Inl er)) = CodeOK \<Longrightarrow> \<exists>e. AsError er = Some e \<and> Code e = CodeOK"
  by (auto simp: respond_envelope_def codes_not_ok split: option.splits)

lemma respond_code:
  "AsError er = Some e \<Longrightarrow> ev_Code (respond_envelope (Inl er)) = Code e \<and> ev_Data (respond_envelope (Inl er)) = None"
  by (simp add: respond_envelope_def)

text \<open>With a resolver or with tenants switched on, the options always carry a resolver.\<close>

lemma tenant_resolver_set: "op_MultiTenant (newOptions opts) \<Longrightarrow> op_TenantResolver (newOptions opts) \<noteq> None"
  by (simp add: newOptions_def Let_def split: if_splits)

end
