(* ===== verification/Audits.thy ===== *)
theory Audits
  imports Endpoints "HOL-Library.Char_ord" "HOL-Library.List_Lexorder"
begin

text \<open>
  Package \<open>admin\<close>, file \<open>audit.go\<close>: the hooks that write one row of \<open>sys_audits\<close> for every successful write through the REST
  layer. What package rest passes to a hook is the scope of the request and the changed attributes; JSON encoding is a
  parameter (\<open>audit_json\<close>), and so is the table.
\<close>

subsection \<open>UTF-8\<close>

text \<open>\<open>utf8.ValidString\<close> on the bytes of a string.\<close>

definition cont_byte :: "nat \<Rightarrow> bool" where
  "cont_byte b \<longleftrightarrow> 128 \<le> b \<and> b \<le> 191"

text \<open>How many bytes the first character has; 0 if they are no character.\<close>

definition rune_len :: "nat list \<Rightarrow> nat" where
  "rune_len bs =
     (case bs of
        [] \<Rightarrow> 0
      | b # r \<Rightarrow>
          if b < 128 then 1
          else if 194 \<le> b \<and> b \<le> 223 then (case r of c # _ \<Rightarrow> if cont_byte c then 2 else 0 | _ \<Rightarrow> 0)
          else if 224 \<le> b \<and> b \<le> 239 then
            (case r of c1 # c2 # _ \<Rightarrow>
               if (if b = 224 then 160 \<le> c1 \<and> c1 \<le> 191 else if b = 237 then 128 \<le> c1 \<and> c1 \<le> 159 else cont_byte c1) \<and> cont_byte c2 then 3 else 0
             | _ \<Rightarrow> 0)
          else if 240 \<le> b \<and> b \<le> 244 then
            (case r of c1 # c2 # c3 # _ \<Rightarrow>
               if (if b = 240 then 144 \<le> c1 \<and> c1 \<le> 191 else if b = 244 then 128 \<le> c1 \<and> c1 \<le> 143 else cont_byte c1) \<and> cont_byte c2 \<and> cont_byte c3
               then 4 else 0
             | _ \<Rightarrow> 0)
          else 0)"

fun valid_bytes :: "nat list \<Rightarrow> bool" where
  "valid_bytes [] = True"
| "valid_bytes (b # bs) = (let n = rune_len (b # bs) in 0 < n \<and> valid_bytes (drop (n - 1) bs))"

definition ValidString :: "string \<Rightarrow> bool" where
  "ValidString s = valid_bytes (map of_char s)"

fun cut_loop :: "string \<Rightarrow> string" where
  "cut_loop s = (if s \<noteq> [] \<and> \<not> ValidString s then cut_loop (butlast s) else s)"

declare cut_loop.simps [simp del]

definition truncateUTF8 :: "string \<Rightarrow> nat \<Rightarrow> string" where
  "truncateUTF8 s mx = (if length s \<le> mx then s else cut_loop (take mx s))"

subsection \<open>The recorder\<close>

record Audit =
  au_TenantID :: string
  au_UID :: string
  au_Action :: string
  au_Module :: string
  au_Table :: string
  au_Data :: string

record RuntimeScope =
  sp_TenantID :: string
  sp_User :: string
  sp_ModuleName :: string
  sp_TableName :: string

text \<open>\<open>'f\<close> are the changed attributes, \<open>'m\<close> models and \<open>'v\<close> JSON values.\<close>

record ('f, 'm, 'v) audit_json =
  aj_diff :: "'f list \<Rightarrow> goerror + string"
  aj_model :: "'m \<Rightarrow> goerror + string"
  aj_object :: "string \<Rightarrow> (string, 'v) gomap option"
  aj_id :: "'v option \<Rightarrow> goerror + string"

definition deletePrimaryKey :: "('f, 'm, 'v) audit_json \<Rightarrow> 'm option \<Rightarrow> 'v option" where
  "deletePrimaryKey j mo =
     (case mo of
        None \<Rightarrow> None
      | Some m \<Rightarrow> (case aj_model j m of
          Inl er \<Rightarrow> None
        | Inr b \<Rightarrow> (case aj_object j b of None \<Rightarrow> None | Some obj \<Rightarrow> map_of obj ''id'')))"

definition auditActionCreate :: string where "auditActionCreate = ''create''"
definition auditActionUpdate :: string where "auditActionUpdate = ''update''"
definition auditActionDelete :: string where "auditActionDelete = ''delete''"
definition auditDataMaxBytes :: nat where "auditDataMaxBytes = 10240"
definition auditUIDMaxBytes :: nat where "auditUIDMaxBytes = 20"
definition auditNameMaxBytes :: nat where "auditNameMaxBytes = 60"
definition auditTenantMaxBytes :: nat where "auditTenantMaxBytes = 60"

lemmas audit_consts = auditActionCreate_def auditActionUpdate_def auditActionDelete_def auditDataMaxBytes_def auditUIDMaxBytes_def
  auditNameMaxBytes_def auditTenantMaxBytes_def

definition auditData :: "('f, 'm, 'v) audit_json \<Rightarrow> string \<Rightarrow> 'f list \<Rightarrow> 'm option \<Rightarrow> string" where
  "auditData j action diff deleted =
     (case (if action = auditActionDelete then aj_id j (deletePrimaryKey j deleted) else aj_diff j diff) of
        Inl er \<Rightarrow> ''''
      | Inr b \<Rightarrow> truncateUTF8 b auditDataMaxBytes)"

definition shouldRecord :: "string list \<Rightarrow> RuntimeScope option \<Rightarrow> string \<Rightarrow> 'f list \<Rightarrow> bool" where
  "shouldRecord excludes scope action diff =
     (case scope of
        None \<Rightarrow> False
      | Some sp \<Rightarrow>
          if sp_ModuleName sp = '''' \<or> sp_TableName sp = '''' then False
          else if sp_ModuleName sp @ ''/'' @ sp_TableName sp \<in> set excludes then False
          else if action = auditActionUpdate \<and> length diff = 0 then False
          else True)"

definition audit_row :: "('f, 'm, 'v) audit_json \<Rightarrow> RuntimeScope \<Rightarrow> string \<Rightarrow> 'f list \<Rightarrow> 'm option \<Rightarrow> Audit" where
  "audit_row j sp action diff deleted =
     \<lparr>au_TenantID = truncateUTF8 (sp_TenantID sp) auditTenantMaxBytes, au_UID = truncateUTF8 (sp_User sp) auditUIDMaxBytes, au_Action = action,
      au_Module = truncateUTF8 (sp_ModuleName sp) auditNameMaxBytes, au_Table = truncateUTF8 (sp_TableName sp) auditNameMaxBytes,
      au_Data = auditData j action diff deleted\<rparr>"

record ('f, 'm, 'v, 'd) auditRecorder =
  ar_db :: "(Audit, 'd) table_ops"
  ar_excludes :: "string list"
  ar_json :: "('f, 'm, 'v) audit_json"

text \<open>A failed insert is only logged.\<close>

definition audit_record :: "('f, 'm, 'v, 'd) auditRecorder \<Rightarrow> RuntimeScope option \<Rightarrow> string \<Rightarrow> 'f list \<Rightarrow> 'm option \<Rightarrow> 'd \<Rightarrow> 'd" where
  "audit_record r scope action diff deleted d =
     (if \<not> shouldRecord (ar_excludes r) scope action diff then d
      else snd (Create (ar_db r) [audit_row (ar_json r) (the scope) action diff deleted] d))"

definition afterCreate :: "('f, 'm, 'v, 'd) auditRecorder \<Rightarrow> RuntimeScope option \<Rightarrow> 'f list \<Rightarrow> 'd \<Rightarrow> 'd" where
  "afterCreate r scope diff = audit_record r scope auditActionCreate diff None"

definition afterUpdate :: "('f, 'm, 'v, 'd) auditRecorder \<Rightarrow> RuntimeScope option \<Rightarrow> 'f list \<Rightarrow> 'd \<Rightarrow> 'd" where
  "afterUpdate r scope diff = audit_record r scope auditActionUpdate diff None"

definition afterDelete :: "('f, 'm, 'v, 'd) auditRecorder \<Rightarrow> RuntimeScope option \<Rightarrow> 'm option \<Rightarrow> 'd \<Rightarrow> 'd" where
  "afterDelete r scope m = audit_record r scope auditActionDelete [] m"

definition audit_excludes :: "Options \<Rightarrow> string list" where
  "audit_excludes opts = foldl (\<lambda>m x. List.insert x m) [''system/sys_audits'', ''system/sys_login_logs''] (ao_Excludes (op_Audit opts))"

text \<open>The keys in sorted order, for the log line.\<close>

definition keysOf :: "string list \<Rightarrow> string list" where
  "keysOf m = sort m"

text \<open>The guard of \<open>installAuditHooks\<close> and the global list of hooks.\<close>

definition installAuditHooks :: "(Audit, 'd) table_ops \<Rightarrow> ('f, 'm, 'v) audit_json \<Rightarrow> Options \<Rightarrow> bool \<Rightarrow> ('f, 'm, 'v, 'd) auditRecorder list \<Rightarrow>
    bool \<times> ('f, 'm, 'v, 'd) auditRecorder list" where
  "installAuditHooks db j opts fired hooks =
     (if fired then (fired, hooks)
      else (True, hooks @ [\<lparr>ar_db = db, ar_excludes = audit_excludes opts, ar_json = j\<rparr>]))"

subsection \<open>Truncation\<close>

lemma rune_len_le: "rune_len bs \<le> length bs" "rune_len bs \<le> 4"
  by (auto simp: rune_len_def split: list.splits)

lemma rune_len_take:
  assumes "rune_len bs \<le> n" "0 < rune_len bs"
  shows "rune_len (take n bs) = rune_len bs"
proof (cases bs)
  case (Cons b r)
  then obtain n1 where n: "n = Suc n1" using assms by (cases n) auto
  note d = Cons n rune_len_def
  show ?thesis
  proof (cases r)
    case Nil
    then show ?thesis by (simp add: Cons n)
  next
    case r: (Cons c1 r1)
    consider "rune_len bs = 1" | "rune_len bs = 2" | "rune_len bs = 3" | "rune_len bs = 4"
      using assms(2) rune_len_le(2) [of bs] by linarith
    then show ?thesis
    proof cases
      case 1
      then have "b < 128" by (auto simp: Cons rune_len_def split: if_splits list.splits)
      then show ?thesis using 1 by (simp add: d)
    next
      case 2
      then obtain n2 where "n1 = Suc n2" using assms(1) n by (cases n1) auto
      then show ?thesis using 2 r by (auto simp: d split: if_splits list.splits)
    next
      case 3
      then obtain n3 where "n1 = Suc (Suc n3)" using assms(1) n by (cases n1; cases "n1 - 1") auto
      then show ?thesis using 3 r by (cases r1) (auto simp: d split: if_splits list.splits)
    next
      case 4
      then obtain n4 where "n1 = Suc (Suc (Suc n4))" using assms(1) n by (cases n1; cases "n1 - 1"; cases "n1 - 2") auto
      then show ?thesis using 4 r by (cases r1; cases "tl r1") (auto simp: d split: if_splits list.splits)
    qed
  qed
qed (use assms in \<open>simp add: rune_len_def\<close>)

lemma valid_take: "valid_bytes bs \<Longrightarrow> n \<le> length bs \<Longrightarrow> \<exists>k\<le>3. k \<le> n \<and> valid_bytes (take (n - k) bs)"
proof (induction bs arbitrary: n rule: valid_bytes.induct)
  case (2 b bs)
  define L where "L = rune_len (b # bs)"
  have L: "0 < L" "valid_bytes (drop (L - 1) bs)" using 2(2) by (simp_all add: L_def Let_def)
  have Ll: "L \<le> Suc (length bs)" "L \<le> 4" using rune_len_le [of "b # bs"] by (simp_all add: L_def)
  show ?case
  proof (cases "n < L")
    case True
    then show ?thesis using Ll by (intro exI [of _ n]) simp
  next
    case False
    then have "n - L \<le> length (drop (L - 1) bs)" using 2(3) L Ll by simp
    from 2(1) [OF L_def L(2) this]
    obtain k where k: "k \<le> 3" "k \<le> n - L" "valid_bytes (take (n - L - k) (drop (L - 1) bs))" by blast
    have nk: "n - k = Suc (n - k - 1)" "L \<le> n - k" using False k(2) L(1) by linarith+
    have "rune_len (take (n - k) (b # bs)) = L" using rune_len_take [of "b # bs" "n - k"] nk(2) L(1) by (simp add: L_def)
    then have "rune_len (b # take (n - k - 1) bs) = L" using nk(1) by (metis take_Suc_Cons)
    moreover have "drop (L - 1) (take (n - k - 1) bs) = take (n - L - k) (drop (L - 1) bs)"
      using L(1) nk(2) by (simp add: drop_take) (metis Suc_diff_1 add.commute diff_diff_left plus_1_eq_Suc)
    ultimately have "valid_bytes (b # take (n - k - 1) bs)" using L(1) k(3) by (simp add: Let_def)
    then have "valid_bytes (take (n - k) (b # bs))" using nk(1) by (metis take_Suc_Cons)
    with k show ?thesis using False by (intro exI [of _ k]) simp
  qed
qed simp

lemma cut_loop_spec:
  "prefix (cut_loop s) s \<and> ValidString (cut_loop s) \<and> (\<forall>k\<le>length s. ValidString (take k s) \<longrightarrow> k \<le> length (cut_loop s))"
proof (induction s rule: cut_loop.induct)
  case (1 s)
  show ?case
  proof (cases "s \<noteq> [] \<and> \<not> ValidString s")
    case True
    then have e: "cut_loop s = cut_loop (butlast s)" by (subst cut_loop.simps) simp
    have "k \<le> length (cut_loop s)" if "k \<le> length s" "ValidString (take k s)" for k
    proof -
      have "k \<noteq> length s" using True that by auto
      then have "take k s = take k (butlast s)" "k \<le> length (butlast s)" using that by (simp_all add: take_butlast)
      then show ?thesis using 1 [OF True] that(2) e by simp
    qed
    moreover have "prefix (butlast s) s" by (rule prefixeq_butlast)
    ultimately show ?thesis using 1 [OF True] e prefix_order.trans by metis
  next
    case False
    then have e: "cut_loop s = s" by (subst cut_loop.simps) auto
    moreover have "ValidString []" by (simp add: ValidString_def)
    ultimately show ?thesis using False by auto
  qed
qed

lemma truncate_spec:
  shows "length (truncateUTF8 s mx) \<le> mx" and "prefix (truncateUTF8 s mx) s"
    and "ValidString s \<Longrightarrow> ValidString (truncateUTF8 s mx) \<and> (truncateUTF8 s mx = s \<or> mx \<le> length (truncateUTF8 s mx) + 3)"
proof -
  note c = cut_loop_spec [of "take mx s"]
  have p: "length s > mx \<Longrightarrow> truncateUTF8 s mx = cut_loop (take mx s)" "length s \<le> mx \<Longrightarrow> truncateUTF8 s mx = s"
    by (simp_all add: truncateUTF8_def)
  show "length (truncateUTF8 s mx) \<le> mx"
    using p c prefix_length_le [of "cut_loop (take mx s)" "take mx s"] by (cases "length s \<le> mx") auto
  show "prefix (truncateUTF8 s mx) s"
    using p c take_is_prefix [of mx s] prefix_order.trans [of "cut_loop (take mx s)" "take mx s" s] by (cases "length s \<le> mx") auto
  show "ValidString (truncateUTF8 s mx) \<and> (truncateUTF8 s mx = s \<or> mx \<le> length (truncateUTF8 s mx) + 3)" if v: "ValidString s"
  proof (cases "length s \<le> mx")
    case False
    obtain k where k: "k \<le> 3" "k \<le> mx" "valid_bytes (take (mx - k) (map of_char s))"
      using valid_take [of "map of_char s" mx] v False by (auto simp: ValidString_def)
    then have "ValidString (take (mx - k) (take mx s))" by (simp add: ValidString_def take_map min_def)
    then have "mx - k \<le> length (cut_loop (take mx s))" using c False by auto
    then show ?thesis using c p False k by auto
  qed (use p v in simp)
qed

subsection \<open>The audit trail\<close>

text \<open>What package rest reports after a write, and what a sequence of reports does to the table.\<close>

datatype ('f, 'm) write_event =
    Created "RuntimeScope option" "'f list"
  | Updated "RuntimeScope option" "'f list"
  | Deleted "RuntimeScope option" "'m option"

fun run_hook :: "('f, 'm, 'v, 'd) auditRecorder \<Rightarrow> ('f, 'm) write_event \<Rightarrow> 'd \<Rightarrow> 'd" where
  "run_hook r (Created sc df) = afterCreate r sc df"
| "run_hook r (Updated sc df) = afterUpdate r sc df"
| "run_hook r (Deleted sc m) = afterDelete r sc m"

fun event_row :: "('f, 'm, 'v) audit_json \<Rightarrow> ('f, 'm) write_event \<Rightarrow> Audit" where
  "event_row j (Created sc df) = audit_row j (the sc) auditActionCreate df None"
| "event_row j (Updated sc df) = audit_row j (the sc) auditActionUpdate df None"
| "event_row j (Deleted sc m) = audit_row j (the sc) auditActionDelete [] m"

text \<open>A write through the REST layer, to a table that is not excluded, that changed something.\<close>

definition attributed :: "string list \<Rightarrow> RuntimeScope option \<Rightarrow> bool" where
  "attributed ex sc \<longleftrightarrow> (\<exists>sp. sc = Some sp \<and> sp_ModuleName sp \<noteq> '''' \<and> sp_TableName sp \<noteq> '''' \<and> sp_ModuleName sp @ ''/'' @ sp_TableName sp \<notin> set ex)"

fun auditable :: "string list \<Rightarrow> ('f, 'm) write_event \<Rightarrow> bool" where
  "auditable ex (Created sc df) = attributed ex sc"
| "auditable ex (Updated sc df) = (attributed ex sc \<and> df \<noteq> [])"
| "auditable ex (Deleted sc m) = attributed ex sc"

definition fits :: "Audit \<Rightarrow> bool" where
  "fits r \<longleftrightarrow> length (au_TenantID r) \<le> 60 \<and> length (au_UID r) \<le> 20 \<and> length (au_Module r) \<le> 60 \<and> length (au_Table r) \<le> 60 \<and>
     length (au_Data r) \<le> 10240 \<and> au_Action r \<in> {''create'', ''update'', ''delete''}"

lemma shouldRecord_iff:
  "shouldRecord ex sc action df \<longleftrightarrow> attributed ex sc \<and> (action = auditActionUpdate \<longrightarrow> df \<noteq> [])"
  by (auto simp: shouldRecord_def attributed_def split: option.splits)

lemma event_row_fits: "fits (event_row j ev)"
  using truncate_spec(1) [of _ 60] truncate_spec(1) [of _ 20] truncate_spec(1) [of _ 10240]
  by (cases ev) (auto simp: fits_def audit_row_def auditData_def audit_consts split: sum.splits)

lemma run_hook_eq:
  "run_hook r ev d = (if auditable (ar_excludes r) ev then snd (Create (ar_db r) [event_row (ar_json r) ev] d) else d)"
  by (cases ev) (auto simp: afterCreate_def afterUpdate_def afterDelete_def audit_record_def shouldRecord_iff audit_consts)

lemma excludes_set: "set (audit_excludes opts) = {''system/sys_audits'', ''system/sys_login_logs''} \<union> set (ao_Excludes (op_Audit opts))"
proof -
  have "set (foldl (\<lambda>m x. List.insert x m) acc xs) = set acc \<union> set xs" for acc xs :: "string list"
    by (induction xs arbitrary: acc) auto
  then show ?thesis by (simp add: audit_excludes_def)
qed

text \<open>
  The rows that reach the table over a sequence of writes: those of the auditable writes whose insert
  succeeds. The recorder is best effort, a row whose insert fails is dropped.
\<close>

fun landed :: "('f, 'm, 'v, 'd) auditRecorder \<Rightarrow> ('f, 'm) write_event list \<Rightarrow> 'd \<Rightarrow> Audit list" where
  "landed r [] d = []"
| "landed r (ev # evs) d =
     (if auditable (ar_excludes r) ev \<and> fst (Create (ar_db r) [event_row (ar_json r) ev] d) = None
      then [event_row (ar_json r) ev] else []) @ landed r evs (run_hook r ev d)"

lemma landed_subseq: "subseq (landed r evs d) (map (event_row (ar_json r)) (filter (auditable (ar_excludes r)) evs))"
  by (induction evs arbitrary: d) auto

lemma landed_all:
  "\<forall>row d. fst (Create (ar_db r) [row] d) = None \<Longrightarrow>
   landed r evs d = map (event_row (ar_json r)) (filter (auditable (ar_excludes r)) evs)"
  by (induction evs arbitrary: d) auto

lemma run_hook_rows:
  assumes "gorm_table (ar_db r) rows" and "\<forall>row er d d'. Create (ar_db r) [row] d = (Some er, d') \<longrightarrow> rows d' = rows d"
  shows "mset (rows (run_hook r ev d)) = mset (rows d) + mset (landed r [ev] d)"
proof (cases "auditable (ar_excludes r) ev")
  case True
  obtain res d' where c: "Create (ar_db r) [event_row (ar_json r) ev] d = (res, d')" by fastforce
  show ?thesis
  proof (cases res)
    case None
    then show ?thesis using True c gorm_table.create_law [OF assms(1), of "[event_row (ar_json r) ev]" d d']
      by (simp add: run_hook_eq)
  next
    case (Some er)
    then have "rows d' = rows d" using assms(2) c by blast
    then show ?thesis using True c Some by (simp add: run_hook_eq)
  qed
qed (simp add: run_hook_eq)

lemma run_hooks_rows:
  assumes "gorm_table (ar_db r) rows" and "\<forall>row er d d'. Create (ar_db r) [row] d = (Some er, d') \<longrightarrow> rows d' = rows d"
  shows "mset (rows (fold (run_hook r) evs d)) = mset (rows d) + mset (landed r evs d)"
  by (induction evs arbitrary: d) (simp_all add: run_hook_rows [OF assms] del: run_hook.simps)

text \<open>
  C26: The audit trail, with inserts that may fail (a failed insert changes nothing and is swallowed). Over any sequence
  of writes reported by the REST layer the audit table gains exactly the rows whose insert succeeded, in the order of the
  writes, one for each write to a table that is not excluded (updates that changed nothing aside) and none for any other
  write; when no insert fails, none of those is missing. The audit and the login table are always excluded, and every row
  fits its columns, whatever the lengths of the names and of the encoded changes.
\<close>

theorem audit_trail:
  assumes "gorm_table db rows" and "\<forall>row er d d'. Create db [row] d = (Some er, d') \<longrightarrow> rows d' = rows d"
    and "installAuditHooks db j opts False [] = (True, [r])"
    and "due = map (event_row j) (filter (auditable (audit_excludes opts)) evs)"
  shows "mset (rows (fold (run_hook r) evs d)) = mset (rows d) + mset (landed r evs d) \<and>
    subseq (landed r evs d) due \<and> ((\<forall>row d. fst (Create db [row] d) = None) \<longrightarrow> landed r evs d = due) \<and>
    (\<forall>row\<in>set due. fits row) \<and>
    (\<forall>sp. sp_ModuleName sp @ ''/'' @ sp_TableName sp \<in> {''system/sys_audits'', ''system/sys_login_logs''} \<longrightarrow>
       \<not> attributed (audit_excludes opts) (Some sp))"
proof -
  have r: "ar_db r = db" "ar_excludes r = audit_excludes opts" "ar_json r = j" using assms(3) by (auto simp: installAuditHooks_def)
  have "mset (rows (fold (run_hook r) evs d)) = mset (rows d) + mset (landed r evs d)"
    using run_hooks_rows [of r rows evs d] assms(1,2) by (simp only: r)
  moreover have "subseq (landed r evs d) due" using landed_subseq [of r evs d] by (simp add: r assms(4))
  moreover have "landed r evs d = due" if "\<forall>row d. fst (Create db [row] d) = None"
    using landed_all [of r evs d] that by (simp add: r assms(4))
  moreover have "\<not> attributed (audit_excludes opts) (Some sp)"
    if "sp_ModuleName sp @ ''/'' @ sp_TableName sp \<in> {''system/sys_audits'', ''system/sys_login_logs''}" for sp
    using that excludes_set [of opts] by (auto simp: attributed_def)
  ultimately show ?thesis using event_row_fits by (auto simp: assms(4))
qed

definition sample_scope :: "string \<Rightarrow> RuntimeScope" where
  "sample_scope t = \<lparr>sp_TenantID = ''t'', sp_User = ''u'', sp_ModuleName = ''system'', sp_TableName = t\<rparr>"

definition sample_json :: "(unit, unit, unit) audit_json" where
  "sample_json = \<lparr>aj_diff = (\<lambda>df. Inr ''[]''), aj_model = (\<lambda>m. Inr ''''), aj_object = (\<lambda>s. None), aj_id = (\<lambda>v. Inr ''{}'')\<rparr>"

theorem audit_trail_witness:
  "mset (fold (run_hook \<lparr>ar_db = mem_table (\<lambda>d. d) (\<lambda>rs d. rs), ar_excludes = audit_excludes (newOptions []), ar_json = sample_json\<rparr>)
      [Created (Some (sample_scope ''sys_users'')) [()], Updated (Some (sample_scope ''sys_users'')) [], Created (Some (sample_scope ''sys_audits'')) [()]] []) =
    {#event_row sample_json (Created (Some (sample_scope ''sys_users'')) [()])#}"
proof -
  let ?db = "mem_table (\<lambda>d. d) (\<lambda>rs d. rs) :: (Audit, Audit list) table_ops"
  let ?evs = "[Created (Some (sample_scope ''sys_users'')) [()], Updated (Some (sample_scope ''sys_users'')) [], Created (Some (sample_scope ''sys_audits'')) [()]]
    :: (unit, unit) write_event list"
  let ?r = "\<lparr>ar_db = ?db, ar_excludes = audit_excludes (newOptions []), ar_json = sample_json\<rparr>"
  have i: "installAuditHooks ?db sample_json (newOptions []) False [] = (True, [?r])" by (simp add: installAuditHooks_def)
  have n: "\<forall>row d. fst (Create ?db [row] d) = None" by (simp add: mem_table_def)
  have f: "\<forall>row er d d'. Create ?db [row] d = (Some er, d') \<longrightarrow> d' = d" by (simp add: mem_table_def)
  have m: "map (event_row sample_json) (filter (auditable (audit_excludes (newOptions []))) ?evs) =
      [event_row sample_json (Created (Some (sample_scope ''sys_users'')) [()])]"
    by (simp add: attributed_def sample_scope_def excludes_set newOptions_def Let_def)
  have "mset (fold (run_hook ?r) ?evs []) = mset [] + mset [event_row sample_json (Created (Some (sample_scope ''sys_users'')) [()])]"
    using audit_trail [OF list_table.gorm_table_axioms f i refl, of ?evs "[]"] n unfolding m by metis
  also have "\<dots> = {#event_row sample_json (Created (Some (sample_scope ''sys_users'')) [()])#}" by (simp only: mset.simps add_0)
  finally show ?thesis .
qed

subsection \<open>The type of the audit table\<close>

definition well_typed :: "Audit \<Rightarrow> bool" where
  "well_typed r \<longleftrightarrow> fits r \<and> list_all ValidString [au_TenantID r, au_UID r, au_Action r, au_Module r, au_Table r, au_Data r]"

fun event_scope :: "('f, 'm) write_event \<Rightarrow> RuntimeScope option" where
  "event_scope (Created sc df) = sc"
| "event_scope (Updated sc df) = sc"
| "event_scope (Deleted sc m) = sc"

fun event_action :: "('f, 'm) write_event \<Rightarrow> string" where
  "event_action (Created sc df) = ''create''"
| "event_action (Updated sc df) = ''update''"
| "event_action (Deleted sc m) = ''delete''"

text \<open>The encoded change of a write; nothing when it does not encode.\<close>

fun event_text :: "('f, 'm, 'v) audit_json \<Rightarrow> ('f, 'm) write_event \<Rightarrow> string" where
  "event_text j (Created sc df) = (case aj_diff j df of Inl _ \<Rightarrow> '''' | Inr b \<Rightarrow> b)"
| "event_text j (Updated sc df) = (case aj_diff j df of Inl _ \<Rightarrow> '''' | Inr b \<Rightarrow> b)"
| "event_text j (Deleted sc m) = (case aj_id j (deletePrimaryKey j m) of Inl _ \<Rightarrow> '''' | Inr b \<Rightarrow> b)"

text \<open>
  A text cut to at most \<open>mx\<close> bytes: unchanged when it fits, otherwise a prefix that is valid UTF-8 and, for a valid
  text, misses at most the three bytes of a rune that does not fit.
\<close>

definition cut_of :: "nat \<Rightarrow> string \<Rightarrow> string \<Rightarrow> bool" where
  "cut_of mx s t \<longleftrightarrow> prefix t s \<and> length t \<le> mx \<and>
     (if length s \<le> mx then t = s else ValidString t \<and> (ValidString s \<longrightarrow> mx \<le> length t + 3))"

lemma truncate_cut: "cut_of mx s (truncateUTF8 s mx)"
proof -
  have "ValidString (truncateUTF8 s mx)" if "\<not> length s \<le> mx"
    using that cut_loop_spec [of "take mx s"] by (simp add: truncateUTF8_def)
  then show ?thesis using truncate_spec [of s mx] by (auto simp: cut_of_def truncateUTF8_def)
qed

lemma cut_of_valid: "cut_of mx s t \<Longrightarrow> ValidString s \<Longrightarrow> ValidString t"
  by (auto simp: cut_of_def split: if_splits)

definition row_of :: "('f, 'm, 'v) audit_json \<Rightarrow> ('f, 'm) write_event \<Rightarrow> RuntimeScope \<Rightarrow> Audit \<Rightarrow> bool" where
  "row_of j ev sp row \<longleftrightarrow> cut_of 60 (sp_TenantID sp) (au_TenantID row) \<and> cut_of 20 (sp_User sp) (au_UID row) \<and>
     au_Action row = event_action ev \<and> cut_of 60 (sp_ModuleName sp) (au_Module row) \<and>
     cut_of 60 (sp_TableName sp) (au_Table row) \<and> cut_of 10240 (event_text j ev) (au_Data row)"

lemma event_row_of: "event_scope ev = Some sp \<Longrightarrow> row_of j ev sp (event_row j ev)"
proof (cases ev)
  case (Created sc df)
  then show "event_scope ev = Some sp \<Longrightarrow> ?thesis"
    by (cases "aj_diff j df") (simp_all add: row_of_def audit_row_def auditData_def audit_consts truncate_cut, simp add: cut_of_def)
next
  case (Updated sc df)
  then show "event_scope ev = Some sp \<Longrightarrow> ?thesis"
    by (cases "aj_diff j df") (simp_all add: row_of_def audit_row_def auditData_def audit_consts truncate_cut, simp add: cut_of_def)
next
  case (Deleted sc m)
  then show "event_scope ev = Some sp \<Longrightarrow> ?thesis"
    by (cases "aj_id j (deletePrimaryKey j m)")
      (simp_all add: row_of_def audit_row_def auditData_def audit_consts truncate_cut, simp add: cut_of_def)
qed

lemma action_valid: "ValidString (event_action ev)"
proof -
  have "ValidString ''create''" "ValidString ''update''" "ValidString ''delete''" by code_simp+
  then show ?thesis by (cases ev) simp_all
qed

lemma row_of_typed:
  assumes "row_of j ev sp row" and "fits row"
    and "list_all ValidString [sp_TenantID sp, sp_User sp, sp_ModuleName sp, sp_TableName sp, event_text j ev]"
  shows "well_typed row"
proof -
  have "ValidString (au_Action row)" using assms(1) action_valid [of ev] by (simp add: row_of_def)
  with assms show ?thesis by (auto simp: well_typed_def row_of_def dest: cut_of_valid)
qed

lemma auditable_scope: "auditable ex ev \<Longrightarrow> \<exists>sp. event_scope ev = Some sp"
  by (cases ev) (auto simp: attributed_def)

text \<open>
  C27: The audit table is well typed. Whatever writes are reported and whichever inserts fail (a failed insert changes
  nothing), if the rows in the table fit their columns and have one of the three actions, so do the rows afterwards. Each
  new row is that of a reported write: a text within its column's size is stored as it is, a longer one is cut to a prefix
  that is valid UTF-8, at most three bytes shorter than the column allows if the text was valid. So the row is valid UTF-8
  in all columns whenever the reported names and the encoded change are; a short text that is not valid is stored so.
\<close>

theorem audit_table_typed:
  assumes "gorm_table (ar_db r) rows" and "\<forall>row er d d'. Create (ar_db r) [row] d = (Some er, d') \<longrightarrow> rows d' = rows d"
    and "\<forall>row\<in>set (rows d). fits row"
  shows "\<forall>row\<in>set (rows (fold (run_hook r) evs d)). fits row \<and>
    (row \<in> set (rows d) \<or> (\<exists>ev\<in>set evs. \<exists>sp. event_scope ev = Some sp \<and> row_of (ar_json r) ev sp row \<and>
       (list_all ValidString [sp_TenantID sp, sp_User sp, sp_ModuleName sp, sp_TableName sp, event_text (ar_json r) ev] \<longrightarrow>
        well_typed row)))"
proof
  fix row assume "row \<in> set (rows (fold (run_hook r) evs d))"
  then have "row \<in># mset (rows d) + mset (landed r evs d)" unfolding run_hooks_rows [OF assms(1,2), symmetric] by simp
  then consider "row \<in> set (rows d)" | "row \<in> set (landed r evs d)" by auto
  then show "fits row \<and> (row \<in> set (rows d) \<or> (\<exists>ev\<in>set evs. \<exists>sp. event_scope ev = Some sp \<and> row_of (ar_json r) ev sp row \<and>
       (list_all ValidString [sp_TenantID sp, sp_User sp, sp_ModuleName sp, sp_TableName sp, event_text (ar_json r) ev] \<longrightarrow>
        well_typed row)))"
  proof cases
    case 2
    then obtain ev where ev: "ev \<in> set evs" "auditable (ar_excludes r) ev" "row = event_row (ar_json r) ev"
      using list_emb_set [OF landed_subseq [of r evs d]] 2 by auto
    obtain sp where sp: "event_scope ev = Some sp" using auditable_scope [OF ev(2)] by blast
    have "row_of (ar_json r) ev sp row" "fits row" using event_row_of [OF sp] event_row_fits by (simp_all add: ev(3))
    then show ?thesis using ev(1) sp row_of_typed by blast
  qed (use assms(3) in blast)
qed

theorem audit_table_typed_witness:
  "list_all fits (fold (run_hook \<lparr>ar_db = mem_table (\<lambda>d. d) (\<lambda>rs d. rs), ar_excludes = [], ar_json = sample_json\<rparr>)
      [Created (Some (sample_scope ''sys_users'')) [()], Deleted (Some (sample_scope ''sys_users'')) None] [])"
  unfolding list_all_iff
proof
  let ?r = "\<lparr>ar_db = mem_table (\<lambda>d. d) (\<lambda>rs d. rs), ar_excludes = [], ar_json = sample_json\<rparr>"
  let ?evs = "[Created (Some (sample_scope ''sys_users'')) [()], Deleted (Some (sample_scope ''sys_users'')) None]"
  fix row assume "row \<in> set (fold (run_hook ?r) ?evs [])"
  then show "fits row"
    using audit_table_typed [of ?r "\<lambda>d. d" "[]" ?evs] list_table.gorm_table_axioms by (simp add: mem_table_def) blast
qed

end
