(* ===== verification/Dashboard.thy ===== *)
theory Dashboard
  imports Audits "HOL-Library.Product_Lexorder"
begin

text \<open>
  Package \<open>admin\<close>, file \<open>dashboard_endpoint.go\<close>: the overview of the signed-in operator. The tables are parameters;
  of a login row only its time is read. The calendar of the server's time zone is a parameter too: the number of the day an
  instant falls on, the first second of a day, and how a day is printed.
\<close>

record calendar_ops =
  day_of :: "int \<Rightarrow> int"
  day_start :: "int \<Rightarrow> int"
  day_key :: "int \<Rightarrow> string"

record DashboardAuditItem =
  di_ID :: nat
  di_UID :: string
  di_Action :: string
  di_Module :: string
  di_Table :: string
  di_CreatedAt :: int

record stored_audit = DashboardAuditItem +
  di_Data :: string

record DashboardCounts =
  dc_Users :: nat
  dc_Roles :: nat
  dc_Departments :: nat
  dc_Menus :: nat
  dc_Permissions :: nat
  dc_Tenants :: nat

record DashboardLogins =
  dl_Today :: nat
  dl_Yesterday :: nat
  dl_Trend :: "(string \<times> nat) list"

record DashboardAudits =
  da_Today :: nat
  da_Recent :: "DashboardAuditItem list"

record DashboardOverview =
  do_Scope :: string
  do_Counts :: "DashboardCounts option"
  do_Logins :: "DashboardLogins option"
  do_Audits :: "DashboardAudits option"
  do_GeneratedAt :: int

datatype counted = CUsers | CRoles | CDepartments | CMenus | CPermissions | CTenants

record 'd dash_env =
  dh_opts :: Options
  dh_Role :: "(Role, 'd) table_ops"
  dh_Count :: "counted \<Rightarrow> 'd \<Rightarrow> goerror + nat"
  dh_Login :: "(int, 'd) table_ops"
  dh_Audit :: "(stored_audit, 'd) table_ops"
  dh_cal :: calendar_ops

subsection \<open>Loading\<close>

definition callerIsSuperRole :: "'d dash_env \<Rightarrow> nat \<Rightarrow> string \<Rightarrow> 'd \<Rightarrow> goerror + bool" where
  "callerIsSuperRole e a roleKey d =
     (if roleKey = '''' then Inr False
      else case First (dh_Role e) (\<lambda>r. r_Key r = roleKey) d of
        Inr role \<Rightarrow> Inr (r_IsSuper role)
      | Inl er \<Rightarrow> if Is er (ErrRecordNotFound (dh_Role e)) then Inr False
          else Inl (FmtWrap a (''resolve dashboard role: '' @ Error er) [er]))"

definition count_or :: "'d dash_env \<Rightarrow> nat \<Rightarrow> string \<Rightarrow> counted \<Rightarrow> 'd \<Rightarrow> goerror + nat" where
  "count_or e a what k d =
     (case dh_Count e k d of Inl er \<Rightarrow> Inl (FmtWrap a (''count '' @ what @ '': '' @ Error er) [er]) | Inr n \<Rightarrow> Inr n)"

definition loadDashboardCounts :: "'d dash_env \<Rightarrow> nat \<Rightarrow> bool \<Rightarrow> 'd \<Rightarrow> goerror + DashboardCounts" where
  "loadDashboardCounts e a multiTenant d =
     (case count_or e a ''users'' CUsers d of Inl er \<Rightarrow> Inl er | Inr us \<Rightarrow>
      case count_or e a ''roles'' CRoles d of Inl er \<Rightarrow> Inl er | Inr ro \<Rightarrow>
      case count_or e a ''departments'' CDepartments d of Inl er \<Rightarrow> Inl er | Inr de \<Rightarrow>
      case count_or e a ''menus'' CMenus d of Inl er \<Rightarrow> Inl er | Inr me \<Rightarrow>
      case count_or e a ''permissions'' CPermissions d of Inl er \<Rightarrow> Inl er | Inr pe \<Rightarrow>
      (let mk = (\<lambda>te. \<lparr>dc_Users = us, dc_Roles = ro, dc_Departments = de, dc_Menus = me, dc_Permissions = pe, dc_Tenants = te\<rparr>) in
       if multiTenant then (case count_or e a ''tenants'' CTenants d of Inl er \<Rightarrow> Inl er | Inr te \<Rightarrow> Inr (mk te)) else Inr (mk 0)))"

text \<open>The loop over the rows: the counts per printed day, and the two sums.\<close>

fun login_loop :: "calendar_ops \<Rightarrow> int \<Rightarrow> int list \<Rightarrow> (string, nat) gomap \<Rightarrow> nat \<Rightarrow> nat \<Rightarrow> (string, nat) gomap \<times> nat \<times> nat" where
  "login_loop cal n [] counts td yd = (counts, td, yd)"
| "login_loop cal n (t # ts) counts td yd =
     (let key = day_key cal (day_of cal t) in
      case map_of counts key of
        None \<Rightarrow> login_loop cal n ts counts td yd
      | Some k \<Rightarrow>
          login_loop cal n ts (AList.update key (k + 1) counts)
            (if t \<ge> day_start cal n then td + 1 else td)
            (if t \<ge> day_start cal (n - 1) \<and> t < day_start cal n then yd + 1 else yd))"

definition trend_keys :: "calendar_ops \<Rightarrow> int \<Rightarrow> string list" where
  "trend_keys cal n = map (\<lambda>i. day_key cal (n - 6 + int i)) [0..<7]"

definition loadDashboardLogins :: "'d dash_env \<Rightarrow> nat \<Rightarrow> int \<Rightarrow> 'd \<Rightarrow> goerror + DashboardLogins" where
  "loadDashboardLogins e a now d =
     (let cal = dh_cal e; n = day_of cal now in
      case Find (dh_Login e) (\<lambda>t. t \<ge> day_start cal (n - 6)) d of
        Inl er \<Rightarrow> Inl (FmtWrap a (''load login trend: '' @ Error er) [er])
      | Inr rows \<Rightarrow>
          (let keys = trend_keys cal n;
               (counts, td, yd) = login_loop cal n rows (foldl (\<lambda>m k. AList.update k 0 m) [] keys) 0 0
           in Inr \<lparr>dl_Today = td, dl_Yesterday = yd, dl_Trend = map (\<lambda>k. (k, case map_of counts k of Some c \<Rightarrow> c | None \<Rightarrow> 0)) keys\<rparr>))"

definition trim_item :: "stored_audit \<Rightarrow> DashboardAuditItem" where
  "trim_item r = \<lparr>di_ID = di_ID r, di_UID = di_UID r, di_Action = di_Action r, di_Module = di_Module r, di_Table = di_Table r, di_CreatedAt = di_CreatedAt r\<rparr>"

definition recent :: "stored_audit list \<Rightarrow> stored_audit list" where
  "recent rows = take 6 (rev (sort_key (\<lambda>r. (di_CreatedAt r, di_ID r)) rows))"

definition loadDashboardAudits :: "'d dash_env \<Rightarrow> nat \<Rightarrow> int \<Rightarrow> 'd \<Rightarrow> goerror + DashboardAudits" where
  "loadDashboardAudits e a now d =
     (let cal = dh_cal e; start = day_start cal (day_of cal now) in
      case Find (dh_Audit e) (\<lambda>r. di_CreatedAt r \<ge> start) d of
        Inl er \<Rightarrow> Inl (FmtWrap a (''count audits: '' @ Error er) [er])
      | Inr todays \<Rightarrow>
          (case Find (dh_Audit e) (\<lambda>r. True) d of
             Inl er \<Rightarrow> Inl (FmtWrap a (''load recent audits: '' @ Error er) [er])
           | Inr rows \<Rightarrow> Inr \<lparr>da_Today = length todays, da_Recent = map trim_item (recent rows)\<rparr>))"

definition loadDashboardOverview :: "'d dash_env \<Rightarrow> nat \<Rightarrow> int \<Rightarrow> 'c actx_scheme \<Rightarrow> 'd \<Rightarrow> goerror + DashboardOverview" where
  "loadDashboardOverview e a now c d =
     (case ClaimsFromContext c of
        None \<Rightarrow> Inl ErrUnauthorized
      | Some cl \<Rightarrow>
          (let base = \<lparr>do_Scope = ''personal'', do_Counts = None, do_Logins = None, do_Audits = None, do_GeneratedAt = now\<rparr> in
           case callerIsSuperRole e a (Role cl) d of
             Inl er \<Rightarrow> Inl er
           | Inr super \<Rightarrow>
               if \<not> super then Inr base
               else (case loadDashboardCounts e a (op_MultiTenant (dh_opts e)) d of Inl er \<Rightarrow> Inl er | Inr cn \<Rightarrow>
                     case loadDashboardLogins e a now d of Inl er \<Rightarrow> Inl er | Inr lg \<Rightarrow>
                     case loadDashboardAudits e a now d of Inl er \<Rightarrow> Inl er | Inr au \<Rightarrow>
                     Inr (base\<lparr>do_Scope := ''admin'', do_Counts := Some cn, do_Logins := Some lg, do_Audits := Some au\<rparr>))))"

definition dashboard_handler :: "'d dash_env \<Rightarrow> (DashboardOverview \<Rightarrow> string) \<Rightarrow> nat \<Rightarrow> int \<Rightarrow> 'c actx_scheme \<Rightarrow> 'd \<Rightarrow> Envelope" where
  "dashboard_handler e encode a now c d =
     (if ClaimsFromContext c = None then newResponse CodeUnauthorized ''unauthorized'' None
      else case loadDashboardOverview e a now c d of
        Inl er \<Rightarrow> newResponse CodeInternal ''dashboard overview unavailable'' None
      | Inr ov \<Rightarrow> newResponse CodeOK '''' (Some (encode ov)))"

subsection \<open>Calendars\<close>

text \<open>Days are consecutive intervals, in order, and are printed differently.\<close>

locale calendar =
  fixes cal :: calendar_ops
  assumes day_iff: "day_of cal t = n \<longleftrightarrow> day_start cal n \<le> t \<and> t < day_start cal (n + 1)"
    and start_mono: "m < n \<Longrightarrow> day_start cal m < day_start cal n"
    and key_inj: "day_key cal m = day_key cal n \<longleftrightarrow> m = n"
begin

lemma start_le: "m \<le> n \<Longrightarrow> day_start cal m \<le> day_start cal n"
  using start_mono [of m n] by (cases "m = n") auto

lemma today_iff: "day_of cal t \<le> n \<Longrightarrow> day_start cal n \<le> t \<longleftrightarrow> day_of cal t = n"
  using day_iff [of t "day_of cal t"] start_le [of "day_of cal t + 1" n] by (cases "day_of cal t = n") auto

lemma before_iff: "t < day_start cal n \<longleftrightarrow> day_of cal t < n"
  using day_iff [of t "day_of cal t"] start_le [of "day_of cal t + 1" n] start_le [of n "day_of cal t"] by (cases "day_of cal t < n") auto

lemma trend_key_iff: "day_key cal m \<in> set (trend_keys cal n) \<longleftrightarrow> n - 6 \<le> m \<and> m \<le> n"
proof
  assume "n - 6 \<le> m \<and> m \<le> n"
  then have "m = n - 6 + int (nat (m - n + 6))" "nat (m - n + 6) < 7" by auto
  then show "day_key cal m \<in> set (trend_keys cal n)" unfolding trend_keys_def by (metis (no_types, lifting) atLeastLessThan_iff image_eqI le0 set_map set_upt)
qed (auto simp: trend_keys_def key_inj)

definition on_day :: "int \<Rightarrow> int list \<Rightarrow> nat" where
  "on_day m ts = length (filter (\<lambda>t. day_of cal t = m) ts)"

lemma on_day_Cons: "on_day m (t # ts) = (if day_of cal t = m then 1 else 0) + on_day m ts"
  by (simp add: on_day_def)

text \<open>The loop counts each row under its day, if that day is in the window.\<close>

lemma login_loop_counts:
  assumes "\<And>m. map_of counts (day_key cal m) \<noteq> None \<longleftrightarrow> n - 6 \<le> m \<and> m \<le> n" and "login_loop cal n ts counts td yd = (counts', td', yd')"
  shows "(\<forall>m. map_of counts' (day_key cal m) = map_option (\<lambda>c. c + on_day m ts) (map_of counts (day_key cal m))) \<and>
    td' = td + on_day n ts \<and> yd' = yd + on_day (n - 1) ts"
  using assms
proof (induction ts arbitrary: counts td yd)
  case Nil
  then show ?case by (simp add: on_day_def option.map_ident)
next
  case (Cons t ts)
  let ?m = "day_of cal t"
  show ?case
  proof (cases "map_of counts (day_key cal ?m)")
    case None
    then have out: "\<not> (n - 6 \<le> ?m \<and> ?m \<le> n)" using Cons.prems(1) by blast
    have "login_loop cal n ts counts td yd = (counts', td', yd')" using Cons.prems(2) None by simp
    from Cons.IH [OF Cons.prems(1) this] show ?thesis using out None by (auto simp: on_day_Cons)
  next
    case (Some k)
    then have win: "n - 6 \<le> ?m" "?m \<le> n" using Cons.prems(1) [of ?m] by auto
    let ?c = "AList.update (day_key cal ?m) (k + 1) counts"
    have c: "map_of ?c (day_key cal m) = (if m = ?m then Some (k + 1) else map_of counts (day_key cal m))" for m
      by (simp add: gomap_simps key_inj)
    have dom: "map_of ?c (day_key cal m) \<noteq> None \<longleftrightarrow> n - 6 \<le> m \<and> m \<le> n" for m using Cons.prems(1) c win by auto
    have s: "day_start cal n \<le> t \<longleftrightarrow> ?m = n" "day_start cal (n - 1) \<le> t \<and> t < day_start cal n \<longleftrightarrow> ?m = n - 1"
      using today_iff [OF win(2)] day_iff [of t "n - 1"] by simp_all
    have "login_loop cal n ts ?c (if ?m = n then td + 1 else td) (if ?m = n - 1 then yd + 1 else yd) = (counts', td', yd')"
      using Cons.prems(2) Some s by (simp add: Let_def)
    from Cons.IH [OF dom this] show ?thesis using Some by (auto simp: gomap_simps key_inj on_day_Cons)
  qed
qed

lemma start_counts: "map_of (foldl (\<lambda>m k. AList.update k 0 m) [] ks) k = (if k \<in> set ks then Some (0 :: nat) else None)"
proof -
  have "map_of (foldl (\<lambda>m k. AList.update k 0 m) acc ks) k = (if k \<in> set ks then Some (0 :: nat) else map_of acc k)" for acc
    by (induction ks arbitrary: acc) (auto simp: gomap_simps)
  then show ?thesis by simp
qed

end

definition utc :: calendar_ops where
  "utc = \<lparr>day_of = (\<lambda>t. t div 86400), day_start = (\<lambda>n. n * 86400), day_key = int_str\<rparr>"

lemma nat_str_Nil [simp]: "nat_str n \<noteq> []"
  by (subst nat_str.simps) simp

lemma digit_char_inj: "a < 10 \<Longrightarrow> b < 10 \<Longrightarrow> digit_char a = digit_char b \<Longrightarrow> a = b"
proof -
  assume ab: "a < 10" "b < 10" "digit_char a = digit_char b"
  have "(of_char (digit_char a) :: nat) = 48 + a" "(of_char (digit_char b) :: nat) = 48 + b" using ab(1,2) by (simp_all add: digit_char_def)
  with ab(3) show ?thesis by (metis add_left_cancel)
qed

lemma nat_str_inj: "nat_str m = nat_str n \<Longrightarrow> m = n"
proof (induction m arbitrary: n rule: less_induct)
  case (less m)
  note e = less.prems [unfolded nat_str.simps [of m] nat_str.simps [of n]]
  consider "m < 10" "n < 10" | "m < 10" "\<not> n < 10" | "\<not> m < 10" "n < 10" | "\<not> m < 10" "\<not> n < 10" by blast
  then show ?case
  proof cases
    case 4
    then have d: "nat_str (m div 10) = nat_str (n div 10)" "digit_char (m mod 10) = digit_char (n mod 10)" using e by simp_all
    have "m div 10 = n div 10" using less.IH [OF _ d(1)] 4 by simp
    moreover have "m mod 10 = n mod 10" using digit_char_inj [OF _ _ d(2)] by simp
    ultimately show ?thesis by (metis mult_div_mod_eq)
  qed (use e digit_char_inj nat_str_Nil nat_str_Nil [symmetric] in auto)
qed

lemma nat_str_no_minus: "hd (nat_str n) \<noteq> CHR ''-''"
proof (induction n rule: nat_str.induct)
  case (1 n)
  have "d < 10 \<Longrightarrow> digit_char d \<noteq> CHR ''-''" for d
  proof -
    assume "d < 10"
    then have "(of_char (digit_char d) :: nat) = 48 + d" by (simp add: digit_char_def)
    then show "digit_char d \<noteq> CHR ''-''" by auto
  qed
  then show ?case using 1 by (subst nat_str.simps) simp
qed

lemma int_str_inj: "int_str m = int_str n \<longleftrightarrow> m = n"
proof
  assume e: "int_str m = int_str n"
  have c: "CHR ''-'' # xs \<noteq> nat_str k" for xs k using nat_str_no_minus [of k] by (metis list.sel(1))
  then show "m = n" using e c [symmetric] nat_str_inj by (fastforce simp: int_str_def split: if_splits)
qed simp

interpretation utc: calendar utc
proof
  show "day_of utc t = n \<longleftrightarrow> day_start utc n \<le> t \<and> t < day_start utc (n + 1)" for t n
    by (simp add: utc_def) linarith
qed (simp_all add: utc_def int_str_inj)

context calendar
begin

lemma trend_correct:
  assumes "gorm_table logins rows" and "Find logins (\<lambda>t. t \<ge> day_start cal (n - 6)) d = Inr ts"
    and "login_loop cal n ts (foldl (\<lambda>m k. AList.update k 0 m) [] (trend_keys cal n)) 0 0 = (counts, td, yd)"
  shows "td = on_day n (rows d)" "yd = on_day (n - 1) (rows d)"
    "n - 6 \<le> m \<Longrightarrow> m \<le> n \<Longrightarrow> map_of counts (day_key cal m) = Some (on_day m (rows d))"
proof -
  have same: "on_day m ts = on_day m (rows d)" if "n - 6 \<le> m" for m
  proof -
    have "mset (filter (\<lambda>t. day_of cal t = m) ts) = mset (filter (\<lambda>t. day_of cal t = m) (filter (\<lambda>t. t \<ge> day_start cal (n - 6)) (rows d)))"
      using gorm_table.find_law [OF assms(1,2)] by (metis mset_filter)
    moreover have "filter (\<lambda>t. day_of cal t = m) (filter (\<lambda>t. t \<ge> day_start cal (n - 6)) (rows d)) = filter (\<lambda>t. day_of cal t = m) (rows d)"
      using that before_iff [of _ "n - 6"] by (auto intro!: filter_cong simp: not_less [symmetric])
    ultimately show ?thesis unfolding on_day_def by (metis size_mset)
  qed
  have dom: "map_of (foldl (\<lambda>m k. AList.update k (0 :: nat) m) [] (trend_keys cal n)) (day_key cal m) \<noteq> None \<longleftrightarrow> n - 6 \<le> m \<and> m \<le> n" for m
    using trend_key_iff [of m n] by (simp add: start_counts)
  note L = login_loop_counts [OF dom assms(3)]
  show "td = on_day n (rows d)" "yd = on_day (n - 1) (rows d)" using L same by simp_all
  show "map_of counts (day_key cal m) = Some (on_day m (rows d))" if "n - 6 \<le> m" "m \<le> n"
    using L same [OF that(1)] that by (simp add: start_counts trend_key_iff)
qed

end

text \<open>
  C28: The login trend is the count of logins per day. When the summary loads, it has seven points, the printed days from six days ago to
  today; each carries the number of stored logins of that day, and today's and yesterday's totals are those of the last two points.
\<close>

theorem login_trend:
  assumes "calendar (dh_cal e)" and "gorm_table (dh_Login e) rows" and "loadDashboardLogins e a now d = Inr lg"
  shows "dl_Trend lg = map (\<lambda>i. (let m = day_of (dh_cal e) now - 6 + int i in (day_key (dh_cal e) m, length (filter (\<lambda>t. day_of (dh_cal e) t = m) (rows d))))) [0..<7] \<and>
    dl_Today lg = snd (dl_Trend lg ! 6) \<and> dl_Yesterday lg = snd (dl_Trend lg ! 5)"
proof -
  let ?n = "day_of (dh_cal e) now" and ?on = "\<lambda>m. length (filter (\<lambda>t. day_of (dh_cal e) t = m) (rows d))"
  obtain ts where f: "Find (dh_Login e) (\<lambda>t. t \<ge> day_start (dh_cal e) (?n - 6)) d = Inr ts"
    using assms(3) by (auto simp: loadDashboardLogins_def Let_def split: sum.splits)
  obtain counts td yd where l: "login_loop (dh_cal e) ?n ts (foldl (\<lambda>m k. AList.update k 0 m) [] (trend_keys (dh_cal e) ?n)) 0 0 = (counts, td, yd)"
    by (rule prod_cases3)
  note T = calendar.trend_correct [OF assms(1,2) f l, unfolded calendar.on_day_def [OF assms(1)]]
  have lg: "lg = \<lparr>dl_Today = td, dl_Yesterday = yd, dl_Trend = map (\<lambda>k. (k, case map_of counts k of Some c \<Rightarrow> c | None \<Rightarrow> 0)) (trend_keys (dh_cal e) ?n)\<rparr>"
    using assms(3) f l by (simp add: loadDashboardLogins_def Let_def)
  have t: "dl_Trend lg = map (\<lambda>i. (let m = ?n - 6 + int i in (day_key (dh_cal e) m, ?on m))) [0..<7]"
    unfolding lg by (auto simp: trend_keys_def Let_def T(3))
  show ?thesis unfolding t using T(1,2) by (simp add: lg Let_def)
qed

text \<open>
  C29: The system figures are for super roles only. The overview carries counts, logins or audits only if the caller has claims and the
  database holds a super role row under the caller's role key; everybody else gets the personal overview, and nobody without claims gets one.
\<close>

theorem dashboard_confidential:
  assumes "gorm_table (dh_Role e) rrows" and "loadDashboardOverview e a now c d = Inr ov"
  shows "\<exists>cl. ClaimsFromContext c = Some cl \<and>
    (ov = \<lparr>do_Scope = ''personal'', do_Counts = None, do_Logins = None, do_Audits = None, do_GeneratedAt = now\<rparr> \<or>
     (\<exists>r\<in>set (rrows d). r_Key r = Role cl \<and> r_IsSuper r))"
proof -
  obtain cl where cl: "ClaimsFromContext c = Some cl" using assms(2) by (auto simp: loadDashboardOverview_def split: option.splits)
  obtain super where s: "callerIsSuperRole e a (Role cl) d = Inr super"
    using assms(2) cl by (auto simp: loadDashboardOverview_def Let_def split: sum.splits)
  show ?thesis
  proof (cases super)
    case False
    then show ?thesis using assms(2) cl s by (auto simp: loadDashboardOverview_def Let_def)
  next
    case True
    then obtain r where r: "First (dh_Role e) (\<lambda>r. r_Key r = Role cl) d = Inr r" "r_IsSuper r"
      using s by (auto simp: callerIsSuperRole_def split: if_splits sum.splits)
    from gorm_table.first_law [OF assms(1) r(1)] r(2) show ?thesis using cl by blast
  qed
qed

definition sample_dash :: "(Role list) dash_env" where
  "sample_dash = \<lparr>dh_opts = newOptions [], dh_Role = mem_table (\<lambda>d. d) (\<lambda>rs d. rs), dh_Count = (\<lambda>k d. Inr 0), dh_Login = replica (\<lambda>_. [86400, 86401, 172800]),
     dh_Audit = replica (\<lambda>_. []), dh_cal = utc\<rparr>"

theorem login_trend_witness:
  "\<exists>lg. loadDashboardLogins sample_dash 0 172900 [] = Inr lg \<and> dl_Today lg = 1 \<and> dl_Yesterday lg = 2"
proof -
  have c: "calendar (dh_cal sample_dash)" using utc.calendar_axioms by (simp add: sample_dash_def)
  have g: "gorm_table (dh_Login sample_dash) (\<lambda>_. [86400, 86401, 172800])" using replica.gorm_table_axioms by (simp add: sample_dash_def)
  have "\<exists>lg. loadDashboardLogins sample_dash 0 172900 [] = Inr lg"
    by (simp add: loadDashboardLogins_def sample_dash_def replica_def Let_def split: prod.splits)
  then obtain lg where l: "loadDashboardLogins sample_dash 0 172900 [] = Inr lg" by blast
  from login_trend [OF c g l] l show ?thesis by (simp add: sample_dash_def utc_def Let_def)
qed

theorem dashboard_confidential_witness:
  "\<exists>ov. loadDashboardOverview sample_dash 0 172900 (tenant_ctx ''t'') [] = Inr ov \<and> do_Scope ov = ''personal''"
proof -
  have g: "gorm_table (dh_Role sample_dash) (\<lambda>d. d)" using list_table.gorm_table_axioms by (simp add: sample_dash_def)
  have "\<exists>ov. loadDashboardOverview sample_dash 0 172900 (tenant_ctx ''t'') [] = Inr ov"
    by (simp add: loadDashboardOverview_def callerIsSuperRole_def sample_dash_def mem_table_def notFound_def Let_def tenant_ctx_def
        ClaimsFromContext_def auth_FromContext_def)
  then obtain ov where o: "loadDashboardOverview sample_dash 0 172900 (tenant_ctx ''t'') [] = Inr ov" by blast
  from dashboard_confidential [OF g o] o show ?thesis by auto
qed

end
