(* ===== verification/Guards.thy ===== *)
theory Guards
  imports TenantScope
begin

text \<open>
  Package \<open>admin\<close>, file \<open>security_guards.go\<close>, and \<open>hardenResource\<close> and
  \<open>ensureCallerMayAssignRole\<close> of \<open>server.go\<close>: the checks on creating, updating and deleting
  users and roles through the generic REST surface.

  A guard reads two sets of tables: \<open>g_T\<close>, what the context of the request can see, and
  \<open>g_All\<close>, what the same context marked with \<open>WithoutTenant\<close> can see. \<open>g_scope\<close> is the user of
  the runtime scope that the REST layer puts into the context (\<open>None\<close> outside REST calls).
\<close>

subsection \<open>Statements\<close>

datatype target = TUser User | TRole Role | TOther

text \<open>A destination is a map of changed columns (its string values) or a model.\<close>

datatype sdest = DestMap "string \<rightharpoonup> string" | DestModel target

record stmt =
  st_Model :: "target option"
  st_Dest :: "sdest option"

record 'd guard_env =
  g_T :: "'d grant_tables"
  g_All :: "'d grant_tables"
  g_scope :: "string option"
  g_Sprintf :: "string \<Rightarrow> string list \<Rightarrow> string"

definition statementModel :: "stmt \<Rightarrow> sdest option" where
  "statementModel tx = (case st_Model tx of Some m \<Rightarrow> Some (DestModel m) | None \<Rightarrow> st_Dest tx)"

definition deleteTarget :: "stmt \<Rightarrow> sdest option" where
  "deleteTarget tx = (case st_Dest tx of Some d \<Rightarrow> Some d | None \<Rightarrow> map_option DestModel (st_Model tx))"

subsection \<open>Callers and roles\<close>

definition callerIsSuper :: "'d guard_env \<Rightarrow> 'd \<Rightarrow> bool" where
  "callerIsSuper e d =
     (case g_scope e of
        None \<Rightarrow> False
      | Some user \<Rightarrow>
          if user = '''' then False
          else (case First (T_User (g_T e)) (\<lambda>u. u_UID u = user) d of
                  Inl _ \<Rightarrow> False
                | Inr caller \<Rightarrow>
                    (case First (T_Role (g_T e)) (\<lambda>r. r_Key r = u_RoleKey caller) d of
                       Inl _ \<Rightarrow> False | Inr role \<Rightarrow> r_IsSuper role)))"

definition roleIsSuper :: "'d guard_env \<Rightarrow> string \<Rightarrow> 'd \<Rightarrow> bool" where
  "roleIsSuper e roleKey d =
     (if roleKey = '''' then False
      else (case First (T_Role (g_T e)) (\<lambda>r. r_Key r = roleKey) d of Inl _ \<Rightarrow> False | Inr role \<Rightarrow> r_IsSuper role))"

definition ensureCallerMayAssignRole :: "'d guard_env \<Rightarrow> nat \<Rightarrow> string \<Rightarrow> 'd \<Rightarrow> goerror option" where
  "ensureCallerMayAssignRole e a roleKey d =
     (case First (T_Role (g_T e)) (\<lambda>r. r_Key r = roleKey) d of
        Inl er \<Rightarrow>
          if Is er (ErrRecordNotFound (T_Role (g_T e)))
          then Some (Newf (g_Sprintf e) a CodeInvalid ''role not found: %s'' [roleKey])
          else Some er
      | Inr t \<Rightarrow>
          if \<not> r_IsSuper t then None
          else if \<not> callerIsSuper e d then Some ErrPermissionDenied
          else None)"

subsection \<open>The login namespace\<close>

definition updatedLoginIdentity :: "stmt \<Rightarrow> User \<Rightarrow> string \<times> string" where
  "updatedLoginIdentity tx previous =
     (case st_Dest tx of
        Some (DestMap m) \<Rightarrow>
          (case m ''uid'' of Some v \<Rightarrow> v | None \<Rightarrow> u_UID previous,
           case m ''username'' of Some v \<Rightarrow> v | None \<Rightarrow> u_Username previous)
      | Some (DestModel (TUser u)) \<Rightarrow>
          (if u_UID u \<noteq> '''' then u_UID u else u_UID previous,
           if u_Username u \<noteq> '''' then u_Username u else u_Username previous)
      | _ \<Rightarrow> (u_UID previous, u_Username previous))"

definition ensureLoginIdentityUnique :: "'d guard_env \<Rightarrow> nat \<Rightarrow> string \<Rightarrow> string \<Rightarrow> nat \<Rightarrow> 'd \<Rightarrow> goerror option" where
  "ensureLoginIdentityUnique e a uid username excludeID d =
     (let values = filter (\<lambda>v. v \<noteq> '''') [uid, username] in
      if values = [] then None
      else (case Find (T_User (g_All e))
                (\<lambda>u. (\<exists>v\<in>set values. u_UID u = v \<or> u_Username u = v) \<and> (excludeID \<noteq> 0 \<longrightarrow> u_ID u \<noteq> excludeID)) d of
              Inl er \<Rightarrow> Some er
            | Inr found \<Rightarrow>
                if length (take 1 found) > 0
                then Some (Newf (g_Sprintf e) a CodeInvalid ''uid or username is already in use'' [])
                else None))"

definition updatedRoleKey :: "stmt \<Rightarrow> string" where
  "updatedRoleKey tx =
     (case st_Dest tx of
        Some (DestMap m) \<Rightarrow> (case m ''role_key'' of Some v \<Rightarrow> v | None \<Rightarrow> '''')
      | Some (DestModel (TUser u)) \<Rightarrow> u_RoleKey u
      | _ \<Rightarrow> '''')"

subsection \<open>The guards\<close>

definition guardUserUpdate :: "'d guard_env \<Rightarrow> nat \<Rightarrow> stmt \<Rightarrow> User \<Rightarrow> 'd \<Rightarrow> goerror option" where
  "guardUserUpdate e a tx target d =
     (let super = callerIsSuper e d in
      if roleIsSuper e (u_RoleKey target) d \<and> \<not> super then Some ErrPermissionDenied
      else
      (let (uid, username) = updatedLoginIdentity tx target in
       case ensureLoginIdentityUnique e a uid username (u_ID target) d of
         Some er \<Rightarrow> Some er
       | None \<Rightarrow>
           (let nextRole = updatedRoleKey tx in
            if nextRole = '''' \<or> nextRole = u_RoleKey target then None
            else if \<not> super then Some ErrPermissionDenied
            else ensureCallerMayAssignRole e a nextRole d)))"

definition guardUpdate :: "'d guard_env \<Rightarrow> nat \<Rightarrow> stmt \<Rightarrow> 'd \<Rightarrow> goerror option" where
  "guardUpdate e a tx d =
     (case statementModel tx of
        Some (DestModel (TUser u)) \<Rightarrow> guardUserUpdate e a tx u d
      | Some (DestModel (TRole r)) \<Rightarrow> if r_IsSuper r \<and> \<not> callerIsSuper e d then Some ErrPermissionDenied else None
      | _ \<Rightarrow> None)"

definition guardDelete :: "'d guard_env \<Rightarrow> stmt \<Rightarrow> 'd \<Rightarrow> goerror option" where
  "guardDelete e tx d =
     (case deleteTarget tx of
        Some (DestModel (TUser u)) \<Rightarrow>
          if roleIsSuper e (u_RoleKey u) d \<and> \<not> callerIsSuper e d then Some ErrPermissionDenied else None
      | Some (DestModel (TRole r)) \<Rightarrow> if r_IsSuper r \<and> \<not> callerIsSuper e d then Some ErrPermissionDenied else None
      | _ \<Rightarrow> None)"

text \<open>The callbacks; \<open>failed\<close> says that the statement already carries an error.\<close>

definition guardApplies :: "'d guard_env \<Rightarrow> bool \<Rightarrow> bool" where
  "guardApplies e failed \<longleftrightarrow> \<not> failed \<and> g_scope e \<noteq> None"

definition security_update :: "'d guard_env \<Rightarrow> nat \<Rightarrow> bool \<Rightarrow> stmt \<Rightarrow> 'd \<Rightarrow> goerror option" where
  "security_update e a failed tx d = (if \<not> guardApplies e failed then None else guardUpdate e a tx d)"

definition security_delete :: "'d guard_env \<Rightarrow> bool \<Rightarrow> stmt \<Rightarrow> 'd \<Rightarrow> goerror option" where
  "security_delete e failed tx d = (if \<not> guardApplies e failed then None else guardDelete e tx d)"

subsection \<open>Hooks on created resources\<close>

datatype model_kind = KPermission | KRolePermission | KAudit | KLoginLog | KUser | KRole | KOtherModel

definition readOnlyResource :: "model_kind \<Rightarrow> bool" where
  "readOnlyResource k \<longleftrightarrow> k = KPermission \<or> k = KRolePermission \<or> k = KAudit \<or> k = KLoginLog"

definition hardenResource :: "'d guard_env \<Rightarrow> nat \<Rightarrow> target \<Rightarrow> 'd \<Rightarrow> goerror + target" where
  "hardenResource e a value d =
     (case value of
        TRole r \<Rightarrow> Inr (TRole (r\<lparr>r_IsSuper := False, r_Builtin := False\<rparr>))
      | TUser u \<Rightarrow>
          if u_RoleKey u = '''' then Inl (Newf (g_Sprintf e) a CodeInvalid ''role_key is required'' [])
          else (case ensureLoginIdentityUnique e a (u_UID u) (u_Username u) 0 d of
                  Some er \<Rightarrow> Inl er
                | None \<Rightarrow> (case ensureCallerMayAssignRole e a (u_RoleKey u) d of
                             Some er \<Rightarrow> Inl er | None \<Rightarrow> Inr (TUser u)))
      | TOther \<Rightarrow> Inr TOther)"

subsection \<open>Facts about the guards\<close>

text \<open>
  Every identifier is used by at most one row, as uid or as user name. This is what the
  lookup of \<open>Login\<close> needs to find a single row.
\<close>

definition answers_to :: "string \<Rightarrow> User \<Rightarrow> bool" where
  "answers_to v u \<longleftrightarrow> u_UID u = v \<or> u_Username u = v"

definition login_unique :: "User list \<Rightarrow> bool" where
  "login_unique us \<longleftrightarrow> (\<forall>v. v \<noteq> '''' \<longrightarrow> length (filter (answers_to v) us) \<le> 1)"

lemma login_unique_mset:
  "login_unique us \<longleftrightarrow> (\<forall>v. v \<noteq> '''' \<longrightarrow> size (filter_mset (answers_to v) (mset us)) \<le> 1)"
  by (simp add: login_unique_def flip: mset_filter)

lemma identity_free:
  assumes "gorm_table (T_User (g_All e)) us" and "ensureLoginIdentityUnique e a uid username i d = None"
    and "v \<noteq> ''''" and "v = uid \<or> v = username" and "u \<in> set (us d)" and "i = 0 \<or> u_ID u \<noteq> i"
  shows "\<not> answers_to v u"
proof -
  let ?vs = "filter (\<lambda>v. v \<noteq> '''') [uid, username]"
  let ?P = "\<lambda>u. (\<exists>v\<in>set ?vs. u_UID u = v \<or> u_Username u = v) \<and> (i \<noteq> 0 \<longrightarrow> u_ID u \<noteq> i)"
  have v: "v \<in> set ?vs" using assms(3,4) by auto
  then have ne: "?vs \<noteq> []" by auto
  then obtain found where f: "Find (T_User (g_All e)) ?P d = Inr found" "found = []"
    using assms(2) unfolding ensureLoginIdentityUnique_def Let_def
    by (cases "Find (T_User (g_All e)) ?P d") (auto split: if_splits)
  from gorm_table.find_set [OF assms(1) f(1)] f(2) assms(5) have "\<not> ?P u" by auto
  with v assms(6) show ?thesis unfolding answers_to_def by blast
qed

lemma unique_after_create:
  assumes "login_unique us" and "mset us' = mset us + {#u#}"
    and "\<And>v w. v \<noteq> '''' \<Longrightarrow> answers_to v u \<Longrightarrow> w \<in> set us \<Longrightarrow> \<not> answers_to v w"
  shows "login_unique us'"
  unfolding login_unique_mset
proof (intro allI impI)
  fix v :: string assume v: "v \<noteq> ''''"
  show "size (filter_mset (answers_to v) (mset us')) \<le> 1"
  proof (cases "answers_to v u")
    case True
    then have "filter (answers_to v) us = []" using assms(3) [OF v] by (simp add: filter_empty_conv)
    then have "filter_mset (answers_to v) (mset us) = {#}" by (simp only: mset_filter [symmetric] mset.simps)
    with assms(2) True show ?thesis by simp
  next
    case False
    with assms(1,2) v show ?thesis by (simp add: login_unique_mset)
  qed
qed

lemma size_one_id:
  "distinct (map u_ID us) \<Longrightarrow> length (filter (\<lambda>u. u_ID u = i \<and> Q u) us) \<le> 1"
  by (induction us) (auto simp: filter_empty_conv rev_image_eqI)

lemma unique_after_update:
  fixes us :: "User list"
  assumes "login_unique us" and ids: "distinct (map u_ID us)"
    and m: "mset us' = image_mset (\<lambda>r. if u_ID r = i then f r else r) (mset us)"
    and fid: "\<And>r. u_ID (f r) = i"
    and fresh: "\<And>v r w. v \<noteq> '''' \<Longrightarrow> answers_to v (f r) \<Longrightarrow> w \<in> set us \<Longrightarrow> u_ID w \<noteq> i \<Longrightarrow> \<not> answers_to v w"
  shows "login_unique us'"
  unfolding login_unique_mset
proof (intro allI impI)
  fix v :: string assume v: "v \<noteq> ''''"
  let ?g = "\<lambda>r. if u_ID r = i then f r else r"
  have size: "size (filter_mset (answers_to v) (mset us')) = length (filter (\<lambda>r. answers_to v (?g r)) us)"
    unfolding m filter_mset_image_mset size_image_mset
    by (simp only: mset_filter [symmetric] size_mset)
  show "size (filter_mset (answers_to v) (mset us')) \<le> 1"
  proof (cases "\<exists>w\<in>set us. u_ID w \<noteq> i \<and> answers_to v w")
    case True
    then have "\<not> answers_to v (f r)" for r using fresh [OF v] by blast
    then have "filter (\<lambda>r. answers_to v (?g r)) us = filter (\<lambda>r. u_ID r \<noteq> i) (filter (answers_to v) us)"
      unfolding filter_filter by (intro filter_cong) auto
    then have "length (filter (\<lambda>r. answers_to v (?g r)) us) \<le> length (filter (answers_to v) us)"
      by (metis length_filter_le)
    with assms(1) v size show ?thesis unfolding login_unique_def by (metis le_trans)
  next
    case False
    then have "filter (\<lambda>r. answers_to v (?g r)) us = filter (\<lambda>r. u_ID r = i \<and> answers_to v (f r)) us"
      by (intro filter_cong) auto
    then show ?thesis unfolding size by (simp only: size_one_id [OF ids])
  qed
qed

lemma guardUserUpdate_None:
  assumes "guardUserUpdate e a tx u d = None"
  shows "roleIsSuper e (u_RoleKey u) d \<longrightarrow> callerIsSuper e d"
    and "ensureLoginIdentityUnique e a (fst (updatedLoginIdentity tx u)) (snd (updatedLoginIdentity tx u)) (u_ID u) d = None"
    and "updatedRoleKey tx \<noteq> '''' \<Longrightarrow> updatedRoleKey tx \<noteq> u_RoleKey u \<Longrightarrow> callerIsSuper e d"
  using assms unfolding guardUserUpdate_def Let_def
  by (auto split: if_splits option.splits prod.splits)

text \<open>A super role's row as the caller sees it, and a lookup of a role that fails with a database error.\<close>

definition super_role :: "Role list \<Rightarrow> string \<Rightarrow> bool" where
  "super_role rs k \<longleftrightarrow> k \<noteq> '''' \<and> (\<exists>r\<in>set rs. r_Key r = k \<and> r_IsSuper r)"

definition lookup_fails :: "'d guard_env \<Rightarrow> string \<Rightarrow> 'd \<Rightarrow> bool" where
  "lookup_fails e k d \<longleftrightarrow>
     (\<exists>er. First (T_Role (g_T e)) (\<lambda>r. r_Key r = k) d = Inl er \<and> \<not> Is er (ErrRecordNotFound (T_Role (g_T e))))"

lemma roleIsSuper_iff:
  assumes "gorm_table (T_Role (g_T e)) rls" and "distinct (map r_Key (rls d))"
  shows "roleIsSuper e k d \<longleftrightarrow> super_role (rls d) k \<and> \<not> lookup_fails e k d"
proof (cases "First (T_Role (g_T e)) (\<lambda>r. r_Key r = k) d")
  case (Inl er)
  then show ?thesis using gorm_table.first_none [OF assms(1) Inl]
    by (auto simp: roleIsSuper_def super_role_def lookup_fails_def)
next
  case (Inr r')
  have "r' \<in> set (rls d)" "r_Key r' = k" using gorm_table.first_law [OF assms(1) Inr] by auto
  moreover from this have "r = r'" if "r \<in> set (rls d)" "r_Key r = k" for r
    using that assms(2) by (auto simp: distinct_map inj_on_def)
  ultimately have "(\<exists>r\<in>set (rls d). r_Key r = k \<and> r_IsSuper r) \<longleftrightarrow> r_IsSuper r'" by blast
  then show ?thesis using Inr by (simp add: roleIsSuper_def super_role_def lookup_fails_def)
qed

section \<open>Properties\<close>

text \<open>
  C32: What the guards let a caller without a super role do through generic writes. Role
  keys are unique among the roles the caller sees. A delete of a user passes exactly when
  the user's role is not super or the lookup of that role fails with a database error (the
  guard then lets everybody pass). An update of a user passes only in these cases, and only
  if it does not assign another role. An update or a delete of a role passes exactly when
  the role is not super: the guard does not look at what the update assigns, so that
  \<open>is_super\<close> is not set by an update rests on the scenarios of that column, which the REST
  layer reads. A role created through the hook is neither super nor built in, and a user
  created through it has a role that exists and is not super.
\<close>

theorem no_escalation:
  assumes "gorm_table (T_Role (g_T e)) rls" and "distinct (map r_Key (rls d))"
    and "g_scope e \<noteq> None" and "\<not> callerIsSuper e d"
  shows "(\<forall>u. deleteTarget tx = Some (DestModel (TUser u)) \<longrightarrow>
        (security_delete e False tx d = None \<longleftrightarrow> \<not> super_role (rls d) (u_RoleKey u) \<or> lookup_fails e (u_RoleKey u) d)) \<and>
    (\<forall>u. st_Model tx = Some (TUser u) \<and> security_update e a False tx d = None \<longrightarrow>
        (\<not> super_role (rls d) (u_RoleKey u) \<or> lookup_fails e (u_RoleKey u) d) \<and>
        (updatedRoleKey tx = '''' \<or> updatedRoleKey tx = u_RoleKey u)) \<and>
    (\<forall>r. st_Model tx = Some (TRole r) \<longrightarrow> (security_update e a False tx d = None \<longleftrightarrow> \<not> r_IsSuper r)) \<and>
    (\<forall>r. deleteTarget tx = Some (DestModel (TRole r)) \<longrightarrow> (security_delete e False tx d = None \<longleftrightarrow> \<not> r_IsSuper r)) \<and>
    (\<forall>v t. hardenResource e a v d = Inr t \<longrightarrow>
        (\<forall>r. t = TRole r \<longrightarrow> \<not> r_IsSuper r \<and> \<not> r_Builtin r) \<and>
        (\<forall>u. t = TUser u \<longrightarrow> (\<exists>r\<in>set (rls d). r_Key r = u_RoleKey u \<and> \<not> r_IsSuper r)))"
proof (intro conjI allI impI; (elim conjE)?)
  note apps = security_update_def security_delete_def guardApplies_def guardUpdate_def guardDelete_def statementModel_def
  note super = roleIsSuper_iff [OF assms(1,2)]
  fix u assume "deleteTarget tx = Some (DestModel (TUser u))"
  then show "security_delete e False tx d = None \<longleftrightarrow> \<not> super_role (rls d) (u_RoleKey u) \<or> lookup_fails e (u_RoleKey u) d"
    using assms(3,4) by (auto simp: apps super)
next
  fix u assume "st_Model tx = Some (TUser u)" "security_update e a False tx d = None"
  then have g: "guardUserUpdate e a tx u d = None"
    using assms(3) by (simp add: security_update_def guardApplies_def guardUpdate_def statementModel_def)
  show "\<not> super_role (rls d) (u_RoleKey u) \<or> lookup_fails e (u_RoleKey u) d"
    using guardUserUpdate_None(1) [OF g] assms(4) roleIsSuper_iff [OF assms(1,2)] by blast
  show "updatedRoleKey tx = '''' \<or> updatedRoleKey tx = u_RoleKey u"
    using guardUserUpdate_None(3) [OF g] assms(4) by blast
next
  fix r assume "st_Model tx = Some (TRole r)"
  then show "security_update e a False tx d = None \<longleftrightarrow> \<not> r_IsSuper r"
    using assms(3,4) by (simp add: security_update_def guardApplies_def guardUpdate_def statementModel_def)
next
  fix r assume "deleteTarget tx = Some (DestModel (TRole r))"
  then show "security_delete e False tx d = None \<longleftrightarrow> \<not> r_IsSuper r"
    using assms(3,4) by (simp add: security_delete_def guardApplies_def guardDelete_def)
next
  fix v t r assume "hardenResource e a v d = Inr t" "t = TRole r"
  then show "\<not> r_IsSuper r" "\<not> r_Builtin r"
    by (auto simp: hardenResource_def split: target.splits if_splits option.splits)
next
  fix v t u assume "hardenResource e a v d = Inr t" "t = TUser u"
  then have "ensureCallerMayAssignRole e a (u_RoleKey u) d = None"
    by (auto simp: hardenResource_def split: target.splits if_splits option.splits)
  then obtain r where "First (T_Role (g_T e)) (\<lambda>r. r_Key r = u_RoleKey u) d = Inr r" "\<not> r_IsSuper r"
    using assms(4) by (auto simp: ensureCallerMayAssignRole_def split: sum.splits if_splits)
  with gorm_table.first_law [OF assms(1)] show "\<exists>r\<in>set (rls d). r_Key r = u_RoleKey u \<and> \<not> r_IsSuper r" by blast
qed

text \<open>
  C33: One login namespace. If every identifier belongs to at most one user, it still does
  after a user is created through the REST hook or updated past the guard (the
  update writes the merged identity into the row under its primary key), so the lookup of a
  login never finds two users.
\<close>

theorem login_namespace_kept:
  assumes "gorm_table (T_User (g_All e)) us" and "login_unique (us d)" and "distinct (map u_ID (us d))"
    and "hardenResource e a (TUser u) d = Inr t \<and> u_UID u' = u_UID u \<and> u_Username u' = u_Username u \<and>
           Create (T_User (g_All e)) [u'] d = (None, d') \<or>
         security_update e a False tx d = None \<and> g_scope e \<noteq> None \<and> st_Model tx = Some (TUser v) \<and> u_ID v \<noteq> 0 \<and>
           (\<forall>r. u_ID (f r) = u_ID v \<and> (u_UID (f r), u_Username (f r)) = updatedLoginIdentity tx v) \<and>
           Update (T_User (g_All e)) (\<lambda>r. u_ID r = u_ID v) f d = (Inr n, d')"
  shows "login_unique (us d')"
  using assms(4)
proof
  assume c: "hardenResource e a (TUser u) d = Inr t \<and> u_UID u' = u_UID u \<and> u_Username u' = u_Username u \<and>
    Create (T_User (g_All e)) [u'] d = (None, d')"
  then have "ensureLoginIdentityUnique e a (u_UID u) (u_Username u) 0 d = None"
    by (auto simp: hardenResource_def split: if_splits option.splits)
  from identity_free [OF assms(1) this] c show ?thesis
    using gorm_table.create_law [OF assms(1), of "[u']" d d']
    by (intro unique_after_create [OF assms(2)]) (auto simp: answers_to_def)
next
  assume c: "security_update e a False tx d = None \<and> g_scope e \<noteq> None \<and> st_Model tx = Some (TUser v) \<and> u_ID v \<noteq> 0 \<and>
    (\<forall>r. u_ID (f r) = u_ID v \<and> (u_UID (f r), u_Username (f r)) = updatedLoginIdentity tx v) \<and>
    Update (T_User (g_All e)) (\<lambda>r. u_ID r = u_ID v) f d = (Inr n, d')"
  then have "guardUserUpdate e a tx v d = None"
    by (auto simp: security_update_def guardApplies_def guardUpdate_def statementModel_def split: if_splits)
  note free = identity_free [OF assms(1) guardUserUpdate_None(2) [OF this]]
  from c have "mset (us d') = image_mset (\<lambda>r. if u_ID r = u_ID v then f r else r) (mset (us d))"
    using gorm_table.update_law [OF assms(1)] by blast
  then show ?thesis
  proof (rule unique_after_update [OF assms(2,3)])
    show "u_ID (f r) = u_ID v" for r using c by blast
    fix x r w assume "x \<noteq> ''''" "answers_to x (f r)" "w \<in> set (us d)" "u_ID w \<noteq> u_ID v"
    moreover have "fst (updatedLoginIdentity tx v) = u_UID (f r)" "snd (updatedLoginIdentity tx v) = u_Username (f r)"
      using c by (metis fst_conv, metis snd_conv)
    ultimately show "\<not> answers_to x w" by (intro free) (auto simp: answers_to_def)
  qed
qed

definition sample_gdb :: memdb where
  "sample_gdb = sample_sdb\<lparr>gdb_users :=
     [sample_user\<lparr>u_ID := 7, u_UID := ''u7'', u_Username := ''ann'', u_RoleKey := ''ops''\<rparr>]\<rparr>"

definition sample_genv :: "memdb guard_env" where
  "sample_genv = \<lparr>g_T = mem_tables, g_All = mem_tables, g_scope = Some ''u7'', g_Sprintf = (\<lambda>f _. f)\<rparr>"

definition sample_new_user :: User where
  "sample_new_user = sample_user\<lparr>u_ID := 8, u_UID := ''u8'', u_Username := ''bob'', u_RoleKey := ''ops''\<rparr>"

lemma sample_genv_tables [simp]: "g_T sample_genv = mem_tables" "g_All sample_genv = mem_tables"
  by (simp_all add: sample_genv_def)

theorem no_escalation_witness:
  "\<exists>t. hardenResource sample_genv 900 (TUser sample_new_user) sample_gdb = Inr t \<and>
     (\<exists>r\<in>set (gdb_roles sample_gdb). r_Key r = ''ops'' \<and> \<not> r_IsSuper r)"
proof -
  have h: "hardenResource sample_genv 900 (TUser sample_new_user) sample_gdb = Inr (TUser sample_new_user)"
    unfolding sample_new_user_def by code_simp
  have k: "distinct (map r_Key (gdb_roles sample_gdb))" "g_scope sample_genv \<noteq> None" "\<not> callerIsSuper sample_genv sample_gdb"
    by code_simp+
  have g: "gorm_table (T_Role (g_T sample_genv)) gdb_roles" using mem_tables_gorm by simp
  from no_escalation [OF g k, THEN conjunct2, THEN conjunct2, THEN conjunct2, THEN conjunct2] h
  have "\<exists>r\<in>set (gdb_roles sample_gdb). r_Key r = u_RoleKey sample_new_user \<and> \<not> r_IsSuper r" by blast
  with h show ?thesis by (auto simp: sample_new_user_def)
qed

theorem login_namespace_kept_witness:
  "\<exists>d'. Create (T_User (g_All sample_genv)) [sample_new_user] sample_gdb = (None, d') \<and> login_unique (gdb_users d')"
proof -
  have h: "hardenResource sample_genv 900 (TUser sample_new_user) sample_gdb = Inr (TUser sample_new_user)"
    unfolding sample_new_user_def by code_simp
  have u: "login_unique (gdb_users sample_gdb)" "distinct (map u_ID (gdb_users sample_gdb))"
    by (simp_all add: login_unique_def sample_gdb_def)
  have g: "gorm_table (T_User (g_All sample_genv)) gdb_users" using mem_tables_gorm by simp
  have c: "Create (T_User (g_All sample_genv)) [sample_new_user] sample_gdb =
      (None, sample_gdb\<lparr>gdb_users := gdb_users sample_gdb @ [sample_new_user]\<rparr>)"
    by (simp add: mem_tables_def mem_table_def)
  from login_namespace_kept [OF g u disjI1, OF conjI, OF h] c show ?thesis by blast
qed

end
