(* ===== verification/Setup.thy ===== *)
theory Setup
  imports Guards
begin

text \<open>
  Package \<open>admin\<close>, files \<open>derive.go\<close>, \<open>seed.go\<close> and \<open>setup_converge.go\<close>: how the menus, the
  permission catalogue and the bootstrap rows of a database are brought to the state the
  module expects, on every start.

  The tables come in two views: the ordinary one hides soft-deleted rows, the unscoped
  one (\<open>se_Menu_all\<close>, \<open>se_Perm_all\<close>) shows them. What the code learns of a registered model
  from package rest is the record \<open>resource\<close>. \<open>Errorf\<close> stands for \<open>fmt.Errorf\<close> with a verb
  for the wrapped error: it takes the format, its arguments and the error. Non-ASCII
  literals are written as their UTF-8 bytes.
\<close>

definition utf8 :: "nat list \<Rightarrow> string" where
  "utf8 bs = map char_of bs"

record 'd setup_env =
  se_T :: "'d grant_tables"
  se_Menu_all :: "(Menu, 'd) table_ops"
  se_Perm_all :: "(Permission, 'd) table_ops"
  se_Tenant :: "(Tenant, 'd) table_ops"
  Errorf :: "string \<Rightarrow> string list \<Rightarrow> goerror \<Rightarrow> goerror"

subsection \<open>Names derived from a model\<close>

record resource =
  rs_Module :: string
  rs_Table :: string
  rs_Singular :: string
  rs_ScenarioProvider :: "string list option"
  rs_HasScenario :: "string \<Rightarrow> bool"
  rs_BuildUri :: "string \<Rightarrow> string \<times> string"
  rs_MenuName :: "string option"
  rs_PermissionGroup :: "string option"

record MenuSpec =
  ms_Component :: string
  ms_Uri :: string
  ms_ViewPath :: string
  ms_Name :: string
  ms_Icon :: string
  ms_Parent :: string
  ms_Sort :: int
  ms_Hidden :: bool
  ms_Public :: bool
  ms_Description :: string

text \<open>For the ASCII names of modules and tables, where a rune is a byte.\<close>

definition pascalWords :: "string \<Rightarrow> string" where
  "pascalWords s =
     (if s = '''' then ''''
      else JoinStr (map (\<lambda>p. ToUpper (take 1 p) @ ToLower (drop 1 p))
                     (FieldsFunc (\<lambda>r. r = CHR ''_'' \<or> r = CHR ''-'') s)) '''')"

definition deriveUri :: "string \<Rightarrow> string \<Rightarrow> string" where
  "deriveUri md tb =
     (if md = '''' \<or> tb = '''' then ''''
      else ''/'' @ ReplaceAll md ''_'' ''-'' @ ''/'' @ ReplaceAll tb ''_'' ''-'')"

text \<open>\<open>path.Join\<close> of names that are no path themselves: the parts joined by slashes.\<close>

definition deriveViewPath :: "resource \<Rightarrow> string" where
  "deriveViewPath r =
     (if rs_Module r = '''' \<or> rs_Singular r = '''' then ''''
      else JoinStr [''@/views'', ToLower (rs_Module r), rs_Singular r, ''Index.vue''] ''/'')"

definition fillDerivedSpec :: "resource \<Rightarrow> MenuSpec \<Rightarrow> MenuSpec" where
  "fillDerivedSpec r spec =
     (let s1 = (if ms_Component spec = '''' then spec\<lparr>ms_Component := pascalWords (rs_Module r) @ pascalWords (rs_Table r)\<rparr> else spec);
          s2 = (if ms_Uri s1 = '''' then s1\<lparr>ms_Uri := deriveUri (rs_Module r) (rs_Table r)\<rparr> else s1)
      in if ms_ViewPath s2 = '''' then s2\<lparr>ms_ViewPath := deriveViewPath r\<rparr> else s2)"

subsection \<open>Menus\<close>

definition menu_row :: "MenuSpec \<Rightarrow> Menu" where
  "menu_row spec =
     \<lparr>m_ID = 0, m_Parent = ms_Parent spec, m_Name = ms_Name spec, m_Component = ms_Component spec, m_Uri = ms_Uri spec,
      m_ViewPath = ms_ViewPath spec, m_Icon = ms_Icon spec, m_Hidden = ms_Hidden spec, m_Public = ms_Public spec,
      m_Sort = ms_Sort spec, m_Description = ms_Description spec\<rparr>"

definition ensureMenuRow :: "('d, 'x) setup_env_scheme \<Rightarrow> MenuSpec \<Rightarrow> 'd \<Rightarrow> (bool \<times> goerror option) \<times> 'd" where
  "ensureMenuRow e spec d =
     (if ms_Component spec = '''' \<or> ms_Name spec = '''' then ((False, None), d)
      else (case First (se_Menu_all e) (\<lambda>m. m_Component m = ms_Component spec) d of
              Inr _ \<Rightarrow> ((False, None), d)
            | Inl er \<Rightarrow>
                if \<not> Is er (ErrRecordNotFound (se_Menu_all e)) then ((False, Some er), d)
                else (case Create (T_Menu (se_T e)) [menu_row spec] d of (r, d1) \<Rightarrow> ((True, r), d1))))"

definition no_spec :: MenuSpec where
  "no_spec = \<lparr>ms_Component = '''', ms_Uri = '''', ms_ViewPath = '''', ms_Name = '''', ms_Icon = '''', ms_Parent = '''',
     ms_Sort = 0, ms_Hidden = False, ms_Public = False, ms_Description = ''''\<rparr>"

definition sectionMenuSpecs :: "MenuSpec list" where
  "sectionMenuSpecs =
     [no_spec\<lparr>ms_Component := ''SystemUserCenter'', ms_Name := utf8 [231, 148, 168, 230, 136, 183, 228, 184, 173, 229, 191, 131], ms_Icon := ''UserFilled'', ms_Sort := 10\<rparr>,
      no_spec\<lparr>ms_Component := ''SystemLogs'', ms_Name := utf8 [230, 151, 165, 229, 191, 151, 232, 174, 176, 229, 189, 149], ms_Icon := ''Tickets'', ms_Sort := 20\<rparr>,
      no_spec\<lparr>ms_Component := ''SystemSettings'', ms_Name := utf8 [231, 179, 187, 231, 187, 159, 232, 174, 190, 231, 189, 174], ms_Icon := ''Tools'', ms_Sort := 30\<rparr>]"

definition rolePermissionMenuSpec :: MenuSpec where
  "rolePermissionMenuSpec = no_spec\<lparr>ms_Component := ''SystemSysRolesPermission'', ms_Parent := ''SystemSysRoles'',
     ms_Name := utf8 [230, 157, 131, 233, 153, 144, 233, 133, 141, 231, 189, 174], ms_Uri := ''/system/sys_role/perm/:roleKey'',
     ms_ViewPath := ''@/views/system/sys_role/Permission.vue'', ms_Sort := 10\<rparr>"

fun section_loop :: "('d, 'x) setup_env_scheme \<Rightarrow> MenuSpec list \<Rightarrow> 'd \<Rightarrow> goerror option \<times> 'd" where
  "section_loop e [] d = (None, d)"
| "section_loop e (spec # specs) d =
     (if ms_Component spec = '''' \<or> ms_Name spec = '''' then section_loop e specs d
      else (case First (se_Menu_all e) (\<lambda>m. m_Component m = ms_Component spec) d of
              Inr _ \<Rightarrow> section_loop e specs d
            | Inl er \<Rightarrow>
                if \<not> Is er (ErrRecordNotFound (se_Menu_all e))
                then (Some (Errorf e ''lookup section menu %q: %w'' [ms_Component spec] er), d)
                else (case Create (T_Menu (se_T e)) [menu_row (no_spec\<lparr>ms_Component := ms_Component spec,
                             ms_Name := ms_Name spec, ms_Icon := ms_Icon spec, ms_Sort := ms_Sort spec\<rparr>)] d of
                        (Some er', d1) \<Rightarrow> (Some (Errorf e ''insert section menu %q: %w'' [ms_Component spec] er'), d1)
                      | (None, d1) \<Rightarrow> section_loop e specs d1)))"

definition EnsureSectionMenus :: "('d, 'x) setup_env_scheme \<Rightarrow> 'd \<Rightarrow> goerror option \<times> 'd" where
  "EnsureSectionMenus e d = section_loop e sectionMenuSpecs d"

definition EnsureRolePermissionMenu :: "('d, 'x) setup_env_scheme \<Rightarrow> 'd \<Rightarrow> goerror option \<times> 'd" where
  "EnsureRolePermissionMenu e d =
     (let spec = rolePermissionMenuSpec in
      if ms_Component spec = '''' \<or> ms_Name spec = '''' then (None, d)
      else (case First (se_Menu_all e) (\<lambda>m. m_Component m = ms_Component spec) d of
              Inr _ \<Rightarrow> (None, d)
            | Inl er \<Rightarrow>
                if \<not> Is er (ErrRecordNotFound (se_Menu_all e))
                then (Some (Errorf e ''lookup role permission menu %q: %w'' [ms_Component spec] er), d)
                else Create (T_Menu (se_T e)) [menu_row (no_spec\<lparr>ms_Component := ms_Component spec, ms_Parent := ms_Parent spec,
                       ms_Name := ms_Name spec, ms_Uri := ms_Uri spec, ms_ViewPath := ms_ViewPath spec,
                       ms_Sort := ms_Sort spec\<rparr>)] d))"

definition validateMenuParentsRef ::
  "('d, 'x) setup_env_scheme \<Rightarrow> (string \<times> string \<Rightarrow> string) \<Rightarrow> (nat \<Rightarrow> string \<Rightarrow> goerror) \<Rightarrow> 'd \<Rightarrow> goerror option" where
  "validateMenuParentsRef e arrow failure d =
     (case Find (T_Menu (se_T e)) (\<lambda>_. True) d of
        Inl er \<Rightarrow> Some (Errorf e ''list sys_menus: %w'' [] er)
      | Inr rws \<Rightarrow>
          if rws = [] then None
          else (let have = set (map m_Component rws);
                    orphans = map (\<lambda>m. arrow (m_Component m, m_Parent m))
                      (filter (\<lambda>m. m_Parent m \<noteq> '''' \<and> m_Parent m \<notin> have) rws)
                in if orphans \<noteq> [] then Some (failure (length orphans) (JoinStr orphans ''; '')) else None))"

subsection \<open>The permission catalogue\<close>

text \<open>The scenario names are constants of package rest.\<close>

record scenario_names =
  ScenarioCreate :: string
  ScenarioUpdate :: string
  ScenarioDelete :: string
  ScenarioSearch :: string
  ScenarioDetail :: string
  ScenarioExport :: string

definition canonicalPermissionScenarios :: "scenario_names \<Rightarrow> string list" where
  "canonicalPermissionScenarios k =
     [ScenarioCreate k, ScenarioUpdate k, ScenarioDelete k, ScenarioSearch k, ScenarioDetail k, ScenarioExport k]"

definition scenarioCNLabel :: "scenario_names \<Rightarrow> string \<Rightarrow> string" where
  "scenarioCNLabel k scenario =
     (if scenario = ScenarioCreate k then utf8 [229, 136, 155, 229, 187, 186]
      else if scenario = ScenarioUpdate k then utf8 [230, 155, 180, 230, 150, 176]
      else if scenario = ScenarioDelete k then utf8 [229, 136, 160, 233, 153, 164]
      else if scenario = ScenarioSearch k then utf8 [229, 136, 151, 232, 161, 168]
      else if scenario = ScenarioDetail k then utf8 [232, 175, 166, 230, 131, 133]
      else if scenario = ScenarioExport k then utf8 [229, 175, 188, 229, 135, 186]
      else scenario)"

text \<open>The resource is \<open>None\<close> for a nil pointer.\<close>

definition permissionScenarios :: "scenario_names \<Rightarrow> resource option \<Rightarrow> string list" where
  "permissionScenarios k ro =
     (case ro of
        None \<Rightarrow> []
      | Some r \<Rightarrow>
          (case rs_ScenarioProvider r of
             Some sc \<Rightarrow> sc
           | None \<Rightarrow> filter (rs_HasScenario r) (canonicalPermissionScenarios k)))"

definition permissionResourceLabel :: "resource option \<Rightarrow> string" where
  "permissionResourceLabel ro =
     (case ro of
        None \<Rightarrow> ''''
      | Some r \<Rightarrow>
          if (case rs_MenuName r of Some name \<Rightarrow> name \<noteq> '''' | None \<Rightarrow> False) then the (rs_MenuName r)
          else if rs_Module r \<noteq> '''' \<and> rs_Table r \<noteq> '''' then rs_Module r @ ''/'' @ rs_Table r
          else rs_Table r)"

definition permissionGroup :: "resource option \<Rightarrow> string" where
  "permissionGroup ro =
     (case ro of
        None \<Rightarrow> ''''
      | Some r \<Rightarrow>
          if (case rs_PermissionGroup r of Some g \<Rightarrow> g \<noteq> '''' | None \<Rightarrow> False) then the (rs_PermissionGroup r)
          else permissionResourceLabel ro)"

definition permissionCode :: "scenario_names \<Rightarrow> resource option \<Rightarrow> string \<Rightarrow> string \<times> string \<times> string" where
  "permissionCode k ro scenario =
     (case ro of
        None \<Rightarrow> ('''', '''', '''')
      | Some r \<Rightarrow>
          (let (mth, uri0) = rs_BuildUri r scenario in
           if uri0 = '''' then ('''', '''', '''')
           else (let uri = (if hd uri0 \<noteq> CHR ''/'' then ''/'' @ uri0 else uri0) in
                 (mth @ '' '' @ uri, scenarioCNLabel k scenario @ '' '' @ permissionResourceLabel ro, permissionGroup ro))))"

definition api_row :: "string \<Rightarrow> string \<Rightarrow> string \<Rightarrow> Permission" where
  "api_row dt desc g = \<lparr>p_ID = 0, p_Type = PermissionTypeAPI, p_Data = dt, p_Description = desc, p_Group = g\<rparr>"

definition endpointPermissionCodes :: "(string \<times> string \<times> string) list" where
  "endpointPermissionCodes =
     [(''GET /rest/model-types/:module/:table'', utf8 [233, 128, 137, 233, 161, 185, 230, 159, 165, 232, 175, 162] @ '' '' @ utf8 [229, 133, 131, 230, 149, 176, 230, 141, 174, 228, 184, 139, 230, 139, 137], utf8 [231, 179, 187, 231, 187, 159]),
      (''GET /rest/model-tiers/:module/:table'', utf8 [229, 177, 130, 231, 186, 167, 230, 159, 165, 232, 175, 162] @ '' '' @ utf8 [230, 160, 145, 229, 189, 162, 233, 128, 137, 230, 139, 169], utf8 [231, 179, 187, 231, 187, 159]),
      (''GET /schema/:module/:table'', ''Schema '' @ utf8 [229, 133, 131, 230, 149, 176, 230, 141, 174], utf8 [231, 179, 187, 231, 187, 159]),
      (''GET /dashboard/overview'', utf8 [230, 159, 165, 232, 175, 162] @ '' '' @ utf8 [229, 183, 165, 228, 189, 156, 229, 143, 176, 230, 166, 130, 232, 167, 136], utf8 [229, 183, 165, 228, 189, 156, 229, 143, 176]),
      (''GET /role/options'', utf8 [233, 128, 137, 233, 161, 185, 230, 159, 165, 232, 175, 162] @ '' '' @ utf8 [232, 167, 146, 232, 137, 178, 228, 184, 139, 230, 139, 137], utf8 [232, 167, 146, 232, 137, 178]),
      (''GET /role/permissions'', utf8 [230, 159, 165, 232, 175, 162] @ '' '' @ utf8 [232, 167, 146, 232, 137, 178, 230, 142, 136, 230, 157, 131], utf8 [232, 167, 146, 232, 137, 178]),
      (''PUT /role/permissions'', utf8 [230, 155, 180, 230, 150, 176] @ '' '' @ utf8 [232, 167, 146, 232, 137, 178, 230, 142, 136, 230, 157, 131], utf8 [232, 167, 146, 232, 137, 178]),
      (''GET /role/menus'', utf8 [230, 159, 165, 232, 175, 162] @ '' '' @ utf8 [232, 167, 146, 232, 137, 178, 232, 143, 156, 229, 141, 149], utf8 [232, 167, 146, 232, 137, 178]),
      (''GET /permission/catalog'', utf8 [230, 159, 165, 232, 175, 162] @ '' '' @ utf8 [230, 157, 131, 233, 153, 144, 231, 155, 174, 229, 189, 149], utf8 [230, 157, 131, 233, 153, 144]),
      (''GET /permission/list'', utf8 [230, 159, 165, 232, 175, 162] @ '' '' @ utf8 [230, 157, 131, 233, 153, 144, 229, 136, 151, 232, 161, 168], utf8 [230, 157, 131, 233, 153, 144]),
      (''GET /menu/tree'', utf8 [230, 159, 165, 232, 175, 162] @ '' '' @ utf8 [232, 143, 156, 229, 141, 149, 230, 160, 145], utf8 [232, 143, 156, 229, 141, 149]),
      (''GET /menu/all'', utf8 [230, 159, 165, 232, 175, 162] @ '' '' @ utf8 [229, 133, 168, 233, 131, 168, 232, 143, 156, 229, 141, 149], utf8 [232, 143, 156, 229, 141, 149]),
      (''GET /menu/options'', utf8 [230, 159, 165, 232, 175, 162] @ '' '' @ utf8 [232, 143, 156, 229, 141, 149, 233, 128, 137, 233, 161, 185], utf8 [232, 143, 156, 229, 141, 149]),
      (''GET /menu/breadcrumb'', utf8 [230, 159, 165, 232, 175, 162] @ '' '' @ utf8 [233, 157, 162, 229, 140, 133, 229, 177, 145], utf8 [232, 143, 156, 229, 141, 149]),
      (''GET /tenant/options'', utf8 [233, 128, 137, 233, 161, 185, 230, 159, 165, 232, 175, 162] @ '' '' @ utf8 [231, 167, 159, 230, 136, 183, 228, 184, 139, 230, 139, 137], utf8 [231, 167, 159, 230, 136, 183]),
      (''GET /tenant/detail'', utf8 [230, 159, 165, 232, 175, 162] @ '' '' @ utf8 [231, 167, 159, 230, 136, 183, 232, 175, 166, 230, 131, 133], utf8 [231, 167, 159, 230, 136, 183]),
      (''POST /user/reset-password'', utf8 [233, 135, 141, 231, 189, 174] @ '' '' @ utf8 [231, 148, 168, 230, 136, 183, 229, 175, 134, 231, 160, 129], utf8 [231, 148, 168, 230, 136, 183])]"

text \<open>
  The loops. \<open>migrate\<close> is the outcome of \<open>AutoMigrate\<close> (\<open>None\<close> when it is off or
  succeeds): it changes no rows.
\<close>

fun endpoint_loop :: "('d, 'x) setup_env_scheme \<Rightarrow> (string \<times> string \<times> string) list \<Rightarrow> 'd \<Rightarrow> goerror option \<times> 'd" where
  "endpoint_loop e [] d = (None, d)"
| "endpoint_loop e ((dt, desc, g) # codes) d =
     (case First (se_Perm_all e) (\<lambda>p. p_Data p = dt) d of
        Inr _ \<Rightarrow> endpoint_loop e codes d
      | Inl er \<Rightarrow>
          if \<not> Is er (ErrRecordNotFound (se_Perm_all e))
          then (Some (Errorf e ''lookup sys_permission %q: %w'' [dt] er), d)
          else (case Create (T_Permission (se_T e)) [api_row dt desc g] d of
                  (Some er', d1) \<Rightarrow> (Some (Errorf e ''auto-create endpoint permission %q: %w'' [dt] er'), d1)
                | (None, d1) \<Rightarrow> endpoint_loop e codes d1))"

definition ensureEndpointPermissions :: "('d, 'x) setup_env_scheme \<Rightarrow> goerror option \<Rightarrow> 'd \<Rightarrow> goerror option \<times> 'd" where
  "ensureEndpointPermissions e migrate d =
     (case migrate of
        Some er \<Rightarrow> (Some (Errorf e ''migrate sys_permissions: %w'' [] er), d)
      | None \<Rightarrow> endpoint_loop e endpointPermissionCodes d)"

fun permission_loop :: "('d, 'x) setup_env_scheme \<Rightarrow> scenario_names \<Rightarrow> resource \<Rightarrow> string list \<Rightarrow> 'd \<Rightarrow> goerror option \<times> 'd" where
  "permission_loop e k r [] d = (None, d)"
| "permission_loop e k r (sc # scs) d =
     (let (dt, desc, g) = permissionCode k (Some r) sc in
      if dt = '''' then permission_loop e k r scs d
      else (case First (se_Perm_all e) (\<lambda>p. p_Data p = dt) d of
         Inr existing \<Rightarrow>
           if p_Group existing = '''' \<and> g \<noteq> '''' then
             (case Update (T_Permission (se_T e)) (\<lambda>p. p_ID p = p_ID existing) (\<lambda>p. p\<lparr>p_Group := g\<rparr>) d of
                (Inl er, d1) \<Rightarrow> (Some (Errorf e ''back-fill group on %q: %w'' [dt] er), d1)
              | (Inr _, d1) \<Rightarrow> permission_loop e k r scs d1)
           else permission_loop e k r scs d
       | Inl er \<Rightarrow>
           if \<not> Is er (ErrRecordNotFound (se_Perm_all e))
           then (Some (Errorf e ''lookup sys_permission %q: %w'' [dt] er), d)
           else (case Create (T_Permission (se_T e)) [api_row dt desc g] d of
                   (Some er', d1) \<Rightarrow> (Some (Errorf e ''auto-create permission %q: %w'' [dt] er'), d1)
                 | (None, d1) \<Rightarrow> permission_loop e k r scs d1)))"

definition ensurePermissionRows ::
  "('d, 'x) setup_env_scheme \<Rightarrow> scenario_names \<Rightarrow> goerror option \<Rightarrow> resource \<Rightarrow> string list option \<Rightarrow> 'd \<Rightarrow> goerror option \<times> 'd" where
  "ensurePermissionRows e k migrate r overrideScenarios d =
     (case migrate of
        Some er \<Rightarrow> (Some (Errorf e ''migrate sys_permissions: %w'' [] er), d)
      | None \<Rightarrow>
          if rs_Module r = '''' \<or> rs_Table r = '''' then (None, d)
          else permission_loop e k r
                 (case overrideScenarios of None \<Rightarrow> permissionScenarios k (Some r) | Some sc \<Rightarrow> sc) d)"

end
