(* ===== verification/Seed.thy ===== *)
theory Seed
  imports Setup
begin

text \<open>
  Package \<open>admin\<close>, file \<open>seed.go\<close>, and the clean-up of \<open>setup_converge.go\<close>: the bootstrap
  transaction that runs on every start. It ensures the section menus, the default tenant,
  the super-administrator role and user, tops up the grants of every super role and, with
  tenant scoping, gives every tenant its copy of the schema templates.

  All reads and writes go through handles that span tenants. Rows of \<open>sys_schemas\<close> are of
  package rest: besides the columns read here they carry a payload \<open>'m\<close>.
\<close>

subsection \<open>Environment\<close>

record 'm schema_row =
  sc_Id :: nat
  sc_TenantID :: string
  sc_ModuleName :: string
  sc_TableName :: string
  sc_Column :: string
  sc_CreatedAt :: int
  sc_UpdatedAt :: int
  sc_payload :: 'm

record ('d, 'm) seed_env = "'d setup_env" +
  se_Schema :: "('m schema_row, 'd) table_ops"
  se_scoping :: bool
  se_Commit :: "'d \<Rightarrow> goerror option"
  se_gen :: "string \<Rightarrow> goerror + string"

text \<open>Steps that may fail, in sequence.\<close>

definition and_then :: "goerror option \<times> 'd \<Rightarrow> ('d \<Rightarrow> goerror option \<times> 'd) \<Rightarrow> goerror option \<times> 'd" where
  "and_then r f = (case r of (Some er, d) \<Rightarrow> (Some er, d) | (None, d) \<Rightarrow> f d)"

text \<open>
  \<open>Where(..).Attrs(..).FirstOrCreate(..)\<close>: the row that matches, or the attributes as a
  new row after the create hook; the flag says whether a row was created.
\<close>

definition FirstOrCreate ::
  "('r, 'd) table_ops \<Rightarrow> ('r \<Rightarrow> goerror + 'r) \<Rightarrow> ('r \<Rightarrow> bool) \<Rightarrow> 'r \<Rightarrow> 'd \<Rightarrow> (goerror + 'r \<times> bool) \<times> 'd" where
  "FirstOrCreate ops hook P attrs d =
     (case First ops P d of
        Inr r \<Rightarrow> (Inr (r, False), d)
      | Inl er \<Rightarrow>
          if \<not> Is er (ErrRecordNotFound ops) then (Inl er, d)
          else (case hook attrs of
                  Inl er' \<Rightarrow> (Inl er', d)
                | Inr r \<Rightarrow> (case Create ops [r] d of (Some er', d1) \<Rightarrow> (Inl er', d1) | (None, d1) \<Rightarrow> (Inr (r, True), d1))))"

subsection \<open>Bootstrap rows\<close>

definition defaultTenantName :: string where "defaultTenantName = utf8 [233, 187, 152, 232, 174, 164, 231, 167, 159, 230, 136, 183]"

definition tenant_row :: "string \<Rightarrow> Tenant" where
  "tenant_row i = \<lparr>t_ID = i, t_Name = defaultTenantName, t_Status = ''enabled'', t_CreatedAt = 0\<rparr>"

definition seed_role :: Role where
  "seed_role = \<lparr>r_ID = 0, r_TenantID = DefaultTenantID, r_Key = ''admin'', r_Name = utf8 [231, 179, 187, 231, 187, 159, 231, 174, 161, 231, 144, 134, 229, 145, 152], r_Status = ''enabled'',
     r_Builtin = True, r_IsSuper = True\<rparr>"

definition seed_user :: "string \<Rightarrow> string \<Rightarrow> string \<Rightarrow> User" where
  "seed_user tid adminUser adminPassword =
     \<lparr>u_ID = 0, u_TenantID = tid, u_UID = ''admin'', u_Username = adminUser, u_RoleKey = ''admin'', u_Status = ''normal'',
      u_DeptID = 0, u_Password = adminPassword, u_Email = '''', u_Avatar = '''', u_Gender = ''other'', u_Description = ''''\<rparr>"

definition ensure_tenant :: "('d, 'm) seed_env \<Rightarrow> string \<Rightarrow> 'd \<Rightarrow> goerror option \<times> 'd" where
  "ensure_tenant e i d =
     (case FirstOrCreate (se_Tenant e) Inr (\<lambda>t. t_ID t = i) (tenant_row i) d of
        (Inl er, d1) \<Rightarrow> (Some er, d1) | (Inr _, d1) \<Rightarrow> (None, d1))"

definition ensure_role :: "('d, 'm) seed_env \<Rightarrow> 'd \<Rightarrow> (goerror + Role) \<times> 'd" where
  "ensure_role e d =
     (case FirstOrCreate (T_Role (se_T e)) (\<lambda>r. Inr (Role_BeforeCreate r)) (\<lambda>r. r_Key r = ''admin'') seed_role d of
        (Inl er, d1) \<Rightarrow> (Inl er, d1)
      | (Inr (role, created), d1) \<Rightarrow>
          (case (if r_TenantID role = ''''
                 then (case Update (T_Role (se_T e)) (\<lambda>r. r_ID r = r_ID role) (\<lambda>r. r\<lparr>r_TenantID := DefaultTenantID\<rparr>) d1 of
                         (Inl er, d2) \<Rightarrow> (Inl er, d2)
                       | (Inr _, d2) \<Rightarrow> (Inr (role\<lparr>r_TenantID := DefaultTenantID\<rparr>), d2))
                 else (Inr role, d1)) of
             (Inl er, d2) \<Rightarrow> (Inl er, d2)
           | (Inr role1, d2) \<Rightarrow>
               if \<not> created \<and> r_Builtin role1 \<and> \<not> r_IsSuper role1
               then (case Update (T_Role (se_T e)) (\<lambda>r. r_ID r = r_ID role1) (\<lambda>r. r\<lparr>r_IsSuper := True\<rparr>) d2 of
                       (Inl er, d3) \<Rightarrow> (Inl er, d3)
                     | (Inr _, d3) \<Rightarrow> (Inr (role1\<lparr>r_IsSuper := True\<rparr>), d3))
               else (Inr role1, d2)))"

definition ensure_user :: "('d, 'm) seed_env \<Rightarrow> nat \<Rightarrow> string \<Rightarrow> string \<Rightarrow> string \<Rightarrow> 'd \<Rightarrow> goerror option \<times> 'd" where
  "ensure_user e a tid adminUser adminPassword d =
     (case FirstOrCreate (T_User (se_T e)) (User_BeforeCreate (se_gen e) a) (\<lambda>u. u_UID u = ''admin'')
             (seed_user tid adminUser adminPassword) d of
        (Inl er, d1) \<Rightarrow> (Some er, d1)
      | (Inr (u, _), d1) \<Rightarrow>
          if u_TenantID u \<noteq> tid
          then (case Update (T_User (se_T e)) (\<lambda>v. u_ID v = u_ID u) (\<lambda>v. v\<lparr>u_TenantID := tid\<rparr>) d1 of
                  (Inl er, d2) \<Rightarrow> (Some er, d2) | (Inr _, d2) \<Rightarrow> (None, d2))
          else (None, d1))"

subsection \<open>Grants of the super roles\<close>

definition grantFullCatalog :: "('d, 'm) seed_env \<Rightarrow> Role \<Rightarrow> 'd \<Rightarrow> goerror option \<times> 'd" where
  "grantFullCatalog e role d =
     (case Find (T_Menu (se_T e)) (\<lambda>_. True) d of
        Inl er \<Rightarrow> (Some er, d)
      | Inr ms \<Rightarrow>
          (case Find (T_Permission (se_T e)) (\<lambda>_. True) d of
             Inl er \<Rightarrow> (Some er, d)
           | Inr ps \<Rightarrow>
               GrantMissingPermissions (se_T e) (r_Key role) (r_TenantID role) (map m_Component ms) (map p_Data ps) d))"

fun super_loop :: "('d, 'm) seed_env \<Rightarrow> Role list \<Rightarrow> 'd \<Rightarrow> goerror option \<times> 'd" where
  "super_loop e [] d = (None, d)"
| "super_loop e (r # rs) d = and_then (grantFullCatalog e r d) (super_loop e rs)"

definition grant_supers :: "('d, 'm) seed_env \<Rightarrow> 'd \<Rightarrow> goerror option \<times> 'd" where
  "grant_supers e d =
     (case Find (T_Role (se_T e)) r_IsSuper d of Inl er \<Rightarrow> (Some er, d) | Inr supers \<Rightarrow> super_loop e supers d)"

subsection \<open>Schema templates\<close>

definition schemaTuple :: "'m schema_row \<Rightarrow> string \<times> string \<times> string" where
  "schemaTuple r = (sc_ModuleName r, sc_TableName r, sc_Column r)"

definition schema_copy :: "string \<Rightarrow> 'm schema_row \<Rightarrow> 'm schema_row" where
  "schema_copy tid r = r\<lparr>sc_Id := 0, sc_TenantID := tid, sc_CreatedAt := 0, sc_UpdatedAt := 0\<rparr>"

fun schema_loop :: "('d, 'm) seed_env \<Rightarrow> 'm schema_row list \<Rightarrow> Tenant list \<Rightarrow> 'd \<Rightarrow> goerror option \<times> 'd" where
  "schema_loop e templates [] d = (None, d)"
| "schema_loop e templates (t # ts) d =
     (case Find (se_Schema e) (\<lambda>r. sc_TenantID r = t_ID t) d of
        Inl er \<Rightarrow> (Some (Errorf e ''ensureTenantSchemas: list schemas for tenant %q: %w'' [t_ID t] er), d)
      | Inr existing \<Rightarrow>
          (let seen = set (map schemaTuple existing);
               missing = map (schema_copy (t_ID t)) (filter (\<lambda>r. schemaTuple r \<notin> seen) templates)
           in if missing = [] then schema_loop e templates ts d
              else (case Create (se_Schema e) missing d of
                      (Some er, d1) \<Rightarrow> (Some (Errorf e ''ensureTenantSchemas: insert tenant schemas for %q: %w'' [t_ID t] er), d1)
                    | (None, d1) \<Rightarrow> schema_loop e templates ts d1)))"

definition ensureTenantSchemas :: "('d, 'm) seed_env \<Rightarrow> 'd \<Rightarrow> goerror option \<times> 'd" where
  "ensureTenantSchemas e d =
     (case Find (se_Tenant e) (\<lambda>_. True) d of
        Inl er \<Rightarrow> (Some (Errorf e ''ensureTenantSchemas: list tenants: %w'' [] er), d)
      | Inr tns \<Rightarrow>
          if tns = [] then (None, d)
          else (case Find (se_Schema e) (\<lambda>r. sc_TenantID r = '''') d of
                  Inl er \<Rightarrow> (Some (Errorf e ''ensureTenantSchemas: list schema templates: %w'' [] er), d)
                | Inr templates \<Rightarrow> if templates = [] then (None, d) else schema_loop e templates tns d))"

subsection \<open>The transaction\<close>

definition seed_rest :: "('d, 'm) seed_env \<Rightarrow> nat \<Rightarrow> string \<Rightarrow> string \<Rightarrow> Role \<Rightarrow> 'd \<Rightarrow> goerror option \<times> 'd" where
  "seed_rest e a adminUser adminPassword role d =
     and_then (if r_TenantID role \<noteq> '''' \<and> r_TenantID role \<noteq> DefaultTenantID then ensure_tenant e (r_TenantID role) d
               else (None, d)) (\<lambda>d.
     and_then (ensure_user e a (r_TenantID role) adminUser adminPassword d) (\<lambda>d.
     and_then (grant_supers e d) (\<lambda>d.
       if se_scoping e then ensureTenantSchemas e d else (None, d))))"

definition seed_body :: "('d, 'm) seed_env \<Rightarrow> nat \<Rightarrow> string \<Rightarrow> string \<Rightarrow> 'd \<Rightarrow> goerror option \<times> 'd" where
  "seed_body e a adminUser adminPassword d =
     and_then (EnsureSectionMenus e d) (\<lambda>d.
     and_then (EnsureRolePermissionMenu e d) (\<lambda>d.
     and_then (ensure_tenant e DefaultTenantID d) (\<lambda>d.
       (case ensure_role e d of
          (Inl er, d1) \<Rightarrow> (Some er, d1)
        | (Inr role, d1) \<Rightarrow> seed_rest e a adminUser adminPassword role d1))))"

definition Seed :: "('d, 'm) seed_env \<Rightarrow> nat \<Rightarrow> bool \<Rightarrow> string \<Rightarrow> string \<Rightarrow> 'd \<Rightarrow> goerror option \<times> 'd" where
  "Seed e a has_db adminUser adminPassword d =
     (if \<not> has_db then (Some (New a CodeInvalid ''admin: Seed requires a non-nil *gorm.DB''), d)
      else if adminUser = '''' \<or> adminPassword = ''''
      then (Some (New a CodeInvalid ''admin: Seed requires non-empty adminUser and adminPassword''), d)
      else (case seed_body e a adminUser adminPassword d of
              (Some er, _) \<Rightarrow> (Some er, d)
            | (None, d1) \<Rightarrow> (case se_Commit e d1 of Some er \<Rightarrow> (Some er, d) | None \<Rightarrow> (None, d1))))"

subsection \<open>Clean-up in single-tenant mode\<close>

definition tenantResourcePermissionData :: "string list" where
  "tenantResourcePermissionData =
     [''POST /system/sys_tenant'', ''PUT /system/sys_tenant/:id'', ''DELETE /system/sys_tenant/:id'',
      ''GET /system/sys_tenants'', ''GET /system/sys_tenant/detail/:id'', ''GET /system/sys_tenant/export'']"

definition tenantManagementMenu :: "Menu \<Rightarrow> bool" where
  "tenantManagementMenu m \<longleftrightarrow> m_Component m = ''SystemSysTenants'' \<and> m_Name m = utf8 [231, 167, 159, 230, 136, 183, 231, 174, 161, 231, 144, 134] \<and> m_Parent m = ''SystemSettings'' \<and>
     m_Uri m = ''/system/sys-tenants'' \<and> m_ViewPath m = ''@/views/system/sys_tenant/Index.vue''"

text \<open>
  The tables given are the unscoped ones. Deleting the menu row runs its hook;
  \<open>has_rps\<close> and \<open>has_perms\<close> say whether the tables exist.
\<close>

definition removeTenantManagementArtifacts :: "('d, 'm, 'x) seed_env_scheme \<Rightarrow> bool \<Rightarrow> bool \<Rightarrow> bool \<Rightarrow> 'd \<Rightarrow> goerror option \<times> 'd" where
  "removeTenantManagementArtifacts e has_db has_rps has_perms d =
     (if \<not> has_db then (None, d)
      else and_then
        (case First (se_Menu_all e) tenantManagementMenu d of
           Inl er \<Rightarrow>
             if \<not> Is er (ErrRecordNotFound (se_Menu_all e))
             then (Some (Errorf e ''lookup tenant management menu: %w'' [] er), d) else (None, d)
         | Inr row \<Rightarrow>
             (case and_then (Delete (se_Menu_all e) (\<lambda>m. m_ID m = m_ID row) d) (Menu_AfterDelete (se_T e) row) of
                (Some er, d1) \<Rightarrow> (Some (Errorf e ''remove tenant management menu: %w'' [] er), d1)
              | (None, d1) \<Rightarrow> (None, d1)))
        (\<lambda>d. and_then
          (if has_rps
           then (case Delete (T_RolePermission (se_T e))
                   (\<lambda>r. rp_Type r = RolePermissionTypePermission \<and> rp_Data r \<in> set tenantResourcePermissionData) d of
                   (Some er, d1) \<Rightarrow> (Some (Errorf e ''remove tenant resource grants: %w'' [] er), d1)
                 | (None, d1) \<Rightarrow> (None, d1))
           else (None, d))
          (\<lambda>d. if has_perms
               then (case Delete (se_Perm_all e) (\<lambda>p. p_Data p \<in> set tenantResourcePermissionData) d of
                       (Some er, d1) \<Rightarrow> (Some (Errorf e ''remove tenant resource permissions: %w'' [] er), d1)
                     | (None, d1) \<Rightarrow> (None, d1))
               else (None, d))))"

subsection \<open>What the bootstrap needs of the tables\<close>

text \<open>
  The grant tables, and tables of menus, permissions and tenants beside them, in one
  database where a write to one table leaves the rows of the others alone.
\<close>

locale seed_db = grant_db "se_T e" rps users roles +
  me: gorm_table "T_Menu (se_T e)" menus +
  pe: gorm_table "T_Permission (se_T e)" perms +
  te: gorm_table "se_Tenant e" tns
  for e :: "('d, 'm) seed_env" and rps users roles menus perms tns +
  assumes menu_frame: "Create (T_Menu (se_T e)) ms d = (x, d') \<Longrightarrow>
      roles d' = roles d \<and> rps d' = rps d \<and> users d' = users d \<and> perms d' = perms d \<and> tns d' = tns d"
    and tenant_frame: "Create (se_Tenant e) ts d = (x, d') \<Longrightarrow>
      roles d' = roles d \<and> rps d' = rps d \<and> users d' = users d \<and> menus d' = menus d \<and> perms d' = perms d"
    and role_create_frame: "Create (T_Role (se_T e)) rls d = (x, d') \<Longrightarrow>
      rps d' = rps d \<and> users d' = users d \<and> menus d' = menus d \<and> perms d' = perms d \<and> tns d' = tns d"
    and role_update_frame: "Update (T_Role (se_T e)) P f d = (y, d') \<Longrightarrow>
      rps d' = rps d \<and> users d' = users d \<and> menus d' = menus d \<and> perms d' = perms d \<and> tns d' = tns d"
    and user_create_frame: "Create (T_User (se_T e)) us d = (x, d') \<Longrightarrow>
      roles d' = roles d \<and> rps d' = rps d \<and> menus d' = menus d \<and> perms d' = perms d \<and> tns d' = tns d"
    and user_update_frame: "Update (T_User (se_T e)) Q g d = (y, d') \<Longrightarrow>
      roles d' = roles d \<and> rps d' = rps d \<and> menus d' = menus d \<and> perms d' = perms d \<and> tns d' = tns d"
    and rp_create_frame: "Create (T_RolePermission (se_T e)) rs d = (x, d') \<Longrightarrow>
      roles d' = roles d \<and> users d' = users d \<and> menus d' = menus d \<and> perms d' = perms d \<and> tns d' = tns d"
    and schema_frame: "Create (se_Schema e) ss d = (x, d') \<Longrightarrow>
      roles d' = roles d \<and> rps d' = rps d \<and> users d' = users d \<and> menus d' = menus d \<and> perms d' = perms d \<and> tns d' = tns d"

lemma and_then_ok:
  "and_then r f = (None, d') \<longleftrightarrow> (\<exists>d1. r = (None, d1) \<and> f d1 = (None, d'))"
  by (cases r) (auto simp: and_then_def split: option.splits)

lemma FirstOrCreate_ok:
  assumes "gorm_table ops rows" and "FirstOrCreate ops hook P attrs d = (Inr (r, c), d')"
  shows "\<not> c \<and> d' = d \<and> r \<in> set (rows d) \<and> P r \<or>
    c \<and> hook attrs = Inr r \<and> Create ops [r] d = (None, d') \<and> set (rows d') = insert r (set (rows d))"
proof (cases "First ops P d")
  case (Inr x)
  with assms(2) gorm_table.first_law [OF assms(1) Inr] show ?thesis by (simp add: FirstOrCreate_def)
next
  case (Inl er)
  with assms(2) have c: "c" "hook attrs = Inr r" "Create ops [r] d = (None, d')"
    by (auto simp: FirstOrCreate_def split: if_splits sum.splits prod.splits option.splits)
  with gorm_table.create_set [OF assms(1) c(3)] show ?thesis by simp
qed

context seed_db
begin

definition above_menus :: "'d \<Rightarrow> 'd \<Rightarrow> bool" where
  "above_menus d d' \<longleftrightarrow> roles d' = roles d \<and> rps d' = rps d \<and> users d' = users d \<and> perms d' = perms d \<and> tns d' = tns d"

lemma menu_create_above: "Create (T_Menu (se_T e)) ms d = (x, d') \<Longrightarrow> above_menus d d'"
  by (simp add: above_menus_def menu_frame)

lemma above_menus_refl [simp]: "above_menus d d"
  by (simp add: above_menus_def)

lemma above_menus_trans: "above_menus d d1 \<Longrightarrow> above_menus d1 d2 \<Longrightarrow> above_menus d d2"
  by (simp add: above_menus_def)

lemma section_loop_frame: "section_loop e specs d = (x, d') \<Longrightarrow> above_menus d d'"
proof (induction specs arbitrary: d)
  case (Cons spec specs)
  show ?case
    using Cons.prems Cons.IH menu_create_above above_menus_trans
    by (auto split: if_splits sum.splits prod.splits option.splits) blast
qed simp

lemma role_menu_frame: "EnsureRolePermissionMenu e d = (x, d') \<Longrightarrow> above_menus d d'"
  using menu_create_above
  by (auto simp: EnsureRolePermissionMenu_def Let_def split: if_splits sum.splits)

lemma ensure_tenant_ok:
  assumes "ensure_tenant e i d = (None, d')"
  shows "set (tns d) \<subseteq> set (tns d')" and "\<exists>t\<in>set (tns d'). t_ID t = i"
    and "roles d' = roles d \<and> rps d' = rps d \<and> users d' = users d \<and> menus d' = menus d \<and> perms d' = perms d"
proof -
  obtain t c where f: "FirstOrCreate (se_Tenant e) Inr (\<lambda>t. t_ID t = i) (tenant_row i) d = (Inr (t, c), d')"
    using assms by (auto simp: ensure_tenant_def split: prod.splits sum.splits)
  note f = FirstOrCreate_ok [OF te.gorm_table_axioms this]
  show "set (tns d) \<subseteq> set (tns d')" using f by auto
  show "\<exists>t\<in>set (tns d'). t_ID t = i" using f by (auto simp: tenant_row_def)
  show "roles d' = roles d \<and> rps d' = rps d \<and> users d' = users d \<and> menus d' = menus d \<and> perms d' = perms d"
    using f tenant_frame by blast
qed

definition below_roles :: "'d \<Rightarrow> 'd \<Rightarrow> bool" where
  "below_roles d d' \<longleftrightarrow> rps d' = rps d \<and> users d' = users d \<and> menus d' = menus d \<and> perms d' = perms d \<and> tns d' = tns d"

lemma role_update_ok:
  assumes "Update (T_Role (se_T e)) (\<lambda>r. r_ID r = r_ID role) f d = (Inr n, d')" and "role \<in> set (roles d)"
  shows "f role \<in> set (roles d')" and "below_roles d d'"
  using ro.update_set [OF assms(1)] assms(2) role_update_frame [OF assms(1)]
  by (auto simp: below_roles_def image_iff)

lemma ensure_role_ok:
  assumes "ensure_role e d = (Inr role, d')"
  shows "role \<in> set (roles d') \<and> r_Key role = ''admin'' \<and> r_TenantID role \<noteq> '''' \<and>
    (r_Builtin role \<longrightarrow> r_IsSuper role) \<and> below_roles d d'"
proof -
  have D: "DefaultTenantID \<noteq> ''''" by (simp add: DefaultTenantID_def)
  obtain r0 c d1 where f: "FirstOrCreate (T_Role (se_T e)) (\<lambda>r. Inr (Role_BeforeCreate r)) (\<lambda>r. r_Key r = ''admin'') seed_role d = (Inr (r0, c), d1)"
    using assms by (auto simp: ensure_role_def split: prod.splits sum.splits)
  let ?u1 = "if r_TenantID r0 = ''''
      then (case Update (T_Role (se_T e)) (\<lambda>r. r_ID r = r_ID r0) (\<lambda>r. r\<lparr>r_TenantID := DefaultTenantID\<rparr>) d1 of
              (Inl er, d2) \<Rightarrow> (Inl er, d2) | (Inr _, d2) \<Rightarrow> (Inr (r0\<lparr>r_TenantID := DefaultTenantID\<rparr>), d2))
      else (Inr r0, d1)"
  obtain r1 d2 where u1: "?u1 = (Inr r1, d2)"
    using assms f by (cases ?u1) (auto simp: ensure_role_def split: sum.splits)
  have r0: "r0 \<in> set (roles d1)" "r_Key r0 = ''admin''" "below_roles d d1" "c \<longrightarrow> r_IsSuper r0"
    using FirstOrCreate_ok [OF ro.gorm_table_axioms f] role_create_frame
    by (auto simp: below_roles_def Role_BeforeCreate_def seed_role_def)
  have r1: "r1 \<in> set (roles d2)" "r_Key r1 = ''admin''" "r_TenantID r1 \<noteq> ''''" "below_roles d d2" "c \<longrightarrow> r_IsSuper r1"
    using u1 r0 D role_update_ok [of r0 "\<lambda>r. r\<lparr>r_TenantID := DefaultTenantID\<rparr>" d1]
    by (auto simp: below_roles_def split: if_splits prod.splits sum.splits)
  show ?thesis
    using assms f u1 r1 role_update_ok [of r1 "\<lambda>r. r\<lparr>r_IsSuper := True\<rparr>" d2]
    by (auto simp: ensure_role_def below_roles_def split: if_splits prod.splits sum.splits)
qed

lemma ensure_user_ok:
  assumes "ensure_user e a tid adminUser adminPassword d = (None, d')" and "tid \<noteq> ''''"
  shows "\<exists>u\<in>set (users d'). u_UID u = ''admin'' \<and> u_TenantID u = tid"
    and "roles d' = roles d \<and> rps d' = rps d \<and> menus d' = menus d \<and> perms d' = perms d \<and> tns d' = tns d"
proof -
  let ?f = "FirstOrCreate (T_User (se_T e)) (User_BeforeCreate (se_gen e) a) (\<lambda>u. u_UID u = ''admin'')
    (seed_user tid adminUser adminPassword) d"
  obtain u c d1 where f: "?f = (Inr (u, c), d1)"
    using assms(1) by (auto simp: ensure_user_def split: prod.splits sum.splits)
  have u: "u \<in> set (users d1)" "u_UID u = ''admin''"
    "roles d1 = roles d \<and> rps d1 = rps d \<and> menus d1 = menus d \<and> perms d1 = perms d \<and> tns d1 = tns d"
    using FirstOrCreate_ok [OF us.gorm_table_axioms f] user_create_frame
    by (auto simp: User_BeforeCreate_Inr seed_user_def)
  have up: "if u_TenantID u \<noteq> tid
      then \<exists>n. Update (T_User (se_T e)) (\<lambda>v. u_ID v = u_ID u) (\<lambda>v. v\<lparr>u_TenantID := tid\<rparr>) d1 = (Inr n, d')
      else d' = d1"
    using assms(1) f by (auto simp: ensure_user_def split: if_splits prod.splits sum.splits)
  show "roles d' = roles d \<and> rps d' = rps d \<and> menus d' = menus d \<and> perms d' = perms d \<and> tns d' = tns d"
    using up u(3) user_update_frame by (cases "u_TenantID u = tid") auto
  show "\<exists>u\<in>set (users d'). u_UID u = ''admin'' \<and> u_TenantID u = tid"
  proof (cases "u_TenantID u = tid")
    case False
    with up obtain n where "Update (T_User (se_T e)) (\<lambda>v. u_ID v = u_ID u) (\<lambda>v. v\<lparr>u_TenantID := tid\<rparr>) d1 = (Inr n, d')"
      by auto
    from us.update_set [OF this] u(1) have "u\<lparr>u_TenantID := tid\<rparr> \<in> set (users d')" by (auto simp: image_iff)
    with u(2) show ?thesis by (intro bexI [of _ "u\<lparr>u_TenantID := tid\<rparr>"]) auto
  qed (use up u in auto)
qed

lemma grant_missing_frame:
  assumes "GrantMissingPermissions (se_T e) k t ms ps d = (x, d')"
  shows "roles d' = roles d \<and> users d' = users d \<and> menus d' = menus d \<and> perms d' = perms d \<and> tns d' = tns d"
  using assms rp_create_frame
  by (auto simp: GrantMissingPermissions_def Let_def split: if_splits sum.splits)

lemma grant_missing_grows:
  assumes "GrantMissingPermissions (se_T e) k t ms ps d = (None, d')"
  shows "set (rps d) \<subseteq> set (rps d')"
  using assms rp.create_set
  by (auto simp: GrantMissingPermissions_def Let_def split: if_splits sum.splits)

definition fully_granted :: "Role \<Rightarrow> 'd \<Rightarrow> bool" where
  "fully_granted r d \<longleftrightarrow> r_TenantID r \<noteq> '''' \<longrightarrow>
     (\<forall>m\<in>set (menus d). grant_row (r_TenantID r) (r_Key r) RolePermissionTypeMenu (m_Component m) \<in> set (rps d)) \<and>
     (\<forall>p\<in>set (perms d). grant_row (r_TenantID r) (r_Key r) RolePermissionTypePermission (p_Data p) \<in> set (rps d))"

definition only_grants :: "'d \<Rightarrow> 'd \<Rightarrow> bool" where
  "only_grants d d' \<longleftrightarrow> roles d' = roles d \<and> users d' = users d \<and> menus d' = menus d \<and> perms d' = perms d \<and>
     tns d' = tns d \<and> set (rps d) \<subseteq> set (rps d')"

lemma only_grants_keeps: "only_grants d d' \<Longrightarrow> fully_granted r d \<Longrightarrow> fully_granted r d'"
  by (auto simp: only_grants_def fully_granted_def)

lemma only_grants_trans: "only_grants d d1 \<Longrightarrow> only_grants d1 d2 \<Longrightarrow> only_grants d d2"
  by (auto simp: only_grants_def)

lemma grantFullCatalog_ok:
  assumes "grantFullCatalog e r d = (None, d')"
  shows "only_grants d d'" and "fully_granted r d'"
proof -
  obtain ms ps where f: "Find (T_Menu (se_T e)) (\<lambda>_. True) d = Inr ms" "Find (T_Permission (se_T e)) (\<lambda>_. True) d = Inr ps"
    and g: "GrantMissingPermissions (se_T e) (r_Key r) (r_TenantID r) (map m_Component ms) (map p_Data ps) d = (None, d')"
    using assms by (auto simp: grantFullCatalog_def split: sum.splits)
  note fr = grant_missing_frame [OF g]
  show "only_grants d d'" using fr grant_missing_grows [OF g] by (simp add: only_grants_def)
  show "fully_granted r d'"
    using me.find_set [OF f(1)] pe.find_set [OF f(2)] grant_missing_set [OF g] fr by (auto simp: fully_granted_def)
qed

lemma super_loop_ok:
  "super_loop e rs d = (None, d') \<Longrightarrow> only_grants d d' \<and> (\<forall>r\<in>set rs. fully_granted r d')"
proof (induction rs arbitrary: d)
  case Nil
  then show ?case by (simp add: only_grants_def)
next
  case (Cons r rs)
  then obtain d1 where "grantFullCatalog e r d = (None, d1)" "super_loop e rs d1 = (None, d')"
    by (auto simp: and_then_ok)
  with Cons.IH [of d1] grantFullCatalog_ok [of r d d1] only_grants_keeps [of d1 d' r] only_grants_trans [of d d1 d']
  show ?case by simp
qed

lemma grant_supers_ok:
  assumes "grant_supers e d = (None, d')"
  shows "only_grants d d' \<and> (\<forall>r\<in>set (roles d'). r_IsSuper r \<longrightarrow> fully_granted r d')"
proof -
  obtain rs where f: "Find (T_Role (se_T e)) r_IsSuper d = Inr rs" and l: "super_loop e rs d = (None, d')"
    using assms by (auto simp: grant_supers_def split: sum.splits)
  from super_loop_ok [OF l] ro.find_set [OF f] show ?thesis by (auto simp: only_grants_def)
qed

definition all_same :: "'d \<Rightarrow> 'd \<Rightarrow> bool" where
  "all_same d d' \<longleftrightarrow> only_grants d d' \<and> rps d' = rps d"

lemma all_same_refl [simp]: "all_same d d"
  by (simp add: all_same_def only_grants_def)

lemma schema_create_same: "Create (se_Schema e) ss d = (x, d') \<Longrightarrow> all_same d d'"
  by (simp add: all_same_def only_grants_def schema_frame)

lemma schema_loop_same: "schema_loop e tmpl ts d = (x, d') \<Longrightarrow> all_same d d'"
proof (induction ts arbitrary: d)
  case (Cons t ts)
  have tr: "all_same d d1 \<Longrightarrow> all_same d1 d' \<Longrightarrow> all_same d d'" for d1
    by (auto simp: all_same_def intro: only_grants_trans)
  show ?case
    using Cons.prems Cons.IH schema_create_same tr
    by (auto simp: Let_def split: if_splits sum.splits prod.splits option.splits) blast
qed simp

lemma ensureTenantSchemas_same: "ensureTenantSchemas e d = (x, d') \<Longrightarrow> all_same d d'"
  using schema_loop_same
  by (auto simp: ensureTenantSchemas_def split: if_splits sum.splits)

definition seeded :: "'d \<Rightarrow> bool" where
  "seeded d \<longleftrightarrow>
     (\<exists>role\<in>set (roles d). r_Key role = ''admin'' \<and> r_TenantID role \<noteq> '''' \<and> (r_Builtin role \<longrightarrow> r_IsSuper role) \<and>
        (\<exists>u\<in>set (users d). u_UID u = ''admin'' \<and> u_TenantID u = r_TenantID role) \<and>
        (\<exists>t\<in>set (tns d). t_ID t = r_TenantID role)) \<and>
     (\<forall>r\<in>set (roles d). r_IsSuper r \<longrightarrow> fully_granted r d)"

lemma seed_rest_ok:
  assumes r: "seed_rest e a adminUser adminPassword role d = (None, d')"
    and role: "role \<in> set (roles d)" "r_Key role = ''admin''" "r_TenantID role \<noteq> ''''" "r_Builtin role \<longrightarrow> r_IsSuper role"
    and def: "\<exists>t\<in>set (tns d). t_ID t = DefaultTenantID"
  shows "seeded d' \<and> set (rps d) \<subseteq> set (rps d')"
proof -
  obtain d1 d2 d3 where
    1: "(if r_TenantID role \<noteq> '''' \<and> r_TenantID role \<noteq> DefaultTenantID then ensure_tenant e (r_TenantID role) d
         else (None, d)) = (None, d1)"
    and 2: "ensure_user e a (r_TenantID role) adminUser adminPassword d1 = (None, d2)"
    and 3: "grant_supers e d2 = (None, d3)"
    and 4: "(if se_scoping e then ensureTenantSchemas e d3 else (None, d3)) = (None, d')"
    using r unfolding seed_rest_def and_then_ok by blast
  have t1: "\<exists>t\<in>set (tns d1). t_ID t = r_TenantID role" "roles d1 = roles d" "rps d1 = rps d"
    using 1 def role(3) ensure_tenant_ok [of "r_TenantID role" d d1] by (auto split: if_splits)
  note u = ensure_user_ok [OF 2 role(3)]
  note g = grant_supers_ok [OF 3]
  have "all_same d3 d'"
    using 4 ensureTenantSchemas_same by (auto simp: all_same_def only_grants_def split: if_splits)
  with g u t1 role show ?thesis
    by (auto simp: seeded_def all_same_def only_grants_def fully_granted_def)
qed

lemma Seed_ok:
  assumes "Seed e a has_db adminUser adminPassword d = (None, d')"
  shows "seeded d' \<and> set (rps d) \<subseteq> set (rps d')"
proof -
  have "seed_body e a adminUser adminPassword d = (None, d')"
    using assms by (auto simp: Seed_def split: if_splits prod.splits option.splits)
  then obtain d1 d2 d3 where
    1: "EnsureSectionMenus e d = (None, d1)" and 2: "EnsureRolePermissionMenu e d1 = (None, d2)"
    and 3: "ensure_tenant e DefaultTenantID d2 = (None, d3)"
    and 4: "(case ensure_role e d3 of (Inl er, d4) \<Rightarrow> (Some er, d4)
      | (Inr role, d4) \<Rightarrow> seed_rest e a adminUser adminPassword role d4) = (None, d')"
    unfolding seed_body_def and_then_ok by blast
  then obtain role d4 where er: "ensure_role e d3 = (Inr role, d4)"
    and sr: "seed_rest e a adminUser adminPassword role d4 = (None, d')" by (auto split: prod.splits sum.splits)
  note er = ensure_role_ok [OF er]
  have "rps d4 = rps d" "\<exists>t\<in>set (tns d4). t_ID t = DefaultTenantID"
    using section_loop_frame [OF 1 [unfolded EnsureSectionMenus_def]] role_menu_frame [OF 2] ensure_tenant_ok [OF 3] er
    by (auto simp: above_menus_def below_roles_def)
  with seed_rest_ok [OF sr] er show ?thesis by simp
qed

end

subsection \<open>A database of lists\<close>

record seeddb = memdb +
  sdb_tenants :: "Tenant list"
  sdb_schemas :: "unit schema_row list"

definition seed_tables :: "seeddb grant_tables" where
  "seed_tables =
     \<lparr>T_Role = mem_table gdb_roles (\<lambda>rs d. d\<lparr>gdb_roles := rs\<rparr>),
      T_RolePermission = mem_table gdb_rps (\<lambda>rs d. d\<lparr>gdb_rps := rs\<rparr>),
      T_User = mem_table gdb_users (\<lambda>rs d. d\<lparr>gdb_users := rs\<rparr>),
      T_Menu = mem_table gdb_menus (\<lambda>rs d. d\<lparr>gdb_menus := rs\<rparr>),
      T_Permission = mem_table gdb_perms (\<lambda>rs d. d\<lparr>gdb_perms := rs\<rparr>),
      OrderByParentID = (\<lambda>ms. ms)\<rparr>"

definition mem_seed_env :: "(seeddb, unit) seed_env" where
  "mem_seed_env =
     \<lparr>se_T = seed_tables, se_Menu_all = T_Menu seed_tables, se_Perm_all = T_Permission seed_tables,
      se_Tenant = mem_table sdb_tenants (\<lambda>rs d. d\<lparr>sdb_tenants := rs\<rparr>), Errorf = (\<lambda>f xs er. er),
      se_Schema = mem_table sdb_schemas (\<lambda>rs d. d\<lparr>sdb_schemas := rs\<rparr>), se_scoping = True,
      se_Commit = (\<lambda>_. None), se_gen = (\<lambda>p. Inr (''$2a'' @ p))\<rparr>"

lemma seed_tables_gorm:
  "gorm_table (mem_table gdb_rps (\<lambda>rs d. d\<lparr>gdb_rps := rs\<rparr>)) (gdb_rps :: seeddb \<Rightarrow> _)"
  "gorm_table (mem_table gdb_users (\<lambda>rs d. d\<lparr>gdb_users := rs\<rparr>)) (gdb_users :: seeddb \<Rightarrow> _)"
  "gorm_table (mem_table gdb_roles (\<lambda>rs d. d\<lparr>gdb_roles := rs\<rparr>)) (gdb_roles :: seeddb \<Rightarrow> _)"
  "gorm_table (mem_table gdb_menus (\<lambda>rs d. d\<lparr>gdb_menus := rs\<rparr>)) (gdb_menus :: seeddb \<Rightarrow> _)"
  "gorm_table (mem_table gdb_perms (\<lambda>rs d. d\<lparr>gdb_perms := rs\<rparr>)) (gdb_perms :: seeddb \<Rightarrow> _)"
  "gorm_table (mem_table sdb_tenants (\<lambda>rs d. d\<lparr>sdb_tenants := rs\<rparr>)) (sdb_tenants :: seeddb \<Rightarrow> _)"
  by (rule mem_table_gorm; simp)+

interpretation mseed: seed_db mem_seed_env gdb_rps gdb_users gdb_roles gdb_menus gdb_perms sdb_tenants
proof -
  have "grant_db seed_tables gdb_rps gdb_users gdb_roles"
    using seed_tables_gorm by (simp add: grant_db_def grant_db_axioms_def seed_tables_def) (auto simp: mem_table_def)
  then show "seed_db mem_seed_env gdb_rps gdb_users gdb_roles gdb_menus gdb_perms sdb_tenants"
    using seed_tables_gorm
    by (simp add: seed_db_def seed_db_axioms_def mem_seed_env_def)
      (auto simp: seed_tables_def mem_table_def)
qed

section \<open>Properties\<close>

text \<open>
  C30: The bootstrap converges. If \<open>Seed\<close> succeeds there is a role \<open>admin\<close> with a tenant, whose
  tenant row exists and in whose tenant the user \<open>admin\<close> lives (so a login finds the
  role), a built-in one is a super role, and every super role with a tenant is
  granted every menu and every permission of the catalogue. No grant is ever removed.
  If it fails nothing has changed.
\<close>

theorem seed_converges:
  assumes "seed_db e rps us rls ms ps ts"
    and "Seed e a has_db adminUser adminPassword d = (r, d')"
  shows "(r \<noteq> None \<longrightarrow> d' = d) \<and>
    (r = None \<longrightarrow>
      (\<exists>role\<in>set (rls d'). r_Key role = ''admin'' \<and> r_TenantID role \<noteq> '''' \<and> (r_Builtin role \<longrightarrow> r_IsSuper role) \<and>
        (\<exists>u\<in>set (us d'). u_UID u = ''admin'' \<and> u_TenantID u = r_TenantID role) \<and>
        (\<exists>t\<in>set (ts d'). t_ID t = r_TenantID role)) \<and>
      (\<forall>role\<in>set (rls d'). r_IsSuper role \<and> r_TenantID role \<noteq> '''' \<longrightarrow>
        (\<forall>m\<in>set (ms d'). (RolePermissionTypeMenu, m_Component m) \<in> grant_set (rps d') (r_Key role) (r_TenantID role)) \<and>
        (\<forall>p\<in>set (ps d'). (RolePermissionTypePermission, p_Data p) \<in> grant_set (rps d') (r_Key role) (r_TenantID role))) \<and>
      set (rps d) \<subseteq> set (rps d'))"
proof (intro conjI impI)
  assume "r \<noteq> None"
  with assms(2) show "d' = d" by (auto simp: Seed_def split: if_splits prod.splits option.splits)
next
  have mem: "(ty, x) \<in> grant_set rs k t" if "grant_row t k ty x \<in> set rs" for rs k t ty x
    using that unfolding grant_set_def by (intro image_eqI [of _ _ "grant_row t k ty x"]) (auto simp: same_key_def grant_row_def)
  assume "r = None"
  with assms(2) have "seed_db.seeded rps us rls ms ps ts d' \<and> set (rps d) \<subseteq> set (rps d')"
    using seed_db.Seed_ok [OF assms(1)] by simp
  note s = this [unfolded seed_db.seeded_def [OF assms(1)] seed_db.fully_granted_def [OF assms(1)]]
  show "\<exists>role\<in>set (rls d'). r_Key role = ''admin'' \<and> r_TenantID role \<noteq> '''' \<and> (r_Builtin role \<longrightarrow> r_IsSuper role) \<and>
        (\<exists>u\<in>set (us d'). u_UID u = ''admin'' \<and> u_TenantID u = r_TenantID role) \<and>
        (\<exists>t\<in>set (ts d'). t_ID t = r_TenantID role)"
    and "set (rps d) \<subseteq> set (rps d')" using s by blast+
  show "\<forall>role\<in>set (rls d'). r_IsSuper role \<and> r_TenantID role \<noteq> '''' \<longrightarrow>
        (\<forall>m\<in>set (ms d'). (RolePermissionTypeMenu, m_Component m) \<in> grant_set (rps d') (r_Key role) (r_TenantID role)) \<and>
        (\<forall>p\<in>set (ps d'). (RolePermissionTypePermission, p_Data p) \<in> grant_set (rps d') (r_Key role) (r_TenantID role))"
    using s mem by blast
qed

definition empty_seeddb :: seeddb where
  "empty_seeddb = \<lparr>gdb_roles = [], gdb_rps = [], gdb_users = [], gdb_menus = [],
     gdb_perms = [\<lparr>p_ID = 1, p_Type = ''api'', p_Data = ''GET /x'', p_Description = '''', p_Group = ''''\<rparr>],
     sdb_tenants = [], sdb_schemas = []\<rparr>"

theorem seed_converges_witness:
  "\<exists>d'. Seed mem_seed_env 900 True ''root'' ''passw0rd'' empty_seeddb = (None, d') \<and>
     (\<exists>role\<in>set (gdb_roles d'). r_Key role = ''admin'' \<and>
        (\<exists>u\<in>set (gdb_users d'). u_UID u = ''admin'' \<and> u_TenantID u = r_TenantID role))"
proof -
  let ?r = "Seed mem_seed_env 900 True ''root'' ''passw0rd'' empty_seeddb"
  have "fst ?r = None" by code_simp
  then have d: "?r = (None, snd ?r)" by (metis prod.collapse)
  from seed_converges [OF mseed.seed_db_axioms d] d show ?thesis by blast
qed

end
