(* ===== verification/Cors.thy ===== *)
theory Cors
  imports Http
begin

text \<open>
  \<open>transport/http/cors.go\<close>: the check of a CORS configuration and the interceptor that answers preflight
  requests. \<open>url.Parse\<close> is a parameter: what it returns of a string, if it parses.
\<close>

record CORSConfig =
  AllowOrigins :: "string list"
  AllowMethods :: "string list"
  AllowHeaders :: "string list"
  ExposeHeaders :: "string list"
  AllowCredentials :: bool
  MaxAge :: int

record url =
  u_Scheme :: string
  u_Host :: string
  u_hasUser :: bool
  u_Path :: string
  u_RawQuery :: string
  u_Fragment :: string

definition defaultCORSMethods :: "string list" where
  "defaultCORSMethods = [''GET'', ''HEAD'', ''POST'', ''PUT'', ''PATCH'', ''DELETE'']"

definition valid_origin :: "(string \<Rightarrow> url option) \<Rightarrow> string \<Rightarrow> bool" where
  "valid_origin parse origin =
     (case parse origin of None \<Rightarrow> False
      | Some u \<Rightarrow> (ToLower (u_Scheme u) = ''http'' \<or> ToLower (u_Scheme u) = ''https'') \<and> u_Host u \<noteq> '''' \<and> \<not> u_hasUser u \<and>
          u_Path u = '''' \<and> u_RawQuery u = '''' \<and> u_Fragment u = '''')"

text \<open>The error is a fresh one at address \<open>a\<close>; \<open>quote\<close> is the verb \<open>%q\<close>.\<close>

definition validateCORS :: "(string \<Rightarrow> url option) \<Rightarrow> (string \<Rightarrow> string) \<Rightarrow> nat \<Rightarrow> CORSConfig \<Rightarrow> goerror option" where
  "validateCORS parse quote a cfg =
     (if AllowOrigins cfg = [] then Some (ErrString a ''AllowOrigins is required'')
      else case filter (\<lambda>og. og \<noteq> ''*'' \<and> \<not> valid_origin parse og) (AllowOrigins cfg) of
        og # _ \<Rightarrow> Some (ErrString a (''invalid origin '' @ quote og @ '' (want scheme://host[:port])''))
      | [] \<Rightarrow>
        if ''*'' \<in> set (AllowOrigins cfg) \<and> AllowCredentials cfg then
          Some (ErrString a ''AllowOrigins \"*\" cannot be combined with AllowCredentials'')
        else if MaxAge cfg < 0 then Some (ErrString a ''MaxAge must not be negative'')
        else case filter (\<lambda>m. m = '''' \<or> m \<noteq> ToUpper m) (AllowMethods cfg) of
          m # _ \<Rightarrow> Some (ErrString a (''invalid method '' @ quote m @ '' (want an uppercase HTTP method)''))
        | [] \<Rightarrow> None)"

fun originAllowed :: "string list \<Rightarrow> string \<Rightarrow> bool" where
  "originAllowed [] origin = False"
| "originAllowed (allowed # origins) origin = (if allowed = ''*'' \<or> allowed = origin then True else originAllowed origins origin)"

definition allow_origin :: "CORSConfig \<Rightarrow> string \<Rightarrow> header \<Rightarrow> header" where
  "allow_origin cfg origin h =
     (if AllowCredentials cfg then
        header_Set ''Access-Control-Allow-Credentials'' ''true'' (header_Set ''Access-Control-Allow-Origin'' origin h)
      else if ''*'' \<in> set (AllowOrigins cfg) then header_Set ''Access-Control-Allow-Origin'' ''*'' h
      else header_Set ''Access-Control-Allow-Origin'' origin h)"

definition preflight_headers :: "CORSConfig \<Rightarrow> request \<Rightarrow> header \<Rightarrow> header" where
  "preflight_headers cfg rq h0 =
     (let methods = (if AllowMethods cfg = [] then defaultCORSMethods else AllowMethods cfg);
          allowHeaders = JoinStr (AllowHeaders cfg) '', '';
          requested = header_Get (rq_Header rq) ''Access-Control-Request-Headers'';
          h1 = header_Add ''Vary'' ''Access-Control-Request-Headers'' (header_Add ''Vary'' ''Access-Control-Request-Method'' h0);
          h2 = header_Set ''Access-Control-Allow-Methods'' (JoinStr methods '', '') h1;
          h3 = (if allowHeaders \<noteq> '''' then header_Set ''Access-Control-Allow-Headers'' allowHeaders h2
                else if requested \<noteq> '''' then header_Set ''Access-Control-Allow-Headers'' requested h2 else h2)
      in if MaxAge cfg > 0 then header_Set ''Access-Control-Max-Age'' (int_str (MaxAge cfg div 1000000000)) h3 else h3)"

definition CORSInterceptor :: "CORSConfig \<Rightarrow> request \<Rightarrow> ('c, 'a http_state_scheme) gin_handler \<Rightarrow> ('c, 'a http_state_scheme) gin_handler" where
  "CORSInterceptor cfg rq nxt c s =
     (let origin = header_Get (rq_Header rq) ''Origin'' in
      if origin = '''' then nxt c s
      else
        (let h1 = header_Add ''Vary'' ''Origin'' (rw_header s) in
         if \<not> originAllowed (AllowOrigins cfg) origin then nxt c (s\<lparr>rw_header := h1\<rparr>)
         else
           (let h2 = allow_origin cfg origin h1;
                expose = JoinStr (ExposeHeaders cfg) '', '';
                h3 = (if expose \<noteq> '''' then header_Set ''Access-Control-Expose-Headers'' expose h2 else h2)
            in if rq_Method rq \<noteq> ''OPTIONS'' then nxt c (s\<lparr>rw_header := h3\<rparr>)
               else (None, (WriteHeader 204 (s\<lparr>rw_header := preflight_headers cfg rq h3\<rparr>))\<lparr>rw_written := True, gin_aborted := True\<rparr>))))"

subsection \<open>Facts\<close>

lemma originAllowed_iff: "originAllowed os og \<longleftrightarrow> ''*'' \<in> set os \<or> og \<in> set os"
  by (induction os) auto

lemma validateCORS_ok:
  assumes "validateCORS parse quote a cfg = None"
  shows "AllowOrigins cfg \<noteq> []" "\<not> (''*'' \<in> set (AllowOrigins cfg) \<and> AllowCredentials cfg)" "0 \<le> MaxAge cfg"
    "og \<in> set (AllowOrigins cfg) \<Longrightarrow> og = ''*'' \<or> valid_origin parse og"
    "m \<in> set (AllowMethods cfg) \<Longrightarrow> m \<noteq> '''' \<and> m = ToUpper m"
  using assms by (auto simp: validateCORS_def filter_empty_conv split: if_splits list.splits)

lemma header_Get_Add: "ToLower k \<noteq> ToLower k' \<Longrightarrow> header_Get (header_Add k' v h) k = header_Get h k"
  by (simp add: header_Get_def header_Add_def gomap_simps)

definition cors_keys :: "string list" where
  "cors_keys = [''Access-Control-Allow-Origin'', ''Access-Control-Allow-Credentials'', ''Access-Control-Expose-Headers'', ''Vary'',
     ''Access-Control-Allow-Methods'', ''Access-Control-Allow-Headers'', ''Access-Control-Max-Age'']"

lemma cors_keys_differ: "distinct (map ToLower cors_keys)"
  by code_simp

definition acao :: string where "acao = ''Access-Control-Allow-Origin''"
definition acac :: string where "acac = ''Access-Control-Allow-Credentials''"

lemma acao_differ:
  "ToLower acao \<noteq> ToLower ''Access-Control-Expose-Headers''" "ToLower acao \<noteq> ToLower ''Vary''"
  "ToLower acao \<noteq> ToLower ''Access-Control-Allow-Methods''" "ToLower acao \<noteq> ToLower ''Access-Control-Allow-Headers''"
  "ToLower acao \<noteq> ToLower ''Access-Control-Max-Age''" "ToLower acao \<noteq> ToLower acac"
  by code_simp+

lemma acac_differ:
  "ToLower acac \<noteq> ToLower ''Access-Control-Expose-Headers''" "ToLower acac \<noteq> ToLower ''Vary''"
  "ToLower acac \<noteq> ToLower ''Access-Control-Allow-Methods''" "ToLower acac \<noteq> ToLower ''Access-Control-Allow-Headers''"
  "ToLower acac \<noteq> ToLower ''Access-Control-Max-Age''" "ToLower acac \<noteq> ToLower acao"
  by code_simp+

text \<open>The two headers that grant access, and that the other headers leave them alone.\<close>

definition grant_of :: "header \<Rightarrow> string \<times> string" where
  "grant_of h = (header_Get h acao, header_Get h acac)"

lemma grant_of_other:
  assumes "ToLower acao \<noteq> ToLower k" "ToLower acac \<noteq> ToLower k"
  shows "grant_of (header_Set k v h) = grant_of h" "grant_of (header_Add k v h) = grant_of h"
  using assms by (simp_all add: grant_of_def header_Get_Set header_Get_Add)

lemmas grant_of_kept = grant_of_other [OF acao_differ(1) acac_differ(1)] grant_of_other [OF acao_differ(2) acac_differ(2)]
  grant_of_other [OF acao_differ(3) acac_differ(3)] grant_of_other [OF acao_differ(4) acac_differ(4)]
  grant_of_other [OF acao_differ(5) acac_differ(5)]

lemma grant_of_preflight: "grant_of (preflight_headers cfg rq h) = grant_of h"
  by (simp only: preflight_headers_def Let_def grant_of_kept if_distrib [of grant_of] if_cancel)

subsection \<open>Which origins are granted access\<close>

text \<open>The two headers as the documentation promises them.\<close>

definition cors_grant :: "CORSConfig \<Rightarrow> string \<Rightarrow> string \<times> string" where
  "cors_grant cfg origin =
     (if origin = '''' then ('''', '''')
      else if ''*'' \<in> set (AllowOrigins cfg) then (''*'', '''')
      else if origin \<in> set (AllowOrigins cfg) then (origin, if AllowCredentials cfg then ''true'' else '''')
      else ('''', ''''))"

lemma grant_of_allow_origin:
  assumes "\<not> (''*'' \<in> set (AllowOrigins cfg) \<and> AllowCredentials cfg)" "grant_of h = ('''', '''')"
  shows "grant_of (allow_origin cfg origin h) =
    (if ''*'' \<in> set (AllowOrigins cfg) then (''*'', '''') else (origin, if AllowCredentials cfg then ''true'' else ''''))"
proof -
  have "header_Get h acac = ''''" using assms(2) by (simp add: grant_of_def)
  then show ?thesis using assms(1)
    unfolding allow_origin_def acao_def [symmetric] acac_def [symmetric] grant_of_def
    by (simp add: header_Get_Set acao_differ(6) acac_differ(6))
qed

definition cors_headers :: "CORSConfig \<Rightarrow> request \<Rightarrow> header \<Rightarrow> header" where
  "cors_headers cfg rq h =
     (let expose = JoinStr (ExposeHeaders cfg) '', '';
          h2 = allow_origin cfg (header_Get (rq_Header rq) ''Origin'') (header_Add ''Vary'' ''Origin'' h)
      in if expose \<noteq> '''' then header_Set ''Access-Control-Expose-Headers'' expose h2 else h2)"

lemma CORSInterceptor_cases:
  "CORSInterceptor cfg rq nxt c s =
     (if header_Get (rq_Header rq) ''Origin'' = '''' then nxt c s
      else if \<not> originAllowed (AllowOrigins cfg) (header_Get (rq_Header rq) ''Origin'') then
        nxt c (s\<lparr>rw_header := header_Add ''Vary'' ''Origin'' (rw_header s)\<rparr>)
      else if rq_Method rq \<noteq> ''OPTIONS'' then nxt c (s\<lparr>rw_header := cors_headers cfg rq (rw_header s)\<rparr>)
      else (None, (WriteHeader 204 (s\<lparr>rw_header := preflight_headers cfg rq (cors_headers cfg rq (rw_header s))\<rparr>))
              \<lparr>rw_written := True, gin_aborted := True\<rparr>))"
  by (simp only: CORSInterceptor_def cors_headers_def Let_def)

lemma grant_of_cors_headers: "grant_of (cors_headers cfg rq h) =
    grant_of (allow_origin cfg (header_Get (rq_Header rq) ''Origin'') (header_Add ''Vary'' ''Origin'' h))"
  by (simp only: cors_headers_def Let_def grant_of_kept if_distrib [of grant_of] if_cancel)

lemma acam_differ:
  "ToLower ''Access-Control-Allow-Methods'' \<noteq> ToLower ''Access-Control-Allow-Headers''"
  "ToLower ''Access-Control-Allow-Methods'' \<noteq> ToLower ''Access-Control-Max-Age''"
  by code_simp+

lemma preflight_methods:
  "header_Get (preflight_headers cfg rq h) ''Access-Control-Allow-Methods'' =
     JoinStr (if AllowMethods cfg = [] then defaultCORSMethods else AllowMethods cfg) '', ''"
  unfolding preflight_headers_def Let_def
  by (simp add: header_Get_Set acam_differ del: ToLower_def)

text \<open>The response of the interceptor: the preflight of a granted origin, or the next handler's.\<close>

definition cors_outcome ::
  "CORSConfig \<Rightarrow> request \<Rightarrow> header \<Rightarrow> 'c \<Rightarrow> 'a http_state_scheme \<Rightarrow>
   (('c, 'a http_state_scheme) gin_handler \<Rightarrow> ('c, 'a http_state_scheme) gin_handler) \<Rightarrow> bool" where
  "cors_outcome cfg rq h c s f \<longleftrightarrow>
     (if rq_Method rq = ''OPTIONS'' \<and> cors_grant cfg (header_Get (rq_Header rq) ''Origin'') \<noteq> ('''', '''') then
        header_Get h ''Access-Control-Allow-Methods'' =
          JoinStr (if AllowMethods cfg = [] then defaultCORSMethods else AllowMethods cfg) '', '' \<and>
        (\<forall>nxt. f nxt c s = (None, (WriteHeader 204 (s\<lparr>rw_header := h\<rparr>))\<lparr>rw_written := True, gin_aborted := True\<rparr>))
      else (\<forall>nxt. f nxt c s = nxt c (s\<lparr>rw_header := h\<rparr>)))"

lemma cors_response:
  assumes "validateCORS parse quote a cfg = None" "grant_of (rw_header s) = ('''', '''')"
    "origin = header_Get (rq_Header rq) ''Origin''"
  shows "\<exists>h. grant_of h = cors_grant cfg origin \<and> cors_outcome cfg rq h c s (CORSInterceptor cfg rq)"
    and "fst (cors_grant cfg origin) = origin \<Longrightarrow> origin \<noteq> '''' \<Longrightarrow> origin \<noteq> ''*'' \<Longrightarrow> valid_origin parse origin"
    and "snd (cors_grant cfg origin) \<noteq> '''' \<Longrightarrow> fst (cors_grant cfg origin) = origin \<and> origin \<in> set (AllowOrigins cfg)"
proof -
  note ok = validateCORS_ok [OF assms(1)]
  have vary: "grant_of (header_Add ''Vary'' ''Origin'' (rw_header s)) = ('''', '''')"
    using assms(2) by (simp only: grant_of_kept)
  note g = grant_of_allow_origin [OF ok(2) vary]
  show "\<exists>h. grant_of h = cors_grant cfg origin \<and> cors_outcome cfg rq h c s (CORSInterceptor cfg rq)"
  proof (cases "origin = ''''")
    case True
    then show ?thesis using assms
      by (intro exI [of _ "rw_header s"]) (simp add: CORSInterceptor_cases cors_grant_def cors_outcome_def)
  next
    case org: False
    show ?thesis
    proof (cases "originAllowed (AllowOrigins cfg) origin")
      case False
      then show ?thesis using assms org vary
        by (intro exI [of _ "header_Add ''Vary'' ''Origin'' (rw_header s)"])
          (simp add: CORSInterceptor_cases cors_grant_def originAllowed_iff cors_outcome_def)
    next
      case allowed: True
      have gh: "grant_of (cors_headers cfg rq (rw_header s)) = cors_grant cfg origin"
        using allowed org by (auto simp: grant_of_cors_headers g cors_grant_def originAllowed_iff assms(3))
      have ne: "cors_grant cfg origin \<noteq> ('''', '''')"
        using allowed org by (auto simp: cors_grant_def originAllowed_iff)
      show ?thesis
      proof (cases "rq_Method rq = ''OPTIONS''")
        case True
        have "grant_of (preflight_headers cfg rq (cors_headers cfg rq (rw_header s))) = cors_grant cfg origin"
          by (simp only: grant_of_preflight gh)
        moreover have "\<forall>nxt. CORSInterceptor cfg rq nxt c s =
            (None, (WriteHeader 204 (s\<lparr>rw_header := preflight_headers cfg rq (cors_headers cfg rq (rw_header s))\<rparr>))
              \<lparr>rw_written := True, gin_aborted := True\<rparr>)"
          using True org allowed by (simp add: CORSInterceptor_cases assms(3))
        ultimately show ?thesis using True ne preflight_methods [of cfg rq "cors_headers cfg rq (rw_header s)"]
          unfolding cors_outcome_def assms(3) [symmetric] by auto
      next
        case False
        then have "\<forall>nxt. CORSInterceptor cfg rq nxt c s = nxt c (s\<lparr>rw_header := cors_headers cfg rq (rw_header s)\<rparr>)"
          using org allowed by (simp add: CORSInterceptor_cases assms(3))
        with gh False show ?thesis unfolding cors_outcome_def by auto
      qed
    qed
  qed
  show "valid_origin parse origin" if "fst (cors_grant cfg origin) = origin" "origin \<noteq> ''''" "origin \<noteq> ''*''"
    using that ok(4) [of origin] by (auto simp: cors_grant_def split: if_splits)
  show "fst (cors_grant cfg origin) = origin \<and> origin \<in> set (AllowOrigins cfg)" if "snd (cors_grant cfg origin) \<noteq> ''''"
    using that by (auto simp: cors_grant_def split: if_splits)
qed

definition sample_cors :: CORSConfig where
  "sample_cors = \<lparr>AllowOrigins = [''https://a''], AllowMethods = [], AllowHeaders = [], ExposeHeaders = [], AllowCredentials = True, MaxAge = 0\<rparr>"

definition sample_parse :: "string \<Rightarrow> url option" where
  "sample_parse st = (if st = ''https://a''
     then Some \<lparr>u_Scheme = ''https'', u_Host = ''a'', u_hasUser = False, u_Path = '''', u_RawQuery = '''', u_Fragment = ''''\<rparr> else None)"

text \<open>
  C21: With a configuration that passes the check, and no such headers set before, the interceptor answers every OPTIONS
  request of a listed origin itself with 204 and the configured methods, without running the rest of the chain, and passes
  every other request on. In both cases the Access-Control-Allow-Origin and -Credentials headers are exactly those of the
  request's origin: none for an origin that is not listed, the origin itself only when it is listed, and credentials never
  together with the wildcard. A listed origin is a plain scheme and host.
\<close>

theorem cors_sound:
  assumes "validateCORS parse quote a cfg = None" "grant_of (rw_header s) = ('''', '''')"
    "origin = header_Get (rq_Header rq) ''Origin''"
  shows "(\<exists>h. grant_of h = cors_grant cfg origin \<and>
      (if rq_Method rq = ''OPTIONS'' \<and> (''*'' \<in> set (AllowOrigins cfg) \<or> origin \<in> set (AllowOrigins cfg)) \<and> origin \<noteq> ''''
       then header_Get h ''Access-Control-Allow-Methods'' =
              JoinStr (if AllowMethods cfg = [] then defaultCORSMethods else AllowMethods cfg) '', '' \<and>
            (\<forall>nxt. CORSInterceptor cfg rq nxt c s =
              (None, (WriteHeader 204 (s\<lparr>rw_header := h\<rparr>))\<lparr>rw_written := True, gin_aborted := True\<rparr>))
       else (\<forall>nxt. CORSInterceptor cfg rq nxt c s = nxt c (s\<lparr>rw_header := h\<rparr>)))) \<and>
    (fst (cors_grant cfg origin) \<in> {'''', ''*''} \<or> fst (cors_grant cfg origin) = origin \<and> valid_origin parse origin) \<and>
    (snd (cors_grant cfg origin) = '''' \<or> fst (cors_grant cfg origin) = origin \<and> origin \<in> set (AllowOrigins cfg))"
proof -
  have "fst (cors_grant cfg origin) \<in> {'''', ''*'', origin}" by (simp add: cors_grant_def)
  moreover have "cors_grant cfg origin \<noteq> ('''', '''') \<longleftrightarrow>
      (''*'' \<in> set (AllowOrigins cfg) \<or> origin \<in> set (AllowOrigins cfg)) \<and> origin \<noteq> ''''"
    by (simp add: cors_grant_def)
  ultimately show ?thesis using cors_response(1) [OF assms, of c] cors_response(2,3) [OF assms]
    unfolding cors_outcome_def assms(3) [symmetric] by auto
qed

theorem cors_sound_witness:
  "\<exists>h. header_Get h ''Access-Control-Allow-Origin'' = ''https://a'' \<and> header_Get h ''Access-Control-Allow-Credentials'' = ''true'' \<and>
     (\<forall>nxt. CORSInterceptor sample_cors (sample_rq [(''origin'', [''https://a''])]) nxt sample_actx sample_http_state =
        nxt sample_actx (sample_http_state\<lparr>rw_header := h\<rparr>))"
proof -
  have v: "validateCORS sample_parse id 0 sample_cors = None" by code_simp
  have g: "grant_of (rw_header sample_http_state) = ('''', '''')" by code_simp
  have og: "''https://a'' = header_Get (rq_Header (sample_rq [(''origin'', [''https://a''])])) ''Origin''" by code_simp
  have m: "(rq_Method (sample_rq [(''origin'', [''https://a''])]) = ''OPTIONS'') = False" by code_simp
  have c: "cors_grant sample_cors ''https://a'' = (''https://a'', ''true'')" by code_simp
  from cors_sound [OF v g og, of sample_actx] show ?thesis
    unfolding grant_of_def acao_def acac_def m c by auto
qed

end
