(* ===== verification/Webroot.thy ===== *)
theory Webroot
  imports Cors
begin

text \<open>
  \<open>transport/http/fs.go\<close> and the static files of \<open>transport/http/server.go\<close>: the file system below a prefix, and how a
  request without a route is answered from it. The wrapped \<open>http.FileSystem\<close> is a parameter: what it answers for a name and
  what \<open>Stat\<close> says of a file. \<open>http.ServeContent\<close> is a parameter too; its first argument says whether the response
  is wrapped in the gzip writer. The state keeps the names the wrapped file system was asked for and the handles that are
  open.
\<close>

subsection \<open>The package path\<close>

fun clean_step :: "bool \<Rightarrow> string list \<Rightarrow> string \<Rightarrow> string list" where
  "clean_step rooted st c =
     (if c = '''' \<or> c = ''.'' then st
      else if c = ''..'' then
        (case st of [] \<Rightarrow> (if rooted then [] else [''..'']) | x # xs \<Rightarrow> (if x = ''..'' then ''..'' # st else xs))
      else c # st)"

definition Clean :: "string \<Rightarrow> string" where
  "Clean p =
     (if p = '''' then ''.''
      else (let rooted = (hd p = CHR ''/''); cs = rev (foldl (clean_step rooted) [] (SplitByte p CHR ''/''))
            in if rooted then ''/'' @ JoinStr cs ''/'' else if cs = [] then ''.'' else JoinStr cs ''/''))"

definition path_Join :: "string \<Rightarrow> string \<Rightarrow> string" where
  "path_Join a b =
     (if a = '''' \<and> b = '''' then '''' else if a = '''' then Clean b else Clean (a @ ''/'' @ b))"

definition TrimRightSlash :: "string \<Rightarrow> string" where
  "TrimRightSlash s = rev (dropWhile (\<lambda>c. c = CHR ''/'') (rev s))"

definition path_Base :: "string \<Rightarrow> string" where
  "path_Base p = (if p = '''' then ''.'' else (let b = last (SplitByte (TrimRightSlash p) CHR ''/'') in if b = '''' then ''/'' else b))"

definition filepath_Ext :: "string \<Rightarrow> string" where
  "filepath_Ext p = (let b = last (SplitByte p CHR ''/'') in
     if CHR ''.'' \<in> set b then CHR ''.'' # last (SplitByte b CHR ''.'') else '''')"

definition strings_Contains :: "string \<Rightarrow> string \<Rightarrow> bool" where
  "strings_Contains s sub = list_ex (\<lambda>t. HasPrefix t sub) (suffixes s)"

subsection \<open>The file system\<close>

record httpFileInfo =
  fi_name :: string
  fi_size :: int
  fi_mode :: nat
  fi_isDir :: bool
  fi_modtime :: int

record filesystem =
  fs_modtime :: int
  fs_prefix :: string
  fs_indexFile :: string
  fs_denyDirectory :: bool

record 'f httpFile =
  hf_fp :: 'f
  hf_modtime :: int

record fsworld =
  fs_asked :: "string list"
  fs_live :: "string list"

definition newFS :: "int \<Rightarrow> filesystem" where
  "newFS modtime = \<lparr>fs_modtime = modtime, fs_prefix = '''', fs_indexFile = '''', fs_denyDirectory = False\<rparr>"

definition DenyAccessDirectory :: "filesystem \<Rightarrow> filesystem" where
  "DenyAccessDirectory fs = fs\<lparr>fs_denyDirectory := True\<rparr>"

definition SetPrefix :: "string \<Rightarrow> filesystem \<Rightarrow> filesystem" where
  "SetPrefix prfx fs =
     (if prfx \<noteq> '''' then
        (let p = (if hd prfx \<noteq> CHR ''/'' then ''/'' @ prfx else prfx) in fs\<lparr>fs_prefix := TrimRightSlash p\<rparr>)
      else fs)"

definition SetIndexFile :: "string \<Rightarrow> filesystem \<Rightarrow> filesystem" where
  "SetIndexFile f fs = fs\<lparr>fs_indexFile := f\<rparr>"

definition Webroot :: "int \<Rightarrow> string \<Rightarrow> filesystem" where
  "Webroot nw prfx = SetIndexFile ''/index.html'' (DenyAccessDirectory (SetPrefix prfx (newFS nw)))"

definition newFileInfo :: "httpFileInfo \<Rightarrow> int \<Rightarrow> httpFileInfo" where
  "newFileInfo fi modtime = \<lparr>fi_name = fi_name fi, fi_size = fi_size fi, fi_mode = fi_mode fi, fi_isDir = fi_isDir fi, fi_modtime = modtime\<rparr>"

definition file_Stat :: "('f \<Rightarrow> goerror + httpFileInfo) \<Rightarrow> 'f httpFile \<Rightarrow> goerror + httpFileInfo" where
  "file_Stat stat file = (case stat (hf_fp file) of Inl er \<Rightarrow> Inl er | Inr fi \<Rightarrow> Inr (newFileInfo fi (hf_modtime file)))"

definition ErrPermission :: goerror where "ErrPermission = ErrString 900 ''permission denied''"

definition fs_name :: "filesystem \<Rightarrow> string \<Rightarrow> string" where
  "fs_name fs name =
     (if fs_prefix fs \<noteq> '''' then
        (if name \<noteq> fs_prefix fs \<and> \<not> HasPrefix name (fs_prefix fs @ ''/'') then path_Join (fs_prefix fs) name else name)
      else name)"

definition inner_Open :: "(string \<Rightarrow> goerror + 'f) \<Rightarrow> string \<Rightarrow> fsworld \<Rightarrow> (goerror + 'f) \<times> fsworld" where
  "inner_Open inner name w =
     (let w1 = w\<lparr>fs_asked := fs_asked w @ [name]\<rparr> in
      case inner name of Inl er \<Rightarrow> (Inl er, w1) | Inr f \<Rightarrow> (Inr f, w1\<lparr>fs_live := name # fs_live w1\<rparr>))"

text \<open>Nothing bounds the recursion in the code: an index file that cleans to the root makes it open the directory forever.\<close>

partial_function (option) Open :: "(string \<Rightarrow> goerror + 'f) \<Rightarrow> ('f \<Rightarrow> goerror + httpFileInfo) \<Rightarrow> filesystem \<Rightarrow> string \<Rightarrow> fsworld \<Rightarrow>
    ((goerror + 'f httpFile \<times> string) \<times> fsworld) option" where
  "Open inner stat fs name0 w =
     (let cleaned = Clean name0;
          needRetry = (cleaned = '''' \<or> cleaned = ''/'');
          name = fs_name fs cleaned
      in case inner_Open inner name w of
           (Inl er, w1) \<Rightarrow> Some (Inl er, w1)
         | (Inr fp, w1) \<Rightarrow>
             if fs_denyDirectory fs then
               (case stat fp of
                  Inl er \<Rightarrow> Some (Inl er, w1)
                | Inr st \<Rightarrow>
                    if fi_isDir st then
                      (if needRetry \<and> fs_indexFile fs \<noteq> '''' then Open inner stat fs (path_Join name (fs_indexFile fs)) w1
                       else Some (Inl ErrPermission, w1))
                    else Some (Inr (\<lparr>hf_fp = fp, hf_modtime = fs_modtime fs\<rparr>, name), w1))
             else Some (Inr (\<lparr>hf_fp = fp, hf_modtime = fs_modtime fs\<rparr>, name), w1))"

definition file_Close :: "string \<Rightarrow> fsworld \<Rightarrow> fsworld" where
  "file_Close name w = w\<lparr>fs_live := remove1 name (fs_live w)\<rparr>"

subsection \<open>Static files\<close>

definition assetsExtensions :: "string list" where
  "assetsExtensions = [''.css'', ''.js'', ''.png'', ''.jpg'', ''.jpeg'', ''.gif'', ''.svg'', ''.ico'', ''.woff'', ''.woff2'', ''.ttf'',
     ''.eot'', ''.otf'']"

definition acceptsGzip :: "request \<Rightarrow> bool" where
  "acceptsGzip rq = strings_Contains (header_Get (rq_Header rq) ''Accept-Encoding'') ''gzip''"

definition shouldCompress :: "bool \<Rightarrow> request \<Rightarrow> bool" where
  "shouldCompress autoCompress rq =
     (if \<not> autoCompress then False
      else if \<not> acceptsGzip rq \<or> strings_Contains (header_Get (rq_Header rq) ''Connection'') ''Upgrade'' then False
      else filepath_Ext (rq_Path rq) \<in> set assetsExtensions)"

definition gin_Header :: "string \<Rightarrow> string \<Rightarrow> 'a http_state_scheme \<Rightarrow> 'a http_state_scheme" where
  "gin_Header k v s = (if v = '''' then s\<lparr>rw_header := AList.delete (ToLower k) (rw_header s)\<rparr>
     else s\<lparr>rw_header := header_Set k v (rw_header s)\<rparr>)"

definition header_Del :: "string \<Rightarrow> header \<Rightarrow> header" where
  "header_Del k h = AList.delete (ToLower k) h"

text \<open>What \<open>staticHandle\<close> decides: whether the answer is compressed by the writer, and whether it is a compressed body.\<close>

definition gzip_choice :: "bool \<Rightarrow> request \<Rightarrow> httpFileInfo \<Rightarrow> bool \<Rightarrow> bool \<times> bool" where
  "gzip_choice autoCompress rq fi preCompressed =
     (if fi_isDir fi then (False, False)
      else if preCompressed \<and> acceptsGzip rq then (False, True)
      else if \<not> preCompressed \<and> shouldCompress autoCompress rq \<and> fi_size fi > 8192 then (True, True)
      else (False, False))"

definition gzip_headers :: "request \<Rightarrow> 'a http_state_scheme \<Rightarrow> 'a http_state_scheme" where
  "gzip_headers rq s =
     (let s1 = gin_Header ''Content-Encoding'' ''gzip'' s;
          s2 = s1\<lparr>rw_header := header_Add ''Vary'' ''Accept-Encoding'' (rw_header s1)\<rparr>;
          etag = header_Get (rq_Header rq) ''ETag''
      in if etag \<noteq> '''' \<and> \<not> HasPrefix etag ''W/'' then gin_Header ''ETag'' (''W/'' @ etag) s2 else s2)"

type_synonym ('f, 's) serve = "bool \<Rightarrow> request \<Rightarrow> string \<Rightarrow> 'f httpFile \<Rightarrow> 's \<Rightarrow> 's"

definition staticHandle :: "('f \<Rightarrow> goerror + httpFileInfo) \<Rightarrow> ('f, 'a http_state_scheme) serve \<Rightarrow> bool \<Rightarrow> request \<Rightarrow> 'f httpFile \<Rightarrow> bool \<Rightarrow>
    'a http_state_scheme \<Rightarrow> bool \<times> 'a http_state_scheme" where
  "staticHandle stat serve autoCompress rq fp preCompressed s =
     (case file_Stat stat fp of
        Inl er \<Rightarrow> (False, s)
      | Inr fi \<Rightarrow>
          (let (wrapped, useGzip) = gzip_choice autoCompress rq fi preCompressed;
               rq' = (if useGzip then rq\<lparr>rq_Header := header_Del ''Range'' (rq_Header rq)\<rparr> else rq);
               s1 = (if useGzip then gzip_headers rq s else s)
           in (True, (serve wrapped rq' (path_Base (Clean (rq_Path rq))) fp s1)\<lparr>gin_aborted := True\<rparr>)))"

definition not_found :: "(int \<Rightarrow> Envelope \<Rightarrow> 's \<Rightarrow> 's) \<Rightarrow> 's \<Rightarrow> 's" where
  "not_found gin_JSON s = gin_JSON 404 (newResponse CodeNotFound ''Not Found'' None) s"

definition notFoundHandle :: "(int \<Rightarrow> Envelope \<Rightarrow> 'a http_state_scheme \<Rightarrow> 'a http_state_scheme) \<Rightarrow> (string \<Rightarrow> goerror + 'f) \<Rightarrow>
    ('f \<Rightarrow> goerror + httpFileInfo) \<Rightarrow> ('f, 'a http_state_scheme) serve \<Rightarrow> filesystem option \<Rightarrow> bool \<Rightarrow> request \<Rightarrow>
    'a http_state_scheme \<Rightarrow> fsworld \<Rightarrow> ('a http_state_scheme \<times> fsworld) option" where
  "notFoundHandle gin_JSON inner stat serve fso autoCompress rq s w =
     (case fso of
        Some fs \<Rightarrow>
          if rq_Method rq = ''GET'' then
            (let uri = Clean (rq_Path rq) in
             case Open inner stat fs uri w of
               None \<Rightarrow> None
             | Some (Inr (fp, name), w1) \<Rightarrow>
                 (case staticHandle stat serve autoCompress rq fp False s of
                    (True, s1) \<Rightarrow> Some (s1, file_Close name w1)
                  | (False, s1) \<Rightarrow> Some (not_found gin_JSON s1, file_Close name w1))
             | Some (Inl er, w1) \<Rightarrow>
                 if acceptsGzip rq then
                   (case Open inner stat fs (uri @ ''.gz'') w1 of
                      None \<Rightarrow> None
                    | Some (Inr (fp, name), w2) \<Rightarrow>
                        (case staticHandle stat serve autoCompress rq fp True s of
                           (True, s1) \<Rightarrow> Some (s1, file_Close name w2)
                         | (False, s1) \<Rightarrow> Some (not_found gin_JSON s1, file_Close name w2))
                    | Some (Inl er2, w2) \<Rightarrow> Some (not_found gin_JSON s, w2))
                 else Some (not_found gin_JSON s, w1))
          else Some (not_found gin_JSON s, w)
      | None \<Rightarrow> Some (not_found gin_JSON s, w))"

subsection \<open>Cleaned paths\<close>

definition plain_comp :: "string \<Rightarrow> bool" where
  "plain_comp c \<longleftrightarrow> c \<noteq> '''' \<and> c \<noteq> ''.'' \<and> c \<noteq> ''..'' \<and> CHR ''/'' \<notin> set c"

definition abs_path :: "string list \<Rightarrow> string" where
  "abs_path cs = ''/'' @ JoinStr cs ''/''"

lemma SplitByte_Join: "cs \<noteq> [] \<Longrightarrow> \<forall>c\<in>set cs. CHR ''/'' \<notin> set c \<Longrightarrow> SplitByte (JoinStr cs ''/'') CHR ''/'' = cs"
proof (induction cs)
  case (Cons p ps)
  then show ?case
    using SplitByte_append_sep [of "CHR ''/''" p "JoinStr ps ''/''"] by (cases ps) (auto simp: SplitByte_no_sep)
qed simp

lemma clean_plain: "\<forall>c\<in>set cs. plain_comp c \<Longrightarrow> foldl (clean_step r) st cs = rev cs @ st"
  by (induction cs arbitrary: st) (auto simp: plain_comp_def)

lemma clean_rooted_plain:
  "\<forall>c\<in>set cs. CHR ''/'' \<notin> set c \<Longrightarrow> \<forall>c\<in>set st. plain_comp c \<Longrightarrow> c \<in> set (foldl (clean_step True) st cs) \<Longrightarrow> plain_comp c"
proof (induction cs arbitrary: st)
  case (Cons x cs)
  have "\<forall>c\<in>set (clean_step True st x). plain_comp c"
    using Cons.prems by (auto simp: plain_comp_def split: list.splits if_splits)
  with Cons show ?case by simp
qed simp

lemma Clean_rooted:
  assumes "p \<noteq> ''''" "hd p = CHR ''/''"
  obtains cs where "Clean p = abs_path cs" "\<forall>c\<in>set cs. plain_comp c"
    "cs = rev (foldl (clean_step True) [] (SplitByte p CHR ''/''))"
proof
  show "Clean p = abs_path (rev (foldl (clean_step True) [] (SplitByte p CHR ''/'')))"
    using assms by (simp add: Clean_def abs_path_def Let_def)
  show "\<forall>c\<in>set (rev (foldl (clean_step True) [] (SplitByte p CHR ''/''))). plain_comp c"
    using clean_rooted_plain [of "SplitByte p CHR ''/''" "[]"] SplitByte_pieces [of _ p "CHR ''/''"] by auto
qed simp

lemma SplitByte_slash: "SplitByte (a @ CHR ''/'' # b) CHR ''/'' = SplitByte a CHR ''/'' @ SplitByte b CHR ''/''"
  by (induction a) (auto simp: neq_Nil_conv split: list.splits)

lemma SplitByte_abs:
  assumes "\<forall>c\<in>set cs. plain_comp c"
  shows "SplitByte (abs_path cs) CHR ''/'' = '''' # (if cs = [] then [''''] else cs)"
  using assms SplitByte_slash [of "[]" "JoinStr cs ''/''"] SplitByte_Join [of cs] by (auto simp: abs_path_def plain_comp_def)

lemma Clean_abs [simp]:
  assumes "\<forall>c\<in>set cs. plain_comp c"
  shows "Clean (abs_path cs) = abs_path cs"
proof -
  have "foldl (clean_step True) [] (SplitByte (abs_path cs) CHR ''/'') = rev cs"
    using assms by (simp add: SplitByte_abs clean_plain)
  then show ?thesis by (simp add: Clean_def Let_def) (simp add: abs_path_def)
qed

lemma join_rooted:
  assumes "\<forall>c\<in>set ps. plain_comp c" "\<forall>c\<in>set cs. plain_comp c"
  shows "path_Join (abs_path ps) (abs_path cs) = abs_path (ps @ cs)"
proof -
  have "SplitByte (abs_path ps @ ''/'' @ abs_path cs) CHR ''/'' = SplitByte (abs_path ps) CHR ''/'' @ SplitByte (abs_path cs) CHR ''/''"
    using SplitByte_slash by simp
  then have "foldl (clean_step True) [] (SplitByte (abs_path ps @ ''/'' @ abs_path cs) CHR ''/'') = rev (ps @ cs)"
    using assms by (simp add: SplitByte_abs clean_plain)
  then show ?thesis by (simp add: path_Join_def Clean_def Let_def) (simp add: abs_path_def)
qed

lemma JoinStr_append: "ps \<noteq> [] \<Longrightarrow> cs \<noteq> [] \<Longrightarrow> JoinStr (ps @ cs) sep = JoinStr ps sep @ sep @ JoinStr cs sep"
proof (induction ps)
  case (Cons p ps)
  then show ?case by (cases ps; cases cs) auto
qed simp

text \<open>A name at or below a path, without a component that climbs up.\<close>

definition below :: "string \<Rightarrow> string \<Rightarrow> bool" where
  "below p n \<longleftrightarrow> (n = p \<or> HasPrefix n (p @ ''/'')) \<and> ''..'' \<notin> set (SplitByte n CHR ''/'')"

lemma no_climb: "\<forall>c\<in>set cs. plain_comp c \<Longrightarrow> ''..'' \<notin> set (SplitByte (abs_path cs) CHR ''/'')"
  by (auto simp: SplitByte_abs plain_comp_def)

lemma below_abs:
  assumes "ps \<noteq> []" "\<forall>c\<in>set ps. plain_comp c" "\<forall>c\<in>set cs. plain_comp c"
  shows "below (abs_path ps) (abs_path (ps @ cs))"
proof -
  have "abs_path (ps @ cs) = (if cs = [] then abs_path ps else (abs_path ps @ ''/'') @ JoinStr cs ''/'')"
    using assms(1) by (simp add: abs_path_def JoinStr_append)
  moreover have "''..'' \<notin> set (SplitByte (abs_path (ps @ cs)) CHR ''/'')" using assms by (intro no_climb) auto
  ultimately show ?thesis by (auto simp: below_def HasPrefix_iff)
qed

lemma JoinStr_single [simp]: "JoinStr [c] sep = c"
  by simp

lemma join_comp:
  assumes "\<forall>c\<in>set ps. plain_comp c" "plain_comp c"
  shows "path_Join (abs_path ps) c = abs_path (ps @ [c])"
proof -
  have "SplitByte (abs_path ps @ ''/'' @ c) CHR ''/'' = SplitByte (abs_path ps) CHR ''/'' @ [c]"
    using SplitByte_slash [of "abs_path ps" c] assms(2) by (simp add: SplitByte_no_sep plain_comp_def)
  then have "foldl (clean_step True) [] (SplitByte (abs_path ps @ ''/'' @ c) CHR ''/'') = rev (ps @ [c])"
    using assms by (simp add: SplitByte_abs clean_plain) (simp add: plain_comp_def)
  then show ?thesis by (simp add: path_Join_def Clean_def Let_def) (simp add: abs_path_def)
qed

lemma join_dot:
  assumes "\<forall>c\<in>set ps. plain_comp c"
  shows "path_Join (abs_path ps) ''.'' = abs_path ps"
proof -
  have "SplitByte (abs_path ps @ ''/'' @ ''.'') CHR ''/'' = SplitByte (abs_path ps) CHR ''/'' @ [''.'']"
    using SplitByte_slash [of "abs_path ps" "''.''"] by simp
  then have "foldl (clean_step True) [] (SplitByte (abs_path ps @ ''/'' @ ''.'') CHR ''/'') = rev ps"
    using assms by (simp add: SplitByte_abs clean_plain)
  then show ?thesis by (simp add: path_Join_def Clean_def Let_def) (simp add: abs_path_def)
qed

subsection \<open>Opening\<close>

lemma JoinStr_Nil: "JoinStr cs ''/'' = '''' \<Longrightarrow> cs = [] \<or> cs = ['''']"
proof (cases cs)
  case (Cons x xs)
  assume "JoinStr cs ''/'' = ''''"
  with Cons show ?thesis by (cases xs) auto
qed simp

lemma clean_nonempty: "'''' \<notin> set st \<Longrightarrow> '''' \<notin> set (foldl (clean_step r) st cs)"
proof (induction cs arbitrary: st)
  case (Cons x cs)
  have "'''' \<notin> set (clean_step r st x)" using Cons.prems by (auto split: list.splits if_splits)
  with Cons.IH show ?case by simp
qed simp

lemma Clean_not_Nil [simp]: "Clean p \<noteq> ''''"
proof -
  define cs where "cs = rev (foldl (clean_step (hd p = CHR ''/'')) [] (SplitByte p CHR ''/''))"
  have "'''' \<notin> set cs" using clean_nonempty [of "[]"] by (simp add: cs_def)
  then have "cs \<noteq> [] \<Longrightarrow> JoinStr cs ''/'' \<noteq> ''''" using JoinStr_Nil [of cs] by auto
  then show ?thesis unfolding Clean_def Let_def cs_def [symmetric] by simp
qed

lemma inner_Open_cases: "\<exists>r l. inner_Open inner n w = (r, \<lparr>fs_asked = fs_asked w @ [n], fs_live = l\<rparr>)"
  by (cases w; cases "inner n") (simp_all add: inner_Open_def Let_def)

lemma Open_once:
  assumes "Clean name \<noteq> ''/''"
  shows "\<exists>r w'. Open inner stat fs name w = Some (r, w') \<and> fs_asked w' = fs_asked w @ [fs_name fs (Clean name)]"
proof -
  obtain r l where "inner_Open inner (fs_name fs (Clean name)) w = (r, \<lparr>fs_asked = fs_asked w @ [fs_name fs (Clean name)], fs_live = l\<rparr>)"
    using inner_Open_cases by blast
  then show ?thesis using assms
    by (subst Open.simps) (auto simp: Let_def split: sum.splits)
qed

lemma Open_root:
  assumes "Clean name = ''/''" "Clean (path_Join (fs_name fs ''/'') (fs_indexFile fs)) \<noteq> ''/''"
  shows "\<exists>r w' ns. Open inner stat fs name w = Some (r, w') \<and> fs_asked w' = fs_asked w @ fs_name fs ''/'' # ns \<and>
    (ns = [] \<or> ns = [fs_name fs (Clean (path_Join (fs_name fs ''/'') (fs_indexFile fs)))])"
proof -
  obtain r l where i: "inner_Open inner (fs_name fs ''/'') w = (r, \<lparr>fs_asked = fs_asked w @ [fs_name fs ''/''], fs_live = l\<rparr>)"
    using inner_Open_cases by blast
  show ?thesis
  proof (cases "\<exists>fp st. r = Inr fp \<and> fs_denyDirectory fs \<and> stat fp = Inr st \<and> fi_isDir st \<and> fs_indexFile fs \<noteq> ''''")
    case True
    then have "Open inner stat fs name w = Open inner stat fs (path_Join (fs_name fs ''/'') (fs_indexFile fs))
        \<lparr>fs_asked = fs_asked w @ [fs_name fs ''/''], fs_live = l\<rparr>"
      using i assms(1) by (subst Open.simps) (auto simp: Let_def)
    then show ?thesis using Open_once [OF assms(2)] by fastforce
  next
    case False
    then show ?thesis using i assms(1)
      by (subst Open.simps) (auto simp: Let_def split: sum.splits)
  qed
qed

text \<open>The names a request leads to: rooted ones, and the two spellings of an empty path.\<close>

definition request_name :: "string \<Rightarrow> bool" where
  "request_name n \<longleftrightarrow> n = ''.'' \<or> n = ''..gz'' \<or> (\<exists>cs. n = abs_path cs \<and> (\<forall>c\<in>set cs. plain_comp c))"

lemma request_name_abs: "n = abs_path cs \<Longrightarrow> \<forall>c\<in>set cs. plain_comp c \<Longrightarrow> request_name n"
  by (auto simp: request_name_def)

lemma plain_gz: "plain_comp ''..gz''" "plain_comp ''index.html''"
  by (simp_all add: plain_comp_def)

lemma request_name_Clean: "request_name n \<Longrightarrow> Clean n = n"
proof -
  have "Clean ''.'' = ''.''" "Clean ''..gz'' = ''..gz''" by code_simp+
  then show "request_name n \<Longrightarrow> Clean n = n" by (auto simp: request_name_def)
qed

lemma fs_name_below:
  assumes ps: "ps \<noteq> []" "\<forall>c\<in>set ps. plain_comp c" "fs_prefix fs = abs_path ps" and n: "request_name n"
  shows "below (abs_path ps) (fs_name fs n)"
proof (cases "n \<noteq> abs_path ps \<and> \<not> HasPrefix n (abs_path ps @ ''/'')")
  case True
  then have j: "fs_name fs n = path_Join (abs_path ps) n"
    using ps(3) by (simp add: fs_name_def abs_path_def)
  from n consider "n = ''.''" | "n = ''..gz''" | cs where "n = abs_path cs" "\<forall>c\<in>set cs. plain_comp c"
    by (auto simp: request_name_def)
  then show ?thesis
  proof cases
    case 1
    have "fs_name fs n = abs_path ps" using j join_dot [OF ps(2)] by (simp only: 1)
    then show ?thesis using below_abs [OF ps(1,2), of "[]"] by simp
  next
    case 2
    have "fs_name fs n = abs_path (ps @ [''..gz''])" using j join_comp [OF ps(2) plain_gz(1)] by (simp only: 2)
    then show ?thesis using below_abs [OF ps(1,2), of "[''..gz'']"] plain_gz by simp
  next
    case (3 cs)
    have "fs_name fs n = abs_path (ps @ cs)" using j join_rooted [OF ps(2) 3(2)] by (simp only: 3)
    then show ?thesis using below_abs [OF ps(1,2) 3(2)] by simp
  qed
next
  case False
  then have e: "fs_name fs n = n" "n = abs_path ps \<or> HasPrefix n (abs_path ps @ ''/'')" by (auto simp: fs_name_def ps(3))
  moreover have "hd n = CHR ''/''" using e(2) by (auto simp: HasPrefix_iff abs_path_def)
  then have "\<exists>cs. n = abs_path cs \<and> (\<forall>c\<in>set cs. plain_comp c)" using n by (auto simp: request_name_def)
  ultimately show ?thesis using no_climb by (auto simp: below_def)
qed

lemma root_is_request: "request_name ''/''"
  by (auto simp: request_name_def abs_path_def intro!: exI [of _ "[]"])

lemma abs_path_root: "\<forall>c\<in>set cs. plain_comp c \<Longrightarrow> abs_path cs = ''/'' \<Longrightarrow> cs = []"
proof -
  assume pl: "\<forall>c\<in>set cs. plain_comp c" and "abs_path cs = ''/''"
  then have "JoinStr cs ''/'' = ''''" by (simp only: abs_path_def) simp
  from JoinStr_Nil [OF this] pl show "cs = []" by (elim disjE) (simp_all add: plain_comp_def)
qed

lemma index_path:
  assumes ps: "ps \<noteq> []" "\<forall>c\<in>set ps. plain_comp c" "fs_prefix fs = abs_path ps"
  shows "path_Join (fs_name fs ''/'') ''/index.html'' = abs_path (ps @ [''index.html''])"
proof -
  define rt where "rt = ''/''"
  define ix where "ix = ''/index.html''"
  have r: "rt = abs_path []" "ix = abs_path [''index.html'']" by (simp_all add: abs_path_def rt_def ix_def)
  have "rt \<noteq> abs_path ps" using abs_path_root [OF ps(2)] ps(1) unfolding rt_def by metis
  moreover have "length (abs_path ps @ ''/'') > length rt" by (simp add: abs_path_def rt_def)
  then have "\<not> HasPrefix rt (abs_path ps @ ''/'')" by (auto simp: HasPrefix_iff)
  moreover have "abs_path ps \<noteq> ''''" by (simp add: abs_path_def)
  ultimately have "fs_name fs rt = path_Join (abs_path ps) rt" unfolding fs_name_def ps(3) by simp
  then have "fs_name fs rt = abs_path ps" using join_rooted [OF ps(2), of "[]"] by (simp add: r(1))
  then have "path_Join (fs_name fs rt) ix = abs_path (ps @ [''index.html''])"
    using join_rooted [OF ps(2), of "[''index.html'']"] plain_gz(2) by (simp only: r(2)) simp
  then show ?thesis by (simp only: rt_def ix_def)
qed

lemma Open_below:
  assumes ps: "ps \<noteq> []" "\<forall>c\<in>set ps. plain_comp c" "fs_prefix fs = abs_path ps"
    and idx: "fs_indexFile fs = ''/index.html''" and n: "request_name n"
  shows "\<exists>r w' ns. Open inner stat fs n w = Some (r, w') \<and> fs_asked w' = fs_asked w @ ns \<and>
    (\<forall>m\<in>set ns. below (abs_path ps) m) \<and> length ns \<le> (if n = ''/'' then 2 else 1)"
proof (cases "n = ''/''")
  case False
  obtain r w' where "Open inner stat fs n w = Some (r, w')" "fs_asked w' = fs_asked w @ [fs_name fs n]"
    using Open_once [of n inner stat fs w] False by (auto simp: request_name_Clean [OF n])
  with False fs_name_below [OF ps n] show ?thesis by (intro exI [of _ r] exI [of _ w'] exI [of _ "[fs_name fs n]"]) simp
next
  case True
  have pl: "\<forall>c\<in>set (ps @ [''index.html'']). plain_comp c" using ps(2) plain_gz(2) by simp
  then have ix: "request_name (abs_path (ps @ [''index.html'']))" by (intro request_name_abs [OF refl])
  have nr: "abs_path (ps @ [''index.html'']) \<noteq> ''/''" using abs_path_root [OF pl] by blast
  have cl: "Clean (path_Join (fs_name fs ''/'') (fs_indexFile fs)) = abs_path (ps @ [''index.html''])"
    by (simp only: idx index_path [OF ps] Clean_abs [OF pl])
  from True have c: "Clean n = ''/''" using request_name_Clean [OF n] by simp
  from Open_root [OF c, of fs, unfolded cl, OF nr, of inner stat w] obtain r w' ns where
    o: "Open inner stat fs n w = Some (r, w')" "fs_asked w' = fs_asked w @ fs_name fs ''/'' # ns"
    "ns = [] \<or> ns = [fs_name fs (abs_path (ps @ [''index.html'']))]" by blast
  moreover have "\<forall>m\<in>set (fs_name fs ''/'' # ns). below (abs_path ps) m"
    using o(3) fs_name_below [OF ps root_is_request] fs_name_below [OF ps ix] by auto
  ultimately show ?thesis using True by (intro exI [of _ r] exI [of _ w'] exI [of _ "fs_name fs ''/'' # ns"]) auto
qed

lemma request_name_uri:
  assumes "path = '''' \<or> hd path = CHR ''/''"
  shows "request_name (Clean path) \<and> request_name (Clean path @ ''.gz'')"
proof (cases "path = ''''")
  case True
  then show ?thesis by (simp add: Clean_def request_name_def)
next
  case False
  with assms obtain cs where cs: "Clean path = abs_path cs" "\<forall>c\<in>set cs. plain_comp c" using Clean_rooted by metis
  show ?thesis
  proof (cases cs rule: rev_cases)
    case Nil
    then have "Clean path @ ''.gz'' = abs_path [''.gz'']" using cs by (simp add: abs_path_def)
    moreover have "plain_comp ''.gz''" by (simp add: plain_comp_def)
    ultimately show ?thesis using request_name_abs [OF cs] request_name_abs [of _ "[''.gz'']"] by simp
  next
    case (snoc xs x)
    have j: "JoinStr (xs @ [x]) ''/'' @ ''.gz'' = JoinStr (xs @ [x @ ''.gz'']) ''/''"
      by (cases "xs = []") (simp_all add: JoinStr_append)
    have "plain_comp (x @ ''.gz'')" using cs(2) snoc by (cases x rule: rev_cases) (auto simp: plain_comp_def)
    moreover have "Clean path @ ''.gz'' = abs_path (xs @ [x @ ''.gz''])" using j by (simp add: cs(1) snoc abs_path_def)
    ultimately show ?thesis using request_name_abs [OF cs] request_name_abs [of _ "xs @ [x @ ''.gz'']"] cs(2) snoc by simp
  qed
qed

lemma TrimRightSlash_end: "TrimRightSlash s \<noteq> '''' \<Longrightarrow> last (TrimRightSlash s) \<noteq> CHR ''/''"
proof -
  assume "TrimRightSlash s \<noteq> ''''"
  then have "dropWhile (\<lambda>c. c = CHR ''/'') (rev s) \<noteq> []" by (simp add: TrimRightSlash_def)
  from hd_dropWhile [OF this] show ?thesis by (simp add: TrimRightSlash_def last_rev)
qed

lemma TrimRightSlash_prefix: "prefix (TrimRightSlash s) s"
proof -
  have "suffix (dropWhile (\<lambda>c. c = CHR ''/'') (rev s)) (rev s)" by (rule suffix_dropWhile)
  then show ?thesis by (simp add: suffix_to_prefix TrimRightSlash_def)
qed

lemma TrimRightSlash_hd: "TrimRightSlash s \<noteq> '''' \<Longrightarrow> hd (TrimRightSlash s) = hd s"
  using TrimRightSlash_prefix [of s] by (metis hd_append2 prefix_def)

lemma Webroot_prefix:
  assumes "p = fs_prefix (Webroot nw prfx)" "p \<noteq> ''''"
  shows "hd p = CHR ''/''" "p \<noteq> ''/''"
proof -
  define q where "q = (if hd prfx \<noteq> CHR ''/'' then ''/'' @ prfx else prfx)"
  have p: "p = TrimRightSlash q"
    using assms by (auto simp: Webroot_def SetIndexFile_def DenyAccessDirectory_def SetPrefix_def newFS_def Let_def q_def split: if_splits)
  show "hd p = CHR ''/''" using TrimRightSlash_hd [of q] assms(2) p by (auto simp: q_def)
  show "p \<noteq> ''/''" using TrimRightSlash_end [of q] assms(2) p by auto
qed

lemma Webroot_simps: "fs_indexFile (Webroot nw prfx) = ''/index.html''" "fs_denyDirectory (Webroot nw prfx)"
  by (simp_all add: Webroot_def SetIndexFile_def DenyAccessDirectory_def)

lemma file_Close_asked [simp]: "fs_asked (file_Close n w) = fs_asked w"
  by (simp add: file_Close_def)

text \<open>The two lookups of \<open>notFoundHandle\<close>: what they ask for is all that the answer depends on here.\<close>

lemma notFound_asks:
  assumes o1: "Open inner stat fs (Clean (rq_Path rq)) w = Some (r1, w1)"
    and o2: "Open inner stat fs (Clean (rq_Path rq) @ ''.gz'') w1 = Some (r2, w2)"
  shows "\<exists>s' w'. notFoundHandle gin_JSON inner stat serve (Some fs) ac rq s w = Some (s', w') \<and>
    fs_asked w' \<in> {fs_asked w, fs_asked w1, fs_asked w2}"
proof (cases "rq_Method rq = ''GET''")
  case False
  then show ?thesis by (simp add: notFoundHandle_def)
next
  case True
  note d = notFoundHandle_def Let_def True o1
  show ?thesis
  proof (cases r1)
    case (Inr f)
    obtain fp name where f: "f = (fp, name)" by (cases f)
    obtain b s1 where st: "staticHandle stat serve ac rq fp False s = (b, s1)" by fastforce
    show ?thesis by (cases b) (simp_all add: d Inr f st)
  next
    case (Inl er)
    show ?thesis
    proof (cases "acceptsGzip rq")
      case False
      then show ?thesis by (simp add: d Inl)
    next
      case gz: True
      show ?thesis
      proof (cases r2)
        case i: (Inl er2)
        show ?thesis by (simp add: d Inl gz o2 i)
      next
        case i: (Inr f)
        obtain fp name where f: "f = (fp, name)" by (cases f)
        obtain b s1 where st: "staticHandle stat serve ac rq fp True s = (b, s1)" by fastforce
        show ?thesis by (cases b) (simp_all add: d Inl gz o2 i f st)
      qed
    qed
  qed
qed

text \<open>
  C22: A server with static files below a clean prefix answers every request for a path that has no route, and
  whatever the path is (also with dots, doubled slashes or a prefix of the prefix), the file system is asked for at most
  three names, each of which is the prefix or lies below it and has no component \<open>..\<close>.
\<close>

theorem webroot_confined:
  assumes "fs = Webroot nw prfx" "p = fs_prefix fs" "p \<noteq> ''''" "Clean p = p"
    and path: "rq_Path rq = '''' \<or> hd (rq_Path rq) = CHR ''/''"
  shows "\<exists>s' w' ns. notFoundHandle gin_JSON inner stat serve (Some fs) ac rq s w = Some (s', w') \<and>
    fs_asked w' = fs_asked w @ ns \<and> (\<forall>n\<in>set ns. below p n) \<and> length ns \<le> 3"
proof -
  have "hd p = CHR ''/''" "p \<noteq> ''/''" using Webroot_prefix [of p nw prfx] assms(1-3) by simp_all
  then obtain ps where ps: "p = abs_path ps" "\<forall>c\<in>set ps. plain_comp c" using Clean_rooted [OF assms(3)] assms(4) by metis
  have ne: "ps \<noteq> []" using \<open>p \<noteq> ''/''\<close> ps(1) by (auto simp: abs_path_def)
  have fp: "fs_prefix fs = abs_path ps" using assms(2) ps(1) by simp
  have fi: "fs_indexFile fs = ''/index.html''" using assms(1) Webroot_simps by simp
  note opened = Open_below [OF ne ps(2) fp fi]
  note uri = request_name_uri [OF path]
  obtain r1 w1 ns1 where o1: "Open inner stat fs (Clean (rq_Path rq)) w = Some (r1, w1)"
    "fs_asked w1 = fs_asked w @ ns1" "\<forall>n\<in>set ns1. below p n" "length ns1 \<le> 2"
    using opened [OF uri [THEN conjunct1], of inner stat w] ps(1) by (fastforce split: if_splits)
  have "Clean (rq_Path rq) @ ''.gz'' \<noteq> ''/''" by auto
  then obtain r2 w2 ns2 where o2: "Open inner stat fs (Clean (rq_Path rq) @ ''.gz'') w1 = Some (r2, w2)"
    "fs_asked w2 = fs_asked w1 @ ns2" "\<forall>n\<in>set ns2. below p n" "length ns2 \<le> 1"
    using opened [OF uri [THEN conjunct2], of inner stat w1] ps(1) by auto
  obtain s' w' where h: "notFoundHandle gin_JSON inner stat serve (Some fs) ac rq s w = Some (s', w')"
    "fs_asked w' \<in> {fs_asked w, fs_asked w1, fs_asked w2}"
    using notFound_asks [OF o1(1) o2(1)] by metis
  have "\<exists>ns. fs_asked w' = fs_asked w @ ns \<and> (\<forall>n\<in>set ns. below p n) \<and> length ns \<le> 3"
    using h(2) o1 o2 by (elim insertE; intro exI [of _ "if fs_asked w' = fs_asked w then [] else if fs_asked w' = fs_asked w1 then ns1 else ns1 @ ns2"]) auto
  with h(1) show ?thesis by blast
qed

theorem webroot_confined_witness:
  "\<exists>s' w' ns. notFoundHandle (\<lambda>st ev s. s) (\<lambda>n. Inl ErrPermission) (\<lambda>f. Inl ErrPermission) (\<lambda>gz rq n f s. s)
      (Some (Webroot 0 ''static/'')) True (sample_rq []) sample_http_state \<lparr>fs_asked = [], fs_live = []\<rparr> = Some (s', w') \<and>
    fs_asked w' = ns \<and> (\<forall>n\<in>set ns. below ''/static'' n) \<and> length ns \<le> 3"
proof -
  have p: "''/static'' = fs_prefix (Webroot 0 ''static/'')" by code_simp
  have c: "Clean ''/static'' = ''/static''" by code_simp
  have rq: "rq_Path (sample_rq []) = '''' \<or> hd (rq_Path (sample_rq [])) = CHR ''/''" by (simp add: sample_rq_def)
  show ?thesis
    using webroot_confined [OF refl p _ c rq, where gin_JSON = "\<lambda>st ev s. s" and inner = "\<lambda>n. Inl ErrPermission"
      and stat = "\<lambda>f. Inl ErrPermission" and serve = "\<lambda>gz rq n f s. s" and ac = True and s = sample_http_state
      and w = "\<lparr>fs_asked = [], fs_live = []\<rparr>"] by simp
qed

subsection \<open>Compression\<close>

text \<open>A client that does not accept gzip gets the file as it is, with its request untouched.\<close>

lemma static_identity:
  assumes "\<not> acceptsGzip rq" "file_Stat stat fp = Inr fi"
  shows "staticHandle stat serve ac rq fp pre s = (True, (serve False rq (path_Base (Clean (rq_Path rq))) fp s)\<lparr>gin_aborted := True\<rparr>)"
  using assms by (simp add: staticHandle_def gzip_choice_def shouldCompress_def)

text \<open>A compressed answer is announced, varies on the encoding, and never answers a range request.\<close>

lemma gzip_announced:
  assumes "gzip_choice ac rq fi pre = (wr, True)" "file_Stat stat fp = Inr fi"
  shows "staticHandle stat serve ac rq fp pre s =
      (True, (serve wr (rq\<lparr>rq_Header := header_Del ''Range'' (rq_Header rq)\<rparr>) (path_Base (Clean (rq_Path rq))) fp (gzip_headers rq s))\<lparr>gin_aborted := True\<rparr>)"
    and "acceptsGzip rq" and "header_Get (rw_header (gzip_headers rq s)) ''Content-Encoding'' = ''gzip''"
    and "header_Get (header_Del ''Range'' (rq_Header rq)) ''Range'' = ''''"
proof -
  show "staticHandle stat serve ac rq fp pre s =
      (True, (serve wr (rq\<lparr>rq_Header := header_Del ''Range'' (rq_Header rq)\<rparr>) (path_Base (Clean (rq_Path rq))) fp (gzip_headers rq s))\<lparr>gin_aborted := True\<rparr>)"
    using assms by (simp add: staticHandle_def)
  show "acceptsGzip rq" using assms(1) by (auto simp: gzip_choice_def shouldCompress_def split: if_splits)
  have k: "ToLower ''Content-Encoding'' \<noteq> ToLower ''Vary''" "ToLower ''Content-Encoding'' \<noteq> ToLower ''ETag''" by code_simp+
  define ce where "ce = ''Content-Encoding''"
  show "header_Get (rw_header (gzip_headers rq s)) ''Content-Encoding'' = ''gzip''"
    using k unfolding gzip_headers_def Let_def gin_Header_def ce_def [symmetric] by (simp add: header_Get_Set header_Get_Add)
  show "header_Get (header_Del ''Range'' (rq_Header rq)) ''Range'' = ''''"
    by (simp add: header_Get_def header_Del_def gomap_simps)
qed

subsection \<open>Handles and loops\<close>

text \<open>
  A path that names a directory is refused, but the handle the lookup opened is never closed.
\<close>

lemma directory_handle_leaks:
  assumes "fs_denyDirectory fs" "Clean (rq_Path rq) \<noteq> ''/''" "Clean (Clean (rq_Path rq)) = Clean (rq_Path rq)"
    and "inner (fs_name fs (Clean (rq_Path rq))) = Inr d" "stat d = Inr fi" "fi_isDir fi"
    and "rq_Method rq = ''GET''" "\<not> acceptsGzip rq"
  shows "\<exists>w'. notFoundHandle gin_JSON inner stat serve (Some fs) ac rq s w = Some (not_found gin_JSON s, w') \<and>
    fs_live w' = fs_name fs (Clean (rq_Path rq)) # fs_live w"
proof -
  have "\<exists>w'. Open inner stat fs (Clean (rq_Path rq)) w = Some (Inl ErrPermission, w') \<and>
      fs_live w' = fs_name fs (Clean (rq_Path rq)) # fs_live w"
    using assms(1-6) by (subst Open.simps) (simp add: Let_def inner_Open_def)
  with assms(7,8) show ?thesis by (auto simp: notFoundHandle_def Let_def)
qed

text \<open>With an index file that cleans to the root, the lookup of a root directory does not return.\<close>

lemma Open_loops:
  assumes "fs_denyDirectory fs" "fs_indexFile fs = ''/''" "fs_prefix fs = ''''" "inner ''/'' = Inr d" "stat d = Inr fi" "fi_isDir fi"
  shows "Open inner stat fs ''/'' w = None"
proof -
  have c: "Clean ''/'' = ''/''" "path_Join ''/'' ''/'' = ''/''" by code_simp+
  have "\<not> (i = inner \<and> st = stat \<and> f = fs \<and> name = ''/'')" if "Open i st f name w = Some r" for i st f name w r
    using that
  proof (rule Open.raw_induct [rotated, where P = "\<lambda>i st f name w r. \<not> (i = inner \<and> st = stat \<and> f = fs \<and> name = ''/'')"], intro notI)
    fix opn i st f name w r
    assume IH: "\<And>i st f n w r. opn i st f n w = Some r \<Longrightarrow> \<not> (i = inner \<and> st = stat \<and> f = fs \<and> n = ''/'')"
      and *: "(let cleaned = Clean name; needRetry = cleaned = '''' \<or> cleaned = ''/''; name = fs_name f cleaned
         in case inner_Open i name w of (Inl er, w1) \<Rightarrow> Some (Inl er, w1)
            | (Inr fp, w1) \<Rightarrow>
                if fs_denyDirectory f then
                  (case st fp of Inl er \<Rightarrow> Some (Inl er, w1)
                   | Inr st' \<Rightarrow> if fi_isDir st' then
                       (if needRetry \<and> fs_indexFile f \<noteq> '''' then opn i st f (path_Join name (fs_indexFile f)) w1
                        else Some (Inl ErrPermission, w1))
                     else Some (Inr (\<lparr>hf_fp = fp, hf_modtime = fs_modtime f\<rparr>, name), w1))
                else Some (Inr (\<lparr>hf_fp = fp, hf_modtime = fs_modtime f\<rparr>, name), w1)) = Some r"
      and ee: "i = inner \<and> st = stat \<and> f = fs \<and> name = ''/''"
    from ee have e: "i = inner" "st = stat" "f = fs" "name = ''/''" by blast+
    have "fs_name fs ''/'' = ''/''" using assms(3) by (simp add: fs_name_def)
    then have "\<exists>w1. opn inner stat fs (path_Join ''/'' (fs_indexFile fs)) w1 = Some r"
      using * assms unfolding e by (auto simp: Let_def inner_Open_def c)
    then show False using IH c(2) unfolding assms(2) by blast
  qed
  then show ?thesis by (metis option.exhaust)
qed

end
