(* ===== verification/Assembly.thy ===== *)
theory Assembly
  imports Dashboard Seed Webroot
begin

text \<open>
  Package \<open>admin\<close>: how the server is put together (\<open>server.go\<close>, \<open>register_model_options.go\<close>, \<open>module_menu.go\<close>,
  \<open>endpoint_permissions.go\<close>, \<open>policy/policy.go\<close>, \<open>vue_gen.go\<close> and the rule migration of \<open>setup_converge.go\<close>).

  Package rest is a parameter: \<open>ae_New\<close> builds the REST resource of a model, with the scenarios it is restricted to, if
  any, and whether it gets a tenant resolver; it may change the database (tables and schema rows). \<open>ae_Routes\<close> are the routes,
  as method and path, that it mounts for the resource. The state of the
  set-up is the index of models, the files written for the front end, the database, and the sequence of what was installed.
  The body of the generated view is a parameter of the substitution.
\<close>

record registerModelConfig =
  rm_menuSpec :: "MenuSpec option"
  rm_scenarios :: "string list option"
  rm_vueOutputDir :: "string option"

definition WithRegisterMenuSpec :: "MenuSpec \<Rightarrow> registerModelConfig \<Rightarrow> registerModelConfig" where
  "WithRegisterMenuSpec spec cfg = cfg\<lparr>rm_menuSpec := Some spec\<rparr>"
definition WithRegisterScenarios :: "string list \<Rightarrow> registerModelConfig \<Rightarrow> registerModelConfig" where
  "WithRegisterScenarios sc cfg = cfg\<lparr>rm_scenarios := Some sc\<rparr>"
definition WithRegisterVueOutputDir :: "string \<Rightarrow> registerModelConfig \<Rightarrow> registerModelConfig" where
  "WithRegisterVueOutputDir dir cfg = cfg\<lparr>rm_vueOutputDir := Some dir\<rparr>"







subsection \<open>Generated views\<close>






subsection \<open>Registering a model\<close>









subsection \<open>Set-up\<close>












subsection \<open>Policies of generated services\<close>

record Policy =
  po_Method :: string
  po_Path :: string
  po_Button :: string
  po_Group :: string
  po_Description :: string
  po_Public :: bool

definition policy_Permission :: "Policy \<Rightarrow> string" where
  "policy_Permission p = (if po_Method p = '''' \<or> po_Path p = '''' then '''' else ToUpper (po_Method p) @ '' '' @ po_Path p)"

definition ensurePermission :: "('d, 'x) setup_env_scheme \<Rightarrow> string \<Rightarrow> string \<Rightarrow> string \<Rightarrow> string \<Rightarrow> 'd \<Rightarrow> goerror option \<times> 'd" where
  "ensurePermission e ty dt desc g d =
     (if dt = '''' then (None, d)
      else case First (se_Perm_all e) (\<lambda>p. p_Type p = ty \<and> p_Data p = dt) d of
        Inr _ \<Rightarrow> (None, d)
      | Inl er \<Rightarrow>
          if \<not> Is er (ErrRecordNotFound (se_Perm_all e)) then (Some (Errorf e ''lookup sys_permission %q/%q: %w'' [ty, dt] er), d)
          else (case Create (T_Permission (se_T e)) [\<lparr>p_ID = 0, p_Type = ty, p_Data = dt, p_Description = desc, p_Group = g\<rparr>] d of
                  (Some er', d1) \<Rightarrow> (Some (Errorf e ''auto-create endpoint permission %q/%q: %w'' [ty, dt] er'), d1)
                | (None, d1) \<Rightarrow> (None, d1)))"

fun policies_loop :: "('d, 'x) setup_env_scheme \<Rightarrow> Policy list \<Rightarrow> 'd \<Rightarrow> goerror option \<times> 'd" where
  "policies_loop e [] d = (None, d)"
| "policies_loop e (p # ps) d =
     (if po_Public p then policies_loop e ps d
      else and_then (if policy_Permission p \<noteq> '''' then ensurePermission e PermissionTypeAPI (policy_Permission p) (po_Description p) (po_Group p) d else (None, d))
        (\<lambda>d. and_then (if po_Button p \<noteq> '''' then ensurePermission e PermissionTypeButton (po_Button p) (po_Description p) (po_Group p) d else (None, d))
        (\<lambda>d. policies_loop e ps d)))"

definition EnsureEndpointPermissions :: "('d, 'x) setup_env_scheme \<Rightarrow> bool \<Rightarrow> Policy list \<Rightarrow> 'd \<Rightarrow> goerror option \<times> 'd" where
  "EnsureEndpointPermissions e has_db policies d =
     (if \<not> has_db then (Some (ErrString 913 ''admin: EnsureEndpointPermissions requires a non-nil *gorm.DB''), d)
      else policies_loop e policies d)"

record ModuleSpec =
  mo_Name :: string
  mo_Title :: string
  mo_Icon :: string
  mo_Component :: string
  mo_Sort :: int

definition EnsureModuleMenu :: "('d, 'x) setup_env_scheme \<Rightarrow> bool \<Rightarrow> ModuleSpec \<Rightarrow> 'd \<Rightarrow> goerror option \<times> 'd" where
  "EnsureModuleMenu e has_db spec d =
     (if \<not> has_db then (Some (ErrString 914 ''admin: EnsureModuleMenu requires a non-nil *gorm.DB''), d)
      else if mo_Name spec = '''' then (Some (ErrString 915 ''admin: module name is required''), d)
      else if mo_Title spec = '''' then (Some (ErrString 916 ''admin: module title is required''), d)
      else (let component = (if mo_Component spec = '''' then pascalWords (mo_Name spec) @ ''Center'' else mo_Component spec) in
        case First (se_Menu_all e) (\<lambda>m. m_Component m = component) d of
          Inr _ \<Rightarrow> (None, d)
        | Inl er \<Rightarrow>
            if \<not> Is er (ErrRecordNotFound (se_Menu_all e)) then (Some (Errorf e ''lookup module menu %q: %w'' [component] er), d)
            else (case Create (T_Menu (se_T e)) [menu_row (no_spec\<lparr>ms_Component := component, ms_Name := mo_Title spec, ms_Icon := mo_Icon spec, ms_Sort := mo_Sort spec\<rparr>)] d of
                    (Some er', d1) \<Rightarrow> (Some (Errorf e ''insert module menu %q: %w'' [component] er'), d1)
                  | (None, d1) \<Rightarrow> (None, d1))))"

subsection \<open>What the set-up needs of the tables\<close>








subsection \<open>A database of lists\<close>



















section \<open>Properties\<close>




end
