(* ===== verification/Site.thy ===== *)
theory Site
  imports Assembly Permission RateLimit
begin

text \<open>
  The composed HTTP site: the routes of the generated services (\<open>admin/pb\<close>, the \<open>Register\<close> functions), and the
  service of \<open>admin/cmd/mock\<close>, which puts the parts of the administration back end together in the way its documentation
  describes: set-up, routes, rate limit and token middlewares, seeding.

  The middlewares of the other theories run on their own extensions of the request state; here they
  run on one state that has the answer, the limiter and the caches of the permission checker.
\<close>

subsection \<open>Routes of the services\<close>











subsection \<open>The service of the mock\<close>

definition env_or :: "string \<Rightarrow> string \<Rightarrow> string" where
  "env_or v dflt = (if v \<noteq> '''' then v else dflt)"

definition JWTSecret :: "(string \<Rightarrow> string) \<Rightarrow> string" where "JWTSecret Getenv = env_or (Getenv ''JWT_SECRET'') ''change-me''"

definition mock_options :: Options where
  "mock_options = newOptions [WithDB True, WithOpenAPI True, WithRouter True, WithAudit True, WithMultiTenant True]"

definition mock_allows :: "string list" where
  "mock_allows = [''/auth/login'', ''/auth/refresh-token'', ''/auth/logout'', ''/health'', ''/ready'']"


record 's site = http_state +
  site_limiter :: memoryLimiter
  site_wall :: int
  site_caches :: "'s tstate"

text \<open>No limiter is configured, so the middleware builds the in-memory one.\<close>

definition site_Limiter :: "(rat \<Rightarrow> rat) \<Rightarrow> ('s, 'z) site_scheme Limiter" where
  "site_Limiter rnd key s =
     (let ((allowed, retryAfter), l) = Allow rnd (site_wall s) key (site_limiter s)
      in (Inr (allowed, retryAfter), s\<lparr>site_limiter := l\<rparr>))"

definition mock_rate_limit :: "('s, 'z) site_scheme RateLimitOpts" where
  "mock_rate_limit =
     \<lparr>rl_Path = ''/auth/login'', rl_Keys = [''login:ip:{ip}''], rl_Capacity = 5, rl_Refill = 1 / 60, rl_Limiter = None\<rparr>"

definition site_checker :: "checkerConfig \<Rightarrow> ('d, 's) checker_deps \<Rightarrow> nat \<Rightarrow> 'd \<Rightarrow> 'a ctx_scheme \<Rightarrow> jclaims \<Rightarrow> ('s, 'z) site_scheme \<Rightarrow>
    goerror option \<times> ('s, 'z) site_scheme" where
  "site_checker cfg deps a d c cl s =
     (case permission_checker cfg deps a d c cl \<lparr>heap = heap s, tst = site_caches s\<rparr> of
        (r, p) \<Rightarrow> (r, s\<lparr>heap := heap p, site_caches := tst p\<rparr>))"

definition mock_jwt_options :: "('d, 's) checker_deps \<Rightarrow> nat \<Rightarrow> 'd \<Rightarrow> (('s, 'z) site_scheme, 'a actx_scheme) jwt_options" where
  "mock_jwt_options deps a d =
     \<lparr>allows = mock_allows, claims = Some True, validate = None, permissionChecker = Some (site_checker (checker_config []) deps a d)\<rparr>"

definition mock_middlewares :: "(rat \<Rightarrow> rat) \<Rightarrow> (int \<Rightarrow> string) \<Rightarrow> nat \<Rightarrow> jwt_lib \<Rightarrow> ('d, 's) checker_deps \<Rightarrow> 'd \<Rightarrow>
    (('s, 'z) site_scheme, 'a actx_scheme) Middleware list" where
  "mock_middlewares rnd dur_str a lib deps d =
     [rate_limit_handler dur_str a mock_rate_limit (site_Limiter rnd), JWT lib (mock_jwt_options deps a d)]"

subsection \<open>Facts about the composition\<close>









section \<open>Properties\<close>


subsection \<open>Requests\<close>

lemma site_ctx:
  assumes "metadataKey c = None"
  shows "ctx_Get (heap (entry_state uuid rq s)) (NewContext c (length (heap s))) k = md_Get (request_metadata uuid rq md_New) k"
  using assms by (simp add: ctx_Get_def FromContext_def NewContext_def entry_state_def md_Get_lower canonicalMetadataKey_def Let_def nth_append)

lemma respond_error_written: "rw_written (respond_error marshal er s)"
  by (cases "rw_written s") (auto simp: respond_error_def abortWithEnvelope_def response_Write_def rw_Write_def Let_def split: option.splits sum.splits)

lemma mock_chain:
  assumes "metadataKey c = None" and "\<not> isAllowed (if rq_FullPath rq = '''' then rq_Path rq else rq_FullPath rq) mock_allows"
  shows "Chain (mock_middlewares rnd dur_str a lib deps d) nxt (NewContext c (length (heap s))) (entry_state uuid rq s) =
    JWT lib (mock_jwt_options deps a d) nxt (NewContext c (length (heap s))) (entry_state uuid rq s)"
proof -
  have "\<not> isAllowed (if rq_FullPath rq = '''' then rq_Path rq else rq_FullPath rq) [''/auth/login'']"
    using assms(2) unfolding mock_allows_def isAllowed_Cons isAllowed.simps(1) by blast
  then show ?thesis
    by (simp add: mock_middlewares_def Chain_Cons rate_limit_handler_def mock_rate_limit_def site_ctx [OF assms(1)] request_metadata_Get)
qed

lemma site_checker_passes:
  assumes "metadataKey c = None" and "site_checker (checker_config []) deps a d (NewContext c (length (heap s))) cl (entry_state uuid rq s) = (None, s2)"
  shows "\<exists>ac. cl = StructClaims (Some ac) \<and>
    (isInfrastructurePath (rq_FullPath rq) \<or>
     match (allowlist (checker_config [])) (rq_Method rq) (if rq_FullPath rq = '''' then rq_Path rq else rq_FullPath rq) \<or>
     fst (check_catalogued (checker_config []) deps a d ac (rq_Method rq @ '' '' @ rq_FullPath rq) (site_caches s)) = None)"
proof -
  let ?s = "\<lparr>heap = heap (entry_state uuid rq s), tst = site_caches (entry_state uuid rq s)\<rparr>" and ?c = "NewContext c (length (heap s))"
  have k: "ctx_Get (heap ?s) ?c k = md_Get (request_metadata uuid rq md_New) k" for k using site_ctx [OF assms(1), of uuid rq s k] by simp
  have t: "site_caches (entry_state uuid rq s) = site_caches s" by (simp add: entry_state_def)
  have p: "fst (permission_checker (checker_config []) deps a d ?c cl ?s) = None"
    using assms(2) by (simp add: site_checker_def split: prod.splits)
  then show ?thesis
    by (auto simp: permission_checker_def k [simplified] t request_metadata_Get httpProtocol_def http_Protocol_def Let_def split_beta
        split: jclaims.splits option.splits if_splits prod.splits)
qed

text \<open>
  C18: A request is authorised or answered. In the service of the mock a request whose path is not on the allowlist of the token middleware gets an
  answer that does not depend on the handler of its route, or its token parsed, is valid and has administration claims, and
  its route is infrastructure, or open to every account, or the catalogue and the grants of the caller's role in the caller's tenant, as
  the caches serve them, have its code; and then the handler runs with exactly these claims.
\<close>

theorem http_request_authorized:
  fixes s :: "('s, 'z) site_scheme" and c :: "'a actx_scheme" and opts :: "(('s, 'z) site_scheme, 'a actx_scheme) jwt_options"
  assumes "metadataKey c = None" and "\<not> rw_written s"
    and "path = (if rq_FullPath rq = '''' then rq_Path rq else rq_FullPath rq)" and "\<not> isAllowed path mock_allows"
    and "opts = mock_jwt_options deps a d" and "mws = mock_middlewares rnd dur_str a lib deps d"
    and "token = TrimSpace (TrimPrefix (header_Get (rq_Header rq) authorizationKey) bearerWord)"
  shows "(\<exists>s'. (\<forall>route. http_engine marshal uuid mws rq route c s = (None, s')) \<and> rw_written s') \<or>
    (\<exists>ti ac s2. parse_token lib opts token = Inr ti \<and> Valid ti \<and> tClaims ti = StructClaims (Some ac) \<and>
      (isInfrastructurePath (rq_FullPath rq) \<or> match (allowlist (checker_config [])) (rq_Method rq) path \<or>
       fst (check_catalogued (checker_config []) deps a d ac (rq_Method rq @ '' '' @ rq_FullPath rq) (site_caches s)) = None) \<and>
      (\<forall>route. http_engine marshal uuid mws rq route c s =
        (case run_next (recoveryInterceptor marshal route) (auth_NewContext (NewContext c (length (heap s))) (tClaims ti)) s2 of
           (None, s3) \<Rightarrow> (None, s3) | (Some err, s3) \<Rightarrow> (None, respond_error marshal err s3))))"
proof -
  let ?s = "entry_state uuid rq s" and ?c = "NewContext c (length (heap s))" and ?md = "request_metadata uuid rq md_New"
  have na: "\<not> isAllowed (if rq_FullPath rq = '''' then rq_Path rq else rq_FullPath rq) mock_allows" using assms(3,4) by simp
  have md: "request_md ?s ?c = ?md" by (rule request_md_entry)
  have off: "\<not> on_allowlist opts (request_md ?s ?c)"
    using na by (simp add: md on_allowlist_def request_metadata_Get assms(5) mock_jwt_options_def)
  have tok: "bearer_token ?md = token" by (simp add: bearer_token_def request_metadata_Get assms(7))
  have ch: "Chain mws nxt ?c ?s = JWT lib opts nxt ?c ?s" for nxt using mock_chain [OF assms(1) na] assms(5,6) by simp
  note J = JWT_protected [OF off, of lib, unfolded md tok]
  have vo: "validate opts = None" "permissionChecker opts = Some (site_checker (checker_config []) deps a d)"
    by (simp_all add: assms(5) mock_jwt_options_def)
  have reject: ?thesis if "\<And>nxt. JWT lib opts nxt ?c ?s = (Some er, s2)" for er s2
    using engine_rejects [OF assms(1), of mws s uuid rq er s2] ch that respond_error_written by (metis (no_types, lifting))
  show ?thesis
  proof (cases "md_Has ?md authorizationKey \<and> (\<exists>ti. parse_token lib opts token = Inr ti \<and> Valid ti)")
    case False
    have "\<exists>er. \<forall>nxt. JWT lib opts nxt ?c ?s = (Some er, ?s)"
      using False by (cases "parse_token lib opts token") (auto simp: J vo)
    with reject show ?thesis by blast
  next
    case True
    then obtain ti where ti: "md_Has ?md authorizationKey" "parse_token lib opts token = Inr ti" "Valid ti" by blast
    obtain perr s2 where pc: "site_checker (checker_config []) deps a d ?c (tClaims ti) ?s = (perr, s2)" by (rule prod.exhaust)
    show ?thesis
    proof (cases perr)
      case (Some er)
      have "JWT lib opts nxt ?c ?s = (Some er, s2)" for nxt using ti pc Some by (simp add: J vo)
      then show ?thesis by (rule reject)
    next
      case None
      have j: "JWT lib opts nxt ?c ?s = nxt (auth_NewContext ?c (tClaims ti)) s2" for nxt using ti pc None by (simp add: J vo)
      have e: "http_engine marshal uuid mws rq route c s =
          (case run_next (recoveryInterceptor marshal route) (auth_NewContext ?c (tClaims ti)) s2 of
             (None, s3) \<Rightarrow> (None, s3) | (Some err, s3) \<Rightarrow> (None, respond_error marshal err s3))" for route
        by (cases "run_next (recoveryInterceptor marshal route) (auth_NewContext ?c (tClaims ti)) s2")
          (auto simp: http_engine_def recoveryInterceptor_def requestInterceptor_fresh [OF assms(1)] ch j split: option.splits)
      from site_checker_passes [OF assms(1) pc [unfolded None]] obtain ac where "tClaims ti = StructClaims (Some ac)"
        "isInfrastructurePath (rq_FullPath rq) \<or> match (allowlist (checker_config [])) (rq_Method rq) path \<or>
         fst (check_catalogued (checker_config []) deps a d ac (rq_Method rq @ '' '' @ rq_FullPath rq) (site_caches s)) = None"
        unfolding assms(3) by blast
      with ti(2,3) e show ?thesis by blast
    qed
  qed
qed

subsection \<open>The bootstrap on the database of lists\<close>





















definition sample_site :: "two_caches site" where
  "sample_site = \<lparr>heap = [], rw_header = [], rw_status = 200, rw_written = False, rw_body = [], gin_errors = [], gin_aborted = False,
     site_limiter = \<lparr>ml_capacity = 5, refill = 1 / 60, buckets = []\<rparr>, site_wall = 0, site_caches = tst sample_penv\<rparr>"

theorem http_request_authorized_witness:
  "\<exists>s'. (\<forall>route. http_engine sample_marshal ''u'' (mock_middlewares (\<lambda>x. x) (\<lambda>_. '''') 0 sample_lib sample_deps sample_perm_db) (sample_rq [])
      route sample_actx sample_site = (None, s')) \<and> rw_written s'"
proof -
  have m: "metadataKey sample_actx = None" "\<not> rw_written sample_site" by (simp_all add: sample_actx_def sample_site_def)
  define path where "path = (if rq_FullPath (sample_rq []) = '''' then rq_Path (sample_rq []) else rq_FullPath (sample_rq []))"
  define token where "token = TrimSpace (TrimPrefix (header_Get (rq_Header (sample_rq [])) authorizationKey) bearerWord)"
  have a: "\<not> isAllowed path mock_allows" unfolding path_def by code_simp
  have "parse_token sample_lib opts token \<noteq> Inr ti" for ti and opts :: "(two_caches site, actx) jwt_options"
    by (simp add: parse_token_def sample_lib_def)
  then show ?thesis
    using http_request_authorized [OF m path_def a refl refl token_def, where lib = sample_lib and deps = sample_deps and a = 0 and d = sample_perm_db
      and marshal = sample_marshal and uuid = "''u''" and rnd = "\<lambda>x. x" and dur_str = "\<lambda>_. ''''"]
    by blast
qed

end
