(* ===== verification/Handlers.thy ===== *)
theory Handlers
  imports Services Audits Http "HOL-Library.Word"
begin

text \<open>
  What a service call meets on its way from the wire to the services of \<open>Services\<close> and back: the generated checks of the requests
  (\<open>admin/pb/*.pb.validate.go\<close>), the generated HTTP wrappers (\<open>admin/pb/*_http.pb.go\<close>), and the handlers of \<open>admin/service/menu.go\<close> and
  \<open>permission.go\<close> that only read.

  Binding a request is done by gin and is a parameter; so are its \<open>JSON\<close> method and the encoding of a response. A validation error is an error of
  its own type, so it is neither a business error nor wraps one.
\<close>

subsection \<open>Checks of requests\<close>

text \<open>\<open>utf8.RuneCountInString\<close>: a byte that starts no character counts as one.\<close>

function rune_count :: "nat list \<Rightarrow> nat" where
  "rune_count [] = 0"
| "rune_count (b # bs) = Suc (rune_count (drop (max 1 (rune_len (b # bs)) - 1) bs))"
  by pat_completeness auto
termination by (relation "measure length") auto

definition RuneCountInString :: "string \<Rightarrow> nat" where
  "RuneCountInString s = rune_count (map of_char s)"

record violation =
  vi_message :: string
  vi_field :: string
  vi_reason :: string

datatype validation_error = ValidationError violation | MultiError "violation list"

definition violation_Error :: "violation \<Rightarrow> string" where
  "violation_Error v = ''invalid '' @ vi_message v @ ''.'' @ vi_field v @ '': '' @ vi_reason v"

fun validation_Error :: "validation_error \<Rightarrow> string" where
  "validation_Error (ValidationError v) = violation_Error v"
| "validation_Error (MultiError vs) = JoinStr (map violation_Error vs) ''; ''"

text \<open>The body that all checks share: a violated rule is returned at once, or collected.\<close>

fun validate_rules :: "bool \<Rightarrow> (bool \<times> violation) list \<Rightarrow> violation list \<Rightarrow> validation_error option" where
  "validate_rules all [] errors = (if length errors > 0 then Some (MultiError errors) else None)"
| "validate_rules all ((violated, v) # rs) errors =
     (if violated then (if \<not> all then Some (ValidationError v) else validate_rules all rs (errors @ [v])) else validate_rules all rs errors)"

definition length_rule :: "string \<Rightarrow> string \<Rightarrow> nat \<Rightarrow> string \<Rightarrow> string \<Rightarrow> bool \<times> violation" where
  "length_rule msg field mx bounds v =
     (let l = RuneCountInString v in
      (l < 1 \<or> l > mx, \<lparr>vi_message = msg, vi_field = field, vi_reason = ''value length must be between '' @ bounds @ '' runes, inclusive''\<rparr>))"

definition items_rule :: "string \<Rightarrow> string \<Rightarrow> string list \<Rightarrow> bool \<times> violation" where
  "items_rule msg field vs = (length vs > 1024, \<lparr>vi_message = msg, vi_field = field, vi_reason = ''value must contain no more than 1024 item(s)''\<rparr>)"

definition index_field :: "string \<Rightarrow> nat \<Rightarrow> string" where
  "index_field field i = field @ ''['' @ nat_str i @ '']''"

definition RolePermissionsRequest_validate :: "bool \<Rightarrow> string option \<Rightarrow> validation_error option" where
  "RolePermissionsRequest_validate all m =
     (case m of None \<Rightarrow> None | Some role \<Rightarrow> validate_rules all [length_rule ''RolePermissionsRequest'' ''Role'' 60 ''1 and 60'' role] [])"

record ReplaceRolePermissionsRequest =
  rr_Role :: string
  rr_Menus :: "string list"
  rr_Apis :: "string list"

definition ReplaceRolePermissionsRequest_validate :: "bool \<Rightarrow> ReplaceRolePermissionsRequest option \<Rightarrow> validation_error option" where
  "ReplaceRolePermissionsRequest_validate all m =
     (case m of
        None \<Rightarrow> None
      | Some r \<Rightarrow>
          (let msg = ''ReplaceRolePermissionsRequest'' in
           validate_rules all
             ([length_rule msg ''Role'' 60 ''1 and 60'' (rr_Role r), items_rule msg ''Menus'' (rr_Menus r)] @
              map (\<lambda>(i, item). length_rule msg (index_field ''Menus'' i) 120 ''1 and 120'' item) (enumerate 0 (rr_Menus r)) @
              [items_rule msg ''Apis'' (rr_Apis r)] @
              map (\<lambda>(i, item). length_rule msg (index_field ''Apis'' i) 60 ''1 and 60'' item) (enumerate 0 (rr_Apis r))) []))"

definition RoleMenusRequest_validate :: "bool \<Rightarrow> string option \<Rightarrow> validation_error option" where
  "RoleMenusRequest_validate all m =
     (case m of None \<Rightarrow> None | Some role \<Rightarrow> validate_rules all [length_rule ''RoleMenusRequest'' ''Role'' 60 ''1 and 60'' role] [])"

definition TenantRequest_validate :: "bool \<Rightarrow> string option \<Rightarrow> validation_error option" where
  "TenantRequest_validate all m =
     (case m of None \<Rightarrow> None | Some ident \<Rightarrow> validate_rules all [length_rule ''TenantRequest'' ''Id'' 60 ''1 and 60'' ident] [])"

definition MenuBreadcrumbRequest_validate :: "bool \<Rightarrow> 32 word option \<Rightarrow> validation_error option" where
  "MenuBreadcrumbRequest_validate all m =
     (case m of
        None \<Rightarrow> None
      | Some ident \<Rightarrow> validate_rules all [(ident < 1, \<lparr>vi_message = ''MenuBreadcrumbRequest'', vi_field = ''Id'', vi_reason = ''value must be greater than or equal to 1''\<rparr>)] [])"

text \<open>The error value a handler returns for a failed check.\<close>

definition validation_goerror :: "nat \<Rightarrow> validation_error option \<Rightarrow> goerror option" where
  "validation_goerror a ve = map_option (\<lambda>v. ErrString a (validation_Error v)) ve"

subsection \<open>Menu and permission lists\<close>

record stored_menu = Menu +
  m_CreatedAt :: int
  m_UpdatedAt :: int

record MenuItem =
  mi_Id :: nat
  mi_Parent :: string
  mi_Name :: string
  mi_Component :: string
  mi_Uri :: string
  mi_ViewPath :: string
  mi_Icon :: string
  mi_Hidden :: bool
  mi_Public :: bool
  mi_Sort :: int
  mi_Description :: string
  mi_CreatedAt :: int
  mi_UpdatedAt :: int

definition menuItemsToPb :: "stored_menu list \<Rightarrow> MenuItem list" where
  "menuItemsToPb xs =
     (if xs = [] then []
      else map (\<lambda>m. \<lparr>mi_Id = m_ID m, mi_Parent = m_Parent m, mi_Name = m_Name m, mi_Component = m_Component m, mi_Uri = m_Uri m,
        mi_ViewPath = m_ViewPath m, mi_Icon = m_Icon m, mi_Hidden = m_Hidden m, mi_Public = m_Public m, mi_Sort = m_Sort m,
        mi_Description = m_Description m, mi_CreatedAt = m_CreatedAt m, mi_UpdatedAt = m_UpdatedAt m\<rparr>) xs)"

text \<open>Rows in the order of parent and id; the comparison of texts is the database's.\<close>

definition load_all_menus :: "(stored_menu, 'd) table_ops \<Rightarrow> (stored_menu list \<Rightarrow> stored_menu list) \<Rightarrow> 'd \<Rightarrow> goerror + stored_menu list" where
  "load_all_menus T order_by d = (case Find T (\<lambda>_. True) d of Inl e \<Rightarrow> Inl e | Inr ms \<Rightarrow> Inr (order_by ms))"

definition menuListAllDirect ::
    "'d svc \<Rightarrow> (stored_menu, 'd) table_ops \<Rightarrow> (stored_menu list \<Rightarrow> stored_menu list) \<Rightarrow> nat \<Rightarrow> bool \<Rightarrow> 'd \<Rightarrow> goerror + MenuItem list" where
  "menuListAllDirect s T order_by a has_db d =
     (if \<not> has_db then Inl (Newf (Sprintf s) a CodeUnavailable ''menu service has no database'' [])
      else case load_all_menus T order_by d of Inl e \<Rightarrow> Inl e | Inr ms \<Rightarrow> Inr (menuItemsToPb ms))"

definition MenuListAll ::
    "'d svc \<Rightarrow> (stored_menu, 'd) table_ops \<Rightarrow> (stored_menu list \<Rightarrow> stored_menu list) \<Rightarrow> (stored_menu list, 'd, 's) Cacher option \<Rightarrow> nat \<Rightarrow> bool \<Rightarrow>
     'd \<Rightarrow> 's tstate \<Rightarrow> (goerror + MenuItem list) \<times> 's tstate" where
  "MenuListAll s T order_by cacher a has_db d ts =
     (case cacher of
        None \<Rightarrow> (menuListAllDirect s T order_by a has_db d, ts)
      | Some menusCacher \<Rightarrow>
          (let (r, ts1) = Try menusCacher a d ''menu:all'' (load_all_menus T order_by) ts
           in case r of Inl e \<Rightarrow> (Inl e, ts1) | Inr ms \<Rightarrow> (Inr (menuItemsToPb ms), ts1)))"

datatype TierValue = TierValue (tv_Value: string) (tv_Label: string) (tv_Parent: string) (tv_Children: "TierValue list")

datatype OptionNode = OptionNode (on_Value: string) (on_Label: string) (on_Parent: string) (on_Children: "OptionNode list")

fun optionNodeToPb :: "TierValue \<Rightarrow> OptionNode" where
  "optionNodeToPb (TierValue v l p cs) = OptionNode v l p (if cs = [] then [] else map optionNodeToPb cs)"

definition optionNodesToPb :: "TierValue list \<Rightarrow> OptionNode list" where
  "optionNodesToPb xs = (if xs = [] then [] else map optionNodeToPb xs)"

text \<open>\<open>tiers\<close> is \<open>rest.ModelTiers\<close> on the menu table.\<close>

definition MenuOptions :: "(string \<Rightarrow> string \<Rightarrow> string \<Rightarrow> string \<Rightarrow> 'd \<Rightarrow> goerror + TierValue list) \<Rightarrow> 'd \<Rightarrow> goerror + OptionNode list" where
  "MenuOptions tiers d = (case tiers '''' ''parent'' ''name'' ''component'' d of Inl e \<Rightarrow> Inl e | Inr tv \<Rightarrow> Inr (optionNodesToPb tv))"

text \<open>As with \<open>PathTo\<close>, \<open>None\<close> says that the loop did not end within the fuel, which the number of rows excludes.\<close>

definition breadcrumb_result :: "'d svc \<Rightarrow> nat \<Rightarrow> string \<Rightarrow> goerror + string list \<Rightarrow> goerror + string list" where
  "breadcrumb_result s a num r =
     (case r of
        Inl e \<Rightarrow> if Is e (ErrRecordNotFound (T_Menu (tables s))) then Inl (Newf (Sprintf s) a CodeNotFound ''menu %d not found'' [[num]]) else Inl e
      | Inr path \<Rightarrow> Inr path)"

definition menuBreadcrumbDirect :: "'d svc \<Rightarrow> nat \<Rightarrow> nat \<Rightarrow> bool \<Rightarrow> nat \<Rightarrow> 'd \<Rightarrow> (goerror + string list) option" where
  "menuBreadcrumbDirect s fuel a has_db ident d =
     (if \<not> has_db then Some (Inl (Newf (Sprintf s) a CodeUnavailable ''menu service has no database'' []))
      else map_option (breadcrumb_result s a (nat_str ident)) (PathTo fuel (T_Menu (tables s)) d ident))"

definition MenuBreadcrumb ::
    "'d svc \<Rightarrow> nat \<Rightarrow> (string list, 'd, 's) Cacher option \<Rightarrow> nat \<Rightarrow> bool \<Rightarrow> 32 word \<Rightarrow> 'd \<Rightarrow> 's tstate \<Rightarrow>
     (goerror + string list) option \<times> 's tstate" where
  "MenuBreadcrumb s fuel cacher a has_db ident d ts =
     (case validation_goerror a (MenuBreadcrumbRequest_validate False (Some ident)) of
        Some e \<Rightarrow> (Some (Inl e), ts)
      | None \<Rightarrow>
     (case cacher of
        None \<Rightarrow> (menuBreadcrumbDirect s fuel a has_db (unat ident) d, ts)
      | Some menusCacher \<Rightarrow>
          (case PathTo fuel (T_Menu (tables s)) d (unat ident) of
             None \<Rightarrow> (None, ts)
           | Some _ \<Rightarrow>
               (let (r, ts1) = Try menusCacher a d (''menu:breadcrumb:'' @ nat_str (unat ident)) (\<lambda>d. the (PathTo fuel (T_Menu (tables s)) d (unat ident))) ts
                in (Some (breadcrumb_result s a (nat_str (unat ident)) r), ts1)))))"

record ListPermissionItem =
  lp_Id :: nat
  lp_Type :: string
  lp_Data :: string
  lp_Description :: string
  lp_Group :: string

definition ListPermissions :: "'d svc \<Rightarrow> string \<Rightarrow> 'd \<Rightarrow> goerror + ListPermissionItem list" where
  "ListPermissions s ty d =
     (case Find (T_Permission (tables s)) (\<lambda>p. ty \<noteq> '''' \<longrightarrow> p_Type p = ty) d of
        Inl e \<Rightarrow> Inl e
      | Inr ps \<Rightarrow> Inr (map (\<lambda>p. \<lparr>lp_Id = p_ID p, lp_Type = p_Type p, lp_Data = p_Data p, lp_Description = p_Description p, lp_Group = p_Group p\<rparr>)
                       (sort_key p_ID ps)))"

subsection \<open>Generated wrappers\<close>

text \<open>
  The body all wrappers share. \<open>bound\<close> is what binding the request gave, the answer is one call of gin's \<open>JSON\<close>; \<open>d\<close> is the state
  the service works on. The assertion on \<open>*errs.Error\<close> looks at the error itself, not at its causes.
\<close>

definition wrapHttp ::
    "(int \<Rightarrow> Envelope \<Rightarrow> 'w \<Rightarrow> 'w) \<Rightarrow> ('res \<Rightarrow> string) \<Rightarrow> goerror + 'req \<Rightarrow> ('req \<Rightarrow> 'd \<Rightarrow> (goerror + 'res) \<times> 'd) \<Rightarrow> 'w \<Rightarrow> 'd \<Rightarrow> 'w \<times> 'd" where
  "wrapHttp gin_JSON encode bound call w d =
     (case bound of
        Inl e \<Rightarrow> (context_Error gin_JSON CodeInvalid (Error e) w, d)
      | Inr req \<Rightarrow>
          (case call req d of
             (Inl e, d1) \<Rightarrow>
               (case e of
                  ErrPtr _ code message _ \<Rightarrow> (context_Error gin_JSON code message w, d1)
                | _ \<Rightarrow> (context_Error gin_JSON CodeUnavailable (Error e) w, d1))
           | (Inr res, d1) \<Rightarrow> (context_Success gin_JSON (Some (encode res)) w, d1)))"

definition wrapHttpRoleServiceReplaceRolePermissions ::
    "'d svc \<Rightarrow> nat \<Rightarrow> (int \<Rightarrow> Envelope \<Rightarrow> 'w \<Rightarrow> 'w) \<Rightarrow> (string \<times> int \<Rightarrow> string) \<Rightarrow> goerror + ReplaceRolePermissionsRequest \<Rightarrow> 'w \<Rightarrow> 'd \<Rightarrow> 'w \<times> 'd" where
  "wrapHttpRoleServiceReplaceRolePermissions s a gin_JSON encode bound =
     wrapHttp gin_JSON encode bound (\<lambda>req d.
       ReplaceRolePermissions s a (validation_goerror a (ReplaceRolePermissionsRequest_validate False (Some req)))
         (rr_Role req) (rr_Menus req) (rr_Apis req) d)"

definition wrapHttpRoleServiceRoleMenus ::
    "'d svc \<Rightarrow> nat \<Rightarrow> (int \<Rightarrow> Envelope \<Rightarrow> 'w \<Rightarrow> 'w) \<Rightarrow> (ListVisibleMenusResponse \<Rightarrow> string) \<Rightarrow> goerror + string \<Rightarrow> 'w \<Rightarrow> 'd \<Rightarrow> 'w \<times> 'd" where
  "wrapHttpRoleServiceRoleMenus s a gin_JSON encode bound =
     wrapHttp gin_JSON encode bound (\<lambda>role d. (RoleMenus s (validation_goerror a (RoleMenusRequest_validate False (Some role))) role d, d))"

definition wrapHttpPermissionServiceListPermissions ::
    "'d svc \<Rightarrow> (int \<Rightarrow> Envelope \<Rightarrow> 'w \<Rightarrow> 'w) \<Rightarrow> (ListPermissionItem list \<Rightarrow> string) \<Rightarrow> goerror + string \<Rightarrow> 'w \<Rightarrow> 'd \<Rightarrow> 'w \<times> 'd" where
  "wrapHttpPermissionServiceListPermissions s gin_JSON encode bound = wrapHttp gin_JSON encode bound (\<lambda>ty d. (ListPermissions s ty d, d))"

subsection \<open>Lemmas on checks\<close>

lemma validate_rules_first:
  "validate_rules False rs [] = (case filter fst rs of [] \<Rightarrow> None | r # _ \<Rightarrow> Some (ValidationError (snd r)))"
  by (induction rs) (auto split: list.splits)

lemma validate_rules_all:
  "validate_rules True rs errors = (case errors @ map snd (filter fst rs) of [] \<Rightarrow> None | vs \<Rightarrow> Some (MultiError vs))"
  by (induction rs arbitrary: errors) (auto split: list.splits)

lemma validate_rules_None: "validate_rules all rs [] = None \<longleftrightarrow> (\<forall>r\<in>set rs. \<not> fst r)"
  using filter_empty_conv [of fst rs]
  by (cases all; cases "filter fst rs") (simp_all add: validate_rules_first validate_rules_all)

lemma length_rule_ok: "\<not> fst (length_rule msg field mx b v) \<longleftrightarrow> 1 \<le> RuneCountInString v \<and> RuneCountInString v \<le> mx"
  by (auto simp: length_rule_def Let_def)

definition request_in_bounds :: "ReplaceRolePermissionsRequest \<Rightarrow> bool" where
  "request_in_bounds req \<longleftrightarrow>
     RuneCountInString (rr_Role req) \<in> {1..60} \<and> length (rr_Menus req) \<le> 1024 \<and> length (rr_Apis req) \<le> 1024 \<and>
     (\<forall>m\<in>set (rr_Menus req). RuneCountInString m \<in> {1..120}) \<and> (\<forall>p\<in>set (rr_Apis req). RuneCountInString p \<in> {1..60})"

lemma enumerate_rules_ok:
  "(\<forall>r\<in>set (map (\<lambda>(i, x). length_rule msg (f i) mx b x) (enumerate n xs)). \<not> fst r) \<longleftrightarrow> (\<forall>x\<in>set xs. RuneCountInString x \<in> {1..mx})"
  by (induction xs arbitrary: n) (auto simp: length_rule_ok)

lemma ReplaceRolePermissionsRequest_ok:
  "ReplaceRolePermissionsRequest_validate all (Some req) = None \<longleftrightarrow> request_in_bounds req"
  unfolding ReplaceRolePermissionsRequest_validate_def option.case Let_def validate_rules_None set_append ball_Un enumerate_rules_ok
  by (auto simp: request_in_bounds_def length_rule_ok items_rule_def)

lemma affected_exact:
  assumes "request_in_bounds req"
  shows "signed_take_bit 31 (int (length (rr_Menus req) + length (rr_Apis req))) = int (length (rr_Menus req) + length (rr_Apis req))"
  using assms by (intro signed_take_bit_int_eq_self) (auto simp: request_in_bounds_def)

subsection \<open>The answer to a replacement of grants\<close>

text \<open>A business error that another error wraps is not seen by the assertion: its code is lost and the whole text is answered.\<close>

lemma wrapHttp_wrapped:
  assumes "call req d = (Inl e, d1)" and "\<And>b code message c. e \<noteq> ErrPtr b code message c"
  shows "wrapHttp gin_JSON encode (Inr req) call w d = (context_Error gin_JSON CodeUnavailable (Error e) w, d1)"
  using assms by (cases e) (auto simp: wrapHttp_def)

lemma MenuBreadcrumb_zero:
  "\<exists>v. MenuBreadcrumb s fuel cacher a has_db 0 d ts = (Some (Inl (ErrString a (validation_Error v))), ts)"
  by (simp add: MenuBreadcrumb_def MenuBreadcrumbRequest_validate_def validation_goerror_def)
    (metis validation_Error.simps(1))

lemma ListPermissions_rows:
  assumes "gorm_table (T_Permission (tables s)) ps" and "ListPermissions s ty d = Inr xs"
  shows "sorted (map lp_Id xs)"
    and "(\<lambda>i. (lp_Type i, lp_Data i)) ` set xs = (\<lambda>p. (p_Type p, p_Data p)) ` {p \<in> set (ps d). ty = '''' \<or> p_Type p = ty}"
proof -
  obtain rows where rows: "Find (T_Permission (tables s)) (\<lambda>p. ty \<noteq> '''' \<longrightarrow> p_Type p = ty) d = Inr rows"
    and xs: "xs = map (\<lambda>p. \<lparr>lp_Id = p_ID p, lp_Type = p_Type p, lp_Data = p_Data p, lp_Description = p_Description p, lp_Group = p_Group p\<rparr>) (sort_key p_ID rows)"
    using assms(2) by (auto simp: ListPermissions_def split: sum.splits)
  show "sorted (map lp_Id xs)" by (simp add: xs comp_def)
  have "set rows = {p \<in> set (ps d). ty = '''' \<or> p_Type p = ty}"
    using gorm_table.find_set [OF assms(1) rows] by auto
  then show "(\<lambda>i. (lp_Type i, lp_Data i)) ` set xs = (\<lambda>p. (p_Type p, p_Data p)) ` {p \<in> set (ps d). ty = '''' \<or> p_Type p = ty}"
    by (simp add: xs image_image)
qed

text \<open>
  C34: \<open>PUT /role/permissions\<close> on a request that was bound. A request outside the declared limits (role of 1 to 60 characters, at most 1024
  menus of 1 to 120 and 1024 permissions of 1 to 60 characters) is answered with \<open>CodeUnavailable\<close> and the text of the first violated rule,
  and changes nothing. A request within them is answered with an error and changes nothing, or it is answered with success: then the role is
  not a super role, its grants in its tenant are exactly those requested, and the number of grants reported, an \<open>int32\<close>, is the true one,
  at most 2048.
\<close>

theorem replace_role_permissions_answer:
  assumes "grant_db (tables s) rps us rls"
    and "gorm_table (T_Menu (tables s)) ms" and "gorm_table (T_Permission (tables s)) ps"
    and "wrapHttpRoleServiceReplaceRolePermissions s a gin_JSON encode (Inr req) w d = (w', d')"
  shows "if \<not> request_in_bounds req
    then d' = d \<and> (\<exists>v. ReplaceRolePermissionsRequest_validate False (Some req) = Some (ValidationError v) \<and>
        w' = context_Error gin_JSON CodeUnavailable (violation_Error v) w)
    else (d' = d \<and> (\<exists>code message. w' = context_Error gin_JSON code message w)) \<or>
      (let n = length (rr_Menus req) + length (rr_Apis req) in n \<le> 2048 \<and>
       w' = context_Success gin_JSON (Some (encode (rr_Role req, int n))) w \<and>
       set (rr_Menus req) \<subseteq> m_Component ` set (ms d) \<and> set (rr_Apis req) \<subseteq> p_Data ` set (ps d) \<and>
       (\<exists>role\<in>set (rls d). r_Key role = rr_Role req \<and> \<not> r_IsSuper role \<and>
          (r_TenantID role \<noteq> '''' \<longrightarrow>
            grant_set (rps d') (rr_Role req) (r_TenantID role) =
              (\<lambda>m. (RolePermissionTypeMenu, m)) ` set (rr_Menus req) \<union> (\<lambda>p. (RolePermissionTypePermission, p)) ` set (rr_Apis req) \<and>
            (\<forall>k t. k \<noteq> rr_Role req \<longrightarrow> grant_set (rps d') k t = grant_set (rps d) k t) \<and>
            (\<forall>t. t \<noteq> r_TenantID role \<longrightarrow> grant_set (rps d') (rr_Role req) t = {}))))"
proof (cases "request_in_bounds req")
  case False
  then obtain v where v: "ReplaceRolePermissionsRequest_validate False (Some req) = Some (ValidationError v)"
    using ReplaceRolePermissionsRequest_ok [of False req]
    by (auto simp: ReplaceRolePermissionsRequest_validate_def Let_def validate_rules_first split: list.splits)
  then show ?thesis
    using False assms(4)
    by (simp add: wrapHttpRoleServiceReplaceRolePermissions_def wrapHttp_def validation_goerror_def ReplaceRolePermissions_def)
next
  case True
  then have valid: "validation_goerror a (ReplaceRolePermissionsRequest_validate False (Some req)) = None"
    by (simp add: ReplaceRolePermissionsRequest_ok validation_goerror_def)
  obtain r d1 where r: "ReplaceRolePermissions s a None (rr_Role req) (rr_Menus req) (rr_Apis req) d = (r, d1)"
    by (rule prod.exhaust)
  note grants = replace_role_permissions [OF assms(1-3) r]
  show ?thesis
  proof (cases r)
    case (Inl e)
    with grants show ?thesis
      using True assms(4) r valid
      by (cases e) (auto simp: wrapHttpRoleServiceReplaceRolePermissions_def wrapHttp_def)
  next
    case (Inr res)
    then have "res = (rr_Role req, int (length (rr_Menus req) + length (rr_Apis req)))"
      using r affected_exact [OF True] by (auto simp: ReplaceRolePermissions_def split: prod.splits option.splits)
    with Inr r valid have "w' = context_Success gin_JSON (Some (encode (rr_Role req, int (length (rr_Menus req) + length (rr_Apis req))))) w \<and> d' = d1"
      using assms(4) by (simp add: wrapHttpRoleServiceReplaceRolePermissions_def wrapHttp_def)
    with True Inr grants show ?thesis
      by (simp add: Let_def request_in_bounds_def)
  qed
qed

text \<open>A state that counts the answers, and the sample database: the replacement of the grants of \<open>ops\<close> is answered with success.\<close>

definition sample_replace :: ReplaceRolePermissionsRequest where
  "sample_replace = \<lparr>rr_Role = ''ops'', rr_Menus = [''Roles''], rr_Apis = [''GET /x'']\<rparr>"

definition sample_JSON :: "int \<Rightarrow> Envelope \<Rightarrow> (int \<times> Envelope) list \<Rightarrow> (int \<times> Envelope) list" where
  "sample_JSON status env w = w @ [(status, env)]"

theorem replace_role_permissions_answer_witness:
  "\<exists>w' d'. wrapHttpRoleServiceReplaceRolePermissions sample_svc 900 sample_JSON fst (Inr sample_replace) [] sample_sdb = (w', d') \<and>
     w' = sample_JSON 200 (newResponse 0 '''' (Some ''ops'')) [] \<and>
     grant_set (gdb_rps d') ''ops'' ''acme'' = {(''menu'', ''Roles''), (''permission'', ''GET /x'')}"
proof -
  obtain w' d' where e: "wrapHttpRoleServiceReplaceRolePermissions sample_svc 900 sample_JSON fst (Inr sample_replace) [] sample_sdb = (w', d')"
    by (rule prod.exhaust)
  have b: "request_in_bounds sample_replace" by code_simp
  have "fst (wrapHttpRoleServiceReplaceRolePermissions sample_svc 900 sample_JSON fst (Inr sample_replace) [] sample_sdb) =
      [(200, newResponse 0 '''' (Some ''ops''))]" by code_simp
  with e have w: "w' = [(200, newResponse 0 '''' (Some ''ops''))]" by simp
  then have n: "w' \<noteq> context_Error sample_JSON code message []" for code message
    by (simp add: context_Error_def sample_JSON_def newResponse_def)
  have "grant_db (tables sample_svc) gdb_rps gdb_users gdb_roles" "gorm_table (T_Menu (tables sample_svc)) gdb_menus"
    "gorm_table (T_Permission (tables sample_svc)) gdb_perms"
    using mdb.grant_db_axioms mem_tables_gorm by simp_all
  from replace_role_permissions_answer [OF this e] b n obtain role where
    role: "role \<in> set (gdb_roles sample_sdb)" "r_Key role = rr_Role sample_replace" and
    gr: "r_TenantID role \<noteq> '''' \<longrightarrow>
      grant_set (gdb_rps d') (rr_Role sample_replace) (r_TenantID role) =
        (\<lambda>m. (RolePermissionTypeMenu, m)) ` set (rr_Menus sample_replace) \<union> (\<lambda>p. (RolePermissionTypePermission, p)) ` set (rr_Apis sample_replace)"
    by (auto simp: Let_def)
  from role have "r_TenantID role = ''acme''" by (auto simp: sample_sdb_def sample_role_def sample_replace_def)
  with gr e w show ?thesis by (auto simp: type_names sample_replace_def sample_JSON_def)
qed

end
