(* ===== verification/Codegen.thy ===== *)
theory Codegen
  imports Webroot Dashboard "HOL-Library.Char_ord" "HOL-Library.List_Lexorder"
begin

text \<open>
  The code generator \<open>cmd/aeus\<close> (\<open>gen.go\<close>, \<open>api.go\<close>, \<open>vue.go\<close>): manifests of the proto files are turned into a Go file that wires the
  generated models, TypeScript wrappers of the services, and placeholder pages.

  The file system is the record \<open>os_ops\<close>; the locale \<open>file_system\<close> says what is used of it. Parsing of flags and of JSON, the layout of Go source
  and \<open>strconv.Quote\<close> (\<open>quote\<close>) are parameters. Paths are those of a system with slashes. Names from manifests are identifiers, so the case of their first byte
  is changed bytewise. \<open>sort.Slice\<close> leaves the order of equal keys open; here it is stable.
\<close>

subsection \<open>Manifests\<close>

record manifestRef =
  rf_Kind :: string
  rf_Package :: string
  rf_Name :: string

record manifestField =
  fd_Name :: string
  fd_Type :: string
  fd_Ref :: "manifestRef option"
  fd_List :: bool
  fd_Map :: bool

record manifestMessage =
  mg_GoName :: string
  mg_Fields :: "manifestField list"

record manifestEnumValue =
  ev_Name :: string
  ev_Number :: int

record manifestEnum =
  en_GoName :: string
  en_Values :: "manifestEnumValue list"

record manifestModule =
  mm_Name :: string
  mm_Title :: string
  mm_Icon :: string
  mm_Component :: string
  mm_Sort :: int
  mm_VarName :: string

record manifestEntity =
  et_GoName :: string
  et_ModelName :: string
  et_Table :: string
  et_Module :: string
  et_Singular :: string
  et_Plural :: string
  et_ViewPath :: string
  et_MenuName :: string
  et_Component :: string
  et_Base :: string
  et_Scenarios :: "string list"
  et_PermissionGroup :: string
  et_ReadOnly :: bool

record manifestMethod =
  mt_GoName :: string
  mt_Request :: string
  mt_Response :: string
  mt_RequestRef :: "manifestRef option"
  mt_ResponseRef :: "manifestRef option"
  mt_HTTPMethod :: string
  mt_HTTPPath :: string
  mt_Body :: string

record manifestPolicy =
  po_Method :: string
  po_Path :: string
  po_Button :: string
  po_Group :: string
  po_Description :: string
  po_Public :: bool

record manifestService =
  sv_GoName :: string
  sv_PoliciesVar :: string
  sv_Policies :: "manifestPolicy list"
  sv_Methods :: "manifestMethod list"

record resourceManifest =
  rm_Source :: string
  rm_GoPackage :: string
  rm_GoPackageName :: string
  rm_Module :: "manifestModule option"
  rm_Messages :: "manifestMessage list"
  rm_Enums :: "manifestEnum list"
  rm_Entities :: "manifestEntity list"
  rm_Services :: "manifestService list"

subsection \<open>Package filepath\<close>

definition IsAbs :: "string \<Rightarrow> bool" where
  "IsAbs p \<longleftrightarrow> HasPrefix p ''/''"

definition filepath_Dir :: "string \<Rightarrow> string" where
  "filepath_Dir p = Clean (rev (dropWhile (\<lambda>c. c \<noteq> CHR ''/'') (rev p)))"

text \<open>The elements of a cleaned path, and a path without the elements it shares with another.\<close>

definition elements :: "string \<Rightarrow> string list" where
  "elements p = filter (\<lambda>c. c \<noteq> '''') (SplitByte p CHR ''/'')"

fun strip_common :: "string list \<Rightarrow> string list \<Rightarrow> string list \<times> string list" where
  "strip_common (b # bs) (t # ts) = (if b = t then strip_common bs ts else (b # bs, t # ts))"
| "strip_common bs ts = (bs, ts)"

definition filepath_Rel :: "string \<Rightarrow> string \<Rightarrow> string option" where
  "filepath_Rel basepath targpath =
     (let base = Clean basepath; targ = Clean targpath in
      if targ = base then Some ''.''
      else let base1 = (if base = ''.'' then '''' else base) in
        if IsAbs base1 \<noteq> IsAbs targ then None
        else let (bs, ts) = strip_common (elements base1) (elements targ) in
          if bs \<noteq> [] \<and> hd bs = ''..'' then None
          else Some (JoinStr (map (\<lambda>_. ''..'') bs @ ts) ''/''))"

text \<open>The check of a relative path that \<open>apiFilePath\<close>, \<open>vueFilePath\<close> and \<open>loadManifests\<close> share.\<close>

definition escapes :: "string \<Rightarrow> bool" where
  "escapes clean \<longleftrightarrow> clean = ''.'' \<or> IsAbs clean \<or> clean = ''..'' \<or> HasPrefix clean ''../''"

definition apiFilePath :: "nat \<Rightarrow> (string \<Rightarrow> string) \<Rightarrow> string \<Rightarrow> string \<Rightarrow> goerror + string" where
  "apiFilePath a quote apiDir source =
     (let rel = TrimSuffix source ''.proto'' @ ''.ts''; clean = Clean rel in
      if escapes clean then Inl (ErrString a (''invalid proto source '' @ quote source)) else Inr (path_Join apiDir clean))"

subsection \<open>Imported types\<close>

record typeImports =
  ti_byPath :: "(string, (string, string) gomap) gomap"
  ti_used :: "string list"

definition newTypeImports :: "resourceManifest \<Rightarrow> typeImports" where
  "newTypeImports m =
     \<lparr>ti_byPath = [],
      ti_used = ''http'' # filter (\<lambda>n. n \<noteq> '''') (map mg_GoName (rm_Messages m)) @ filter (\<lambda>n. n \<noteq> '''') (map en_GoName (rm_Enums m))\<rparr>"

definition numbered :: "string \<Rightarrow> nat \<Rightarrow> string" where
  "numbered name n = name @ ''_'' @ nat_str n"

lemma numbered_inj: "inj (numbered name)"
  by (auto simp: inj_def numbered_def dest: nat_str_inj)

text \<open>The loop that numbers a name until it is unused: at most as many rounds as there are used names.\<close>

function alias_loop :: "string list \<Rightarrow> string \<Rightarrow> nat \<Rightarrow> string" where
  "alias_loop used base n = (if numbered base n \<in> set used then alias_loop used base (Suc n) else numbered base n)"
  by pat_completeness auto
termination
proof (relation "measure (\<lambda>(used, base, n). card {k. n \<le> k \<and> numbered base k \<in> set used})", goal_cases)
  case (2 used base n)
  have "finite {k. n \<le> k \<and> numbered base k \<in> set used}"
    by (rule finite_subset [OF _ finite_vimageI [OF finite_set numbered_inj]]) auto
  moreover have "{k. Suc n \<le> k \<and> numbered base k \<in> set used} \<subset> {k. n \<le> k \<and> numbered base k \<in> set used}"
    using 2 by (auto simp: set_eq_iff Suc_le_eq intro!: exI [of _ n])
  ultimately show ?case by (simp add: psubset_card_mono)
qed simp

declare alias_loop.simps [simp del]

definition unused_alias :: "string list \<Rightarrow> string \<Rightarrow> string" where
  "unused_alias used base = (if base \<in> set used then alias_loop used base 2 else base)"

definition by_path :: "typeImports \<Rightarrow> string \<Rightarrow> (string, string) gomap" where
  "by_path t path = (case map_of (ti_byPath t) path of None \<Rightarrow> [] | Some names \<Rightarrow> names)"

definition typeImports_add :: "string \<Rightarrow> string \<Rightarrow> typeImports \<Rightarrow> string \<times> typeImports" where
  "typeImports_add path name t =
     (if path = '''' \<or> name = '''' \<or> name = ''unknown'' then (name, t)
      else (case map_of (by_path t path) name of
              Some existing \<Rightarrow> (existing, t)
            | None \<Rightarrow>
                (let alias = unused_alias (ti_used t) name
                 in (alias, t\<lparr>ti_byPath := AList.update path (AList.update name alias (by_path t path)) (ti_byPath t),
                              ti_used := alias # ti_used t\<rparr>))))"

definition typeImports_lines :: "typeImports \<Rightarrow> string list" where
  "typeImports_lines t =
     map (\<lambda>path.
       let specs = map (\<lambda>(name, alias). if alias = name then name else name @ '' as '' @ alias) (sort_key fst (by_path t path))
       in ''import type { '' @ JoinStr specs '', '' @ '' } from '' @ [CHR 0x27] @ path @ [CHR 0x27])
     (sort (map fst (ti_byPath t)))"

subsection \<open>Index of types\<close>

record apiTypeInfo =
  ai_source :: string
  ai_filePath :: string
  ai_name :: string
  ai_fields :: "manifestField list"

record apiIndex =
  ix_messages :: "(string, apiTypeInfo) gomap"
  ix_enums :: "(string, apiTypeInfo) gomap"

definition apiTypeKey :: "string \<Rightarrow> string \<Rightarrow> string" where
  "apiTypeKey pkg name = pkg @ ''.'' @ name"

definition index_manifest :: "resourceManifest \<Rightarrow> string \<Rightarrow> apiIndex \<Rightarrow> apiIndex" where
  "index_manifest m path idx =
     idx\<lparr>ix_messages := foldl (\<lambda>t msg. AList.update (apiTypeKey (rm_GoPackage m) (mg_GoName msg))
             \<lparr>ai_source = rm_Source m, ai_filePath = path, ai_name = mg_GoName msg, ai_fields = mg_Fields msg\<rparr> t) (ix_messages idx) (rm_Messages m),
         ix_enums := foldl (\<lambda>t en. AList.update (apiTypeKey (rm_GoPackage m) (en_GoName en))
             \<lparr>ai_source = rm_Source m, ai_filePath = path, ai_name = en_GoName en, ai_fields = []\<rparr> t) (ix_enums idx) (rm_Enums m)\<rparr>"

fun index_loop :: "nat \<Rightarrow> (string \<Rightarrow> string) \<Rightarrow> string \<Rightarrow> resourceManifest list \<Rightarrow> apiIndex \<Rightarrow> goerror + apiIndex" where
  "index_loop a quote apiDir [] idx = Inr idx"
| "index_loop a quote apiDir (m # ms) idx =
     (case apiFilePath a quote apiDir (rm_Source m) of
        Inl e \<Rightarrow> Inl e
      | Inr path \<Rightarrow> index_loop a quote apiDir ms (index_manifest m path idx))"

definition buildAPIIndex :: "nat \<Rightarrow> (string \<Rightarrow> string) \<Rightarrow> resourceManifest list \<Rightarrow> string \<Rightarrow> goerror + apiIndex" where
  "buildAPIIndex a quote manifests apiDir = index_loop a quote apiDir manifests \<lparr>ix_messages = [], ix_enums = []\<rparr>"

definition wellKnownTS :: "string \<Rightarrow> string" where
  "wellKnownTS name =
     (if name \<in> {''google.protobuf.Timestamp'', ''google.protobuf.Duration''} then ''{ seconds?: number; nanos?: number }''
      else if name = ''google.protobuf.FieldMask'' then ''{ paths?: string[] }''
      else if name \<in> {''google.protobuf.StringValue'', ''google.protobuf.BytesValue''} then ''{ value?: string }''
      else if name = ''google.protobuf.BoolValue'' then ''{ value?: boolean }''
      else if name \<in> {''google.protobuf.Int32Value'', ''google.protobuf.Int64Value'', ''google.protobuf.UInt32Value'',
          ''google.protobuf.UInt64Value'', ''google.protobuf.FloatValue'', ''google.protobuf.DoubleValue''} then ''{ value?: number }''
      else ''unknown'')"

definition resolveType :: "(string, apiTypeInfo) gomap \<Rightarrow> manifestRef \<Rightarrow> string \<Rightarrow> string \<times> string" where
  "resolveType tbl ref currentPath =
     (if rf_Name ref = '''' then (''unknown'', '''')
      else (case map_of tbl (apiTypeKey (rf_Package ref) (rf_Name ref)) of
              None \<Rightarrow> (''unknown'', '''')
            | Some info \<Rightarrow>
                if ai_filePath info = currentPath then (ai_name info, '''')
                else (case filepath_Rel (filepath_Dir currentPath) (ai_filePath info) of
                        None \<Rightarrow> (''unknown'', '''')
                      | Some rel0 \<Rightarrow>
                          (let rel = TrimSuffix rel0 ''.ts'' in (ai_name info, if HasPrefix rel ''.'' then rel else ''./'' @ rel)))))"

definition resolve :: "apiIndex \<Rightarrow> manifestRef option \<Rightarrow> string \<Rightarrow> string \<times> string" where
  "resolve idx r currentPath =
     (case r of
        None \<Rightarrow> ('''', '''')
      | Some ref \<Rightarrow>
          if rf_Kind ref = ''well_known'' then (wellKnownTS (rf_Name ref), '''')
          else if rf_Kind ref = ''message'' then resolveType (ix_messages idx) ref currentPath
          else if rf_Kind ref = ''enum'' then resolveType (ix_enums idx) ref currentPath
          else (''unknown'', ''''))"

subsection \<open>Rendering of TypeScript\<close>

abbreviation newline :: string where "newline \<equiv> [CHR 0x0A]"

definition Fprintln :: "string \<Rightarrow> string" where
  "Fprintln s = s @ newline"

text \<open>A loop that writes text and threads the imports.\<close>

fun render_each :: "('a \<Rightarrow> 's \<Rightarrow> string \<times> 's) \<Rightarrow> 'a list \<Rightarrow> 's \<Rightarrow> string \<times> 's" where
  "render_each f [] t = ('''', t)"
| "render_each f (x # xs) t = (let (b, t1) = f x t; (bs, t2) = render_each f xs t1 in (b @ bs, t2))"

definition fieldBaseType :: "apiIndex \<Rightarrow> string \<Rightarrow> manifestField \<Rightarrow> typeImports \<Rightarrow> string \<times> typeImports" where
  "fieldBaseType index currentPath f imports =
     (let base = (if fd_Type f = '''' then ''unknown'' else fd_Type f) in
      case fd_Ref f of
        None \<Rightarrow> (base, imports)
      | Some _ \<Rightarrow>
          (let (resolved0, importPath) = resolve index (fd_Ref f) currentPath;
               resolved = (if resolved0 = '''' then ''unknown'' else resolved0)
           in typeImports_add importPath resolved imports))"

definition fieldTSType :: "apiIndex \<Rightarrow> string \<Rightarrow> manifestField \<Rightarrow> typeImports \<Rightarrow> string \<times> typeImports" where
  "fieldTSType index currentPath f imports =
     (let (base, t) = fieldBaseType index currentPath f imports in
      (if fd_Map f then ''Record<string, '' @ base @ ''>'' else if fd_List f then base @ ''[]'' else base, t))"

definition messageFields :: "resourceManifest \<Rightarrow> string \<Rightarrow> manifestField list" where
  "messageFields m name = (case find (\<lambda>msg. mg_GoName msg = name) (rm_Messages m) of None \<Rightarrow> [] | Some msg \<Rightarrow> mg_Fields msg)"

definition index_messageFields :: "apiIndex \<Rightarrow> resourceManifest \<Rightarrow> manifestRef option \<Rightarrow> string \<Rightarrow> manifestField list" where
  "index_messageFields idx m r name =
     (case r of
        Some ref \<Rightarrow>
          if rf_Kind ref = ''message'' then
            (case map_of (ix_messages idx) (apiTypeKey (rf_Package ref) (rf_Name ref)) of Some info \<Rightarrow> ai_fields info | None \<Rightarrow> messageFields m name)
          else messageFields m name
      | None \<Rightarrow> messageFields m name)"

definition is_alpha :: "char \<Rightarrow> bool" where
  "is_alpha c \<longleftrightarrow> (let n = of_char c :: nat in 65 \<le> n \<and> n \<le> 90 \<or> 97 \<le> n \<and> n \<le> 122) \<or> c = CHR ''_''"

definition is_word :: "char \<Rightarrow> bool" where
  "is_word c \<longleftrightarrow> is_alpha c \<or> (let n = of_char c :: nat in 48 \<le> n \<and> n \<le> 57)"

text \<open>The matches of \<open>pathParamRE\<close>: a colon, a letter or underscore, and the longest run of word characters.\<close>

function pathParamNames :: "string \<Rightarrow> string list" where
  "pathParamNames s =
     (case s of
        [] \<Rightarrow> []
      | c # cs \<Rightarrow>
          if c = CHR '':'' \<and> cs \<noteq> [] \<and> is_alpha (hd cs) then takeWhile is_word cs # pathParamNames (dropWhile is_word cs)
          else pathParamNames cs)"
  by pat_completeness auto
termination by (relation "measure length") (auto simp: le_imp_less_Suc length_dropWhile_le)

function renderPath :: "string \<Rightarrow> string" where
  "renderPath s =
     (case s of
        [] \<Rightarrow> []
      | c # cs \<Rightarrow>
          if c = CHR '':'' \<and> cs \<noteq> [] \<and> is_alpha (hd cs)
          then ''${encodeURIComponent(String(req.'' @ takeWhile is_word cs @ ''))}'' @ renderPath (dropWhile is_word cs)
          else c # renderPath cs)"
  by pat_completeness auto
termination by (relation "measure length") (auto simp: le_imp_less_Suc length_dropWhile_le)

declare pathParamNames.simps [simp del] renderPath.simps [simp del]

definition query_line :: "(string \<Rightarrow> string) \<Rightarrow> string \<Rightarrow> string" where
  "query_line quote n =
     Fprintln (''(req.'' @ n @ '' !== undefined && req.'' @ n @ '' !== null) params.set('' @ quote n @ '', String(req.'' @ n @ ''))'')"

definition query_text :: "(string \<Rightarrow> string) \<Rightarrow> bool \<Rightarrow> manifestField \<Rightarrow> string" where
  "query_text quote some f =
     (let n = fd_Name f in
      (if some then '''' else Fprintln ''  const params = new URLSearchParams()'') @
      (if fd_List f
       then Fprintln (''  if (Array.isArray(req.'' @ n @ '')) req.'' @ n @ ''.forEach((v) => params.append('' @ quote n @ '', String(v)))'') @
            ''  else if '' @ query_line quote n
       else ''  if '' @ query_line quote n))"

definition in_query :: "string \<Rightarrow> manifestField \<Rightarrow> bool" where
  "in_query base f \<longleftrightarrow> base = ''string'' \<or> base = ''number'' \<or> base = ''boolean'' \<or>
     (case fd_Ref f of Some ref \<Rightarrow> rf_Kind ref = ''enum'' | None \<Rightarrow> False)"

fun query_loop :: "(string \<Rightarrow> string) \<Rightarrow> apiIndex \<Rightarrow> string \<Rightarrow> string list \<Rightarrow> manifestField list \<Rightarrow> bool \<Rightarrow> typeImports \<Rightarrow> string \<times> typeImports" where
  "query_loop quote index currentPath pathParams [] some imports = ('''', imports)"
| "query_loop quote index currentPath pathParams (f # fs) some imports =
     (if fd_Name f \<in> set pathParams \<or> fd_Map f then query_loop quote index currentPath pathParams fs some imports
      else
        (let (base, t1) = fieldBaseType index currentPath f imports
         in if \<not> in_query base f then query_loop quote index currentPath pathParams fs some t1
            else (let (rest, t2) = query_loop quote index currentPath pathParams fs True t1 in (query_text quote some f @ rest, t2))))"

definition renderQuery :: "(string \<Rightarrow> string) \<Rightarrow> apiIndex \<Rightarrow> string \<Rightarrow> string list \<Rightarrow> manifestField list \<Rightarrow> typeImports \<Rightarrow> string \<times> typeImports" where
  "renderQuery quote index currentPath pathParams fs imports = query_loop quote index currentPath pathParams fs False imports"

definition lowerFirst :: "string \<Rightarrow> string" where
  "lowerFirst s = (if s = '''' then s else ToLower (take 1 s) @ drop 1 s)"

definition tsReserved :: "string list" where
  "tsReserved =
     [''arguments'', ''eval'', ''await'', ''break'', ''case'', ''catch'', ''class'', ''const'', ''continue'', ''debugger'',
      ''default'', ''delete'', ''do'', ''else'', ''enum'', ''export'', ''extends'', ''false'', ''finally'', ''for'', ''function'', ''if'',
      ''implements'', ''import'', ''in'', ''instanceof'', ''interface'', ''let'', ''new'', ''null'', ''package'', ''private'', ''protected'',
      ''public'', ''return'', ''static'', ''super'', ''switch'', ''this'', ''throw'', ''true'', ''try'', ''typeof'', ''var'', ''void'',
      ''while'', ''with'', ''yield'']"

definition tsFunctionName :: "string \<Rightarrow> string" where
  "tsFunctionName goName =
     (let name = lowerFirst goName in if name \<in> set tsReserved then ''rpc'' @ ToUpper (take 1 name) @ drop 1 name else name)"

definition nub :: "'a list \<Rightarrow> 'a list" where
  "nub xs = rev (remdups (rev xs))"

definition render_enum :: "manifestEnum \<Rightarrow> string" where
  "render_enum e =
     (if en_GoName e = '''' then ''''
      else
        (let numbers = nub (map ev_Number (en_Values e)) in
         (if numbers = [] then Fprintln (''export type '' @ en_GoName e @ '' = number'') @ newline
          else Fprintln (''export type '' @ en_GoName e @ '' = '' @ JoinStr (map int_str numbers) '' | '') @ newline) @
         Fprintln (''export const '' @ en_GoName e @ '' = {'') @
         concat (map (\<lambda>v. Fprintln (''  '' @ ev_Name v @ '': '' @ int_str (ev_Number v) @ '','')) (en_Values e)) @
         Fprintln ''} as const'' @ newline))"

definition render_message :: "apiIndex \<Rightarrow> string \<Rightarrow> manifestMessage \<Rightarrow> typeImports \<Rightarrow> string \<times> typeImports" where
  "render_message index currentPath msg imports =
     (if mg_GoName msg = '''' then ('''', imports)
      else
        (let (fs, t) = render_each (\<lambda>f t. if fd_Name f = '''' then ('''', t)
               else (let (typ, t1) = fieldTSType index currentPath f t in (Fprintln (''  '' @ fd_Name f @ ''?: '' @ typ), t1))) (mg_Fields msg) imports
         in (Fprintln (''export interface '' @ mg_GoName msg @ '' {'') @ fs @ Fprintln ''}'' @ newline, t)))"

definition method_type :: "apiIndex \<Rightarrow> string \<Rightarrow> string \<Rightarrow> manifestRef option \<Rightarrow> typeImports \<Rightarrow> string \<times> typeImports" where
  "method_type index currentPath declared r imports =
     (let (ty, t) =
        (case r of
           None \<Rightarrow> (declared, imports)
         | Some _ \<Rightarrow>
             (let (resolved, importPath) = resolve index r currentPath
              in if resolved \<noteq> '''' then typeImports_add importPath resolved imports else (declared, imports)))
      in (if ty = '''' then ''void'' else ty, t))"

definition bq :: string where "bq = [CHR 0x60]"

definition method_head :: "string \<Rightarrow> string \<Rightarrow> string \<Rightarrow> manifestMethod \<Rightarrow> string" where
  "method_head name reqType respType method =
     (let params = (if reqType \<noteq> ''void'' then ''req: '' @ reqType else '''') in
      Fprintln (''/** '' @ mt_HTTPMethod method @ '' '' @ mt_HTTPPath method @ '' */'') @
      Fprintln (''export function '' @ name @ ''('' @ params @ ''): Promise<'' @ respType @ ''> {'') @
      Fprintln (''  const path = '' @ bq @ renderPath (mt_HTTPPath method) @ bq))"

definition get_text :: "string \<Rightarrow> string \<Rightarrow> string" where
  "get_text query respType =
     (if query \<noteq> ''''
      then query @ Fprintln ''  const query = params.toString()'' @
        Fprintln (''  return http.get<'' @ respType @ ''>('' @ bq @ ''${path}${query ? '' @ bq @ ''?${query}'' @ bq @ '' : '' @ [CHR 0x27, CHR 0x27] @ ''}'' @ bq @ '')'')
      else Fprintln (''  return http.get<'' @ respType @ ''>(path)''))"

definition call_text :: "string \<Rightarrow> string \<Rightarrow> manifestMethod \<Rightarrow> string" where
  "call_text reqType respType method =
     (let args =
        (if reqType \<noteq> ''void'' then
           (if mt_Body method = ''*'' then '', req'' else if mt_Body method \<noteq> '''' then '', req.'' @ mt_Body method else '''')
         else '''')
      in Fprintln (''  return http.'' @ ToLower (mt_HTTPMethod method) @ ''<'' @ respType @ ''>(path'' @ args @ '')''))"

definition method_name :: "(string \<Rightarrow> nat) \<Rightarrow> manifestService \<Rightarrow> manifestMethod \<Rightarrow> string" where
  "method_name nameCounts svc method =
     (let name = tsFunctionName (mt_GoName method)
      in if nameCounts name > 1 then lowerFirst (sv_GoName svc) @ mt_GoName method else name)"

definition render_method ::
    "(string \<Rightarrow> string) \<Rightarrow> resourceManifest \<Rightarrow> apiIndex \<Rightarrow> string \<Rightarrow> (string \<Rightarrow> nat) \<Rightarrow> manifestService \<Rightarrow> manifestMethod \<Rightarrow> typeImports \<Rightarrow> string \<times> typeImports" where
  "render_method quote m index currentPath nameCounts svc method imports =
     (let (reqType, t1) = method_type index currentPath (mt_Request method) (mt_RequestRef method) imports;
          (respType, t2) = method_type index currentPath (mt_Response method) (mt_ResponseRef method) t1;
          (call, t3) =
            (if ToUpper (mt_HTTPMethod method) = ''GET'' then
               (let (query, t) = renderQuery quote index currentPath (pathParamNames (mt_HTTPPath method))
                      (index_messageFields index m (mt_RequestRef method) reqType) t2
                in (get_text query respType, t))
             else (call_text reqType respType method, t2))
      in (method_head (method_name nameCounts svc method) reqType respType method @ call @ Fprintln ''}'' @ newline, t3))"

definition generatedTSHeader :: string where
  "generatedTSHeader = ''// Code generated by aeus gen. DO NOT EDIT.''"

definition has_method :: "resourceManifest \<Rightarrow> bool" where
  "has_method m \<longleftrightarrow> (\<exists>svc\<in>set (rm_Services m). length (sv_Methods svc) > 0)"

definition render_body :: "(string \<Rightarrow> string) \<Rightarrow> resourceManifest \<Rightarrow> apiIndex \<Rightarrow> string \<Rightarrow> string \<times> typeImports" where
  "render_body quote m index currentPath =
     (let enums = concat (map render_enum (sort_key en_GoName (rm_Enums m)));
          (messages, t1) = render_each (render_message index currentPath) (sort_key mg_GoName (rm_Messages m)) (newTypeImports m);
          names = map (\<lambda>method. tsFunctionName (mt_GoName method)) (concat (map sv_Methods (rm_Services m)));
          (methods, t2) = render_each (\<lambda>svc. render_each (render_method quote m index currentPath (count_list names) svc) (sv_Methods svc)) (rm_Services m) t1
      in (enums @ messages @ methods, t2))"

definition renderAPI :: "(string \<Rightarrow> string) \<Rightarrow> resourceManifest \<Rightarrow> apiIndex \<Rightarrow> string \<Rightarrow> string" where
  "renderAPI quote m index currentPath =
     (if rm_Messages m = [] \<and> rm_Enums m = [] \<and> \<not> has_method m then ''''
      else
        (let (body, imports) = render_body quote m index currentPath; ls = typeImports_lines imports in
         Fprintln generatedTSHeader @ newline @
         (if has_method m then Fprintln (''import { http } from '' @ [CHR 0x27] @ ''@/api/http'' @ [CHR 0x27]) else '''') @
         (if ls \<noteq> [] then newline @ concat (map Fprintln ls) else '''') @
         newline @ body))"

subsection \<open>Files\<close>

record 'f os_ops =
  os_ReadFile :: "string \<Rightarrow> 'f \<Rightarrow> goerror + string"
  os_IsNotExist :: "goerror \<Rightarrow> bool"
  os_Stat :: "string \<Rightarrow> 'f \<Rightarrow> goerror option"
  os_MkdirAll :: "string \<Rightarrow> 'f \<Rightarrow> goerror option \<times> 'f"
  os_WriteFile :: "string \<Rightarrow> string \<Rightarrow> 'f \<Rightarrow> goerror option \<times> 'f"

text \<open>\<open>fmt.Errorf\<close> with the verb \<open>%w\<close> at the end.\<close>

definition wrapf :: "nat \<Rightarrow> string \<Rightarrow> string \<Rightarrow> goerror \<Rightarrow> goerror" where
  "wrapf a what path e = FmtWrap a (what @ path @ '': '' @ Error e) [e]"

definition write_file :: "'f os_ops \<Rightarrow> nat \<Rightarrow> string \<Rightarrow> string \<Rightarrow> 'f \<Rightarrow> goerror option \<times> 'f" where
  "write_file os a path body f =
     (case os_WriteFile os path body f of (Some e, f1) \<Rightarrow> (Some (wrapf a ''write '' path e), f1) | (None, f1) \<Rightarrow> (None, f1))"

definition make_file :: "'f os_ops \<Rightarrow> nat \<Rightarrow> string \<Rightarrow> string \<Rightarrow> 'f \<Rightarrow> goerror option \<times> 'f" where
  "make_file os a path body f =
     (case os_MkdirAll os (filepath_Dir path) f of
        (Some e, f1) \<Rightarrow> (Some (wrapf a ''mkdir '' (filepath_Dir path) e), f1)
      | (None, f1) \<Rightarrow> write_file os a path body f1)"

definition out_of_date :: "nat \<Rightarrow> string \<Rightarrow> goerror" where
  "out_of_date a path = ErrString a (path @ '' is out of date; run '' @ bq @ ''aeus gen'' @ bq)"

record gen_count =
  gc_written :: nat
  gc_skipped :: nat
  gc_missing :: "string list"

abbreviation count_written :: "gen_count \<Rightarrow> gen_count" where "count_written c \<equiv> c\<lparr>gc_written := Suc (gc_written c)\<rparr>"
abbreviation count_skipped :: "gen_count \<Rightarrow> gen_count" where "count_skipped c \<equiv> c\<lparr>gc_skipped := Suc (gc_skipped c)\<rparr>"
abbreviation count_missing :: "string \<Rightarrow> gen_count \<Rightarrow> gen_count" where "count_missing p c \<equiv> c\<lparr>gc_missing := gc_missing c @ [p]\<rparr>"

text \<open>One file of the TypeScript interface.\<close>

definition generate_api_file :: "'f os_ops \<Rightarrow> nat \<Rightarrow> bool \<Rightarrow> string \<Rightarrow> string \<Rightarrow> gen_count \<Rightarrow> 'f \<Rightarrow> (goerror + gen_count) \<times> 'f" where
  "generate_api_file os a check path body c f =
     (case os_ReadFile os path f of
        Inr existing \<Rightarrow>
          if \<not> HasPrefix existing generatedTSHeader then (Inr (count_skipped c), f)
          else if existing = body then (Inr (count_skipped c), f)
          else if check then (Inl (out_of_date a path), f)
          else (case write_file os a path body f of (Some e, f1) \<Rightarrow> (Inl e, f1) | (None, f1) \<Rightarrow> (Inr (count_written c), f1))
      | Inl readErr \<Rightarrow>
          if \<not> os_IsNotExist os readErr then (Inl (wrapf a ''read '' path readErr), f)
          else if check then (Inr (count_missing path c), f)
          else (case make_file os a path body f of (Some e, f1) \<Rightarrow> (Inl e, f1) | (None, f1) \<Rightarrow> (Inr (count_written c), f1)))"

fun api_files_loop ::
    "'f os_ops \<Rightarrow> nat \<Rightarrow> (string \<Rightarrow> string) \<Rightarrow> apiIndex \<Rightarrow> string \<Rightarrow> bool \<Rightarrow> resourceManifest list \<Rightarrow> string list \<Rightarrow> gen_count \<Rightarrow> 'f \<Rightarrow>
     (goerror + gen_count) \<times> 'f" where
  "api_files_loop os a quote index apiDir check [] seen c f = (Inr c, f)"
| "api_files_loop os a quote index apiDir check (m # ms) seen c f =
     (case apiFilePath a quote apiDir (rm_Source m) of
        Inl e \<Rightarrow> (Inl e, f)
      | Inr path \<Rightarrow>
          (let body = renderAPI quote m index path in
           if body = '''' \<or> path \<in> set seen then api_files_loop os a quote index apiDir check ms seen c f
           else (case generate_api_file os a check path body c f of
                   (Inl e, f1) \<Rightarrow> (Inl e, f1)
                 | (Inr c1, f1) \<Rightarrow> api_files_loop os a quote index apiDir check ms (path # seen) c1 f1)))"

definition generateAPIFiles ::
    "'f os_ops \<Rightarrow> nat \<Rightarrow> (string \<Rightarrow> string) \<Rightarrow> resourceManifest list \<Rightarrow> string \<Rightarrow> bool \<Rightarrow> 'f \<Rightarrow> (goerror + gen_count) \<times> 'f" where
  "generateAPIFiles os a quote manifests apiDir check f =
     (case buildAPIIndex a quote manifests apiDir of
        Inl e \<Rightarrow> (Inl e, f)
      | Inr index \<Rightarrow> api_files_loop os a quote index apiDir check manifests [] \<lparr>gc_written = 0, gc_skipped = 0, gc_missing = []\<rparr> f)"

subsection \<open>Pages\<close>

definition vueFilePath :: "nat \<Rightarrow> (string \<Rightarrow> string) \<Rightarrow> string \<Rightarrow> manifestEntity \<Rightarrow> goerror + string" where
  "vueFilePath a quote webDir e =
     (if et_Module e = '''' then Inl (ErrString a (et_GoName e @ '': entity module is empty''))
      else
        (let singular = (if et_Singular e = '''' then TrimSuffix (et_Table e) ''s'' else et_Singular e);
             viewPath = (if TrimSpace (et_ViewPath e) = '''' then ''@/views/'' @ ToLower (et_Module e) @ ''/'' @ singular @ ''/Index.vue''
                         else TrimSpace (et_ViewPath e));
             rel = TrimPrefix (TrimPrefix viewPath ''@/views/'') ''@/'';
             clean = Clean rel
         in if escapes clean then Inl (ErrString a (et_GoName e @ '': invalid view_path '' @ quote (et_ViewPath e)))
            else Inr (path_Join webDir clean)))"

text \<open>\<open>render\<close> is the text of a page.\<close>

fun vue_files_loop ::
    "'f os_ops \<Rightarrow> nat \<Rightarrow> (string \<Rightarrow> string) \<Rightarrow> (manifestEntity \<Rightarrow> string) \<Rightarrow> string \<Rightarrow> bool \<Rightarrow> manifestEntity list \<Rightarrow> string list \<Rightarrow> gen_count \<Rightarrow> 'f \<Rightarrow>
     (goerror + gen_count) \<times> 'f" where
  "vue_files_loop os a quote render webDir check [] seen c f = (Inr c, f)"
| "vue_files_loop os a quote render webDir check (e # es) seen c f =
     (case vueFilePath a quote webDir e of
        Inl err \<Rightarrow> (Inl err, f)
      | Inr path \<Rightarrow>
          if path \<in> set seen then vue_files_loop os a quote render webDir check es seen c f
          else (case os_Stat os path f of
                  None \<Rightarrow> vue_files_loop os a quote render webDir check es (path # seen) (count_skipped c) f
                | Some statErr \<Rightarrow>
                    if \<not> os_IsNotExist os statErr then (Inl (wrapf a ''stat '' path statErr), f)
                    else if check then vue_files_loop os a quote render webDir check es (path # seen) (count_missing path c) f
                    else (case make_file os a path (render e) f of
                            (Some err, f1) \<Rightarrow> (Inl err, f1)
                          | (None, f1) \<Rightarrow> vue_files_loop os a quote render webDir check es (path # seen) (count_written c) f1)))"

definition generateVueFiles ::
    "'f os_ops \<Rightarrow> nat \<Rightarrow> (string \<Rightarrow> string) \<Rightarrow> (manifestEntity \<Rightarrow> string) \<Rightarrow> resourceManifest list \<Rightarrow> string \<Rightarrow> bool \<Rightarrow> 'f \<Rightarrow>
     (goerror + gen_count) \<times> 'f" where
  "generateVueFiles os a quote render manifests webDir check f =
     vue_files_loop os a quote render webDir check (concat (map rm_Entities manifests)) [] \<lparr>gc_written = 0, gc_skipped = 0, gc_missing = []\<rparr> f"

subsection \<open>Wiring\<close>

definition moduleKey :: "manifestModule \<Rightarrow> string" where
  "moduleKey m = (if mm_Component m \<noteq> '''' then mm_Component m else mm_Name m)"

record genModule =
  gm_alias :: string
  gm_varName :: string
  gm_spec :: manifestModule

record genEntity =
  ge_alias :: string
  ge_model :: string
  ge_name :: string

record genPolicy =
  gp_alias :: string
  gp_name :: string
  gp_goName :: string

fun package_aliases :: "(string \<Rightarrow> string) \<Rightarrow> resourceManifest list \<Rightarrow> string list \<Rightarrow> (string, string) gomap \<Rightarrow> (string, string) gomap" where
  "package_aliases aliasName [] usedAliases aliases = aliases"
| "package_aliases aliasName (m # ms) usedAliases aliases =
     (if map_of aliases (rm_GoPackage m) \<noteq> None then package_aliases aliasName ms usedAliases aliases
      else (let alias = unused_alias usedAliases (aliasName (rm_GoPackageName m))
            in package_aliases aliasName ms (alias # usedAliases) (AList.update (rm_GoPackage m) alias aliases)))"

record wiring =
  wi_modules :: "genModule list"
  wi_entities :: "genEntity list"
  wi_policies :: "genPolicy list"
  wi_usedPackages :: "string list"
  wi_seenModule :: "string list"
  wi_seenEntity :: "string list"
  wi_seenPolicy :: "string list"

definition collect_module :: "string \<Rightarrow> resourceManifest \<Rightarrow> wiring \<Rightarrow> wiring" where
  "collect_module alias m w =
     (case rm_Module m of
        None \<Rightarrow> w
      | Some md \<Rightarrow>
          (let key = moduleKey md in
           if key \<in> set (wi_seenModule w) then w
           else w\<lparr>wi_seenModule := key # wi_seenModule w,
                  wi_modules := wi_modules w @ [\<lparr>gm_alias = alias, gm_varName = (if mm_VarName md = '''' then ''Module'' else mm_VarName md), gm_spec = md\<rparr>],
                  wi_usedPackages := List.insert (rm_GoPackage m) (wi_usedPackages w)\<rparr>))"

definition collect_entity :: "string \<Rightarrow> resourceManifest \<Rightarrow> wiring \<Rightarrow> manifestEntity \<Rightarrow> wiring" where
  "collect_entity alias m w e =
     (let key = rm_GoPackage m @ ''.'' @ et_ModelName e in
      if key \<in> set (wi_seenEntity w) then w
      else w\<lparr>wi_seenEntity := key # wi_seenEntity w,
             wi_entities := wi_entities w @ [\<lparr>ge_alias = alias, ge_model = et_ModelName e, ge_name = et_GoName e\<rparr>],
             wi_usedPackages := List.insert (rm_GoPackage m) (wi_usedPackages w)\<rparr>)"

definition collect_policy :: "string \<Rightarrow> resourceManifest \<Rightarrow> wiring \<Rightarrow> manifestService \<Rightarrow> wiring" where
  "collect_policy alias m w s =
     (let key = rm_GoPackage m @ ''.'' @ sv_PoliciesVar s in
      if sv_PoliciesVar s = '''' then w
      else if key \<in> set (wi_seenPolicy w) then w
      else w\<lparr>wi_seenPolicy := key # wi_seenPolicy w,
             wi_policies := wi_policies w @ [\<lparr>gp_alias = alias, gp_name = sv_PoliciesVar s, gp_goName = sv_GoName s\<rparr>],
             wi_usedPackages := List.insert (rm_GoPackage m) (wi_usedPackages w)\<rparr>)"

definition alias_for :: "(string, string) gomap \<Rightarrow> string \<Rightarrow> string" where
  "alias_for aliases pkg = (case map_of aliases pkg of None \<Rightarrow> '''' | Some alias \<Rightarrow> alias)"

definition collect_manifest :: "(string, string) gomap \<Rightarrow> wiring \<Rightarrow> resourceManifest \<Rightarrow> wiring" where
  "collect_manifest aliases w m =
     (let alias = alias_for aliases (rm_GoPackage m);
          w1 = collect_module alias m w;
          w2 = foldl (collect_entity alias m) w1 (rm_Entities m)
      in foldl (collect_policy alias m) w2 (rm_Services m))"

definition empty_wiring :: wiring where
  "empty_wiring = \<lparr>wi_modules = [], wi_entities = [], wi_policies = [], wi_usedPackages = [], wi_seenModule = [], wi_seenEntity = [], wi_seenPolicy = []\<rparr>"

definition gen_aliases :: "(string \<Rightarrow> string) \<Rightarrow> resourceManifest list \<Rightarrow> (string, string) gomap" where
  "gen_aliases aliasName manifests = package_aliases aliasName manifests [''admin'', ''gorm'', ''fmt''] []"

definition collect_wiring :: "(string \<Rightarrow> string) \<Rightarrow> resourceManifest list \<Rightarrow> wiring" where
  "collect_wiring aliasName manifests = foldl (collect_manifest (gen_aliases aliasName manifests)) empty_wiring manifests"

abbreviation tab :: string where "tab \<equiv> [CHR 0x09]"
definition dq :: string where "dq = [CHR 0x22]"

definition register_text :: "(string \<Rightarrow> string) \<Rightarrow> string \<Rightarrow> string \<Rightarrow> string" where
  "register_text quote call what =
     Fprintln (tab @ ''if err := '' @ call @ ''; err != nil {'') @
     Fprintln (tab @ tab @ ''return fmt.Errorf('' @ quote (what @ '': %w'') @ '', err)'') @ Fprintln (tab @ ''}'')"

definition model_ref :: "genEntity \<Rightarrow> string" where
  "model_ref e = ''&'' @ ge_alias e @ ''.'' @ ge_model e @ ''{}''"

definition renderGenerated :: "(string \<Rightarrow> string) \<Rightarrow> (string \<Rightarrow> string) \<Rightarrow> string \<Rightarrow> resourceManifest list \<Rightarrow> string" where
  "renderGenerated quote aliasName pkg manifests =
     (let aliases = gen_aliases aliasName manifests;
          w = collect_wiring aliasName manifests;
          modules = sort_key (\<lambda>m. moduleKey (gm_spec m)) (wi_modules w);
          entities = sort_key (\<lambda>e. ge_alias e @ ''.'' @ ge_model e) (wi_entities w);
          policies = sort_key (\<lambda>p. gp_alias p @ ''.'' @ gp_name p) (wi_policies w);
          hasOps = length modules + length entities + length policies > 0
      in Fprintln ''// Code generated by aeus gen. DO NOT EDIT.'' @ newline @ Fprintln (''package '' @ pkg) @ newline @
         Fprintln ''import ('' @
         (if hasOps then Fprintln (tab @ dq @ ''fmt'' @ dq) else '''') @
         Fprintln (tab @ dq @ ''github.com/sjlit/aeus/admin'' @ dq) @
         Fprintln (tab @ dq @ ''gorm.io/gorm'' @ dq) @
         concat (map (\<lambda>path. Fprintln (tab @ alias_for aliases path @ '' '' @ quote path)) (sort (wi_usedPackages w))) @
         Fprintln '')'' @ Fprintln '''' @
         Fprintln ''// Register wires proto-generated business models, module menus and'' @
         Fprintln ''// route permissions into the admin server. It is called after Setup.'' @
         Fprintln ''func Register(s *admin.Server, db *gorm.DB) error {'' @
         concat (map (\<lambda>m. register_text quote (''admin.EnsureModuleMenu(db, '' @ gm_alias m @ ''.'' @ gm_varName m @ '')'')
           (''ensure module '' @ mm_Name (gm_spec m))) modules) @
         concat (map (\<lambda>e. register_text quote (''s.RegisterModel('' @ model_ref e @ '')'') (''register '' @ ge_name e)) entities) @
         concat (map (\<lambda>p. register_text quote (''admin.EnsureEndpointPermissions(db, '' @ gp_alias p @ ''.'' @ gp_name p @ ''...)'')
           (''register policies for '' @ gp_goName p)) policies) @
         Fprintln (tab @ ''return nil'') @ Fprintln ''}'' @ Fprintln '''' @
         Fprintln ''// Migrate creates the tables for proto-generated entities.'' @
         Fprintln ''func Migrate(db *gorm.DB) error {'' @
         (if entities = [] then Fprintln (tab @ ''return nil'')
          else tab @ ''return db.AutoMigrate('' @ JoinStr (map model_ref entities) '', '' @ Fprintln '')'') @
         Fprintln ''}'')"

subsection \<open>Text of a page and names\<close>

function runes :: "string \<Rightarrow> string list" where
  "runes [] = []"
| "runes (c # cs) = (let n = max 1 (rune_len (map of_char (c # cs))) in take n (c # cs) # runes (drop (n - 1) cs))"
  by pat_completeness auto
termination by (relation "measure length") auto

text \<open>\<open>upper\<close> is \<open>unicode.ToUpper\<close> on the encoding of a character, \<open>letter\<close> and \<open>digit\<close> are the classes of package unicode.\<close>

definition pascalName :: "(string \<Rightarrow> string) \<Rightarrow> string \<Rightarrow> string" where
  "pascalName upper s =
     concat (map (\<lambda>p. case runes p of [] \<Rightarrow> [] | r # rs \<Rightarrow> upper r @ concat rs)
       (FieldsFunc (\<lambda>c. c \<in> {CHR ''_'', CHR ''-'', CHR '' '', CHR ''/''}) s))"

definition aliasName :: "(string \<Rightarrow> bool) \<Rightarrow> (string \<Rightarrow> bool) \<Rightarrow> string \<Rightarrow> string" where
  "aliasName letter digit s0 =
     (let s = TrimSpace s0; b = concat (map snd (filter (\<lambda>(i, r). letter r \<or> r = ''_'' \<or> i > 0 \<and> digit r) (enumerate 0 (runes s))))
      in if s = '''' then ''pkg'' else if b = '''' then ''pkg'' else b)"

definition escape_char :: "char \<Rightarrow> string" where
  "escape_char c =
     (if c = CHR ''&'' then ''&amp;'' else if c = CHR 0x27 then ''&#39;'' else if c = CHR ''<'' then ''&lt;''
      else if c = CHR ''>'' then ''&gt;'' else if c = CHR 0x22 then ''&#34;'' else [c])"

definition EscapeString :: "string \<Rightarrow> string" where
  "EscapeString s = concat (map escape_char s)"

definition bytes :: "nat list \<Rightarrow> string" where
  "bytes bs = map char_of bs"

text \<open>The two comments of the template, in UTF-8.\<close>

definition vue_comment1 :: string where
  "vue_comment1 = bytes
    [47, 47, 32, 228, 184, 142, 232, 143, 156, 229, 141, 149, 32, 114, 111, 117, 116, 101, 32, 109, 101, 116, 97, 46, 99, 111, 109,
     112, 111, 110, 101, 110, 116, 78, 97, 109, 101, 32, 229, 175, 185, 233, 189, 144, 239, 188, 140, 228, 191, 157, 232, 175,
     129, 32, 107, 101, 101, 112, 45, 97, 108, 105, 118, 101, 32, 232, 131, 189, 231, 188, 147, 229, 173, 152, 233, 161, 181, 233,
     157, 162, 227, 128, 130]"

definition vue_comment2 :: string where
  "vue_comment2 = bytes
    [47, 47, 32, 233, 161, 181, 233, 157, 162, 230, 160, 135, 233, 162, 152, 232, 183, 159, 233, 154, 143, 232, 143, 156, 229, 141,
     149, 239, 188, 155, 230, 156, 170, 233, 133, 141, 231, 189, 174, 232, 143, 156, 229, 141, 149, 230, 151, 182, 229, 155, 158,
     232, 144, 189, 229, 136, 176, 232, 161, 168, 229, 144, 141, 227, 128, 130]"

abbreviation sq :: string where "sq \<equiv> [CHR 0x27]"

definition renderVue :: "(string \<Rightarrow> string) \<Rightarrow> (string \<Rightarrow> string) \<Rightarrow> manifestEntity \<Rightarrow> string" where
  "renderVue quote upper e =
     (let component = (if et_Component e = '''' then pascalName upper (et_Module e) @ pascalName upper (et_Table e) else et_Component e);
          title = (if et_MenuName e = '''' then et_Table e else et_MenuName e);
          readonly = (if et_ReadOnly e then '' readonly'' else '''')
      in
      Fprintln ''<!-- Code generated by aeus gen. DO NOT EDIT. -->'' @
      Fprintln (''<script setup lang='' @ dq @ ''ts'' @ dq @ ''>'') @
      Fprintln vue_comment1 @
      Fprintln (''defineOptions({ name: '' @ quote component @ '' })'') @
      Fprintln '''' @
      Fprintln (''import { computed } from '' @ sq @ ''vue'' @ sq) @
      Fprintln (''import { useRoute } from '' @ sq @ ''vue-router'' @ sq) @
      Fprintln (''import { SchemaViewer } from '' @ sq @ ''@sjlit/rest-ui'' @ sq) @
      Fprintln '''' @
      Fprintln ''const route = useRoute()'' @
      Fprintln '''' @
      Fprintln vue_comment2 @
      Fprintln (''const title = computed(() => (route.meta.title as string | undefined) || '' @ quote title @ '')'') @
      Fprintln ''</script>'' @
      Fprintln '''' @
      Fprintln ''<template>'' @
      Fprintln (''  <SchemaViewer module='' @ dq @ EscapeString (et_Module e) @ dq @ '' table='' @ dq @ EscapeString (et_Table e) @ dq @ '' :title='' @ dq @ ''title'' @ dq @ readonly @ '' />'') @
      Fprintln ''</template>'')"

subsection \<open>The command\<close>

text \<open>What \<open>filepath.WalkDir\<close> meets: an entry it cannot read, a file, or a directory with its entries in order.\<close>

datatype dirent = BadEntry goerror | FileEntry string | DirEntry string "dirent list"

fun entry_Name :: "dirent \<Rightarrow> string" where
  "entry_Name (BadEntry e) = ''''"
| "entry_Name (FileEntry n) = n"
| "entry_Name (DirEntry n es) = n"

fun visited_files :: "string \<Rightarrow> dirent \<Rightarrow> (goerror + string \<times> string) list" where
  "visited_files path (BadEntry e) = [Inl e]"
| "visited_files path (FileEntry n) = [Inr (path, n)]"
| "visited_files path (DirEntry n es) =
     (if n = ''.git'' \<or> n = ''node_modules'' then [] else concat (map (\<lambda>e. visited_files (path_Join path (entry_Name e)) e) es))"

definition load_manifest ::
    "'f os_ops \<Rightarrow> nat \<Rightarrow> (string \<Rightarrow> string) \<Rightarrow> (string \<Rightarrow> goerror + resourceManifest) \<Rightarrow> string \<Rightarrow> string \<Rightarrow> 'f \<Rightarrow> goerror + resourceManifest" where
  "load_manifest os a quote unmarshal root path f =
     (case os_ReadFile os path f of
        Inl e \<Rightarrow> Inl e
      | Inr data \<Rightarrow>
          (case unmarshal data of
             Inl e \<Rightarrow> Inl (wrapf a ''parse '' path e)
           | Inr m \<Rightarrow>
               (let source = Clean (rm_Source m) in
                if rm_GoPackage m = '''' then Inl (ErrString a (path @ '': go_package is empty''))
                else if rm_Source m = '''' \<or> escapes source then Inl (ErrString a (path @ '': invalid proto source '' @ quote (rm_Source m)))
                else if \<not> (\<exists>base\<in>{root, filepath_Dir root}. os_Stat os (path_Join base source) f = None)
                then Inl (ErrString a (path @ '': stale manifest for '' @ quote (rm_Source m) @ '' (source not found under '' @ root @ ''); rerun '' @
                       bq @ ''make proto'' @ bq @ '' or remove stale generated files''))
                else Inr m)))"

fun load_loop ::
    "'f os_ops \<Rightarrow> nat \<Rightarrow> (string \<Rightarrow> string) \<Rightarrow> (string \<Rightarrow> goerror + resourceManifest) \<Rightarrow> string \<Rightarrow> (goerror + string \<times> string) list \<Rightarrow> 'f \<Rightarrow>
     goerror + resourceManifest list" where
  "load_loop os a quote unmarshal root [] f = Inr []"
| "load_loop os a quote unmarshal root (v # vs) f =
     (case v of
        Inl e \<Rightarrow> Inl e
      | Inr (path, name) \<Rightarrow>
          if \<not> HasSuffix name ''_aeus.json'' then load_loop os a quote unmarshal root vs f
          else (case load_manifest os a quote unmarshal root path f of
                  Inl e \<Rightarrow> Inl e
                | Inr m \<Rightarrow> (case load_loop os a quote unmarshal root vs f of Inl e \<Rightarrow> Inl e | Inr ms \<Rightarrow> Inr (m # ms))))"

definition loadManifests ::
    "'f os_ops \<Rightarrow> nat \<Rightarrow> (string \<Rightarrow> string) \<Rightarrow> (string \<Rightarrow> goerror + resourceManifest) \<Rightarrow> string \<Rightarrow> dirent \<Rightarrow> 'f \<Rightarrow> goerror + resourceManifest list" where
  "loadManifests os a quote unmarshal root tree f =
     (case load_loop os a quote unmarshal root (visited_files root tree) f of
        Inl e \<Rightarrow> Inl (wrapf a ''scan '' root e)
      | Inr ms \<Rightarrow> Inr (sort_key rm_Source ms))"

record gen_flags =
  gf_protoDir :: string
  gf_outDir :: string
  gf_pkg :: string
  gf_name :: string
  gf_webDir :: string
  gf_apiDir :: string
  gf_noWeb :: bool
  gf_noAPI :: bool
  gf_check :: bool

text \<open>The functions of the standard library the command calls.\<close>

record gen_env =
  gv_quote :: "string \<Rightarrow> string"
  gv_upper :: "string \<Rightarrow> string"
  gv_letter :: "string \<Rightarrow> bool"
  gv_digit :: "string \<Rightarrow> bool"
  gv_unmarshal :: "string \<Rightarrow> goerror + resourceManifest"
  gv_format :: "string \<Rightarrow> goerror + string"

definition gen_target :: "gen_flags \<Rightarrow> string" where
  "gen_target fl = path_Join (gf_outDir fl) (gf_name fl)"

definition gen_vue :: "'f os_ops \<Rightarrow> gen_env \<Rightarrow> nat \<Rightarrow> gen_flags \<Rightarrow> resourceManifest list \<Rightarrow> 'f \<Rightarrow> (goerror + gen_count) \<times> 'f" where
  "gen_vue os env a fl ms f = generateVueFiles os a (gv_quote env) (renderVue (gv_quote env) (gv_upper env)) ms (gf_webDir fl) (gf_check fl) f"

definition gen_api :: "'f os_ops \<Rightarrow> gen_env \<Rightarrow> nat \<Rightarrow> gen_flags \<Rightarrow> resourceManifest list \<Rightarrow> 'f \<Rightarrow> (goerror + gen_count) \<times> 'f" where
  "gen_api os env a fl ms f = generateAPIFiles os a (gv_quote env) ms (gf_apiDir fl) (gf_check fl) f"

text \<open>The pages and the interface, each unless it is switched off; the names of missing files.\<close>

definition gen_web :: "'f os_ops \<Rightarrow> gen_env \<Rightarrow> nat \<Rightarrow> gen_flags \<Rightarrow> resourceManifest list \<Rightarrow> 'f \<Rightarrow> (goerror + string list) \<times> 'f" where
  "gen_web os env a fl ms f =
     (case (if gf_noWeb fl then (Inr [], f)
            else case gen_vue os env a fl ms f of (Inl e, f1) \<Rightarrow> (Inl e, f1) | (Inr c, f1) \<Rightarrow> (Inr (gc_missing c), f1)) of
        (Inl e, f1) \<Rightarrow> (Inl e, f1)
      | (Inr miss, f1) \<Rightarrow>
          if gf_noAPI fl then (Inr miss, f1)
          else (case gen_api os env a fl ms f1 of (Inl e, f2) \<Rightarrow> (Inl e, f2) | (Inr c, f2) \<Rightarrow> (Inr (miss @ gc_missing c), f2)))"

definition gen_check :: "'f os_ops \<Rightarrow> gen_env \<Rightarrow> nat \<Rightarrow> gen_flags \<Rightarrow> resourceManifest list \<Rightarrow> string \<Rightarrow> 'f \<Rightarrow> goerror option \<times> 'f" where
  "gen_check os env a fl ms formatted f =
     (case os_ReadFile os (gen_target fl) f of
        Inl e \<Rightarrow> (Some (wrapf a ''read '' (gen_target fl) e), f)
      | Inr existing \<Rightarrow>
          if existing \<noteq> formatted then (Some (out_of_date a (gen_target fl)), f)
          else (case gen_web os env a fl ms f of
                  (Inl e, f1) \<Rightarrow> (Some e, f1)
                | (Inr allMissing, f1) \<Rightarrow>
                    (if length allMissing > 0 then (Some (ErrString a (''missing generated file(s): '' @ JoinStr allMissing '', '')), f1) else (None, f1))))"

definition gen_write :: "'f os_ops \<Rightarrow> gen_env \<Rightarrow> nat \<Rightarrow> gen_flags \<Rightarrow> resourceManifest list \<Rightarrow> string \<Rightarrow> 'f \<Rightarrow> goerror option \<times> 'f" where
  "gen_write os env a fl ms formatted f =
     (case os_MkdirAll os (gf_outDir fl) f of
        (Some e, f1) \<Rightarrow> (Some e, f1)
      | (None, f1) \<Rightarrow>
          (case os_WriteFile os (gen_target fl) formatted f1 of
             (Some e, f2) \<Rightarrow> (Some e, f2)
           | (None, f2) \<Rightarrow> (case gen_web os env a fl ms f2 of (Inl e, f3) \<Rightarrow> (Some e, f3) | (Inr _, f3) \<Rightarrow> (None, f3))))"

text \<open>\<open>parsed\<close> is the result of parsing the arguments: the flags and what is left over.\<close>

definition runGen :: "'f os_ops \<Rightarrow> gen_env \<Rightarrow> nat \<Rightarrow> goerror + gen_flags \<times> string list \<Rightarrow> (string \<Rightarrow> dirent) \<Rightarrow> 'f \<Rightarrow> goerror option \<times> 'f" where
  "runGen os env a parsed walk f =
     (case parsed of
        Inl e \<Rightarrow> (Some e, f)
      | Inr (fl, rest) \<Rightarrow>
          if length rest \<noteq> 0 then (Some (ErrString a (''gen: unexpected arguments: '' @ JoinStr rest '' '')), f)
          else (case loadManifests os a (gv_quote env) (gv_unmarshal env) (gf_protoDir fl) (walk (gf_protoDir fl)) f of
                  Inl e \<Rightarrow> (Some e, f)
                | Inr manifests \<Rightarrow>
                    (let source = renderGenerated (gv_quote env) (aliasName (gv_letter env) (gv_digit env)) (gf_pkg fl) manifests in
                     case gv_format env source of
                       Inl e \<Rightarrow> (Some (FmtWrap a (''gofmt generated source: '' @ Error e @ newline @ source) [e]), f)
                     | Inr formatted \<Rightarrow>
                         if gf_check fl then gen_check os env a fl manifests formatted f
                         else gen_write os env a fl manifests formatted f)))"

subsection \<open>Aliases\<close>

lemma alias_loop_fresh: "alias_loop used base n \<notin> set used"
  by (induction used base n rule: alias_loop.induct) (subst alias_loop.simps, simp)

lemma unused_alias_fresh: "unused_alias used base \<notin> set used"
  by (simp add: unused_alias_def alias_loop_fresh)

definition alias_of :: "typeImports \<Rightarrow> string \<Rightarrow> string \<Rightarrow> string option" where
  "alias_of t path name = map_of (by_path t path) name"

definition imports_ok :: "string set \<Rightarrow> typeImports \<Rightarrow> bool" where
  "imports_ok reserved t \<longleftrightarrow>
     reserved \<subseteq> set (ti_used t) \<and>
     (\<forall>p n a. alias_of t p n = Some a \<longrightarrow> a \<in> set (ti_used t) \<and> a \<notin> reserved) \<and>
     (\<forall>p n q k a. alias_of t p n = Some a \<longrightarrow> alias_of t q k = Some a \<longrightarrow> p = q \<and> n = k)"

lemma imports_ok_new: "imports_ok (set (ti_used (newTypeImports m))) (newTypeImports m)"
  by (simp add: imports_ok_def alias_of_def by_path_def newTypeImports_def)

lemma alias_of_add:
  assumes "typeImports_add path name t = (a, t')"
  shows "t' = t \<or> path \<noteq> '''' \<and> a \<notin> set (ti_used t) \<and> ti_used t' = a # ti_used t \<and> alias_of t path name = None \<and>
    (\<forall>p n. alias_of t' p n = (if p = path \<and> n = name then Some a else alias_of t p n))"
  using assms unused_alias_fresh
  by (auto simp: typeImports_add_def alias_of_def by_path_def Let_def update_conv' split: if_splits option.splits)

lemma imports_ok_add:
  assumes "imports_ok R t"
  shows "imports_ok R (snd (typeImports_add path name t))"
proof -
  obtain a t' where e: "typeImports_add path name t = (a, t')" by (rule prod.exhaust)
  from alias_of_add [OF e] show ?thesis
  proof
    assume n: "path \<noteq> '''' \<and> a \<notin> set (ti_used t) \<and> ti_used t' = a # ti_used t \<and> alias_of t path name = None \<and>
      (\<forall>p n. alias_of t' p n = (if p = path \<and> n = name then Some a else alias_of t p n))"
    then have al: "alias_of t' p n = (if p = path \<and> n = name then Some a else alias_of t p n)" for p n by blast
    have old: "alias_of t p n \<noteq> Some a" for p n using n assms by (auto simp: imports_ok_def)
    show ?thesis unfolding e snd_conv imports_ok_def al
      using assms n old by (auto simp: imports_ok_def split: if_splits)
  qed (use assms e in simp)
qed

lemma render_each_inv:
  assumes "\<And>x t. P t \<Longrightarrow> P (snd (f x t))" and "P t"
  shows "P (snd (render_each f xs t))"
  using assms(2) by (induction xs arbitrary: t) (auto simp: Let_def split_beta intro: assms(1))

text \<open>What every import keeps, the rendering of a file keeps.\<close>

locale import_invariant =
  fixes P :: "typeImports \<Rightarrow> bool"
  assumes add: "P t \<Longrightarrow> P (snd (typeImports_add path name t))"
begin

lemma fieldBaseType_inv: "P t \<Longrightarrow> P (snd (fieldBaseType index cur f t))"
  by (auto simp: fieldBaseType_def Let_def split_beta intro: add split: option.splits)

lemma query_loop_inv: "P t \<Longrightarrow> P (snd (query_loop quote index cur pp fs some t))"
  by (induction fs arbitrary: some t) (auto simp: Let_def split_beta fieldBaseType_inv)

lemma render_message_inv: "P t \<Longrightarrow> P (snd (render_message index cur msg t))"
  unfolding render_message_def
  by (auto simp: Let_def split_beta fieldTSType_def fieldBaseType_inv intro!: render_each_inv [where P = P])

lemma method_type_inv: "P t \<Longrightarrow> P (snd (method_type index cur d r t))"
  by (auto simp: method_type_def Let_def split_beta intro: add split: option.splits)

lemma render_method_inv: "P t \<Longrightarrow> P (snd (render_method quote m index cur cnt svc method t))"
  by (simp add: render_method_def split_beta renderQuery_def method_type_inv query_loop_inv)

theorem render_body_inv: "P (newTypeImports m) \<Longrightarrow> P (snd (render_body quote m index cur))"
  unfolding render_body_def
  by (auto simp: Let_def split_beta render_message_inv render_method_inv intro!: render_each_inv [where P = P])

end

interpretation unambiguous: import_invariant "imports_ok R" for R
  by unfold_locales (rule imports_ok_add)

lemma alias_kept: "alias_of t p n = Some a \<Longrightarrow> alias_of (snd (typeImports_add path name t)) p n = Some a"
  using alias_of_add [of path name t "fst (typeImports_add path name t)" "snd (typeImports_add path name t)"] by auto

interpretation kept: import_invariant "\<lambda>t. alias_of t p n = Some a" for p n a
  by unfold_locales (rule alias_kept)

text \<open>
  C39: The imports of a generated TypeScript file are unambiguous. The local name under which a type of another file is imported
  differs from the names of all other imported types, from every type the file declares, and from the HTTP client; a name that is
  taken is numbered, and the search for a number ends.
\<close>

theorem api_imports_unambiguous:
  assumes "render_body quote m index path = (body, t)"
    and "alias_of t p n = Some a"
  shows "(\<forall>q k. alias_of t q k = Some a \<longrightarrow> q = p \<and> k = n) \<and> a \<noteq> ''http'' \<and>
    (\<forall>msg\<in>set (rm_Messages m). mg_GoName msg \<noteq> '''' \<longrightarrow> a \<noteq> mg_GoName msg) \<and>
    (\<forall>e\<in>set (rm_Enums m). en_GoName e \<noteq> '''' \<longrightarrow> a \<noteq> en_GoName e)"
proof -
  have ok: "imports_ok (set (ti_used (newTypeImports m))) t"
    using unambiguous.render_body_inv [OF imports_ok_new, of m quote index path] assms(1) by simp
  then have "a \<notin> set (ti_used (newTypeImports m))" using assms(2) by (auto simp: imports_ok_def)
  with ok assms(2) show ?thesis by (auto simp: imports_ok_def newTypeImports_def)
qed

text \<open>Two files; the second imports a type whose name it declares itself.\<close>

definition sample_manifest :: "string \<Rightarrow> string \<Rightarrow> manifestMessage list \<Rightarrow> resourceManifest" where
  "sample_manifest src pkg msgs =
     \<lparr>rm_Source = src, rm_GoPackage = pkg, rm_GoPackageName = pkg, rm_Module = None, rm_Messages = msgs, rm_Enums = [], rm_Entities = [], rm_Services = []\<rparr>"

definition sample_manifests :: "resourceManifest list" where
  "sample_manifests =
     [sample_manifest ''a.proto'' ''a'' [\<lparr>mg_GoName = ''U'', mg_Fields = []\<rparr>],
      sample_manifest ''b.proto'' ''b'' [\<lparr>mg_GoName = ''U'', mg_Fields = [\<lparr>fd_Name = ''u'', fd_Type = '''',
        fd_Ref = Some \<lparr>rf_Kind = ''message'', rf_Package = ''a'', rf_Name = ''U''\<rparr>, fd_List = False, fd_Map = False\<rparr>]\<rparr>],
      sample_manifest ''c.proto'' ''c'' [\<lparr>mg_GoName = ''V'', mg_Fields = []\<rparr>]]"

text \<open>The second file of the sample imports \<open>U\<close> as \<open>U_2\<close>.\<close>

definition sample_index :: apiIndex where
  "sample_index = (case buildAPIIndex 900 id sample_manifests ''api'' of Inr i \<Rightarrow> i | Inl _ \<Rightarrow> \<lparr>ix_messages = [], ix_enums = []\<rparr>)"

theorem api_imports_unambiguous_witness:
  "{(q, k). alias_of (snd (render_body id (sample_manifests ! 1) sample_index ''api/b.ts'')) q k = Some ''U_2''} = {(''./a'', ''U'')}"
proof -
  obtain body t where e: "render_body id (sample_manifests ! 1) sample_index ''api/b.ts'' = (body, t)" by (rule prod.exhaust)
  have "alias_of (snd (render_body id (sample_manifests ! 1) sample_index ''api/b.ts'')) ''./a'' ''U'' = Some ''U_2''" by code_simp
  then have a: "alias_of t ''./a'' ''U'' = Some ''U_2''" unfolding e snd_conv .
  with conjunct1 [OF api_imports_unambiguous [OF e a]] show ?thesis unfolding e snd_conv by blast
qed

end
