(* ===== verification/GenFiles.thy ===== *)
theory GenFiles
  imports Codegen
begin

text \<open>
  What the code generator of \<open>Codegen\<close> does to the files of a project. The locale \<open>file_system\<close> says what is used of files; it is
  interpreted on files in memory. Cleaned paths are characterised first, since files are told apart by them.
\<close>

subsection \<open>Cleaned relative paths\<close>

definition climbing :: "bool \<Rightarrow> string list \<Rightarrow> bool" where
  "climbing rooted cs \<longleftrightarrow> (\<exists>k ps. cs = replicate k ''..'' @ ps \<and> (rooted \<longrightarrow> k = 0) \<and> (\<forall>c\<in>set ps. plain_comp c))"

lemma clean_step_climbing:
  assumes "climbing r (rev st)" and "CHR ''/'' \<notin> set c"
  shows "climbing r (rev (clean_step r st c))"
proof -
  obtain k ps where st: "rev st = replicate k ''..'' @ ps" "r \<longrightarrow> k = 0" "\<forall>c\<in>set ps. plain_comp c"
    using assms(1) by (auto simp: climbing_def)
  consider "c = '''' \<or> c = ''.''" | "c = ''..''" | "plain_comp c"
    using assms(2) by (auto simp: plain_comp_def)
  then show ?thesis
  proof cases
    case 1
    then show ?thesis using assms(1) by auto
  next
    case 2
    show ?thesis
    proof (cases ps rule: rev_cases)
      case Nil
      then have "st = replicate k ''..''" using st(1) by (metis append_Nil2 rev_replicate rev_rev_ident)
      then show ?thesis using 2 st(2)
        by (cases k) (auto simp: climbing_def replicate_append_same intro: exI [of _ "Suc k"] exI [of _ "[]"])
    next
      case (snoc qs x)
      then have "st = x # rev (replicate k ''..'' @ qs)" using st(1) by (metis append_assoc rev_append rev_rev_ident rev_singleton_conv append_Cons append_Nil rev.simps(2))
      then show ?thesis using 2 st(2,3) snoc by (auto simp: climbing_def plain_comp_def)
    qed
  next
    case 3
    then have "rev (clean_step r st c) = replicate k ''..'' @ ps @ [c]" using st(1) by (auto simp: plain_comp_def)
    then show ?thesis unfolding climbing_def using st 3
      by (intro exI [of _ k] exI [of _ "ps @ [c]"]) auto
  qed
qed

lemma clean_climbing:
  "\<forall>c\<in>set cs. CHR ''/'' \<notin> set c \<Longrightarrow> climbing r (rev st) \<Longrightarrow> climbing r (rev (foldl (clean_step r) st cs))"
  by (induction cs arbitrary: st) (simp_all del: clean_step.simps add: clean_step_climbing)

lemma climbing_Nil [simp]: "climbing r []"
  by (simp add: climbing_def)

lemma foldl_climb: "foldl (clean_step False) (replicate n ''..'') (replicate k ''..'') = replicate (k + n) ''..''"
proof (induction k arbitrary: n)
  case (Suc k)
  have "clean_step False (replicate n ''..'') ''..'' = replicate (Suc n) ''..''" by (cases n) auto
  then show ?case using Suc [of "Suc n"] by simp
qed simp

lemma climbing_fixed:
  assumes "climbing r cs"
  shows "foldl (clean_step r) [] cs = rev cs"
proof -
  obtain k ps where c: "cs = replicate k ''..'' @ ps" "r \<longrightarrow> k = 0" "\<forall>c\<in>set ps. plain_comp c"
    using assms by (auto simp: climbing_def)
  have "foldl (clean_step r) [] (replicate k ''..'') = replicate k ''..''"
    using foldl_climb [of 0 k] c(2) by (cases r) auto
  then show ?thesis using c clean_plain [OF c(3), of r "replicate k ''..''"] by simp
qed

lemma climbing_parts:
  assumes "climbing r cs" and "c \<in> set cs"
  shows "c \<noteq> ''''" and "CHR ''/'' \<notin> set c"
proof -
  obtain k ps where cs: "cs = replicate k ''..'' @ ps" and ps: "\<forall>c\<in>set ps. plain_comp c" using assms(1) by (auto simp: climbing_def)
  have "c = ''..'' \<or> plain_comp c" using assms(2) ps by (auto simp: cs)
  then show "c \<noteq> ''''" "CHR ''/'' \<notin> set c" by (auto simp: plain_comp_def)
qed

text \<open>What \<open>Clean\<close> returns, and that it returns it again.\<close>

lemma Clean_cases:
  obtains "Clean p = ''.''"
  | cs where "Clean p = JoinStr cs ''/''" "cs \<noteq> []" "climbing False cs"
  | cs where "Clean p = abs_path cs" "\<forall>c\<in>set cs. plain_comp c"
proof (cases "p = '''' \<or> hd p \<noteq> CHR ''/''")
  case True
  let ?cs = "rev (foldl (clean_step False) [] (SplitByte p CHR ''/''))"
  have "climbing False ?cs" using clean_climbing [of "SplitByte p CHR ''/''" False "[]"] SplitByte_pieces [of _ p "CHR ''/''"] by auto
  moreover have "Clean p = (if ?cs = [] then ''.'' else JoinStr ?cs ''/'')" using True by (auto simp: Clean_def Let_def)
  ultimately show thesis using that(1,2) by (cases "?cs = []") auto
next
  case False
  then show thesis using that(3) Clean_rooted [of p] by blast
qed

lemma JoinStr_hd: "cs \<noteq> [] \<Longrightarrow> hd cs \<noteq> '''' \<Longrightarrow> JoinStr cs sep \<noteq> '''' \<and> hd (JoinStr cs sep) = hd (hd cs)"
  by (cases cs rule: remdups_adj.cases) (auto simp: hd_append)

lemma Clean_climbing:
  assumes "cs \<noteq> []" "climbing False cs"
  shows "Clean (JoinStr cs ''/'') = JoinStr cs ''/''"
proof -
  note parts = climbing_parts [OF assms(2)]
  have "hd cs \<noteq> ''''" "CHR ''/'' \<notin> set (hd cs)" using parts assms(1) hd_in_set by auto
  moreover have "hd (hd cs) \<noteq> CHR ''/''" using calculation hd_in_set by metis
  ultimately have h: "JoinStr cs ''/'' \<noteq> ''''" "hd (JoinStr cs ''/'') \<noteq> CHR ''/''"
    using JoinStr_hd [OF assms(1), of "''/''"] by auto
  have "SplitByte (JoinStr cs ''/'') CHR ''/'' = cs" using SplitByte_Join [OF assms(1)] parts(2) by blast
  then show ?thesis using h climbing_fixed [OF assms(2)] assms(1) by (simp add: Clean_def Let_def)
qed

lemma Clean_idem [simp]: "Clean (Clean p) = Clean p"
proof (cases p rule: Clean_cases)
  case 1
  have "Clean ''.'' = ''.''" by code_simp
  with 1 show ?thesis by simp
qed (use Clean_climbing in \<open>simp_all\<close>)

lemma Clean_path_Join: "b \<noteq> '''' \<Longrightarrow> Clean (path_Join a b) = path_Join a b"
  by (simp add: path_Join_def)

lemma apiFilePath_clean: "apiFilePath a quote dir src = Inr p \<Longrightarrow> Clean p = p"
  by (auto simp: apiFilePath_def Let_def Clean_path_Join split: if_splits)

lemma vueFilePath_clean: "vueFilePath a quote dir e = Inr p \<Longrightarrow> Clean p = p"
  by (auto simp: vueFilePath_def Let_def Clean_path_Join split: if_splits)

subsection \<open>The file system\<close>

text \<open>
  What the generator needs of files: a file that was written holds what was written, writing a file leaves every other file that could be read as
  it was (whether or not the write succeeds), creating directories leaves all files, and a file that can be read exists. Paths are
  compared in their cleaned form; links and names that differ in case only are left out.
\<close>

locale file_system =
  fixes os :: "'f os_ops"
  assumes write_read: "os_WriteFile os p b f = (None, f') \<Longrightarrow> os_ReadFile os p f' = Inr b"
    and write_frame: "os_WriteFile os p b f = (r, f') \<Longrightarrow> Clean p = p \<Longrightarrow> Clean q = q \<Longrightarrow> q \<noteq> p \<Longrightarrow>
      os_ReadFile os q f = Inr c \<Longrightarrow> os_ReadFile os q f' = Inr c"
    and mkdir_frame: "os_MkdirAll os p f = (r, f') \<Longrightarrow> os_ReadFile os q f = Inr c \<Longrightarrow> os_ReadFile os q f' = Inr c"
    and stat_read: "os_ReadFile os p f = Inr c \<Longrightarrow> os_Stat os p f = None"
begin

lemma write_file_frame:
  assumes "write_file os a p b f = (r, f')" "Clean p = p" "Clean q = q" "q \<noteq> p" "os_ReadFile os q f = Inr c"
  shows "os_ReadFile os q f' = Inr c"
  using assms write_frame by (auto simp: write_file_def split: prod.splits option.splits)

lemma write_file_read: "write_file os a p b f = (None, f') \<Longrightarrow> os_ReadFile os p f' = Inr b"
  using write_read by (auto simp: write_file_def split: prod.splits option.splits)

lemma make_file_frame:
  assumes "make_file os a p b f = (r, f')" "Clean p = p" "Clean q = q" "q \<noteq> p" "os_ReadFile os q f = Inr c"
  shows "os_ReadFile os q f' = Inr c"
proof -
  obtain e f1 where m: "os_MkdirAll os (filepath_Dir p) f = (e, f1)" by (rule prod.exhaust)
  then have "os_ReadFile os q f1 = Inr c" using mkdir_frame assms(5) by blast
  then show ?thesis using assms m write_file_frame [of a p b f1 r f' q c] by (cases e) (auto simp: make_file_def)
qed

lemma make_file_read: "make_file os a p b f = (None, f') \<Longrightarrow> os_ReadFile os p f' = Inr b"
  by (auto simp: make_file_def write_file_read split: prod.splits option.splits)

lemma api_file_frame:
  assumes "generate_api_file os a check p b n f = (r, f')" "Clean p = p" "Clean q = q" "os_ReadFile os q f = Inr c"
    and "q \<noteq> p \<or> \<not> HasPrefix c generatedTSHeader"
  shows "os_ReadFile os q f' = Inr c"
proof (cases "q = p")
  case True
  then show ?thesis using assms by (simp add: generate_api_file_def)
next
  case False
  then show ?thesis
    using assms write_file_frame [of a p b f _ _ q c] make_file_frame [of a p b f _ _ q c]
    by (auto simp: generate_api_file_def split: sum.splits if_splits prod.splits option.splits)
qed

definition settled :: "string \<Rightarrow> string \<Rightarrow> 'f \<Rightarrow> bool" where
  "settled p b f \<longleftrightarrow> (\<exists>c. os_ReadFile os p f = Inr c \<and> (\<not> HasPrefix c generatedTSHeader \<or> c = b))"

lemma api_file_settles:
  assumes "generate_api_file os a False p b n f = (Inr n', f')"
  shows "settled p b f'" and "gc_missing n' = gc_missing n" and "gc_written n' + gc_skipped n' = Suc (gc_written n + gc_skipped n)"
  using assms write_file_read make_file_read
  by (auto simp: generate_api_file_def settled_def split: sum.splits if_splits prod.splits option.splits)

lemma api_file_check: "settled p b f \<Longrightarrow> generate_api_file os a True p b n f = (Inr (count_skipped n), f)"
  by (auto simp: settled_def generate_api_file_def)

lemma settled_frame:
  assumes "settled p b f" and "\<And>c. os_ReadFile os p f = Inr c \<Longrightarrow> os_ReadFile os p f' = Inr c"
  shows "settled p b f'"
  using assms unfolding settled_def by blast

lemma api_loop_frame:
  assumes "api_files_loop os a quote index dir check ms seen n f = (r, f')" "Clean q = q" "os_ReadFile os q f = Inr c"
    and "q \<in> set seen \<or> \<not> HasPrefix c generatedTSHeader"
  shows "os_ReadFile os q f' = Inr c"
  using assms
proof (induction ms arbitrary: seen n f)
  case (Cons m ms)
  show ?case
  proof (cases "apiFilePath a quote dir (rm_Source m)")
    case (Inr p)
    show ?thesis
    proof (cases "renderAPI quote m index p = '''' \<or> p \<in> set seen")
      case False
      obtain e f1 where g: "generate_api_file os a check p (renderAPI quote m index p) n f = (e, f1)" by (rule prod.exhaust)
      have "os_ReadFile os q f1 = Inr c"
        using api_file_frame [OF g apiFilePath_clean [OF Inr] Cons.prems(2,3)] False Cons.prems(4) by blast
      then show ?thesis using Cons.prems False Inr g Cons.IH [of "p # seen" _ f1] by (cases e) (auto simp: Let_def)
    qed (use Cons Inr in \<open>auto simp: Let_def\<close>)
  qed (use Cons.prems in simp)
qed simp


lemma api_loop_converges:
  assumes "api_files_loop os a quote index dir False ms seen n f = (Inr n', f')"
  shows "gc_missing n' = gc_missing n \<and> gc_written n + gc_skipped n \<le> gc_written n' + gc_skipped n' \<and>
    (\<forall>k. api_files_loop os a quote index dir True ms seen k f' =
      (Inr (k\<lparr>gc_skipped := gc_skipped k + (gc_written n' + gc_skipped n') - (gc_written n + gc_skipped n)\<rparr>), f'))"
  using assms
proof (induction ms arbitrary: seen n f)
  case (Cons m ms)
  from Cons.prems obtain p where p: "apiFilePath a quote dir (rm_Source m) = Inr p" by (auto split: sum.splits)
  show ?case
  proof (cases "renderAPI quote m index p = '''' \<or> p \<in> set seen")
    case True
    then have "api_files_loop os a quote index dir ck (m # ms) seen k g = api_files_loop os a quote index dir ck ms seen k g" for ck k g
      using p by (simp add: Let_def)
    then show ?thesis using Cons.IH [of seen n f] Cons.prems by (simp del: api_files_loop.simps)
  next
    case False
    let ?b = "renderAPI quote m index p"
    obtain n1 f1 where g: "generate_api_file os a False p ?b n f = (Inr n1, f1)"
      using Cons.prems False p by (auto simp: Let_def split: prod.splits sum.splits)
    then have l: "api_files_loop os a quote index dir False ms (p # seen) n1 f1 = (Inr n', f')"
      using Cons.prems False p by (simp add: Let_def)
    have "settled p ?b f'"
      by (rule settled_frame [OF api_file_settles(1) [OF g]]) (use api_loop_frame [OF l apiFilePath_clean [OF p]] in auto)
    then have "api_files_loop os a quote index dir True (m # ms) seen k f' =
        api_files_loop os a quote index dir True ms (p # seen) (count_skipped k) f'" for k
      using False p by (simp add: Let_def api_file_check)
    with Cons.IH [OF l] show ?thesis using api_file_settles(2,3) [OF g] by (simp add: Suc_diff_le)
  qed
qed simp

lemma api_converges:
  assumes "generateAPIFiles os a quote ms dir False f = (Inr n, f')"
  shows "gc_missing n = []"
    and "generateAPIFiles os a quote ms dir True f' = (Inr \<lparr>gc_written = 0, gc_skipped = gc_written n + gc_skipped n, gc_missing = []\<rparr>, f')"
proof -
  let ?z = "\<lparr>gc_written = 0, gc_skipped = 0, gc_missing = []\<rparr>"
  obtain index where i: "buildAPIIndex a quote ms dir = Inr index" and
    l: "api_files_loop os a quote index dir False ms [] ?z f = (Inr n, f')"
    using assms by (auto simp: generateAPIFiles_def split: sum.splits)
  show "gc_missing n = []" using api_loop_converges [OF l] by simp
  have "api_files_loop os a quote index dir True ms [] ?z f' = (Inr \<lparr>gc_written = 0, gc_skipped = gc_written n + gc_skipped n, gc_missing = []\<rparr>, f')"
    using api_loop_converges [OF l, THEN conjunct2, THEN conjunct2, THEN spec, of ?z] by simp
  then show "generateAPIFiles os a quote ms dir True f' = (Inr \<lparr>gc_written = 0, gc_skipped = gc_written n + gc_skipped n, gc_missing = []\<rparr>, f')"
    using i by (simp add: generateAPIFiles_def)
qed

lemma generateAPIFiles_frame:
  assumes "generateAPIFiles os a quote ms dir check f = (r, f')" "Clean q = q" "os_ReadFile os q f = Inr c" "\<not> HasPrefix c generatedTSHeader"
  shows "os_ReadFile os q f' = Inr c"
  using assms api_loop_frame by (auto simp: generateAPIFiles_def split: sum.splits)

lemma vue_loop_frame:
  assumes "vue_files_loop os a quote render dir check es seen n f = (r, f')" "Clean q = q" "os_ReadFile os q f = Inr c"
  shows "os_ReadFile os q f' = Inr c"
  using assms
proof (induction es arbitrary: seen n f)
  case (Cons e es)
  show ?case
  proof (cases "vueFilePath a quote dir e")
    case (Inr p)
    show ?thesis
    proof (cases "p \<in> set seen \<or> os_Stat os p f = None \<or> check")
      case True
      then show ?thesis using Cons Inr by (auto split: if_splits option.splits)
    next
      case False
      then have "q \<noteq> p" using stat_read [OF Cons.prems(3)] by auto
      obtain x f1 where m: "make_file os a p (render e) f = (x, f1)" by (rule prod.exhaust)
      then have "os_ReadFile os q f1 = Inr c"
        using make_file_frame [OF m vueFilePath_clean [OF Inr] Cons.prems(2) \<open>q \<noteq> p\<close> Cons.prems(3)] by blast
      then show ?thesis using Cons.prems False Inr m Cons.IH [of "p # seen" _ f1] Cons.prems(3)
        by (cases x) (auto split: if_splits option.splits)
    qed
  qed (use Cons.prems in simp)
qed simp

lemma gen_web_frame:
  assumes "gen_web os env a fl ms f = (r, f')" "Clean q = q" "os_ReadFile os q f = Inr c" "\<not> HasPrefix c generatedTSHeader"
  shows "os_ReadFile os q f' = Inr c"
proof -
  obtain x f1 where v: "(if gf_noWeb fl then (Inr [], f)
      else case gen_vue os env a fl ms f of (Inl e, f1) \<Rightarrow> (Inl e, f1) | (Inr n, f1) \<Rightarrow> (Inr (gc_missing n), f1)) = (x, f1)"
    by (rule prod.exhaust)
  then have "os_ReadFile os q f1 = Inr c"
    using vue_loop_frame assms(2,3)
    by (auto simp: gen_vue_def generateVueFiles_def split: if_splits prod.splits sum.splits)
  then show ?thesis
    using assms generateAPIFiles_frame [of a "gv_quote env" ms "gf_apiDir fl" "gf_check fl" f1 _ _ q c]
    unfolding gen_web_def v by (auto simp: gen_api_def split: if_splits prod.splits sum.splits)
qed

lemma gen_write_frame:
  assumes "gen_write os env a fl ms formatted f = (r, f')" "gf_name fl \<noteq> ''''" "Clean q = q" "os_ReadFile os q f = Inr c"
    and "q \<noteq> gen_target fl" "\<not> HasPrefix c generatedTSHeader"
  shows "os_ReadFile os q f' = Inr c"
proof -
  have t: "Clean (gen_target fl) = gen_target fl" using assms(2) by (simp add: gen_target_def Clean_path_Join)
  obtain x f1 where m: "os_MkdirAll os (gf_outDir fl) f = (x, f1)" by (rule prod.exhaust)
  obtain y f2 where w: "os_WriteFile os (gen_target fl) formatted f1 = (y, f2)" by (rule prod.exhaust)
  have 1: "os_ReadFile os q f1 = Inr c" using mkdir_frame [OF m assms(4)] .
  have 2: "os_ReadFile os q f2 = Inr c" using write_frame [OF w t assms(3,5) 1] .
  show ?thesis using assms(1) 1 2 gen_web_frame [OF _ assms(3) 2 assms(6)]
    by (auto simp: gen_write_def m w split: option.splits prod.splits sum.splits)
qed

end

text \<open>With \<open>-check\<close> nothing is written.\<close>

lemma api_check_pure: "snd (generateAPIFiles os a quote ms dir True f) = f"
proof -
  have g: "snd (generate_api_file os a True p b n f) = f" for p b n
    by (auto simp: generate_api_file_def split: sum.splits)
  have "snd (api_files_loop os a quote index dir True ms seen n f) = f" for index seen n
  proof (induction ms arbitrary: seen n)
    case (Cons m ms)
    then show ?case using g by (auto simp: Let_def split: sum.splits prod.splits) (metis snd_conv)+
  qed simp
  then show ?thesis by (auto simp: generateAPIFiles_def split: sum.splits)
qed

lemma vue_check_pure: "snd (vue_files_loop os a quote render dir True es seen n f) = f"
  by (induction es arbitrary: seen n) (auto split: sum.splits option.splits)

lemma gen_check_pure:
  assumes "gf_check fl"
  shows "snd (gen_check os env a fl ms formatted f) = f"
proof -
  have v: "gen_vue os env a fl ms f = (r, g) \<Longrightarrow> g = f" for r g
    using vue_check_pure assms by (metis gen_vue_def generateVueFiles_def snd_conv)
  have p: "gen_api os env a fl ms f = (r, g) \<Longrightarrow> g = f" for r g
    using api_check_pure assms by (metis gen_api_def snd_conv)
  have "snd (gen_web os env a fl ms f) = f"
    using v p by (auto simp: gen_web_def split: if_splits prod.splits sum.splits)
  then show ?thesis by (auto simp: gen_check_def split: sum.splits prod.splits)
qed

subsection \<open>A file system in memory\<close>

definition mem_os :: "(string \<rightharpoonup> string) os_ops" where
  "mem_os =
     \<lparr>os_ReadFile = (\<lambda>p f. case f p of None \<Rightarrow> Inl ErrNotFound | Some b \<Rightarrow> Inr b),
      os_IsNotExist = (\<lambda>e. e = ErrNotFound),
      os_Stat = (\<lambda>p f. case f p of None \<Rightarrow> Some ErrNotFound | Some b \<Rightarrow> None),
      os_MkdirAll = (\<lambda>p f. (None, f)),
      os_WriteFile = (\<lambda>p b f. (None, f(p \<mapsto> b)))\<rparr>"

interpretation mem: file_system mem_os
  by unfold_locales (auto simp: mem_os_def split: option.splits)

subsection \<open>Guarantees\<close>

text \<open>
  C37: The generator leaves the files of a project alone. Whether it succeeds or fails, a file that could be read before, is not the wiring file and
  does not start with the generated header has the same contents afterwards; with \<open>-check\<close> nothing changes at all.
\<close>

theorem gen_keeps_handwritten:
  assumes "file_system os" and "runGen os env a (Inr (fl, rest)) walk f = (r, f')" and "gf_name fl \<noteq> ''''"
    and "Clean q = q" and "os_ReadFile os q f = Inr c"
  shows "(gf_check fl \<longrightarrow> f' = f) \<and> (q \<noteq> gen_target fl \<and> \<not> HasPrefix c generatedTSHeader \<longrightarrow> os_ReadFile os q f' = Inr c)"
proof -
  have "f' = f \<or> (\<exists>ms formatted. if gf_check fl then gen_check os env a fl ms formatted f = (r, f') else gen_write os env a fl ms formatted f = (r, f'))"
    using assms(2) by (auto simp: runGen_def Let_def split: if_splits sum.splits)
  moreover have "gen_check os env a fl ms formatted f = (r, f') \<Longrightarrow> gf_check fl \<Longrightarrow> f' = f" for ms formatted
    using gen_check_pure [of fl os env a ms formatted f] by simp
  ultimately show ?thesis using file_system.gen_write_frame [OF assms(1) _ assms(3-5)] assms(5) by (auto split: if_splits)
qed

text \<open>
  C38: One run of the generator settles the TypeScript interface. After a successful run the check of the same manifests finds every file present and
  up to date (or written by hand), and changes nothing.
\<close>

theorem api_gen_converges:
  assumes "file_system os" and "generateAPIFiles os a quote ms dir False f = (Inr n, f')"
  shows "generateAPIFiles os a quote ms dir True f' = (Inr \<lparr>gc_written = 0, gc_skipped = gc_written n + gc_skipped n, gc_missing = []\<rparr>, f')"
  by (rule file_system.api_converges(2) [OF assms])

text \<open>The third file of the sample was written by hand.\<close>

definition sample_files :: "string \<rightharpoonup> string" where
  "sample_files = [''api/c.ts'' \<mapsto> ''export {}'']"

lemma sample_run:
  "fst (generateAPIFiles mem_os 900 id sample_manifests ''api'' False sample_files) = Inr \<lparr>gc_written = 2, gc_skipped = 1, gc_missing = []\<rparr>"
  by code_simp

theorem api_gen_converges_witness:
  "\<exists>f'. fst (generateAPIFiles mem_os 900 id sample_manifests ''api'' False sample_files) = Inr \<lparr>gc_written = 2, gc_skipped = 1, gc_missing = []\<rparr> \<and>
     generateAPIFiles mem_os 900 id sample_manifests ''api'' True f' = (Inr \<lparr>gc_written = 0, gc_skipped = 3, gc_missing = []\<rparr>, f')"
proof -
  obtain f' where "generateAPIFiles mem_os 900 id sample_manifests ''api'' False sample_files = (Inr \<lparr>gc_written = 2, gc_skipped = 1, gc_missing = []\<rparr>, f')"
    using sample_run by (metis prod.collapse)
  from api_gen_converges [OF mem.file_system_axioms this] sample_run show ?thesis by auto
qed

definition sample_flags :: gen_flags where
  "sample_flags =
     \<lparr>gf_protoDir = ''proto'', gf_outDir = ''gen'', gf_pkg = ''gen'', gf_name = ''wiring.go'', gf_webDir = ''views'', gf_apiDir = ''api'',
      gf_noWeb = False, gf_noAPI = False, gf_check = False\<rparr>"

definition sample_env :: gen_env where
  "sample_env =
     \<lparr>gv_quote = id, gv_upper = ToUpper, gv_letter = (\<lambda>r. list_all is_alpha r), gv_digit = (\<lambda>r. False),
      gv_unmarshal = (\<lambda>d. Inr (sample_manifest ''c.proto'' ''c'' [\<lparr>mg_GoName = ''V'', mg_Fields = []\<rparr>])), gv_format = Inr\<rparr>"

definition sample_project :: "string \<rightharpoonup> string" where
  "sample_project = [''api/c.ts'' \<mapsto> ''export {}'', ''proto/c.proto'' \<mapsto> '''', ''proto/c_aeus.json'' \<mapsto> ''{}'']"

definition sample_walk :: "string \<Rightarrow> dirent" where
  "sample_walk root = DirEntry ''proto'' [FileEntry ''c.proto'', FileEntry ''c_aeus.json'']"

theorem gen_keeps_handwritten_witness:
  "fst (runGen mem_os sample_env 900 (Inr (sample_flags, [])) sample_walk sample_project) = None \<and>
   snd (runGen mem_os sample_env 900 (Inr (sample_flags, [])) sample_walk sample_project) \<noteq> sample_project \<and>
   os_ReadFile mem_os ''api/c.ts'' (snd (runGen mem_os sample_env 900 (Inr (sample_flags, [])) sample_walk sample_project)) = Inr ''export {}''"
proof -
  obtain r f' where e: "runGen mem_os sample_env 900 (Inr (sample_flags, [])) sample_walk sample_project = (r, f')" by (rule prod.exhaust)
  have 1: "fst (runGen mem_os sample_env 900 (Inr (sample_flags, [])) sample_walk sample_project) = None" by code_simp
  have 2: "snd (runGen mem_os sample_env 900 (Inr (sample_flags, [])) sample_walk sample_project) ''gen/wiring.go'' \<noteq> None" by code_simp
  have 3: "sample_project ''gen/wiring.go'' = None" by code_simp
  have c: "Clean ''api/c.ts'' = ''api/c.ts''" "\<not> HasPrefix ''export {}'' generatedTSHeader" "''api/c.ts'' \<noteq> gen_target sample_flags"
    "gf_name sample_flags \<noteq> ''''" "os_ReadFile mem_os ''api/c.ts'' sample_project = Inr ''export {}''"
    by code_simp+
  from gen_keeps_handwritten [OF mem.file_system_axioms e c(4,1,5)] c(2,3) have "os_ReadFile mem_os ''api/c.ts'' f' = Inr ''export {}''" by blast
  with e 1 2 3 show ?thesis by auto
qed


subsection \<open>The wiring file\<close>

definition aliases_ok :: "string list \<Rightarrow> (string, string) gomap \<Rightarrow> bool" where
  "aliases_ok used al \<longleftrightarrow> {''admin'', ''gorm'', ''fmt''} \<subseteq> set used \<and>
     (\<forall>p a. map_of al p = Some a \<longrightarrow> a \<in> set used \<and> a \<notin> {''admin'', ''gorm'', ''fmt''}) \<and>
     (\<forall>p q a. map_of al p = Some a \<longrightarrow> map_of al q = Some a \<longrightarrow> p = q)"

lemma aliases_ok_update:
  assumes "aliases_ok used al" "a \<notin> set used"
  shows "aliases_ok (a # used) (AList.update p a al)"
proof -
  have "map_of al q \<noteq> Some a" for q using assms by (auto simp: aliases_ok_def)
  then show ?thesis using assms unfolding aliases_ok_def update_conv' by auto
qed

lemma package_aliases_ok:
  "aliases_ok used al \<Longrightarrow> \<exists>used'. aliases_ok used' (package_aliases nm ms used al)"
proof (induction ms arbitrary: used al)
  case (Cons m ms)
  then show ?case using aliases_ok_update [OF Cons.prems unused_alias_fresh] by (auto simp: Let_def)
qed auto

lemma package_aliases_dom: "dom (map_of (package_aliases nm ms used al)) = dom (map_of al) \<union> rm_GoPackage ` set ms"
  by (induction ms arbitrary: used al) (auto simp: Let_def update_conv')

lemma gen_aliases_ok: "\<exists>used. aliases_ok used (gen_aliases nm ms)"
  unfolding gen_aliases_def by (rule package_aliases_ok) (simp add: aliases_ok_def)

lemma alias_for_inj:
  assumes "m \<in> set ms" "m' \<in> set ms"
    and "alias_for (gen_aliases nm ms) (rm_GoPackage m) = alias_for (gen_aliases nm ms) (rm_GoPackage m')"
  shows "rm_GoPackage m = rm_GoPackage m'"
proof -
  have "\<exists>a. map_of (gen_aliases nm ms) (rm_GoPackage x) = Some a" if "x \<in> set ms" for x
    using that package_aliases_dom [of nm ms "[''admin'', ''gorm'', ''fmt'']" "[]"] unfolding gen_aliases_def by blast
  then obtain a b where "map_of (gen_aliases nm ms) (rm_GoPackage m) = Some a" "map_of (gen_aliases nm ms) (rm_GoPackage m') = Some b"
    using assms(1,2) by meson
  with assms(3) gen_aliases_ok [of nm ms] show ?thesis by (auto simp: alias_for_def aliases_ok_def)
qed

lemma key_split:
  assumes "p @ CHR ''.'' # m = q @ CHR ''.'' # n" "CHR ''.'' \<notin> set m" "CHR ''.'' \<notin> set n"
  shows "p = q \<and> m = n"
proof -
  have t: "takeWhile (\<lambda>c. c \<noteq> CHR ''.'') (rev (r @ CHR ''.'' # k)) = rev k" if "CHR ''.'' \<notin> set k" for r k :: string
    using that by (simp add: takeWhile_append2 takeWhile_tail) (metis takeWhile_eq_all_conv takeWhile_append2 append_Nil2 set_rev takeWhile_tail)
  have "rev m = rev n" using t [OF assms(2), of p] t [OF assms(3), of q] assms(1) by simp
  then show ?thesis using assms(1) by simp
qed

text \<open>
  The pairs of a manifest and one of its entities, the key under which an entity is remembered, and what the wiring file calls it.
\<close>

definition entity_pairs :: "resourceManifest list \<Rightarrow> (resourceManifest \<times> manifestEntity) set" where
  "entity_pairs ms = {(m, e). m \<in> set ms \<and> e \<in> set (rm_Entities m)}"

definition entity_key :: "resourceManifest \<times> manifestEntity \<Rightarrow> string" where
  "entity_key x = rm_GoPackage (fst x) @ ''.'' @ et_ModelName (snd x)"

definition entity_name :: "(string, string) gomap \<Rightarrow> resourceManifest \<times> manifestEntity \<Rightarrow> string \<times> string" where
  "entity_name al x = (alias_for al (rm_GoPackage (fst x)), et_ModelName (snd x))"

definition wired :: "(string, string) gomap \<Rightarrow> (resourceManifest \<times> manifestEntity) set \<Rightarrow> wiring \<Rightarrow> bool" where
  "wired al D w \<longleftrightarrow> set (wi_seenEntity w) = entity_key ` D \<and>
     (\<lambda>e. (ge_alias e, ge_model e)) ` set (wi_entities w) = entity_name al ` D \<and>
     distinct (map (\<lambda>e. (ge_alias e, ge_model e)) (wi_entities w))"

lemma wired_entity:
  assumes "wired al D w" and "\<And>y. y \<in> D \<Longrightarrow> entity_key y = entity_key (m, e) \<longleftrightarrow> entity_name al y = entity_name al (m, e)"
  shows "wired al (insert (m, e) D) (collect_entity (alias_for al (rm_GoPackage m)) m w e)"
proof (cases "entity_key (m, e) \<in> set (wi_seenEntity w)")
  case True
  then obtain y where "y \<in> D" "entity_key y = entity_key (m, e)" using assms(1) by (auto simp: wired_def)
  then have "entity_name al (m, e) \<in> entity_name al ` D" using assms(2) by (metis image_eqI)
  moreover have "entity_key (m, e) \<in> entity_key ` D" using \<open>y \<in> D\<close> \<open>entity_key y = _\<close> by (metis image_eqI)
  ultimately show ?thesis using True assms(1)
    by (simp add: wired_def collect_entity_def entity_key_def insert_absorb)
next
  case False
  then have "entity_name al y \<noteq> entity_name al (m, e)" if "y \<in> D" for y
    using that assms unfolding wired_def by (metis image_eqI)
  then have "entity_name al (m, e) \<notin> entity_name al ` D" by (metis imageE)
  with False assms(1) show ?thesis
    by (auto simp: wired_def collect_entity_def entity_key_def entity_name_def Let_def)
qed

lemma wired_rest [simp]:
  "wired al D (collect_module alias m w) = wired al D w" "wired al D (collect_policy alias m w s) = wired al D w"
  by (auto simp: wired_def collect_module_def collect_policy_def Let_def split: option.splits)

lemma wired_policies [simp]: "wired al D (foldl (collect_policy alias m) w ss) = wired al D w"
  by (induction ss arbitrary: w) auto

definition keys_agree :: "(string, string) gomap \<Rightarrow> (resourceManifest \<times> manifestEntity) set \<Rightarrow> bool" where
  "keys_agree al E \<longleftrightarrow> (\<forall>x\<in>E. \<forall>y\<in>E. entity_key x = entity_key y \<longleftrightarrow> entity_name al x = entity_name al y)"

lemma wired_entities:
  assumes "keys_agree al E" and "wired al D w" and "D \<union> Pair m ` set es \<subseteq> E"
  shows "wired al (D \<union> Pair m ` set es) (foldl (collect_entity (alias_for al (rm_GoPackage m)) m) w es)"
  using assms(2,3)
proof (induction es arbitrary: D w)
  case (Cons e es)
  have "entity_key y = entity_key (m, e) \<longleftrightarrow> entity_name al y = entity_name al (m, e)" if "y \<in> D" for y
  proof -
    have "y \<in> E" "(m, e) \<in> E" using Cons.prems(2) that by auto
    with assms(1) show ?thesis unfolding keys_agree_def by blast
  qed
  from wired_entity [OF Cons.prems(1) this] show ?case
    using Cons.IH [of "insert (m, e) D"] Cons.prems(2) by simp
qed simp

lemma wired_manifests:
  assumes "keys_agree al E" and "wired al D w" and "D \<union> entity_pairs ks \<subseteq> E"
  shows "wired al (D \<union> entity_pairs ks) (foldl (collect_manifest al) w ks)"
  using assms(2,3)
proof (induction ks arbitrary: D w)
  case (Cons k ks)
  have p: "entity_pairs (k # ks) = Pair k ` set (rm_Entities k) \<union> entity_pairs ks" by (auto simp: entity_pairs_def)
  have "wired al (D \<union> Pair k ` set (rm_Entities k)) (collect_manifest al w k)"
    using Cons.prems p wired_entities [OF assms(1), of D "collect_module (alias_for al (rm_GoPackage k)) k w" k "rm_Entities k"]
    by (simp add: collect_manifest_def Let_def)
  then show ?case using Cons.IH [of "D \<union> Pair k ` set (rm_Entities k)"] Cons.prems p by (simp add: Un_assoc)
qed (simp add: entity_pairs_def)

lemma keys_agree_pairs:
  assumes "\<forall>m\<in>set ms. \<forall>e\<in>set (rm_Entities m). CHR ''.'' \<notin> set (et_ModelName e)"
  shows "keys_agree (gen_aliases nm ms) (entity_pairs ms)"
  unfolding keys_agree_def
proof (intro ballI)
  fix x y assume "x \<in> entity_pairs ms" "y \<in> entity_pairs ms"
  then have xy: "fst x \<in> set ms" "fst y \<in> set ms" "CHR ''.'' \<notin> set (et_ModelName (snd x))" "CHR ''.'' \<notin> set (et_ModelName (snd y))"
    using assms by (auto simp: entity_pairs_def)
  show "entity_key x = entity_key y \<longleftrightarrow> entity_name (gen_aliases nm ms) x = entity_name (gen_aliases nm ms) y"
  proof
    assume "entity_key x = entity_key y"
    then have "rm_GoPackage (fst x) @ CHR ''.'' # et_ModelName (snd x) = rm_GoPackage (fst y) @ CHR ''.'' # et_ModelName (snd y)"
      by (simp add: entity_key_def)
    from key_split [OF this xy(3,4)] show "entity_name (gen_aliases nm ms) x = entity_name (gen_aliases nm ms) y"
      by (simp add: entity_name_def)
  next
    assume "entity_name (gen_aliases nm ms) x = entity_name (gen_aliases nm ms) y"
    then have n: "alias_for (gen_aliases nm ms) (rm_GoPackage (fst x)) = alias_for (gen_aliases nm ms) (rm_GoPackage (fst y))"
      "et_ModelName (snd x) = et_ModelName (snd y)" by (simp_all add: entity_name_def)
    from alias_for_inj [OF xy(1,2) n(1)] n(2) show "entity_key x = entity_key y" by (simp add: entity_key_def)
  qed
qed

lemma alias_for_reserved:
  assumes "m \<in> set ms"
  shows "alias_for (gen_aliases nm ms) (rm_GoPackage m) \<notin> {''admin'', ''gorm'', ''fmt''}"
proof -
  obtain a where "map_of (gen_aliases nm ms) (rm_GoPackage m) = Some a"
    using assms package_aliases_dom [of nm ms "[''admin'', ''gorm'', ''fmt'']" "[]"] unfolding gen_aliases_def by blast
  then show ?thesis using gen_aliases_ok [of nm ms] unfolding alias_for_def aliases_ok_def by (metis option.simps(5))
qed

text \<open>
  C40: The wiring file registers every generated model exactly once. If no model name contains a dot, the models that \<open>Register\<close> passes on are,
  under the names of their packages, exactly the entities of all manifests, each once; different packages have different names, none of which is
  that of an import of the file itself.
\<close>

theorem wiring_complete:
  assumes "\<forall>m\<in>set ms. \<forall>e\<in>set (rm_Entities m). CHR ''.'' \<notin> set (et_ModelName e)"
  shows "distinct (map (\<lambda>e. (ge_alias e, ge_model e)) (wi_entities (collect_wiring nm ms))) \<and>
    (\<lambda>e. (ge_alias e, ge_model e)) ` set (wi_entities (collect_wiring nm ms)) =
      {(alias_for (gen_aliases nm ms) (rm_GoPackage m), et_ModelName e) | m e. m \<in> set ms \<and> e \<in> set (rm_Entities m)} \<and>
    (\<forall>m\<in>set ms. alias_for (gen_aliases nm ms) (rm_GoPackage m) \<notin> {''admin'', ''gorm'', ''fmt''} \<and>
      (\<forall>m'\<in>set ms. alias_for (gen_aliases nm ms) (rm_GoPackage m) = alias_for (gen_aliases nm ms) (rm_GoPackage m') \<longrightarrow> rm_GoPackage m = rm_GoPackage m'))"
proof -
  let ?al = "gen_aliases nm ms"
  have "wired ?al (entity_pairs ms) (collect_wiring nm ms)"
    using wired_manifests [OF keys_agree_pairs [OF assms], of nm "{}" empty_wiring ms]
    by (simp add: collect_wiring_def wired_def empty_wiring_def)
  moreover have "entity_name ?al ` entity_pairs ms = {(alias_for ?al (rm_GoPackage m), et_ModelName e) | m e. m \<in> set ms \<and> e \<in> set (rm_Entities m)}"
    by (auto simp: entity_name_def entity_pairs_def image_def)
  ultimately have "distinct (map (\<lambda>e. (ge_alias e, ge_model e)) (wi_entities (collect_wiring nm ms)))"
    "(\<lambda>e. (ge_alias e, ge_model e)) ` set (wi_entities (collect_wiring nm ms)) =
      {(alias_for ?al (rm_GoPackage m), et_ModelName e) | m e. m \<in> set ms \<and> e \<in> set (rm_Entities m)}"
    by (simp_all only: wired_def simp_thms)
  then show ?thesis
    by (intro conjI ballI impI) (assumption | erule alias_for_reserved | rule alias_for_inj)+
qed

text \<open>Two packages of the same name with a model of the same name each.\<close>

definition sample_entity :: manifestEntity where
  "sample_entity =
     \<lparr>et_GoName = ''Item'', et_ModelName = ''ItemModel'', et_Table = ''items'', et_Module = ''shop'', et_Singular = '''', et_Plural = '''', et_ViewPath = '''',
      et_MenuName = '''', et_Component = '''', et_Base = '''', et_Scenarios = [], et_PermissionGroup = '''', et_ReadOnly = False\<rparr>"

definition sample_packages :: "resourceManifest list" where
  "sample_packages =
     map (\<lambda>pkg. (sample_manifest (pkg @ ''.proto'') pkg [])\<lparr>rm_GoPackageName := ''pb'', rm_Entities := [sample_entity]\<rparr>) [''x/pb'', ''y/pb'']"

theorem wiring_complete_witness:
  "(\<lambda>e. (ge_alias e, ge_model e)) ` set (wi_entities (collect_wiring id sample_packages)) = {(''pb'', ''ItemModel''), (''pb_2'', ''ItemModel'')} \<and>
   distinct (map (\<lambda>e. (ge_alias e, ge_model e)) (wi_entities (collect_wiring id sample_packages)))"
proof -
  have "\<forall>m\<in>set sample_packages. \<forall>e\<in>set (rm_Entities m). CHR ''.'' \<notin> set (et_ModelName e)" by code_simp
  from wiring_complete [OF this, of id]
  have d: "distinct (map (\<lambda>e. (ge_alias e, ge_model e)) (wi_entities (collect_wiring id sample_packages)))" by blast
  have "map (\<lambda>e. (ge_alias e, ge_model e)) (wi_entities (collect_wiring id sample_packages)) = [(''pb'', ''ItemModel''), (''pb_2'', ''ItemModel'')]"
    by code_simp
  then have "set (map (\<lambda>e. (ge_alias e, ge_model e)) (wi_entities (collect_wiring id sample_packages))) = {(''pb'', ''ItemModel''), (''pb_2'', ''ItemModel'')}"
    by (simp only: list.set)
  with d show ?thesis by (simp only: set_map simp_thms)
qed

text \<open>The parameters of the generated \<open>Register\<close> are not reserved: a package called \<open>db\<close> keeps its name and is hidden by the parameter.\<close>

lemma db_package_shadowed:
  "alias_for (gen_aliases (aliasName (list_all is_alpha) (\<lambda>r. False)) [sample_manifest ''x.proto'' ''x/db'' []\<lparr>rm_GoPackageName := ''db''\<rparr>]) ''x/db'' = ''db''"
  by code_simp

end
