(* ===== verification/Scaffold.thy ===== *)
theory Scaffold
  imports Codegen
begin

text \<open>
  The command \<open>aeus new\<close> of \<open>cmd/aeus\<close>: parsing of its arguments and the checks of names (\<open>main.go\<close>, \<open>scaffold.go\<close>).
  \<open>lower\<close> is \<open>strings.ToLower\<close>. What is done with the templates is not modelled.
\<close>

subsection \<open>Names\<close>

definition is_separator :: "char \<Rightarrow> bool" where
  "is_separator c \<longleftrightarrow> c = CHR ''/'' \<or> c = CHR 0x5C"

definition baseName :: "string \<Rightarrow> string" where
  "baseName p =
     (let r = rev p; r1 = dropWhile is_separator r; q = (if r1 = [] then take 1 p else rev r1)
      in if q \<noteq> [] \<and> is_separator (last q) then [] else rev (takeWhile (\<lambda>c. \<not> is_separator c) (rev q)))"

definition name_char :: "char \<Rightarrow> string" where
  "name_char c =
     (let n = of_char c :: nat in
      if 97 \<le> n \<and> n \<le> 122 \<or> 48 \<le> n \<and> n \<le> 57 \<or> c = CHR ''-'' then [c]
      else if c = CHR ''_'' \<or> c = CHR ''.'' \<or> c = CHR '' '' \<or> c = CHR 0x09 then ''-'' else [])"

definition Trim :: "(char \<Rightarrow> bool) \<Rightarrow> string \<Rightarrow> string" where
  "Trim P s = rev (dropWhile P (rev (dropWhile P s)))"

definition sanitizeName :: "(string \<Rightarrow> string) \<Rightarrow> string \<Rightarrow> string" where
  "sanitizeName lower s = Trim (\<lambda>c. c = CHR ''-'') (concat (map name_char (TrimSpace (lower s))))"

definition packageName :: "(string \<Rightarrow> string) \<Rightarrow> string \<Rightarrow> string" where
  "packageName lower s = (let n = sanitizeName lower s in if n = '''' then ''app'' else n)"

definition bad_module_chars :: "char list" where
  "bad_module_chars = [CHR '' '', CHR 0x09, CHR 0x0D, CHR 0x0A, CHR ''@'', CHR 0x5C, CHR '':'']"

definition contains_sub :: "string \<Rightarrow> string \<Rightarrow> bool" where
  "contains_sub s x \<longleftrightarrow> (\<exists>i\<in>{0..length s}. HasPrefix (drop i s) x)"

definition validateModulePath :: "nat \<Rightarrow> (string \<Rightarrow> string) \<Rightarrow> string \<Rightarrow> goerror option" where
  "validateModulePath a quote module =
     (if module = '''' then Some (ErrString a ''module path is empty'')
      else if (\<exists>c\<in>set module. c \<in> set bad_module_chars) then Some (ErrString a (''module path '' @ quote module @ '' contains an invalid character''))
      else if HasPrefix module ''/'' \<or> HasSuffix module ''/'' \<or> contains_sub module ''//''
      then Some (ErrString a (''module path '' @ quote module @ '' has an empty path element''))
      else if (\<exists>e\<in>set (SplitByte module CHR ''/''). e = '''' \<or> e = ''.'' \<or> e = ''..'')
      then Some (ErrString a (''module path '' @ quote module @ '' has an invalid path element''))
      else None)"

subsection \<open>Arguments\<close>

record new_flags =
  nf_template :: string
  nf_module :: string
  nf_local :: string
  nf_force :: bool
  nf_target :: string

definition new_defaults :: new_flags where
  "new_defaults = \<lparr>nf_template = ''minimal'', nf_module = '''', nf_local = '''', nf_force = False, nf_target = ''''\<rparr>"

definition needs_value :: "nat \<Rightarrow> string \<Rightarrow> goerror" where
  "needs_value a arg = ErrString a (arg @ '' needs a value'')"

text \<open>\<open>Inr None\<close> is the request for help.\<close>

function new_args :: "nat \<Rightarrow> (string \<Rightarrow> string) \<Rightarrow> string list \<Rightarrow> new_flags \<Rightarrow> goerror + new_flags option" where
  "new_args a quote [] fl = Inr (Some fl)"
| "new_args a quote (arg # args) fl =
     (if arg = ''-h'' \<or> arg = ''--help'' then Inr None
      else if arg = ''--template'' \<or> arg = ''-template'' then
        (case args of [] \<Rightarrow> Inl (needs_value a arg) | v # rest \<Rightarrow> new_args a quote rest (fl\<lparr>nf_template := v\<rparr>))
      else if HasPrefix arg ''--template='' then new_args a quote args (fl\<lparr>nf_template := TrimPrefix arg ''--template=''\<rparr>)
      else if arg = ''--module'' \<or> arg = ''-module'' then
        (case args of [] \<Rightarrow> Inl (needs_value a arg) | v # rest \<Rightarrow> new_args a quote rest (fl\<lparr>nf_module := v\<rparr>))
      else if HasPrefix arg ''--module='' then new_args a quote args (fl\<lparr>nf_module := TrimPrefix arg ''--module=''\<rparr>)
      else if arg = ''--local'' \<or> arg = ''-local'' then
        (case args of [] \<Rightarrow> Inl (needs_value a arg) | v # rest \<Rightarrow> new_args a quote rest (fl\<lparr>nf_local := v\<rparr>))
      else if HasPrefix arg ''--local='' then new_args a quote args (fl\<lparr>nf_local := TrimPrefix arg ''--local=''\<rparr>)
      else if arg = ''--force'' \<or> arg = ''-force'' then new_args a quote args (fl\<lparr>nf_force := True\<rparr>)
      else if HasPrefix arg ''-'' then Inl (ErrString a (''unknown flag '' @ quote arg))
      else if nf_target fl \<noteq> '''' then Inl (ErrString a ''expected exactly one project name'')
      else new_args a quote args (fl\<lparr>nf_target := arg\<rparr>))"
  by pat_completeness auto
termination by (relation "measure (\<lambda>(a, quote, args, fl). length args)") auto

text \<open>The checks before anything is written: the name, the module and the flags of the project.\<close>

definition new_project :: "nat \<Rightarrow> (string \<Rightarrow> string) \<Rightarrow> (string \<Rightarrow> string) \<Rightarrow> new_flags \<Rightarrow> goerror + string \<times> string" where
  "new_project a quote lower fl =
     (if nf_target fl = '''' then Inl (ErrString a ''expected exactly one project name'')
      else
        (let name = sanitizeName lower (baseName (nf_target fl)) in
         if name = '''' then Inl (ErrString a ''project name must contain at least one letter or digit'')
         else
           (let module = (if nf_module fl = '''' then name else nf_module fl) in
            case validateModulePath a quote module of
              Some e \<Rightarrow> Inl e
            | None \<Rightarrow>
                if nf_template fl \<noteq> ''minimal'' \<and> nf_template fl \<noteq> ''admin''
                then Inl (ErrString a (''unknown template '' @ quote (nf_template fl) @ '' (want minimal or admin)''))
                else Inr (name, module))))"

subsection \<open>Facts\<close>

lemma Trim_set: "set (Trim P s) \<subseteq> set s"
  unfolding Trim_def by (metis set_dropWhileD set_rev subsetI)

lemma sanitizeName_chars: "set (sanitizeName lower s) \<inter> {CHR ''/'', CHR ''.'', CHR '' '', CHR 0x09, CHR 0x0D, CHR 0x0A, CHR ''@'', CHR 0x5C, CHR '':''} = {}"
proof -
  have "set (name_char c) \<inter> {CHR ''/'', CHR ''.'', CHR '' '', CHR 0x09, CHR 0x0D, CHR 0x0A, CHR ''@'', CHR 0x5C, CHR '':''} = {}" for c
    by (auto simp: name_char_def Let_def split: if_splits)
  then show ?thesis using Trim_set unfolding sanitizeName_def by fastforce
qed

text \<open>A project name that was accepted is a module path, so the check of the module can only fail for one that was given.\<close>

lemma default_module_valid:
  assumes "sanitizeName lower s \<noteq> ''''"
  shows "validateModulePath a quote (sanitizeName lower s) = None"
proof -
  let ?n = "sanitizeName lower s"
  have c: "CHR ''/'' \<notin> set ?n" "CHR ''.'' \<notin> set ?n" "\<not> (\<exists>c\<in>set ?n. c \<in> set bad_module_chars)"
    using sanitizeName_chars [of lower s] by (auto simp: bad_module_chars_def)
  have "SplitByte ?n CHR ''/'' = [?n]" using c(1) by (simp add: SplitByte_no_sep)
  moreover have "?n \<noteq> ''.''" "?n \<noteq> ''..''" using c(2) by auto
  moreover have "\<not> HasPrefix ?n ''/''" "\<not> HasSuffix ?n ''/''" using c(1) by (auto simp: HasPrefix_iff HasSuffix_iff)
  moreover have "\<not> contains_sub ?n ''//''"
    using c(1) by (auto simp: contains_sub_def HasPrefix_iff) (metis in_set_dropD list.set_intros(1))
  ultimately show ?thesis using assms c(3) by (simp add: validateModulePath_def)
qed

text \<open>The two spellings of a flag with a value mean the same.\<close>

lemma flag_spellings:
  "new_args a quote (''--module'' # v # args) fl = new_args a quote ((''--module='' @ v) # args) fl"
  "new_args a quote (''--template'' # v # args) fl = new_args a quote ((''--template='' @ v) # args) fl"
  "new_args a quote (''--local'' # v # args) fl = new_args a quote ((''--local='' @ v) # args) fl"
  by (simp_all add: HasPrefix_def TrimPrefix_def)

end
