(* ===== verification/Spec2Isabelle.thy ===== *)
theory Spec2Isabelle
  imports Demo RateLimit Permission Lifecycle Session Grpc Site Handlers GenFiles Scaffold
begin

text \<open>
  This development models \<open>aeus\<close>, a framework for Go services with an administration back end, and proves
  the properties its parts rely on. The program is one process: a service (\<open>app.go\<close>) starts servers (HTTP, gRPC and a
  command line), each of which runs a chain of middlewares in front of its handlers; the administration back end
  (\<open>admin\<close>) mounts resources and endpoints on the HTTP server, authenticates its users with signed tokens, checks each
  request against a catalogue of permissions, and confines each caller to the rows of its tenant. A command line tool (\<open>cmd/aeus\<close>) generates
  the wiring and the interface of a project from its proto files.

  \<^bold>\<open>How Go is written.\<close> A struct is a record, a tagged value a datatype, a method a function on the record that
  returns it updated, a map an association list without duplicate keys (\<open>gomap\<close> of \<open>Prelude\<close>), a string a list of
  bytes. Objects that are shared (request metadata) live in a heap. Errors are values of
  \<open>goerror\<close> with their chain of causes, a fallible function answers a sum or an option, a panic is a value of its own where the code
  can panic. Integers that wrap are words; times and ids are unbounded. The clock, random ids and visiting
  orders of maps are arguments. A handler or middleware is a function of context and state.

  \<^bold>\<open>Foundations.\<close>
  \<^item> \<open>Prelude\<close>: the fragments of the standard library (\<open>strings\<close>, maps), lemma collections.
  \<^item> \<open>Errs\<close>: \<open>pkg/errs\<close>, codes, sentinels, wrapping and the status tables.
  \<^item> \<open>Metadata\<close>: \<open>metadata\<close>, request metadata with tee readers and writers, contexts, merging; a value that was set is read back.
  \<^item> \<open>Middleware\<close>: \<open>middleware\<close>, \<open>Chain\<close> composes with the first middleware outermost.
  \<^item> \<open>Gorm\<close>: the interface to the database. \<open>table_ops\<close> has the statements the sources use, the locale \<open>gorm_table\<close> their laws
    (what a query finds, what a successful write changes); it is interpreted on tables in memory. Nothing is assumed of a statement that fails.
    A table is what its handle sees: where soft-deleted rows matter there are two views (\<open>Setup\<close>, \<open>Assembly\<close>). Rows are stored as given: the ids and
    timestamps that the database fills in are left out.
  \<^item> \<open>Cache\<close>: \<open>infra/cache\<close>, \<open>infra/cache/memory\<close>, \<open>admin/dbcache\<close>; a value of the read-through cache is current, or at most a second old, or not older than
    its lifetime with an unchanged version marker. Calls run one after another: the single flight of concurrent loads is left out.

  \<^bold>\<open>Requests.\<close>
  \<^item> \<open>Http\<close>: \<open>transport/http/server.go\<close>, \<open>context.go\<close> and \<open>pkg/response\<close>. The engine is the outer recovery, the request
    interceptor with the middlewares, and the inner recovery; what the router runs after them is an argument. What the middlewares read of the request is
    set by the server, except that gin takes the client address from forwarding headers, a panic becomes an answer, and a request that fails authentication never reaches its handler.
  \<^item> \<open>Cors\<close>, \<open>Webroot\<close>: \<open>cors.go\<close>, \<open>fs.go\<close> and the static files of \<open>server.go\<close>; file names stay below the prefix.
    \<open>Open\<close> calls itself on the index file and may not end, so it is a \<open>partial_function\<close>; it is proved to return for the index file that \<open>Webroot\<close> sets.
  \<^item> \<open>Listen\<close>: options, listener, start and stop of the HTTP server, \<open>pkg/netutil\<close>; profiling only on a loopback address.
  \<^item> \<open>Grpc\<close>: \<open>transport/grpc\<close>, the unary and stream interceptors, error mapping, start and stop.
  \<^item> \<open>JWT\<close>: \<open>middleware/auth/jwt.go\<close>, the allowlist and the token middleware. Package jwt is a parameter.
  \<^item> \<open>RateLimit\<close>: \<open>middleware/auth/rate_limit.go\<close> and \<open>rate_limit_memory.go\<close>, token buckets in float64 arithmetic (rounding to
    nearest even on rationals), with the bound on admitted requests, rounding errors and the sweeps of the janitor included.
  \<^item> \<open>Permission\<close>: \<open>admin/permission.go\<close>, the checker over its caches; a revoked grant is honoured for at most a second, or a minute when the marker misses the change.

  \<^bold>\<open>Accounts.\<close>
  \<^item> \<open>TokenStore\<close>: \<open>admin/service/memory_token_store.go\<close>. The locale \<open>token_store\<close> is the contract of the denylist, an abstract set of
    denied ids its specification, and the store refines it. The instant at which a store is used is part of its state; sequences of operations at later instants are \<open>exec_ops\<close>.
  \<^item> \<open>Models\<close>, \<open>Menus\<close>, \<open>Grants\<close>: \<open>admin/models\<close>, rows and hooks, passwords, the menu tree and breadcrumbs, roles and grants. The tree recursion gets fuel, the number of rows;
    for distinct components the recursion is proved to end within it. The breadcrumb loop visits no row twice, so its fuel is the number of rows as well.
  \<^item> \<open>Auth\<close>: \<open>admin/service/auth.go\<close>, login, refresh, logout, the audit of logins and the revocation validator. Signing, parsing and bcrypt are parameters.
  \<^item> \<open>Services\<close>: \<open>admin/service\<close>, the handlers for roles, users, menus, permissions and tenants.
  \<^item> \<open>Handlers\<close>: the generated checks of requests and HTTP wrappers (\<open>admin/pb/*.pb.validate.go\<close>, \<open>*_http.pb.go\<close>) and the handlers of
    \<open>menu.go\<close> and \<open>permission.go\<close> that only read. All wrappers have one body, \<open>wrapHttp\<close>; the replacement of a role's grants is followed from the bound
    request to the answer.
  \<^item> \<open>Demo\<close>: a small concrete installation on which the properties are evaluated.

  \<^bold>\<open>Administration.\<close>
  \<^item> \<open>TenantScope\<close>: \<open>admin/tenant_scope.go\<close>, what the callbacks add to each statement; statements of one tenant neither read nor change rows of another, though an update may give
    a row away.
  \<^item> \<open>Guards\<close>: \<open>admin/security_guards.go\<close>; exactly what the guards let a caller without a super role do, failed lookups included; login names stay unambiguous.
  \<^item> \<open>Setup\<close>, \<open>Seed\<close>: \<open>admin/derive.go\<close>, \<open>seed.go\<close>, \<open>setup_converge.go\<close>, the derived catalogue and the bootstrap as one transaction.
  \<^item> \<open>Endpoints\<close>, \<open>Audits\<close>, \<open>Dashboard\<close>: the metadata and option endpoints, the audit hooks, the dashboard.
    The locale \<open>calendar\<close> says what the dashboard needs of days and time zones; it is interpreted for UTC.
  \<^item> \<open>Assembly\<close>: \<open>admin/server.go\<close>, \<open>Setup\<close> and the registration of models, generated views, policies. A trace of events records the order of
    installation. Package rest, which builds a resource and mounts its routes, is a parameter; the locale \<open>catalog_db\<close> says what the catalogue needs of it and of the tables.
  \<^item> \<open>Site\<close>: the routes of the generated services and the service of \<open>admin/cmd/mock\<close>, which puts all parts together. Each route is public, open to
    every account, or catalogued and granted to the super roles, unless an earlier row suppresses its entry; a request is authorised by token, catalogue and grants before its handler runs.

  \<^bold>\<open>Service and command line.\<close>
  \<^item> \<open>Inject\<close>, \<open>Lifecycle\<close>: \<open>app.go\<close>, the preparation of the service, and its goroutines as a step relation \<open>run_step\<close> in which any goroutine may move next;
    safety by induction over runs, and the liveness property that every run that keeps going returns.
  \<^item> \<open>Frame\<close>, \<open>Router\<close>, \<open>Serialize\<close>, \<open>Session\<close>: \<open>transport/cli\<close>, the wire format on words, chunked
    writes, the command tree, printing, and both ends of a connection.

  \<^bold>\<open>Code generator.\<close>
  \<^item> \<open>Codegen\<close>: \<open>cmd/aeus\<close>, the command \<open>gen\<close> (\<open>gen.go\<close>, \<open>api.go\<close>, \<open>vue.go\<close>): manifests, the wiring file, the TypeScript interface and the pages, with their texts.
    The locale \<open>import_invariant\<close> carries what every import keeps through the rendering of a file. The search for an unused alias ends because numbered names differ.
  \<^item> \<open>GenFiles\<close>: what the generator does to files, over the locale \<open>file_system\<close>, interpreted on files in memory: hand-written files are kept, one run is enough.
  \<^item> \<open>Scaffold\<close>: arguments and names of the command \<open>new\<close>.

  \<^bold>\<open>This theory\<close> holds the properties of sessions, which span the token middleware, the authentication service and the token store; those of
  composed requests are in \<open>Site\<close> and \<open>Handlers\<close>, after the parts they span.

  \<^bold>\<open>Not modelled.\<close> The project templates of \<open>cmd/aeus\<close> and the tool that copies the web sources into them; generated protobuf messages and
  gRPC stubs (\<open>admin/pb\<close>, \<open>pkg/proto\<close>), the checks of messages that have no rules, and the web front end; adapters to third-party clients (\<open>registry/etcd\<close>, \<open>infra/broker\<close>, \<open>infra/logger\<close>,
  \<open>infra/telemetry\<close>, the redis cache), which forward to them; the HTTP client and the buffer pools of \<open>pkg\<close>; the gzip writer, gin's routing and request binding; the interactive shell
  of the command line; tracing. Log output is left out throughout. Data races are not modelled except between the
  goroutines of \<open>Lifecycle\<close>; elsewhere an operation that holds its lock is one step.
\<close>

section \<open>Sessions\<close>

text \<open>
  C1: On a path that is not on the allowlist the JWT middleware either answers with an error
  that does not depend on the next handler, or the request carried an Authorization
  entry, the validator accepted its token, the token parsed and is valid, the permission
  checker accepted its claims, and the next handler runs with exactly these claims.
\<close>

theorem jwt_fail_closed:
  assumes "\<not> on_allowlist opts (request_md s c)"
  shows "(\<exists>er s'. \<forall>nxt. JWT lib opts nxt c s = (Some er, s')) \<or>
    (\<exists>ti s1 s2. md_Has (request_md s c) authorizationKey \<and>
       (case validate opts of None \<Rightarrow> s1 = s | Some v \<Rightarrow> v c (bearer_token (request_md s c)) s = (None, s1)) \<and>
       parse_token lib opts (bearer_token (request_md s c)) = Inr ti \<and> Valid ti \<and>
       (case permissionChecker opts of None \<Rightarrow> s2 = s1 | Some pc \<Rightarrow> pc c (tClaims ti) s1 = (None, s2)) \<and>
       (\<forall>nxt. JWT lib opts nxt c s = nxt (auth_NewContext c (tClaims ti)) s2))"
proof (cases "md_Has (request_md s c) authorizationKey")
  case False
  then show ?thesis using JWT_protected [OF assms] by auto
next
  case True
  let ?tok = "bearer_token (request_md s c)"
  obtain ve s1 where v: "(case validate opts of None \<Rightarrow> (None, s) | Some v \<Rightarrow> v c ?tok s) = (ve, s1)" by fastforce
  show ?thesis
  proof (cases "\<exists>ti. ve = None \<and> parse_token lib opts ?tok = Inr ti \<and> Valid ti")
    case False
    have "\<exists>er. \<forall>nxt. JWT lib opts nxt c s = (Some er, s1)"
    proof (cases ve)
      case None
      then show ?thesis unfolding JWT_protected [OF assms] using True v False
        by (cases "parse_token lib opts ?tok") auto
    next
      case (Some er)
      then show ?thesis unfolding JWT_protected [OF assms] using True v by simp
    qed
    then show ?thesis by blast
  next
    case True
    then obtain ti where ti: "ve = None" "parse_token lib opts ?tok = Inr ti" "Valid ti" by blast
    obtain pe s2 where p: "(case permissionChecker opts of None \<Rightarrow> (None, s1) | Some pc \<Rightarrow> pc c (tClaims ti) s1) = (pe, s2)"
      by fastforce
    have j: "JWT lib opts nxt c s = (case pe of Some e \<Rightarrow> (Some e, s2)
        | None \<Rightarrow> nxt (auth_NewContext c (tClaims ti)) s2)" for nxt
      unfolding JWT_protected [OF assms] using \<open>md_Has _ _\<close> v ti p by simp
    show ?thesis
    proof (cases pe)
      case None
      then show ?thesis using \<open>md_Has _ _\<close> v ti p j
        by (intro disjI2 exI [of _ ti] exI [of _ s1] exI [of _ s2]) (auto split: option.splits)
    qed (use j in auto)
  qed
qed

theorem jwt_fail_closed_witness:
  "\<exists>(ti :: Token) s2. Valid ti \<and> (\<forall>nxt. JWT demo_lib (demo_jwt list_order list_order) nxt demo_ctx
     (demo_request ''/x'' ''A'' (10, NewMemoryTokenStore)) = nxt (auth_NewContext demo_ctx (tClaims ti)) s2)"
proof -
  let ?s = "demo_request ''/x'' ''A'' (10, NewMemoryTokenStore)" and ?o = "demo_jwt list_order list_order"
  have "\<not> (\<exists>er s'. \<forall>nxt. JWT demo_lib ?o nxt demo_ctx ?s = (Some er, s'))"
  proof
    assume "\<exists>er s'. \<forall>nxt. JWT demo_lib ?o nxt demo_ctx ?s = (Some er, s')"
    then have "\<exists>er s'. JWT demo_lib ?o (\<lambda>c s. (None, s)) demo_ctx ?s = (Some er, s')" by blast
    then show False
      by (simp add: JWT_protected demo_protected demo_request_facts)
        (simp add: demo_jwt_def revocation_hook_def Validate_def parse_token_def demo_lib_def demo_defs
          Revoked_def tokenTypeRefresh_def demo_request_def)
  qed
  with jwt_fail_closed [OF demo_protected(2), of demo_lib list_order list_order
      "(10, NewMemoryTokenStore)"] show ?thesis
    by blast
qed

text \<open>
  C2: A logout holds until the token expires. After \<open>Logout\<close> succeeded on the in-memory
  store, any number of other operations on that store may run (within its capacity,
  before the expiry, none denying the same id until another instant); then, at every
  instant before the expiry of a presented token that was valid and carries an id, a
  request to a protected path with that token is rejected with \<open>ErrAccessDenied\<close> by the
  middleware that has the revocation validator, whatever the next handler is, and
  \<open>RefreshToken\<close> refuses it. The hypotheses: the store has room for the two ids and the
  operations, the token had not expired at the clock readings of the logout, and if the
  other presented token has the same id, it has the same expiry.
\<close>

theorem logged_out_requests_rejected:
  assumes "Logout (mem_env ords orde e) a req st = (Inr uid, st')"
    and "store st = (n, ms)" and "store_ok ms" and "length (revoked ms) + 2 + length ops \<le> capacity ms"
    and "raw \<in> {lo_AccessToken req, lo_RefreshToken req}" and "raw \<noteq> ''''"
    and "parse e raw = Inr (cl, True)" and "parse_unvalidated e raw = Inr (cl, True)"
    and "ID (Registered cl) \<noteq> ''''" and "ExpiresAt (Registered cl) = Some t"
    and "n < t" and "\<forall>i\<in>{reads st..<reads st + 4}. clock st i < t"
    and "\<forall>r\<in>{lo_AccessToken req, lo_RefreshToken req}. \<forall>cl'. parse e r = Inr (cl', True) \<longrightarrow>
      ID (Registered cl') = ID (Registered cl) \<longrightarrow> ExpiresAt (Registered cl') = Some t"
    and "\<forall>(\<tau>, op)\<in>set ops. \<tau> < t \<and> keeps_window (ID (Registered cl)) t op"
    and "later = (n2, exec_ops (Rep_go_order ords) (Rep_go_order orde) ops (snd (store st')))" and "n2 < t"
    and "denylist s = later" and "bearer_token (request_md s c) = raw"
    and "md_Has (request_md s c) authorizationKey" and "\<not> on_allowlist opts (request_md s c)"
    and "validate opts = Some (revocation_hook (mem_env ords orde e))"
  shows "(\<exists>s'. \<forall>nxt. JWT lib opts nxt c s = (Some ErrAccessDenied, s')) \<and>
    (\<forall>s2 a' d. store s2 = later \<longrightarrow> (\<exists>er. fst (RefreshToken (mem_env ords orde e) a' d raw s2) = Inl er))"
proof -
  let ?j = "ID (Registered cl)" and ?ex = "exec_ops (Rep_go_order ords) (Rep_go_order orde)"
  obtain o1 o2 where o: "revokes e (lo_AccessToken req) n t o1" "revokes e (lo_RefreshToken req) n t o2"
    and st': "store st' = (n, ?ex (o1 @ o2) ms)"
    using Logout_revokes [OF assms(2,1,12)] by blast
  have ok: "store_ok (?ex (o1 @ o2) ms)" "capacity (?ex (o1 @ o2) ms) = capacity ms"
    using exec_ops_ok [OF _ _ assms(3)] by simp_all
  have "length (o1 @ o2) \<le> 2" using o by (auto simp: revokes_def)
  then have len: "length (revoked (?ex (o1 @ o2) ms)) + length ops \<le> capacity (?ex (o1 @ o2) ms)"
    using exec_ops_length [OF _ _ assms(3), of "Rep_go_order ords" "Rep_go_order orde" "o1 @ o2"] ok(2) assms(4)
    by simp
  have "map_of (revoked (?ex (o1 @ o2) ms)) ?j = Some t"
    using assms(4) by (intro revoked_window [OF assms(3) _ assms(11) o assms(5,6,7,9,13)]) simp
  then have "map_of (revoked (?ex ops (snd (store st')))) ?j = Some t"
    using exec_ops_window [OF _ _ ok(1) len _ assms(14)] st' by simp
  then have den: "denied (snd later) (fst later) ?j" using assms(15,16) by (simp add: denied_def)
  have inv: "store_ok (snd later)" using exec_ops_ok [OF _ _ ok(1)] assms(15) st' by simp
  have "fst (Validate (mem_env ords orde e) raw later) = Some ErrAccessDenied"
    by (rule mem_auth.Validate_denied [of later raw ords orde e cl])
      (use inv den assms(6,8,9) in \<open>auto simp: case_prod_beta\<close>)
  then obtain s' where "revocation_hook (mem_env ords orde e) c raw s = (Some ErrAccessDenied, s')"
    using revocation_hook_rejects assms(17) by metis
  then have "\<forall>nxt. JWT lib opts nxt c s = (Some ErrAccessDenied, s')"
    using JWT_validator_rejects [OF assms(20,19,21)] assms(18) by metis
  moreover have "\<exists>er. fst (RefreshToken (mem_env ords orde e) a' d raw s2) = Inl er" if "store s2 = later" for s2 a' d
    using mem_auth.refresh_denied [of s2 ords orde e raw cl True t a' d] inv den assms(7,9,10,15,16) that
    by (auto simp: case_prod_beta)
  ultimately show ?thesis by blast
qed

theorem logged_out_requests_rejected_witness:
  "\<exists>uid st' s'. Logout (mem_env list_order list_order demo_auth) 900
       \<lparr>lo_AccessToken = ''A'', lo_RefreshToken = ''R''\<rparr> demo_state = (Inr uid, st') \<and>
     (\<forall>nxt. JWT demo_lib (demo_jwt list_order list_order) nxt demo_ctx
        (demo_request ''/x'' ''A'' (99, exec_ops (\<lambda>m. m) (\<lambda>m. m) [(50, OpRevoke ''x'' 60)] (snd (store st')))) =
          (Some ErrAccessDenied, s'))"
proof -
  let ?req = "\<lparr>lo_AccessToken = ''A'', lo_RefreshToken = ''R''\<rparr>" and ?E = "mem_env list_order list_order demo_auth"
  obtain uid st' where l: "Logout ?E 900 ?req demo_state = (Inr uid, st')"
    by (simp add: Logout_def revokeToken_def demo_defs time_Now_def Let_def Revoke_def sweepLocked_def
        revocationCapacity_def)
  have "\<exists>s'. \<forall>nxt. JWT demo_lib (demo_jwt list_order list_order) nxt demo_ctx
        (demo_request ''/x'' ''A'' (99, exec_ops (\<lambda>m. m) (\<lambda>m. m) [(50, OpRevoke ''x'' 60)] (snd (store st')))) =
          (Some ErrAccessDenied, s')"
    by (rule logged_out_requests_rejected [OF l, where n = 10 and ms = NewMemoryTokenStore and raw = "''A''"
          and cl = "demo_claims ''a1'' ''access''" and t = 100 and ops = "[(50, OpRevoke ''x'' 60)]" and ?n2.0 = 99,
          THEN conjunct1])
      (simp_all add: demo_request_facts demo_protected store_ok_New,
       simp_all add: demo_defs demo_jwt_def demo_request_def revocationCapacity_def split: if_splits)
  with l show ?thesis by blast
qed

text \<open>
  C3: A refresh token is redeemed at most once. After a successful \<open>RefreshToken\<close> on the
  in-memory store, any number of other operations on that store may run (within its
  capacity, before the token expires, and no other revocation of the same id with
  another deadline); a second redemption before the expiry fails, whatever the database
  contains by then.
\<close>

theorem refresh_single_use:
  assumes "store_ok st" and "store s = (n, st)" and "parse e raw = Inr (cl, v)"
    and "ID (Registered cl) \<noteq> ''''" and "ExpiresAt (Registered cl) = Some t" and "n < t"
    and "RefreshToken (mem_env ords orde e) a d raw s = (Inr res, s')"
    and "store s' = (n', st')" and "length (revoked st') + length ops \<le> capacity st'"
    and "\<forall>(\<tau>, op)\<in>set ops. \<tau> < t \<and> keeps_window (ID (Registered cl)) t op"
    and "store s2 = (n2, exec_ops (Rep_go_order ords) (Rep_go_order orde) ops st')" and "n2 < t"
  shows "\<exists>er. fst (RefreshToken (mem_env ords orde e) a' d' raw s2) = Inl er"
proof -
  let ?st = "exec_ops (Rep_go_order ords) (Rep_go_order orde) ops st'"
  have st': "store_ok st'" "map_of (revoked st') (ID (Registered cl)) = Some t"
    using refresh_window [OF assms(1-7)] assms(8) by auto
  have "map_of (revoked ?st) (ID (Registered cl)) = Some t"
    by (rule exec_ops_window) (use st' assms(9,10) in auto)
  then have "denied ?st n2 (ID (Registered cl))" using assms(12) by (simp add: denied_def)
  moreover have "store_ok ?st" using exec_ops_ok [OF _ _ st'(1)] by simp
  ultimately show ?thesis
    using mem_auth.refresh_denied [of s2 ords orde e raw cl v t a' d'] assms(3-5,11,12) by auto
qed

theorem refresh_single_use_witness:
  "(\<exists>res s'. RefreshToken (mem_env list_order list_order demo_auth) 900 demo_database ''R'' demo_state = (Inr res, s') \<and>
     (\<exists>er. fst (RefreshToken (mem_env list_order list_order demo_auth) 901 demo_database ''R''
        (s'\<lparr>store := (50, exec_ops (\<lambda>m. m) (\<lambda>m. m) [(20, OpRevoke ''x'' 30), (40, OpClaim ''r1'' 70)] (snd (store s')))\<rparr>)) = Inl er))"
proof -
  let ?E = "mem_env list_order list_order demo_auth" and ?st = "NewMemoryTokenStore\<lparr>revoked := [(''r1'', 100)]\<rparr>"
  obtain res s' where r: "RefreshToken ?E 900 demo_database ''R'' demo_state = (Inr res, s')"
    and s': "store s' = (10, ?st)"
    by (simp add: RefreshToken_def demo_defs claim_old_def createToken_def time_Now_def NewString_def
        RevokeIfNotRevoked_def sweepLocked_def tokenTypeRefresh_def revocationCapacity_def ttl_def
        AList.update.simps)
  have "\<exists>er. fst (RefreshToken ?E 901 demo_database ''R''
      (s'\<lparr>store := (50, exec_ops (\<lambda>m. m) (\<lambda>m. m) [(20, OpRevoke ''x'' 30), (40, OpClaim ''r1'' 70)] ?st)\<rparr>)) = Inl er"
    by (rule refresh_single_use [of NewMemoryTokenStore demo_state 10 demo_auth "''R''"
          "demo_claims ''r1'' ''refresh''" True 100 list_order list_order 900 demo_database res s' 10 ?st
          "[(20, OpRevoke ''x'' 30), (40, OpClaim ''r1'' 70)]" _ 50])
      (simp_all add: r s' store_ok_New, simp_all add: demo_defs revocationCapacity_def)
  then show ?thesis using r s' by auto
qed

text \<open>
  A refresh token never authenticates a protected path: the validator rejects it before
  the next handler runs and without a change of state.
\<close>

theorem refresh_token_never_authenticates:
  assumes "token_ops e = Some ops" and "raw = bearer_token (request_md s c)" and "raw \<noteq> ''''"
    and "parse_unvalidated e raw = Inr (cl, True)" and "TokenType cl = tokenTypeRefresh"
    and "md_Has (request_md s c) authorizationKey" and "\<not> on_allowlist opts (request_md s c)"
    and "validate opts = Some (revocation_hook e)"
  shows "\<forall>nxt. JWT lib opts nxt c s = (Some ErrAccessDenied, s)"
proof -
  have "revocation_hook e c raw s = (Some ErrAccessDenied, s)"
    using assms(1,3-5) by (simp add: revocation_hook_def Validate_def)
  then show ?thesis using JWT_validator_rejects [OF assms(7,6,8)] assms(2) by metis
qed

theorem refresh_token_never_authenticates_witness:
  "\<forall>nxt. JWT demo_lib (demo_jwt list_order list_order) nxt demo_ctx
     (demo_request ''/x'' ''R'' (10, NewMemoryTokenStore)) =
     (Some ErrAccessDenied, demo_request ''/x'' ''R'' (10, NewMemoryTokenStore))"
  by (rule refresh_token_never_authenticates [where e = "mem_env list_order list_order demo_auth"
        and raw = "''R''" and cl = "demo_claims ''r1'' ''refresh''"])
    (simp_all add: demo_request_facts demo_protected, simp_all add: demo_defs demo_jwt_def tokenTypeRefresh_def)

text \<open>
  C4: A login that succeeds found exactly one user row with the given uid or username,
  the password matched its hash, and neither the user, nor its role in its own tenant,
  nor its tenant is disabled; both tokens were signed over claims with this user's uid,
  role and tenant, and the token store is unchanged.
\<close>

theorem login_sound:
  assumes "gorm_table (users e) us" and "gorm_table (roles e) rs"
    and "Login e a ip ua d req s = (Inr res, s')"
  shows "\<exists>u role ca cr. {v \<in> set (us d). u_UID v = lr_Username req \<or> u_Username v = lr_Username req} = {u} \<and>
    ValidatePassword (bcrypt_ok e) u (lr_Password req) \<and> u_Status u \<noteq> ''disabled'' \<and>
    role \<in> set (rs d) \<and> r_Key role = u_RoleKey u \<and> r_TenantID role = u_TenantID u \<and>
    r_Status role \<noteq> ''disabled'' \<and> snd (resolveTenant e d (u_TenantID u)) \<noteq> ''disabled'' \<and>
    sign e ca = Inr (AccessToken res) \<and> claims_of ca u tokenTypeAccess \<and>
    sign e cr = Inr (RefreshToken_res res) \<and> claims_of cr u tokenTypeRefresh \<and>
    Uid res = u_UID u \<and> store s' = store s"
proof -
  obtain u role where g: "login_gates e d req u role"
    and i: "issue_tokens e ip ua req u (fst (resolveTenant e d (u_TenantID u))) s = (Inr res, s')"
    using Login_success_gates [OF assms(3)] by blast
  have "{v \<in> set (us d). u_UID v = lr_Username req \<or> u_Username v = lr_Username req} = {u}"
    using g gorm_table.find_set [OF assms(1)] by (fastforce simp: login_gates_def)
  moreover have "role \<in> set (rs d)" "r_Key role = u_RoleKey u" "r_TenantID role = u_TenantID u"
    using g gorm_table.first_law [OF assms(2)] by (fastforce simp: login_gates_def)+
  moreover have "store s' = store s" using issue_tokens_store [of e ip ua req u _ s] i by (metis snd_conv)
  ultimately show ?thesis using g issue_tokens_success [OF i] unfolding login_gates_def by blast
qed

theorem login_sound_witness:
  "\<exists>ca. sign demo_auth ca = Inr ''accessid'' \<and> claims_of ca demo_user tokenTypeAccess"
proof -
  let ?req = "\<lparr>lr_Username = ''ann'', lr_Password = ''pw''\<rparr>"
  obtain res s' where r: "Login (demo_auth :: (demo_db, mem_store) auth_env) 900 ''ip'' ''ua'' demo_database ?req
      demo_state = (Inr res, s')" and t: "AccessToken res = ''accessid''"
    by (simp add: Login_def demo_defs ValidatePassword_def resolveTenant_def issue_tokens_def createToken_def
        time_Now_def NewString_def tokenTypeAccess_def Let_def)
  have "gorm_table (users demo_auth) db_users" "gorm_table (roles demo_auth) db_roles"
    by (simp_all add: demo_auth_def mem_table_gorm)
  from login_sound [OF this r] obtain u ca where
    "{v \<in> {demo_user}. u_UID v = ''ann'' \<or> u_Username v = ''ann''} = {u}"
    "sign (demo_auth :: (demo_db, mem_store) auth_env) ca = Inr (AccessToken res)" "claims_of ca u tokenTypeAccess"
    by (auto simp: demo_database_def)
  moreover from this(1) have "u = demo_user" by auto
  ultimately show ?thesis using t by (auto simp: demo_auth_def)
qed

text \<open>
  A refresh that succeeds was given a refresh token, re-read an enabled user of the
  token's uid and tenant and its enabled role, and signed both new tokens over the role
  and tenant of the database row.
\<close>

theorem refresh_sound:
  assumes "gorm_table (users e) us" and "gorm_table (roles e) rs"
    and "RefreshToken e a d raw s = (Inr res, s')"
  shows "\<exists>cl v u role ca cr. parse e raw = Inr (cl, v) \<and> TokenType cl = tokenTypeRefresh \<and>
    u \<in> set (us d) \<and> u_UID u = UID cl \<and> u_TenantID u = TenantID cl \<and> u_Status u \<noteq> ''disabled'' \<and>
    role \<in> set (rs d) \<and> r_Key role = u_RoleKey u \<and> r_TenantID role = u_TenantID u \<and>
    r_Status role \<noteq> ''disabled'' \<and>
    sign e ca = Inr (rr_AccessToken res) \<and> claims_of ca u tokenTypeAccess \<and>
    sign e cr = Inr (rr_RefreshToken res) \<and> claims_of cr u tokenTypeRefresh"
proof -
  obtain cl u role where g: "refresh_gates e d raw cl u role" and r: "rotate e a cl u s = (Inr res, s')"
    using RefreshToken_success [OF assms(3)] by blast
  have "u \<in> set (us d) \<and> u_UID u = UID cl \<and> u_TenantID u = TenantID cl"
    using g gorm_table.first_law [OF assms(1)] by (fastforce simp: refresh_gates_def)
  moreover have "role \<in> set (rs d) \<and> r_Key role = u_RoleKey u \<and> r_TenantID role = u_TenantID u"
    using g gorm_table.first_law [OF assms(2)] by (fastforce simp: refresh_gates_def)
  ultimately show ?thesis using g rotate_success(2) [OF r] unfolding refresh_gates_def by blast
qed

theorem refresh_sound_witness:
  "\<exists>ca. sign demo_auth ca = Inr ''accessidx'' \<and> Role ca = ''admin'' \<and> TokenType ca = tokenTypeAccess"
proof -
  obtain res s' where r: "RefreshToken (demo_auth :: (demo_db, mem_store) auth_env) 900 demo_database ''R'' demo_state = (Inr res, s')"
    and t: "rr_AccessToken res = ''accessidx''"
    by (simp add: RefreshToken_def demo_defs claim_old_def createToken_def time_Now_def NewString_def
        tokenTypeRefresh_def tokenTypeAccess_def)
  then show ?thesis using refresh_sound [OF demo_tables r]
    by (auto simp: demo_database_def demo_user_def claims_of_def demo_auth_def)
qed

text \<open>
  With a login recorder installed, every login attempt adds exactly one entry to the
  audit log, with the submitted username, and the entry is marked successful exactly
  when the login was (signing does not fail, and the role lookup fails only by finding
  no row).
\<close>

theorem login_audited:
  assumes "has_LoginLogFunc e" and "\<forall>cl. is_ok (sign e cl)"
    and "\<forall>P er. First (roles e) P d = Inl er \<longrightarrow> Is er (ErrRecordNotFound (roles e))"
  shows "\<exists>i. login_log (snd (Login e a ip ua d req s)) = login_log s @ [i] \<and>
    li_Username i = lr_Username req \<and> (Success i \<longleftrightarrow> is_ok (fst (Login e a ip ua d req s)))"
proof -
  consider (rej) "rejection e ip ua req s (Login e a ip ua d req s)"
    | (pass) u role where "login_gates e d req u role"
    using Login_cases [of e d ip ua req s a] assms(3) by blast
  then show ?thesis
  proof cases
    case rej
    then show ?thesis using assms(1) by (auto simp: rejection_def recordLogin_cases)
  next
    case pass
    then show ?thesis
      using issue_tokens_logged [OF assms(1), of ip ua req u "fst (resolveTenant e d (u_TenantID u))" s] assms(2)
      by (auto simp: Login_pass)
  qed
qed

theorem login_audited_witness:
  "\<exists>i. login_log (snd (Login demo_auth 900 ''ip'' ''ua'' demo_database \<lparr>lr_Username = ''ann'', lr_Password = ''no''\<rparr>
      demo_state)) = [i] \<and> \<not> Success i"
proof -
  let ?req = "\<lparr>lr_Username = ''ann'', lr_Password = ''no''\<rparr>"
  have "\<exists>i. login_log (snd (Login demo_auth 900 ''ip'' ''ua'' demo_database ?req demo_state)) =
      login_log demo_state @ [i] \<and> li_Username i = lr_Username ?req \<and>
      (Success i \<longleftrightarrow> is_ok (fst (Login demo_auth 900 ''ip'' ''ua'' demo_database ?req demo_state)))"
    by (rule login_audited) (auto simp: demo_defs notFound_def split: list.splits)
  moreover have "\<not> is_ok (fst (Login demo_auth 900 ''ip'' ''ua'' demo_database ?req demo_state))"
    "login_log demo_state = []"
    by (simp_all add: Login_def demo_defs ValidatePassword_def)
  ultimately show ?thesis by auto
qed

end
